(* ===== verification/Prelude.thy ===== *)
theory Prelude
  imports Main
begin

text \<open>
  Shared vocabulary of the development.  The processes of hook-tracker are
  asynchronous JavaScript: a handler awaits a sequence of calls, any of which may
  reject, and a rejection skips the rest of the handler.  Such code is a state
  transformer with errors, \<open>('w, 'e, 'a) io\<close>; \<open>wp\<close> is its weakest precondition
  and \<open>wp_simps\<close> the collection the component proofs compute with.  The second half
  holds the string functions of the language that several components use
  (\<open>split\<close>, \<open>join\<close>, decimal numerals).
\<close>

section \<open>Effects: a state transformer with errors\<close>

type_synonym ('w, 'e, 'a) io = "'w \<Rightarrow> ('e + 'a) \<times> 'w"

definition io_ret :: "'a \<Rightarrow> ('w, 'e, 'a) io" where
  "io_ret a = (\<lambda>w. (Inr a, w))"

definition io_raise :: "'e \<Rightarrow> ('w, 'e, 'a) io" where
  "io_raise e = (\<lambda>w. (Inl e, w))"

definition io_bind :: "('w, 'e, 'a) io \<Rightarrow> ('a \<Rightarrow> ('w, 'e, 'b) io) \<Rightarrow> ('w, 'e, 'b) io" where
  "io_bind m f = (\<lambda>w. case m w of (Inl e, w') \<Rightarrow> (Inl e, w') | (Inr a, w') \<Rightarrow> f a w')"

definition io_seq :: "('w, 'e, 'a) io \<Rightarrow> ('w, 'e, 'b) io \<Rightarrow> ('w, 'e, 'b) io" where
  "io_seq m n = io_bind m (\<lambda>_. n)"

text \<open>A \<open>try\<close>/\<open>catch\<close>: the handler runs in the state the body left behind.\<close>

definition io_catch :: "('w, 'e, 'a) io \<Rightarrow> ('e \<Rightarrow> ('w, 'e, 'a) io) \<Rightarrow> ('w, 'e, 'a) io" where
  "io_catch m h = (\<lambda>w. case m w of (Inl e, w') \<Rightarrow> h e w' | (Inr a, w') \<Rightarrow> (Inr a, w'))"

definition io_get :: "('w \<Rightarrow> 'a) \<Rightarrow> ('w, 'e, 'a) io" where
  "io_get f = (\<lambda>w. (Inr (f w), w))"

definition io_modify :: "('w \<Rightarrow> 'w) \<Rightarrow> ('w, 'e, unit) io" where
  "io_modify f = (\<lambda>w. (Inr (), f w))"

text \<open>\<open>for (const x of xs) await body(x)\<close>.\<close>

fun io_each :: "('a \<Rightarrow> ('w, 'e, unit) io) \<Rightarrow> 'a list \<Rightarrow> ('w, 'e, unit) io" where
  "io_each body [] = io_ret ()"
| "io_each body (x # xs) = io_seq (body x) (io_each body xs)"

text \<open>The results of \<open>body\<close> on every element, in order.\<close>

fun io_mapM :: "('a \<Rightarrow> ('w, 'e, 'b) io) \<Rightarrow> 'a list \<Rightarrow> ('w, 'e, 'b list) io" where
  "io_mapM body [] = io_ret []"
| "io_mapM body (x # xs) =
     io_bind (body x) (\<lambda>y. io_bind (io_mapM body xs) (\<lambda>ys. io_ret (y # ys)))"

lemmas io_defs = io_ret_def io_raise_def io_bind_def io_seq_def io_catch_def io_get_def io_modify_def

subsection \<open>Weakest preconditions\<close>

named_theorems wp_simps \<open>equations that compute weakest preconditions\<close>

definition wp ::
  "('w, 'e, 'a) io \<Rightarrow> ('a \<Rightarrow> 'w \<Rightarrow> bool) \<Rightarrow> ('e \<Rightarrow> 'w \<Rightarrow> bool) \<Rightarrow> 'w \<Rightarrow> bool" where
  "wp m Q E w = (case m w of (Inl e, w') \<Rightarrow> E e w' | (Inr a, w') \<Rightarrow> Q a w')"

lemma wp_ret [wp_simps]: "wp (io_ret a) Q E w = Q a w"
  by (simp add: wp_def io_ret_def)

lemma wp_raise [wp_simps]: "wp (io_raise e) Q E w = E e w"
  by (simp add: wp_def io_raise_def)

lemma wp_bind [wp_simps]: "wp (io_bind m f) Q E w = wp m (\<lambda>a. wp (f a) Q E) E w"
  by (auto simp: wp_def io_bind_def split: prod.splits sum.splits)

lemma wp_seq [wp_simps]: "wp (io_seq m n) Q E w = wp m (\<lambda>_. wp n Q E) E w"
  by (simp add: io_seq_def wp_bind)

lemma wp_catch [wp_simps]: "wp (io_catch m h) Q E w = wp m Q (\<lambda>e. wp (h e) Q E) w"
  by (auto simp: wp_def io_catch_def split: prod.splits sum.splits)

lemma wp_get [wp_simps]: "wp (io_get f) Q E w = Q (f w) w"
  by (simp add: wp_def io_get_def)

lemma wp_modify [wp_simps]: "wp (io_modify f) Q E w = Q () (f w)"
  by (simp add: wp_def io_modify_def)

lemma wp_each_Nil [wp_simps]: "wp (io_each body []) Q E w = Q () w"
  by (simp add: wp_ret)

lemma wp_each_Cons [wp_simps]:
  "wp (io_each body (x # xs)) Q E w = wp (body x) (\<lambda>_. wp (io_each body xs) Q E) E w"
  by (simp add: wp_seq)

lemma wp_mono_simple:
  "wp m Q E w \<Longrightarrow> (\<And>a w'. Q a w' \<Longrightarrow> Q' a w') \<Longrightarrow> wp m Q' E w"
  by (auto simp: wp_def split: prod.splits sum.splits)

lemma wp_each_inv:
  assumes "I [] w"
    and "\<And>pre x rest v. xs = pre @ x # rest \<Longrightarrow> I pre v \<Longrightarrow> wp (body x) (\<lambda>_. I (pre @ [x])) E v"
    and "\<And>v. I xs v \<Longrightarrow> Q () v"
  shows "wp (io_each body xs) Q E w"
proof -
  have "wp (io_each body rest) Q E v" if "xs = pre @ rest" "I pre v" for pre rest v
    using that
  proof (induction rest arbitrary: pre v)
    case Nil
    then show ?case using assms(3) by (simp add: wp_ret)
  next
    case (Cons x rest)
    from assms(2)[OF Cons.prems] show ?case
      unfolding io_each.simps wp_seq
    proof (rule wp_mono_simple)
      fix v'
      assume "I (pre @ [x]) v'"
      then show "wp (io_each body rest) Q E v'" using Cons.IH[of "pre @ [x]"] Cons.prems(1) by simp
    qed
  qed
  from this[of "[]"] assms(1) show ?thesis by simp
qed

lemma wp_mono:
  assumes "wp m Q E w"
    and "\<And>a w'. m w = (Inr a, w') \<Longrightarrow> Q a w' \<Longrightarrow> Q' a w'"
    and "\<And>e w'. m w = (Inl e, w') \<Longrightarrow> E e w' \<Longrightarrow> E' e w'"
  shows "wp m Q' E' w"
  using assms by (auto simp: wp_def split: prod.splits sum.splits)

lemma wp_ret_fun: "wp (io_ret a) Q E = Q a"
  by (rule ext) (rule wp_ret)

lemma wp_trivial [simp]: "wp m (\<lambda>_ _. True) (\<lambda>_ _. True) w"
  by (simp add: wp_def split: prod.split sum.split)

lemma wp_conj:
  "wp m Q E w \<Longrightarrow> wp m Q' E' w \<Longrightarrow> wp m (\<lambda>a v. Q a v \<and> Q' a v) (\<lambda>e v. E e v \<and> E' e v) w"
  by (simp add: wp_def split: prod.splits sum.splits)

lemma wp_InrD: "wp m Q E w \<Longrightarrow> m w = (Inr a, w') \<Longrightarrow> Q a w'"
  by (simp add: wp_def)

lemma wp_InlD: "wp m Q E w \<Longrightarrow> m w = (Inl e, w') \<Longrightarrow> E e w'"
  by (simp add: wp_def)

lemma wp_sndD: "wp m (\<lambda>_ w'. I w') (\<lambda>_ w'. I w') w \<Longrightarrow> I (snd (m w))"
  by (auto simp: wp_def split: prod.splits sum.splits)

subsection \<open>Preservation of an invariant, whatever the outcome\<close>

definition preserves :: "('w \<Rightarrow> bool) \<Rightarrow> ('w, 'e, 'a) io \<Rightarrow> bool" where
  "preserves I m \<longleftrightarrow> (\<forall>w. I w \<longrightarrow> I (snd (m w)))"

lemma preservesI: "(\<And>w. I w \<Longrightarrow> wp m (\<lambda>_. I) (\<lambda>_. I) w) \<Longrightarrow> preserves I m"
  by (auto simp: preserves_def dest: wp_sndD)

lemma preserves_wp: "preserves I m \<Longrightarrow> I w \<Longrightarrow> wp m (\<lambda>_. I) (\<lambda>_. I) w"
  by (cases "m w") (auto simp: preserves_def wp_def split: sum.splits dest!: spec[where x = w])

lemma preserves_bind [intro]:
  "preserves I m \<Longrightarrow> (\<And>a. preserves I (f a)) \<Longrightarrow> preserves I (io_bind m f)"
  by (fastforce simp: preserves_def io_bind_def split: prod.splits sum.splits)

lemma preserves_seq [intro]: "preserves I m \<Longrightarrow> preserves I n \<Longrightarrow> preserves I (io_seq m n)"
  by (simp add: io_seq_def preserves_bind)

lemma preserves_catch [intro]:
  "preserves I m \<Longrightarrow> (\<And>e. preserves I (h e)) \<Longrightarrow> preserves I (io_catch m h)"
  by (fastforce simp: preserves_def io_catch_def split: prod.splits sum.splits)

lemma preserves_pure [intro]:
  "preserves I (io_ret a)" "preserves I (io_raise e)" "preserves I (io_get g)"
  by (simp_all add: preserves_def io_ret_def io_raise_def io_get_def)

lemma preserves_each [intro]:
  "(\<And>x. x \<in> set xs \<Longrightarrow> preserves I (body x)) \<Longrightarrow> preserves I (io_each body xs)"
  by (induction xs) auto

subsection \<open>Frames: a preorder between the states before and after, whatever the outcome\<close>

definition keeps :: "('w \<Rightarrow> 'w \<Rightarrow> bool) \<Rightarrow> ('w, 'e, 'a) io \<Rightarrow> bool" where
  "keeps R m \<longleftrightarrow> (\<forall>w. R w (snd (m w)))"

locale frame_order =
  fixes R :: "'w \<Rightarrow> 'w \<Rightarrow> bool"
  assumes frame_refl: "R w w"
    and frame_trans: "R w w' \<Longrightarrow> R w' w'' \<Longrightarrow> R w w''"
begin

lemma keeps_pure: "keeps R (io_ret a)" "keeps R (io_raise e)" "keeps R (io_get g)"
  by (simp_all add: keeps_def io_defs frame_refl)

lemma keeps_bind: "keeps R m \<Longrightarrow> (\<And>a. keeps R (f a)) \<Longrightarrow> keeps R (io_bind m f)"
  by (auto simp: keeps_def io_bind_def split: prod.splits sum.splits)
     (metis frame_trans snd_conv)+

lemma keeps_seq: "keeps R m \<Longrightarrow> keeps R n \<Longrightarrow> keeps R (io_seq m n)"
  by (simp add: io_seq_def keeps_bind)

lemma keeps_catch: "keeps R m \<Longrightarrow> (\<And>e. keeps R (h e)) \<Longrightarrow> keeps R (io_catch m h)"
  by (auto simp: keeps_def io_catch_def split: prod.splits sum.splits)
     (metis frame_trans snd_conv)+

lemma keeps_each: "(\<And>x. x \<in> set xs \<Longrightarrow> keeps R (body x)) \<Longrightarrow> keeps R (io_each body xs)"
  by (induction xs) (auto simp: keeps_pure keeps_seq)

lemmas keeps_intros = keeps_pure keeps_bind keeps_seq keeps_catch keeps_each

lemma keeps_wp: "keeps R m \<Longrightarrow> wp m Q E w \<Longrightarrow> wp m (\<lambda>a w'. Q a w' \<and> R w w') (\<lambda>e w'. E e w' \<and> R w w') w"
  by (auto simp: keeps_def wp_def split: prod.splits sum.splits) (metis snd_conv)+

end

section \<open>Strings\<close>

text \<open>\<open>s.split(c)\<close> for a one-character separator, and \<open>xs.join(sep)\<close>.\<close>

fun split_on :: "char \<Rightarrow> string \<Rightarrow> string list" where
  "split_on c [] = [[]]"
| "split_on c (x # xs) =
     (if x = c then [] # split_on c xs
      else (case split_on c xs of [] \<Rightarrow> [[x]] | y # ys \<Rightarrow> (x # y) # ys))"

fun join :: "string \<Rightarrow> string list \<Rightarrow> string" where
  "join sep [] = []"
| "join sep [x] = x"
| "join sep (x # y # ys) = x @ sep @ join sep (y # ys)"

definition starts_with :: "string \<Rightarrow> string \<Rightarrow> bool" where
  "starts_with s p \<longleftrightarrow> take (length p) s = p"

definition ends_with :: "string \<Rightarrow> string \<Rightarrow> bool" where
  "ends_with s p \<longleftrightarrow> length p \<le> length s \<and> drop (length s - length p) s = p"

lemma starts_with_iff: "starts_with s p \<longleftrightarrow> (\<exists>t. s = p @ t)"
  by (auto simp: starts_with_def) (metis append_take_drop_id)

lemma ends_with_iff: "ends_with s p \<longleftrightarrow> (\<exists>t. s = t @ p)"
  by (auto simp: ends_with_def) (metis append_take_drop_id)

lemma split_on_nonempty [simp]: "split_on c s \<noteq> []"
  by (induction s) (auto split: list.splits)

lemma split_on_no_sep: "c \<notin> set s \<Longrightarrow> split_on c s = [s]"
  by (induction s) auto

lemma split_on_append: "c \<notin> set s \<Longrightarrow> split_on c (s @ c # t) = s # split_on c t"
  by (induction s) auto

lemma split_on_parts: "p \<in> set (split_on c s) \<Longrightarrow> c \<notin> set p"
  by (induction s arbitrary: p) (auto split: if_splits list.splits)

lemma join_Cons: "xs \<noteq> [] \<Longrightarrow> join sep (x # xs) = x @ sep @ join sep xs"
  by (cases xs) auto

lemma join_split_on: "join [c] (split_on c s) = s"
proof (induction s)
  case (Cons x xs)
  then show ?case
    by (cases "split_on c xs" rule: list.exhaust) (auto simp: join_Cons, metis append_Cons join.simps(2,3) neq_Nil_conv)
qed simp

lemma split_on_join:
  "xs \<noteq> [] \<Longrightarrow> (\<And>x. x \<in> set xs \<Longrightarrow> c \<notin> set x) \<Longrightarrow> split_on c (join [c] xs) = xs"
  by (induction "[c]" xs rule: join.induct) (auto simp: split_on_no_sep split_on_append)

lemma split_on_inj: "split_on c s = split_on c t \<longleftrightarrow> s = t"
  by (metis join_split_on)

lemma split_on_append_gen:
  "split_on c (s @ c # t) = split_on c s @ split_on c t"
  by (induction s) (auto split: list.splits simp: Cons_eq_append_conv)

text \<open>Character classes of the regular expressions.\<close>

definition is_lower :: "char \<Rightarrow> bool" where
  "is_lower c \<longleftrightarrow> 97 \<le> (of_char c :: nat) \<and> (of_char c :: nat) \<le> 122"

definition is_digit :: "char \<Rightarrow> bool" where
  "is_digit c \<longleftrightarrow> 48 \<le> (of_char c :: nat) \<and> (of_char c :: nat) \<le> 57"

definition is_alnum :: "char \<Rightarrow> bool" where
  "is_alnum c \<longleftrightarrow> is_lower c \<or> is_digit c"

section \<open>Lists\<close>

lemma filter_map_if:
  "(\<And>r. p r \<Longrightarrow> q (f r) = q r) \<Longrightarrow>
   filter q (map (\<lambda>r. if p r then f r else r) xs) = map (\<lambda>r. if p r then f r else r) (filter q xs)"
  by (induction xs) auto

lemma find_map_key:
  assumes "\<And>r. key (f r) = key r"
  shows "find (\<lambda>r. key r = k) (map f rows) = map_option f (find (\<lambda>r. key r = k) rows)"
  by (induction rows) (auto simp: assms)

lemma find_SomeD: "find p xs = Some x \<Longrightarrow> p x \<and> x \<in> set xs"
  by (induction xs) (auto split: if_splits)

lemma find_None_iff': "find p xs = None \<longleftrightarrow> (\<forall>x \<in> set xs. \<not> p x)"
  by (induction xs) auto

end
