(* ===== verification/Retry.thy ===== *)
theory Retry
  imports Prelude Complex_Main
begin

text \<open>
  \<open>src/backend/src/shared/retry.js\<close> and \<open>src/backend/src/shared/delivery-status.js\<close>:
  the retry schedule, the failure classifier, the choice of the next retry level, the
  jitter, and the status vocabularies.  JavaScript numbers that the code reads as
  milliseconds, seconds or attempt numbers are \<open>int\<close> or \<open>rat\<close>; a value that
  \<open>Number.isFinite\<close> refuses (undefined, null, NaN) is \<open>None\<close>.  \<open>applyJitter\<close> multiplies
  doubles in the code and rationals here.
\<close>

section \<open>The schedule\<close>

record retry_level =
  rl_level :: string
  rl_delayMs :: int

definition RETRY_SCHEDULE :: "retry_level list" where
  "RETRY_SCHEDULE =
    [\<lparr>rl_level = ''1m'', rl_delayMs = 60000\<rparr>,
     \<lparr>rl_level = ''5m'', rl_delayMs = 300000\<rparr>,
     \<lparr>rl_level = ''30m'', rl_delayMs = 1800000\<rparr>,
     \<lparr>rl_level = ''2h'', rl_delayMs = 7200000\<rparr>,
     \<lparr>rl_level = ''6h'', rl_delayMs = 21600000\<rparr>]"

definition MAX_SUPPORTED_ATTEMPTS :: int where
  "MAX_SUPPORTED_ATTEMPTS = int (length RETRY_SCHEDULE) + 1"

definition THROTTLE_DELAY_MS :: int where
  "THROTTLE_DELAY_MS = 10000"

datatype failure = RETRYABLE | PERMANENT

definition JITTER_RATIO :: rat where
  "JITTER_RATIO = 1 / 10"

definition RETRYABLE_STATUSES :: "int list" where
  "RETRYABLE_STATUSES = [408, 425, 429]"

definition classifyFailure :: "int option \<Rightarrow> failure" where
  "classifyFailure responseStatus =
    (case responseStatus of
       None \<Rightarrow> RETRYABLE
     | Some st \<Rightarrow>
         if st \<ge> 500 then RETRYABLE
         else if st \<in> set RETRYABLE_STATUSES then RETRYABLE
         else PERMANENT)"

definition shouldRetry :: "failure \<Rightarrow> int \<Rightarrow> int \<Rightarrow> bool" where
  "shouldRetry classification attempt maxAttempts \<longleftrightarrow>
    classification = RETRYABLE \<and> attempt < maxAttempts"

text \<open>\<open>schedule[i]\<close>: undefined outside the array, a negative index included.\<close>

definition js_index :: "'a list \<Rightarrow> int \<Rightarrow> 'a option" where
  "js_index xs i = (if 0 \<le> i \<and> i < int (length xs) then Some (xs ! nat i) else None)"

definition selectRetryLevel ::
  "int \<Rightarrow> int \<Rightarrow> retry_level list \<Rightarrow> rat option \<Rightarrow> retry_level option" where
  "selectRetryLevel attempt maxAttempts schedule retryAfterSeconds =
    (if attempt \<ge> maxAttempts then None
     else (case js_index schedule (attempt - 1) of
       None \<Rightarrow> None
     | Some scheduled \<Rightarrow>
         (case retryAfterSeconds of
            None \<Rightarrow> Some scheduled
          | Some secs \<Rightarrow>
              if secs * 1000 \<le> of_int (rl_delayMs scheduled) then Some scheduled
              else (let requestedMs = secs * 1000;
                        larger = find (\<lambda>l. of_int (rl_delayMs l) \<ge> requestedMs) schedule
                    in (case larger of
                          Some l \<Rightarrow> Some l
                        | None \<Rightarrow> js_index schedule (int (length schedule) - 1))))))"

text \<open>\<open>Math.round\<close> rounds halves up.\<close>

definition js_round :: "rat \<Rightarrow> int" where
  "js_round x = \<lfloor>x + 1 / 2\<rfloor>"

definition applyJitter :: "int \<Rightarrow> rat \<Rightarrow> int" where
  "applyJitter delayMs random = js_round (of_int delayMs * (1 - JITTER_RATIO * random))"

section \<open>Statuses\<close>

datatype delivery_status =
  PENDING | IN_FLIGHT | RETRYING | SUCCEEDED | FAILED_PERMANENTLY | SKIPPED

definition DELIVERY_STATUS_VALUES :: "delivery_status list" where
  "DELIVERY_STATUS_VALUES =
    [PENDING, IN_FLIGHT, RETRYING, SUCCEEDED, FAILED_PERMANENTLY, SKIPPED]"

definition TERMINAL_STATUSES :: "delivery_status list" where
  "TERMINAL_STATUSES = [SUCCEEDED, FAILED_PERMANENTLY, SKIPPED]"

definition REPLAYABLE_STATUSES :: "delivery_status list" where
  "REPLAYABLE_STATUSES = [SUCCEEDED, FAILED_PERMANENTLY, SKIPPED, RETRYING]"

datatype endpoint_status = ACTIVE | DISABLED

datatype failure_reason = Reason failure | EXHAUSTED

definition terminal :: "delivery_status \<Rightarrow> bool" where
  "terminal st \<longleftrightarrow> st \<in> set TERMINAL_STATUSES"

definition replayable :: "delivery_status \<Rightarrow> bool" where
  "replayable st \<longleftrightarrow> st \<in> set REPLAYABLE_STATUSES"

lemma terminal_simps [simp]:
  "terminal SUCCEEDED" "terminal FAILED_PERMANENTLY" "terminal SKIPPED"
  "\<not> terminal PENDING" "\<not> terminal IN_FLIGHT" "\<not> terminal RETRYING"
  by (simp_all add: terminal_def TERMINAL_STATUSES_def)

lemma replayable_simps [simp]:
  "replayable SUCCEEDED" "replayable FAILED_PERMANENTLY" "replayable SKIPPED"
  "replayable RETRYING" "\<not> replayable PENDING" "\<not> replayable IN_FLIGHT"
  by (simp_all add: replayable_def REPLAYABLE_STATUSES_def)

lemma DELIVERY_STATUS_VALUES_complete:
  "set DELIVERY_STATUS_VALUES = UNIV" "distinct DELIVERY_STATUS_VALUES"
proof -
  have "st \<in> set DELIVERY_STATUS_VALUES" for st
    by (cases st) (simp_all add: DELIVERY_STATUS_VALUES_def)
  then show "set DELIVERY_STATUS_VALUES = UNIV" by blast
qed (simp add: DELIVERY_STATUS_VALUES_def)

section \<open>Facts about the schedule\<close>

definition ascending :: "retry_level list \<Rightarrow> bool" where
  "ascending schedule \<longleftrightarrow> sorted_wrt (\<lambda>a b. rl_delayMs a < rl_delayMs b) schedule"

lemma ascending_RETRY_SCHEDULE: "ascending RETRY_SCHEDULE"
  by (simp add: ascending_def RETRY_SCHEDULE_def)

lemma MAX_SUPPORTED_ATTEMPTS_6: "MAX_SUPPORTED_ATTEMPTS = 6"
  by (simp add: MAX_SUPPORTED_ATTEMPTS_def RETRY_SCHEDULE_def)

lemma js_index_SomeD: "js_index xs i = Some x \<Longrightarrow> 0 \<le> i \<and> i < int (length xs) \<and> x = xs ! nat i"
  by (auto simp: js_index_def split: if_splits)

lemma js_index_in: "js_index xs i = Some x \<Longrightarrow> x \<in> set xs"
  by (auto simp: js_index_def split: if_splits)

lemma selectRetryLevel_in:
  assumes "selectRetryLevel attempt m schedule ra = Some l"
  shows "l \<in> set schedule"
  using assms
  by (auto simp: selectRetryLevel_def Let_def js_index_in
      dest: find_SomeD js_index_in split: if_splits option.splits)

lemma selectRetryLevel_attempt:
  "selectRetryLevel attempt m schedule ra = Some l \<Longrightarrow>
   1 \<le> attempt \<and> attempt < m \<and> attempt \<le> int (length schedule)"
  by (auto simp: selectRetryLevel_def dest: js_index_SomeD split: if_splits option.splits)

lemma selectRetryLevel_defined:
  assumes "1 \<le> attempt" "attempt < m" "attempt \<le> int (length schedule)"
  shows "\<exists>l. selectRetryLevel attempt m schedule ra = Some l"
  using assms
  by (auto simp: selectRetryLevel_def js_index_def Let_def split: option.splits if_splits)

lemma ascending_last:
  assumes "ascending schedule" "l \<in> set schedule"
  shows "rl_delayMs l \<le> rl_delayMs (last schedule)"
  using assms
  by (induction schedule) (auto simp: ascending_def intro: less_imp_le)

lemma ascending_nth_less:
  "ascending schedule \<Longrightarrow> i < j \<Longrightarrow> j < length schedule \<Longrightarrow>
   rl_delayMs (schedule ! i) < rl_delayMs (schedule ! j)"
  unfolding ascending_def sorted_wrt_iff_nth_less by blast

lemma ascending_nth_le:
  "ascending schedule \<Longrightarrow> i < length schedule \<Longrightarrow> j < length schedule \<Longrightarrow>
   rl_delayMs (schedule ! i) \<le> rl_delayMs (schedule ! j) \<Longrightarrow> i \<le> j"
  using ascending_nth_less[of schedule j i] by fastforce

lemma find_ascending_least:
  assumes "ascending schedule" "find p schedule = Some l" "l' \<in> set schedule" "p l'"
  shows "rl_delayMs l \<le> rl_delayMs l'"
  using assms
  by (induction schedule) (auto simp: ascending_def split: if_splits intro: less_imp_le)

text \<open>The delay the handler is owed: the scheduled one, or the one the receiver asked for.\<close>

definition wantedMs :: "int \<Rightarrow> retry_level list \<Rightarrow> rat option \<Rightarrow> rat" where
  "wantedMs attempt schedule ra =
    (let scheduled = of_int (rl_delayMs (schedule ! nat (attempt - 1)))
     in case ra of None \<Rightarrow> scheduled | Some s \<Rightarrow> max scheduled (s * 1000))"

lemma js_index_last: "xs \<noteq> [] \<Longrightarrow> js_index xs (int (length xs) - 1) = Some (last xs)"
  by (cases xs rule: rev_cases) (simp_all add: js_index_def)

text \<open>
  Whatever the receiver asks for, the level is in the schedule, never shorter than the
  scheduled one, and the smallest one that honours the request; a request beyond the whole
  schedule gets the last level.
\<close>

lemma selectRetryLevel_spec:
  assumes asc: "ascending schedule" and sel: "selectRetryLevel attempt m schedule ra = Some l"
  shows "if \<exists>l'\<in>set schedule. wantedMs attempt schedule ra \<le> of_int (rl_delayMs l')
         then wantedMs attempt schedule ra \<le> of_int (rl_delayMs l) \<and>
              (\<forall>l'\<in>set schedule. wantedMs attempt schedule ra \<le> of_int (rl_delayMs l') \<longrightarrow>
                 rl_delayMs l \<le> rl_delayMs l')
         else l = last schedule"
proof -
  let ?w = "wantedMs attempt schedule ra"
  obtain sch where sch: "js_index schedule (attempt - 1) = Some sch"
    using sel by (auto simp: selectRetryLevel_def split: if_splits option.splits)
  then have sch_in: "sch \<in> set schedule" and sch_nth: "schedule ! nat (attempt - 1) = sch"
    by (auto dest: js_index_in js_index_SomeD)
  show ?thesis
  proof (cases "ra = None \<or> the ra * 1000 \<le> of_int (rl_delayMs sch)")
    case True
    then have "l = sch" using sel sch
      by (cases ra) (auto simp: selectRetryLevel_def split: if_splits)
    moreover have "?w = of_int (rl_delayMs sch)"
      using True by (cases ra) (auto simp: wantedMs_def sch_nth)
    ultimately show ?thesis using sch_in by auto
  next
    case False
    then obtain s where ra: "ra = Some s" and big: "of_int (rl_delayMs sch) < s * 1000" by auto
    then have w: "?w = s * 1000" by (simp add: wantedMs_def sch_nth)
    have l: "l = (case find (\<lambda>l. of_int (rl_delayMs l) \<ge> s * 1000) schedule of
                   Some l \<Rightarrow> l | None \<Rightarrow> last schedule)"
      using sel sch big sch_in ra js_index_last[of schedule]
      by (force simp: selectRetryLevel_def Let_def split: if_splits option.splits)
    show ?thesis
      using find_ascending_least[OF asc] l w
      by (auto simp: find_None_iff' split: option.splits dest!: find_SomeD)
  qed
qed

lemma applyJitter_bounds:
  assumes "0 \<le> d" "0 \<le> r" "r < 1"
  shows "applyJitter d r \<le> d" "9 * d \<le> 10 * applyJitter d r + 5"
proof -
  let ?x = "of_int d * (1 - JITTER_RATIO * r)"
  have up: "?x \<le> of_int d"
    using assms mult_left_mono[of "1 - JITTER_RATIO * r" 1 "of_int d"] by (simp add: JITTER_RATIO_def)
  have "(9::rat) / 10 \<le> 1 - JITTER_RATIO * r"
    using assms by (simp add: JITTER_RATIO_def)
  then have low: "of_int d * (9 / 10) \<le> ?x"
    using assms by (intro mult_left_mono) auto
  show "applyJitter d r \<le> d"
    using up unfolding applyJitter_def js_round_def by linarith
  have "of_int d * (9 / 10) - 1 / 2 \<le> (of_int (applyJitter d r) :: rat)"
    using low unfolding applyJitter_def js_round_def by linarith
  then have "of_int (9 * d) \<le> (of_int (10 * applyJitter d r + 5) :: rat)" by simp
  then show "9 * d \<le> 10 * applyJitter d r + 5" by (simp only: of_int_le_iff)
qed

end
