(* ===== verification/Errors.thy ===== *)
theory Errors
  imports Prelude
begin

text \<open>
  \<open>src/backend/src/shared/errors.js\<close>, \<open>shared/roles.js\<close>, \<open>api/authorization.js\<close> and
  \<open>api/middleware/error-handler.js\<close>: the error classes with their HTTP status, their
  rendering as RFC 9457 problem documents, and the membership check that decides between
  404 and 403.  A thrown value is of type \<open>exn\<close>: an \<open>AppError\<close> of the program or an error
  of the runtime, a driver or a library with the fields the code inspects.
\<close>

section \<open>Error classes\<close>

record field_error =
  fe_path :: string
  fe_message :: string

record app_error =
  ae_status :: int
  ae_type :: string
  ae_title :: string
  ae_detail :: "string option"
  ae_headers :: "(string \<times> string) list option"
  ae_errors :: "field_error list option"

definition TYPE_PREFIX :: string where
  "TYPE_PREFIX = ''urn:hook-tracker:error:''"

definition AppError ::
  "int \<Rightarrow> string \<Rightarrow> string \<Rightarrow> string option \<Rightarrow> (string \<times> string) list option
    \<Rightarrow> field_error list option \<Rightarrow> app_error" where
  "AppError status type title detail headers errors =
    \<lparr>ae_status = status, ae_type = TYPE_PREFIX @ type, ae_title = title, ae_detail = detail,
     ae_headers = headers, ae_errors = errors\<rparr>"

definition ValidationError :: "string \<Rightarrow> field_error list option \<Rightarrow> app_error" where
  "ValidationError detail errors =
    AppError 400 ''validation-failed'' ''Validation failed'' (Some detail) None errors"

definition UnauthorizedError :: "string \<Rightarrow> app_error" where
  "UnauthorizedError detail = AppError 401 ''unauthorized'' ''Unauthorized'' (Some detail) None None"

definition ForbiddenError :: "string \<Rightarrow> app_error" where
  "ForbiddenError detail = AppError 403 ''forbidden'' ''Forbidden'' (Some detail) None None"

definition NotFoundError :: "string \<Rightarrow> app_error" where
  "NotFoundError detail = AppError 404 ''not-found'' ''Not found'' (Some detail) None None"

definition ConflictError :: "string \<Rightarrow> app_error" where
  "ConflictError detail = AppError 409 ''conflict'' ''Conflict'' (Some detail) None None"

definition PayloadTooLargeError :: "string \<Rightarrow> app_error" where
  "PayloadTooLargeError detail =
    AppError 413 ''payload-too-large'' ''Payload too large'' (Some detail) None None"

definition UnprocessableError :: "string \<Rightarrow> app_error" where
  "UnprocessableError detail =
    AppError 422 ''unprocessable'' ''Unprocessable request'' (Some detail) None None"

definition RateLimitedError :: "string \<Rightarrow> (string \<times> string) list \<Rightarrow> app_error" where
  "RateLimitedError detail headers =
    AppError 429 ''rate-limited'' ''Rate limit exceeded'' (Some detail) (Some headers) None"

definition ServiceUnavailableError :: "string \<Rightarrow> field_error list option \<Rightarrow> app_error" where
  "ServiceUnavailableError detail errors =
    AppError 503 ''service-unavailable'' ''Service unavailable'' (Some detail) None errors"

lemmas app_error_defs =
  AppError_def ValidationError_def UnauthorizedError_def ForbiddenError_def NotFoundError_def
  ConflictError_def PayloadTooLargeError_def UnprocessableError_def RateLimitedError_def
  ServiceUnavailableError_def

text \<open>A thrown value: one of the classes above, or any other error, of which the code reads
  \<open>code\<close> (drivers), \<open>type\<close> (body-parser) and \<open>message\<close>.\<close>

datatype exn =
  App app_error
| JsError (js_code: "string option") (js_type: "string option") (js_message: string)

section \<open>Problem documents\<close>

record problem =
  pr_type :: string
  pr_title :: string
  pr_status :: int
  pr_detail :: "string option"
  pr_instance :: string
  pr_requestId :: string
  pr_errors :: "field_error list option"

definition toProblem :: "exn \<Rightarrow> string \<Rightarrow> string \<Rightarrow> problem" where
  "toProblem error inst requestId =
    (case error of
       App e \<Rightarrow> \<lparr>pr_type = ae_type e, pr_title = ae_title e, pr_status = ae_status e,
                 pr_detail = ae_detail e, pr_instance = inst, pr_requestId = requestId,
                 pr_errors = ae_errors e\<rparr>
     | JsError _ _ _ \<Rightarrow>
        \<lparr>pr_type = TYPE_PREFIX @ ''internal'', pr_title = ''Internal server error'',
         pr_status = 500, pr_detail = None, pr_instance = inst,
         pr_requestId = requestId, pr_errors = None\<rparr>)"

definition issuesToErrors :: "(string list \<times> string) list \<Rightarrow> field_error list" where
  "issuesToErrors issues =
    map (\<lambda>(path, message). \<lparr>fe_path = join ''.'' path, fe_message = message\<rparr>) issues"

text \<open>\<open>validate.js\<close>: \<open>schema.safeParse\<close> is the library's, given as a function.\<close>

definition parse_request ::
  "('v \<Rightarrow> (string list \<times> string) list + 'd) \<Rightarrow> 'v \<Rightarrow> string \<Rightarrow> exn + 'd" where
  "parse_request safeParse v source =
    (case safeParse v of
       Inl issues \<Rightarrow> Inl (App (ValidationError (''The request '' @ source @ '' failed validation'')
                                (Some (issuesToErrors issues))))
     | Inr data \<Rightarrow> Inr data)"

definition normalise :: "exn \<Rightarrow> exn" where
  "normalise error =
    (case error of
       App e \<Rightarrow> App e
     | JsError c t m \<Rightarrow>
         if t = Some ''entity.too.large''
         then App (PayloadTooLargeError ''The request body exceeds MAX_PAYLOAD_BYTES'')
         else if t = Some ''entity.parse.failed''
         then App (ValidationError ''The request body is not valid JSON'' None)
         else JsError c t m)"

definition notFoundHandler :: "string \<Rightarrow> string \<Rightarrow> exn" where
  "notFoundHandler method path =
    App (NotFoundError (''No route matches '' @ method @ '' '' @ path))"

record http_response =
  hr_status :: int
  hr_headers :: "(string \<times> string) list"
  hr_problem :: problem

definition errorHandler :: "exn \<Rightarrow> string \<Rightarrow> string \<Rightarrow> http_response" where
  "errorHandler error originalUrl reqId =
    (let normalised = normalise error;
         problem = toProblem normalised originalUrl reqId
     in \<lparr>hr_status = pr_status problem,
         hr_headers = (case normalised of
                         App e \<Rightarrow> (case ae_headers e of None \<Rightarrow> [] | Some hs \<Rightarrow> hs)
                       | JsError _ _ _ \<Rightarrow> []),
         hr_problem = problem\<rparr>)"

section \<open>Authorization\<close>

datatype role = OWNER | MEMBER

definition ROLE_VALUES :: "role list" where
  "ROLE_VALUES = [OWNER, MEMBER]"

record auth_membership =
  am_projectId :: string
  am_role :: role

definition membershipFor :: "auth_membership list \<Rightarrow> string \<Rightarrow> auth_membership option" where
  "membershipFor memberships projectId = find (\<lambda>m. am_projectId m = projectId) memberships"

definition assertMembership ::
  "auth_membership list \<Rightarrow> string \<Rightarrow> role \<Rightarrow> exn + auth_membership" where
  "assertMembership memberships projectId role =
    (case membershipFor memberships projectId of
       None \<Rightarrow> Inl (App (NotFoundError ''No such project''))
     | Some membership \<Rightarrow>
         if role = OWNER \<and> am_role membership \<noteq> OWNER
         then Inl (App (ForbiddenError ''This action is reserved for the project owner''))
         else Inr membership)"

definition requireProjectRole :: "role \<Rightarrow> auth_membership list \<Rightarrow> string \<Rightarrow> exn + unit" where
  "requireProjectRole role memberships projectId =
    (case assertMembership memberships projectId role of
       Inl e \<Rightarrow> Inl e | Inr _ \<Rightarrow> Inr ())"

subsection \<open>What the check guarantees\<close>

lemma assertMembership_InrD:
  "assertMembership ms p r = Inr m \<Longrightarrow>
   m \<in> set ms \<and> am_projectId m = p \<and> (r = OWNER \<longrightarrow> am_role m = OWNER)"
  by (auto simp: assertMembership_def membershipFor_def dest: find_SomeD
      split: option.splits if_splits)

lemma assertMembership_not_member:
  "p \<notin> am_projectId ` set ms \<longleftrightarrow>
   assertMembership ms p r = Inl (App (NotFoundError ''No such project''))"
  by (auto simp: assertMembership_def membershipFor_def find_None_iff' app_error_defs
      split: option.splits if_splits dest: find_SomeD)

lemma assertMembership_MEMBER:
  "(\<exists>m. assertMembership ms p MEMBER = Inr m) \<longleftrightarrow> p \<in> am_projectId ` set ms"
  by (auto simp: assertMembership_def membershipFor_def find_None_iff'
      split: option.splits dest: find_SomeD)

end
