(* ===== verification/Ids.thy ===== *)
theory Ids
  imports Errors
begin

text \<open>
  \<open>src/backend/src/shared/ids.js\<close>: prefixed identifiers.  The random suffix comes from the
  cuid2 package and is a parameter; the pattern \<open>^([a-z]+)_([0-9a-z]{24})$\<close> is matched
  exactly.
\<close>

definition ID_PREFIXES :: "(string \<times> string) list" where
  "ID_PREFIXES =
    [(''user'', ''usr''), (''project'', ''prj''), (''apiKey'', ''key''), (''endpoint'', ''ep''),
     (''event'', ''evt''), (''delivery'', ''dlv''), (''attempt'', ''att''),
     (''refreshToken'', ''rt'')]"

definition prefixFor :: "string \<Rightarrow> exn + string" where
  "prefixFor kind =
    (case map_of ID_PREFIXES kind of
       None \<Rightarrow> Inl (JsError None None (''Unknown id kind '' @ kind))
     | Some prefix \<Rightarrow> Inr prefix)"

definition newId :: "string \<Rightarrow> string \<Rightarrow> exn + string" where
  "newId suffix kind =
    (case prefixFor kind of Inl e \<Rightarrow> Inl e | Inr prefix \<Rightarrow> Inr (prefix @ ''_'' @ suffix))"

definition valid_suffix :: "string \<Rightarrow> bool" where
  "valid_suffix s \<longleftrightarrow> length s = 24 \<and> list_all is_alnum s"

text \<open>\<open>PREFIX_PATTERN.exec\<close>: the first group, if the pattern matches.\<close>

definition match_prefix :: "string \<Rightarrow> string option" where
  "match_prefix v =
    (let p = takeWhile is_lower v; rest = dropWhile is_lower v
     in case rest of
          [] \<Rightarrow> None
        | c # suffix \<Rightarrow> if p \<noteq> [] \<and> c = CHR ''_'' \<and> valid_suffix suffix then Some p else None)"

definition isId :: "string \<Rightarrow> string \<Rightarrow> exn + bool" where
  "isId kind v =
    (case match_prefix v of
       None \<Rightarrow> Inr False
     | Some p \<Rightarrow> (case prefixFor kind of Inl e \<Rightarrow> Inl e | Inr prefix \<Rightarrow> Inr (p = prefix)))"

definition assertId :: "string \<Rightarrow> string \<Rightarrow> exn + string" where
  "assertId kind v =
    (case isId kind v of
       Inl e \<Rightarrow> Inl e
     | Inr True \<Rightarrow> Inr v
     | Inr False \<Rightarrow>
        (case prefixFor kind of
           Inl e \<Rightarrow> Inl e
         | Inr prefix \<Rightarrow> Inl (JsError None None (''Expected a '' @ prefix @ ''_ id''))))"

section \<open>Identifiers round trip and do not cross kinds\<close>

lemma ID_PREFIXES_lower: "(k, p) \<in> set ID_PREFIXES \<Longrightarrow> p \<noteq> [] \<and> list_all is_lower p"
  by (auto simp: ID_PREFIXES_def is_lower_def)

lemma prefixFor_InrD: "prefixFor kind = Inr p \<Longrightarrow> p \<noteq> [] \<and> list_all is_lower p"
  by (auto simp: prefixFor_def split: option.splits dest!: map_of_SomeD ID_PREFIXES_lower)

lemma underscore_not_lower [simp]: "\<not> is_lower (CHR ''_'')"
  by (simp add: is_lower_def)

lemma match_prefix_newId:
  assumes "prefixFor kind = Inr p" "valid_suffix suffix"
  shows "match_prefix (p @ ''_'' @ suffix) = Some p"
proof -
  have "takeWhile is_lower (p @ ''_'' @ suffix) = p" "dropWhile is_lower (p @ ''_'' @ suffix) = ''_'' @ suffix"
    using prefixFor_InrD[OF assms(1)]
    by (auto simp: list_all_iff takeWhile_append2 dropWhile_append2)
  then show ?thesis using prefixFor_InrD[OF assms(1)] assms(2) by (simp add: match_prefix_def)
qed

lemma isId_newId:
  assumes "newId suffix kind = Inr v" "valid_suffix suffix"
  shows "isId kind v = Inr True"
  using assms match_prefix_newId
  by (auto simp: newId_def isId_def split: sum.splits)

lemma prefixFor_inj: "prefixFor k = Inr p \<Longrightarrow> prefixFor k' = Inr p \<Longrightarrow> k = k'"
  by (auto simp: prefixFor_def ID_PREFIXES_def split: option.splits if_splits)

lemma isId_kind_unique: "isId k v = Inr True \<Longrightarrow> isId k' v = Inr True \<Longrightarrow> k = k'"
  by (auto simp: isId_def prefixFor_inj split: option.splits sum.splits)

lemma assertId_Inr_iff: "assertId k v = Inr v' \<longleftrightarrow> isId k v = Inr True \<and> v' = v"
  by (auto simp: assertId_def split: sum.splits bool.splits)

end
