(* ===== verification/Json.thy ===== *)
theory Json
  imports Prelude Complex_Main "HOL-Library.List_Lexorder" "HOL-Library.Char_ord"
begin

text \<open>
  JSON values, \<open>JSON.stringify\<close> as the code uses it, and
  \<open>src/backend/src/shared/json.js\<close>, whose \<open>canonicalJson\<close> decides the idempotency key.
  An object is its list of entries in insertion order; the text of a number is the
  language's number formatting, passed as \<open>num\<close>.  The main result is that two payloads
  have the same canonical text exactly when they differ in the order of object keys only.
\<close>

section \<open>Values\<close>

datatype json =
  JUndef | JNull | JBool bool | JNum rat | JStr string
| JArr "json list" | JObj "(string \<times> json) list"

section \<open>Quoting strings\<close>

definition hexd :: "nat \<Rightarrow> char" where
  "hexd n = (if n < 10 then char_of (48 + n) else char_of (87 + n))"

definition esc :: "char \<Rightarrow> string" where
  "esc c =
    (let n = (of_char c :: nat) in
     if n = 34 then [CHR 0x5C, CHR 0x22]
     else if n = 92 then [CHR 0x5C, CHR 0x5C]
     else if n = 8 then [CHR 0x5C, CHR ''b'']
     else if n = 12 then [CHR 0x5C, CHR ''f'']
     else if n = 10 then [CHR 0x5C, CHR ''n'']
     else if n = 13 then [CHR 0x5C, CHR ''r'']
     else if n = 9 then [CHR 0x5C, CHR ''t'']
     else if n < 32 then [CHR 0x5C, CHR ''u'', CHR ''0'', CHR ''0'', hexd (n div 16), hexd (n mod 16)]
     else [c])"

definition json_quote :: "string \<Rightarrow> string" where
  "json_quote s = CHR 0x22 # concat (map esc s) @ [CHR 0x22]"

section \<open>Serialisers\<close>

function stringify :: "(rat \<Rightarrow> string) \<Rightarrow> json \<Rightarrow> string" where
  "stringify num JUndef = ''null''"
| "stringify num JNull = ''null''"
| "stringify num (JBool b) = (if b then ''true'' else ''false'')"
| "stringify num (JNum x) = num x"
| "stringify num (JStr s) = json_quote s"
| "stringify num (JArr xs) = ''['' @ join '','' (map (stringify num) xs) @ '']''"
| "stringify num (JObj kvs) =
    ''{'' @ join '','' (map (\<lambda>kv. json_quote (fst kv) @ '':'' @ stringify num (snd kv))
                          (filter (\<lambda>kv. snd kv \<noteq> JUndef) kvs)) @ ''}''"
  by pat_completeness auto

lemma size_snd_mem:
  "kv \<in> set kvs \<Longrightarrow> size (snd kv) < Suc (size_list (size_prod (\<lambda>_. 0) size) kvs)"
  by (induction kvs) auto

termination stringify
  by (relation "measure (\<lambda>(_, v). size v)") (auto simp: less_Suc_eq_le size_list_estimation' size_snd_mem less_imp_le)

function canonicalJson :: "(rat \<Rightarrow> string) \<Rightarrow> json \<Rightarrow> string" where
  "canonicalJson num JUndef = ''null''"
| "canonicalJson num (JArr xs) = ''['' @ join '','' (map (canonicalJson num) xs) @ '']''"
| "canonicalJson num (JObj kvs) =
    ''{'' @ join '','' (map (\<lambda>kv. json_quote (fst kv) @ '':'' @ canonicalJson num (snd kv))
                          (sort_key fst kvs)) @ ''}''"
| "canonicalJson num JNull = stringify num JNull"
| "canonicalJson num (JBool b) = stringify num (JBool b)"
| "canonicalJson num (JNum x) = stringify num (JNum x)"
| "canonicalJson num (JStr s) = stringify num (JStr s)"
  by pat_completeness auto

termination canonicalJson
  by (relation "measure (\<lambda>(_, v). size v)") (auto simp: less_Suc_eq_le size_list_estimation' size_snd_mem less_imp_le)


section \<open>Normal form: undefined reads as null, keys in order\<close>

function norm_json :: "json \<Rightarrow> json" where
  "norm_json JUndef = JNull"
| "norm_json (JArr xs) = JArr (map norm_json xs)"
| "norm_json (JObj kvs) = JObj (map (\<lambda>kv. (fst kv, norm_json (snd kv))) (sort_key fst kvs))"
| "norm_json JNull = JNull"
| "norm_json (JBool b) = JBool b"
| "norm_json (JNum x) = JNum x"
| "norm_json (JStr s) = JStr s"
  by pat_completeness auto

termination norm_json
  by (relation "measure size") (auto simp: less_Suc_eq_le size_list_estimation' size_snd_mem less_imp_le)

lemma norm_json_neq_JUndef [simp]: "norm_json v \<noteq> JUndef"
  by (cases v) simp_all

lemma canonicalJson_norm: "canonicalJson num v = stringify num (norm_json v)"
proof (induction v rule: norm_json.induct)
  case (3 kvs)
  then show ?case
    by (auto simp: o_def filter_map intro!: arg_cong[where f = "join '',''"] map_cong)
qed (simp_all add: o_def cong: map_cong)

section \<open>The texts are self-delimiting\<close>

definition numch :: "char \<Rightarrow> bool" where
  "numch c \<longleftrightarrow> c \<in> set ''0123456789+-.eE''"

text \<open>What the proofs need of number formatting: it is injective, and its characters are
  those of JSON numbers, starting with a digit or a minus sign.\<close>

definition num_ok :: "(rat \<Rightarrow> string) \<Rightarrow> bool" where
  "num_ok num \<longleftrightarrow> inj num \<and>
    (\<forall>x. num x \<noteq> [] \<and> list_all numch (num x) \<and> hd (num x) \<in> set ''0123456789-'')"

definition hexv :: "char \<Rightarrow> nat" where
  "hexv c = (if (of_char c :: nat) < 58 then of_char c - 48 else of_char c - 87)"

lemma hexv_hexd [simp]: "n < 16 \<Longrightarrow> hexv (hexd n) = n"
  by (auto simp: hexv_def hexd_def of_char_of take_bit_eq_mod)

text \<open>An inverse of \<open>esc\<close> on the front of a text: it shows where an escape ends.\<close>

definition unesc :: "string \<Rightarrow> char \<times> string" where
  "unesc s =
    (if hd s = CHR 0x5C
     then (let e = s ! 1; t = drop 2 s in
       if e = CHR ''u'' then (char_of (16 * hexv (s ! 4) + hexv (s ! 5)), drop 6 s)
       else if e = CHR ''b'' then (char_of (8 :: nat), t)
       else if e = CHR ''f'' then (char_of (12 :: nat), t)
       else if e = CHR ''n'' then (char_of (10 :: nat), t)
       else if e = CHR ''r'' then (char_of (13 :: nat), t)
       else if e = CHR ''t'' then (char_of (9 :: nat), t)
       else (e, t))
     else (hd s, tl s))"

lemma char_eqI: "(of_char c :: nat) = of_char c' \<Longrightarrow> c = c'"
  by simp

lemma unesc_esc_named:
  assumes "c \<in> {CHR 0x22, CHR 0x5C, CHR 0x08, CHR 0x0C, CHR 0x0A, CHR 0x0D, CHR 0x09}"
  shows "unesc (esc c @ r) = (c, r)"
  using assms by (elim insertE emptyE) (simp_all add: unesc_def esc_def char_of_eq_iff)

lemma unesc_esc: "unesc (esc c @ r) = (c, r)"
proof (cases "c \<in> {CHR 0x22, CHR 0x5C, CHR 0x08, CHR 0x0C, CHR 0x0A, CHR 0x0D, CHR 0x09}")
  case False
  let ?n = "of_char c :: nat"
  have named: "?n \<noteq> 34" "?n \<noteq> 92" "?n \<noteq> 8" "?n \<noteq> 12" "?n \<noteq> 10" "?n \<noteq> 13" "?n \<noteq> 9"
    using False by (auto intro: char_eqI)
  show ?thesis
  proof (cases "?n < 32")
    case True
    then have "esc c = [CHR 0x5C, CHR ''u'', CHR ''0'', CHR ''0'', hexd (?n div 16), hexd (?n mod 16)]"
      using named by (simp add: esc_def Let_def)
    then show ?thesis using True by (simp add: unesc_def)
  next
    case no_escape: False
    then have "esc c = [c]" using named by (simp add: esc_def)
    then show ?thesis using False by (simp add: unesc_def)
  qed
qed (rule unesc_esc_named)

lemma esc_cancel: "esc c @ r = esc c' @ r' \<Longrightarrow> c = c' \<and> r = r'"
  by (metis unesc_esc prod.inject)

lemma esc_no_quote: "esc c \<noteq> []" "hd (esc c) \<noteq> CHR 0x22"
  by (auto simp: esc_def Let_def)

text \<open>
  A text format is cancellable where an equation between two texts followed by anything
  admissible splits into equal values and equal rests.
\<close>

definition cancels :: "('a \<Rightarrow> string) \<Rightarrow> (string \<Rightarrow> bool) \<Rightarrow> 'a set \<Rightarrow> 'a set \<Rightarrow> bool" where
  "cancels enc ok A B \<longleftrightarrow>
    (\<forall>a\<in>A. \<forall>b r r'. b \<in> B \<longrightarrow> ok r \<longrightarrow> ok r' \<longrightarrow> enc a @ r = enc b @ r' \<longrightarrow> a = b \<and> r = r')"

lemma json_quote_cancel: "json_quote s @ r = json_quote s' @ r' \<Longrightarrow> s = s' \<and> r = r'"
proof -
  have *: "concat (map esc s) @ CHR 0x22 # r = concat (map esc s') @ CHR 0x22 # r' \<Longrightarrow>
        s = s' \<and> r = r'"
  proof (induction s arbitrary: s')
    case Nil
    then show ?case
      using esc_no_quote by (cases s') (auto simp: Cons_eq_append_conv, metis list.sel(1))
  next
    case (Cons c s)
    show ?case
    proof (cases s')
      case Nil
      with Cons.prems esc_no_quote[of c] show ?thesis by (auto simp: append_eq_Cons_conv)
    next
      case (Cons c' t)
      with Cons.prems have
        "esc c @ concat (map esc s) @ CHR 0x22 # r = esc c' @ concat (map esc t) @ CHR 0x22 # r'"
        by simp
      from esc_cancel[OF this] Cons.IH[of t] Cons show ?thesis by simp
    qed
  qed
  assume "json_quote s @ r = json_quote s' @ r'"
  then show ?thesis by (intro *) (simp add: json_quote_def)
qed

lemma join_comma:
  "join '','' (map enc (x # xs)) = enc x @ concat (map (\<lambda>y. CHR '','' # enc y) xs)"
  by (induction xs arbitrary: x) simp_all

text \<open>The rest after a value is empty or starts with a delimiter.\<close>

definition delim :: "string \<Rightarrow> bool" where
  "delim r \<longleftrightarrow> r = [] \<or> hd r \<in> set '',]}''"

lemma delim_Cons [simp]: "delim (c # r) \<longleftrightarrow> c \<in> set '',]}''" "delim []"
  by (auto simp: delim_def)

lemma tail_cancel:
  assumes enc: "cancels enc delim A B" and "set xs \<subseteq> A" "set ys \<subseteq> B" and c: "c = CHR '']'' \<or> c = CHR ''}''"
    and eq: "concat (map (\<lambda>y. CHR '','' # enc y) xs) @ c # r = concat (map (\<lambda>y. CHR '','' # enc y) ys) @ c # r'"
  shows "xs = ys \<and> r = r'"
  using assms(2,3) eq
proof (induction xs arbitrary: ys)
  case Nil
  then show ?case using c by (cases ys) auto
next
  case (Cons x xs)
  show ?case
  proof (cases ys)
    case Nil
    with Cons.prems c show ?thesis by auto
  next
    case (Cons y ys')
    let ?R = "\<lambda>zs q. concat (map (\<lambda>y. CHR '','' # enc y) zs) @ c # q"
    have "delim (?R zs q)" for zs q using c by (cases zs) auto
    moreover have "enc x @ ?R xs r = enc y @ ?R ys' r'" using Cons.prems Cons by simp
    ultimately have "x = y" "?R xs r = ?R ys' r'"
      using enc Cons.prems Cons unfolding cancels_def by (metis list.set_intros(1) subsetD)+
    with Cons.IH[of ys'] Cons.prems Cons show ?thesis by simp
  qed
qed

lemma list_cancel:
  assumes enc: "cancels enc delim A B" and "set xs \<subseteq> A" "set ys \<subseteq> B" and c: "c = CHR '']'' \<or> c = CHR ''}''"
    and hd: "\<And>x q. x \<in> A \<union> B \<Longrightarrow> hd (enc x @ q) \<noteq> c \<and> enc x \<noteq> []"
    and eq: "join '','' (map enc xs) @ c # r = join '','' (map enc ys) @ c # r'"
  shows "xs = ys \<and> r = r'"
proof (cases xs; cases ys)
  fix x xs' y ys' assume xs: "xs = x # xs'" and ys: "ys = y # ys'"
  let ?R = "\<lambda>zs q. concat (map (\<lambda>y. CHR '','' # enc y) zs) @ c # q"
  have "delim (?R zs q)" for zs q using c by (cases zs) auto
  moreover have "enc x @ ?R xs' r = enc y @ ?R ys' r'"
    using eq unfolding xs ys join_comma by simp
  ultimately have "x = y" "?R xs' r = ?R ys' r'"
    using enc assms(2,3) xs ys unfolding cancels_def by (metis list.set_intros(1) subsetD)+
  with tail_cancel[OF enc, of xs' ys' c r r'] assms(2,3) xs ys c show ?thesis by simp
next
  fix y ys' assume nil: "xs = []" and ys: "ys = y # ys'"
  have "c # r = enc y @ concat (map (\<lambda>y. CHR '','' # enc y) ys') @ c # r'"
    using eq unfolding nil ys join_comma by simp
  with hd[of y] assms(3) ys show ?thesis by (metis UnCI list.sel(1) list.set_intros(1) subsetD)
next
  fix x xs' assume xs: "xs = x # xs'" and nil: "ys = []"
  have "enc x @ concat (map (\<lambda>y. CHR '','' # enc y) xs') @ c # r = c # r'"
    using eq unfolding xs nil join_comma by simp
  with hd[of x] assms(2) xs show ?thesis by (metis UnCI list.sel(1) list.set_intros(1) subsetD)
qed (use eq in simp)

fun no_undef :: "json \<Rightarrow> bool" where
  "no_undef JUndef = False"
| "no_undef (JArr xs) = list_all no_undef xs"
| "no_undef (JObj kvs) = list_all (\<lambda>kv. no_undef (snd kv)) kvs"
| "no_undef _ = True"

lemma no_undef_norm [simp]: "no_undef (norm_json v)"
  by (induction v rule: norm_json.induct) (auto simp: list_all_iff)

lemma filter_no_undef: "no_undef (JObj kvs) \<Longrightarrow> filter (\<lambda>kv. snd kv \<noteq> JUndef) kvs = kvs"
  by (auto simp: filter_id_conv list_all_iff)

lemma stringify_hd:
  assumes "num_ok num"
  shows "stringify num v \<noteq> [] \<and> hd (stringify num v @ q) \<in> set ''ntf0123456789-'' \<union> {CHR 0x22, CHR ''['', CHR ''{''}"
  using assms by (cases v) (auto simp: num_ok_def json_quote_def hd_append)

lemma num_cancel:
  assumes "num_ok num" "delim r" "delim r'" "num x @ r = num y @ r'"
  shows "x = y \<and> r = r'"
proof -
  have "takeWhile numch (num z @ q) = num z" if "delim q" for z q
  proof -
    have "takeWhile numch q = []" using that by (cases q) (auto simp: numch_def)
    then show ?thesis using assms(1) by (simp add: num_ok_def list_all_iff takeWhile_append2)
  qed
  from this[OF assms(2), of x] this[OF assms(3), of y] assms(4)
  have "num x = num y" by simp
  with assms(1,4) show ?thesis by (auto simp: num_ok_def dest: injD)
qed


definition entry_text :: "(rat \<Rightarrow> string) \<Rightarrow> string \<times> json \<Rightarrow> string" where
  "entry_text num kv = json_quote (fst kv) @ '':'' @ stringify num (snd kv)"

lemma stringify_JObj:
  "no_undef (JObj kvs) \<Longrightarrow>
   stringify num (JObj kvs) = ''{'' @ join '','' (map (entry_text num) kvs) @ ''}''"
  using filter_no_undef[of kvs] by (simp add: entry_text_def[abs_def])

lemma entry_cancels:
  assumes "\<And>kv v' r r'. kv \<in> A \<Longrightarrow> no_undef v' \<Longrightarrow> delim r \<Longrightarrow> delim r' \<Longrightarrow>
      stringify num (snd kv) @ r = stringify num v' @ r' \<Longrightarrow> snd kv = v' \<and> r = r'"
  shows "cancels (entry_text num) delim A {kv. no_undef (snd kv)}"
  unfolding cancels_def
proof (intro ballI allI impI)
  fix a b r r' assume a: "a \<in> A" and b: "b \<in> {kv. no_undef (snd kv)}" and dl: "delim r" "delim r'"
    and eq: "entry_text num a @ r = entry_text num b @ r'"
  then have "json_quote (fst a) @ CHR '':'' # stringify num (snd a) @ r =
             json_quote (fst b) @ CHR '':'' # stringify num (snd b) @ r'"
    by (simp add: entry_text_def)
  from json_quote_cancel[OF this] assms[OF a, of "snd b" r r'] b dl
  show "a = b \<and> r = r'" by (auto intro: prod_eqI)
qed

lemma num_hd:
  assumes "num_ok num"
  shows "c # t = num x @ q \<Longrightarrow> c \<in> set ''0123456789-''"
    and "num x @ q = c # t \<Longrightarrow> c \<in> set ''0123456789-''"
  using assms unfolding num_ok_def by (metis hd_append2 list.sel(1))+

lemma stringify_cancel:
  assumes num: "num_ok num"
  shows "no_undef v \<Longrightarrow> no_undef v' \<Longrightarrow> delim r \<Longrightarrow> delim r' \<Longrightarrow>
    stringify num v @ r = stringify num v' @ r' \<Longrightarrow> v = v' \<and> r = r'"
proof (induction v arbitrary: v' r r' rule: json.induct)
  case (JArr xs)
  from JArr.prems obtain ys where v': "v' = JArr ys"
    by (cases v') (auto simp: json_quote_def dest!: num_hd[OF num] split: if_splits)
  have c: "cancels (stringify num) delim (set xs) (Collect no_undef)"
    unfolding cancels_def using JArr by (auto simp: list_all_iff)
  have e: "join '','' (map (stringify num) xs) @ CHR '']'' # r = join '','' (map (stringify num) ys) @ CHR '']'' # r'"
    using JArr.prems v' by simp
  have "xs = ys \<and> r = r'"
  proof (rule list_cancel[OF c _ _ _ _ e])
    fix x q
    show "hd (stringify num x @ q) \<noteq> CHR '']'' \<and> stringify num x \<noteq> []"
      using stringify_hd[OF num, of x q] by auto
  qed (use JArr.prems v' in \<open>auto simp: list_all_iff\<close>)
  with v' show ?case by simp
next
  case (JObj kvs)
  from JObj.prems obtain ys where v': "v' = JObj ys"
    by (cases v') (auto simp: json_quote_def dest!: num_hd[OF num] split: if_splits)
  have c: "cancels (entry_text num) delim (set kvs) {kv. no_undef (snd kv)}"
    using JObj by (intro entry_cancels) (auto simp: list_all_iff snds.simps)
  have e: "join '','' (map (entry_text num) kvs) @ CHR ''}'' # r =
                 join '','' (map (entry_text num) ys) @ CHR ''}'' # r'"
    using JObj.prems v' stringify_JObj[of kvs num] stringify_JObj[of ys num] by simp
  have "kvs = ys \<and> r = r'"
    by (rule list_cancel[OF c _ _ _ _ e]) (use JObj.prems v' in \<open>auto simp: list_all_iff entry_text_def json_quote_def\<close>)
  with v' show ?case by simp
next
  case (JNum x)
  then show ?case
    using num_cancel[OF num, of r r' x]
    by (cases v') (auto simp: json_quote_def dest!: num_hd[OF num] split: if_splits)
next
  case (JStr s)
  then show ?case
    using json_quote_cancel[of s r]
    by (cases v') (auto simp: json_quote_def dest!: num_hd[OF num] split: if_splits)
qed (case_tac v'; auto simp: json_quote_def dest!: num_hd[OF num] split: if_splits)+


section \<open>Equal canonical texts\<close>

lemma canonicalJson_cancel:
  assumes "num_ok num" "delim r" "delim r'" "canonicalJson num v @ r = canonicalJson num v' @ r'"
  shows "norm_json v = norm_json v' \<and> r = r'"
  using assms stringify_cancel[of num "norm_json v" "norm_json v'" r r'] by (simp add: canonicalJson_norm)

lemma canonicalJson_eq_iff:
  "num_ok num \<Longrightarrow> canonicalJson num v = canonicalJson num v' \<longleftrightarrow> norm_json v = norm_json v'"
  using canonicalJson_cancel[of num "[]" "[]" v v'] by (auto simp: canonicalJson_norm)

lemma norm_json_entry_order:
  assumes "distinct (map fst kvs)" "distinct (map fst kvs')" "set kvs = set kvs'"
  shows "norm_json (JObj kvs) = norm_json (JObj kvs')"
proof -
  have "inj_on fst (set (sort_key fst kvs) \<union> set (sort_key fst kvs'))"
    using assms by (simp add: distinct_map)
  then have "sort_key fst kvs = sort_key fst kvs'"
    using assms by (intro map_sorted_distinct_set_unique) (auto simp: distinct_map)
  then show ?thesis by simp
qed

end
