(* ===== verification/World.thy ===== *)
theory World
  imports Ids Retry Json
begin

text \<open>
  The state the processes share and the calls they await.  The tables follow
  \<open>src/backend/prisma/schema.prisma\<close> row by row; a table is the list of its rows in
  insertion order.  Beside them stand the messages the broker has accepted, the realtime
  messages Redis has accepted, the Redis keys the code uses, the clock and the supply of
  random suffixes.  Every awaited call is an \<open>effect\<close> that consults a fault plan: it can
  succeed, reject before doing anything, or reject after it took effect (a commit or a
  confirm whose answer was lost).  A theorem that quantifies over the plan therefore covers
  every way the database, the broker and Redis can let a handler down.
\<close>

section \<open>Rows\<close>

record delivery =
  d_id :: string
  d_eventId :: string
  d_endpointId :: string
  d_status :: delivery_status
  d_attemptCount :: int
  d_nextAttemptAt :: "int option"
  d_lastError :: "string option"
  d_completedAt :: "int option"
  d_replayedFromId :: "string option"
  d_createdAt :: int

record endpoint =
  e_id :: string
  e_projectId :: string
  e_url :: string
  e_description :: "string option"
  e_status :: endpoint_status
  e_secret :: string
  e_previousSecret :: "string option"
  e_secretRotatedAt :: "int option"
  e_eventTypes :: "string list"
  e_rateLimitPerMinute :: int
  e_consecutiveFailures :: int
  e_createdAt :: int

record webhook_event =
  v_id :: string
  v_projectId :: string
  v_eventType :: string
  v_payload :: json
  v_idempotencyKey :: string
  v_receivedAt :: int

record delivery_attempt =
  a_id :: string
  a_deliveryId :: string
  a_attemptNumber :: int
  a_responseStatus :: "int option"
  a_responseHeaders :: "(string \<times> string) list option"
  a_responseBodySnippet :: "string option"
  a_durationMs :: "int option"
  a_errorCode :: "string option"
  a_errorMessage :: "string option"
  a_startedAt :: int

record project =
  p_id :: string
  p_name :: string
  p_slug :: string
  p_alertWebhookUrl :: "string option"
  p_createdAt :: int

record membership =
  m_userId :: string
  m_projectId :: string
  m_role :: role
  m_createdAt :: int

record user =
  u_id :: string
  u_email :: string
  u_passwordHash :: string
  u_name :: string
  u_createdAt :: int

record api_key =
  k_id :: string
  k_projectId :: string
  k_name :: string
  k_keyPrefix :: string
  k_keyHash :: string
  k_lastUsedAt :: "int option"
  k_revokedAt :: "int option"
  k_createdAt :: int

record refresh_token =
  t_id :: string
  t_userId :: string
  t_tokenHash :: string
  t_expiresAt :: int
  t_revokedAt :: "int option"
  t_createdAt :: int

section \<open>Messages\<close>

record message_body =
  mb_deliveryId :: string
  mb_attempt :: int

record publication =
  pub_exchange :: string
  pub_routingKey :: string
  pub_body :: message_body
  pub_expiration :: "int option"

datatype realtime_event =
  DeliverySucceeded (ev_deliveryId: string) (ev_attempt: int) "int option" "int option" int
| DeliveryAttempted (ev_deliveryId: string) (ev_attempt: int) "int option" "int option" int
| DeliveryFailed (ev_deliveryId: string) (ev_attempt: int) failure_reason "string option" "int option" int
| EndpointDisabled (ev_endpointId: string) int int

text \<open>An HTTP request a process has sent: the address it connected to, headers and body.\<close>

record http_request =
  hr_address :: string
  hr_headers :: "(string \<times> string) list"
  hr_body :: string

section \<open>The world\<close>

datatype fault = NoFault | FaultBefore | FaultAfter

record bucket =
  bk_tokens :: rat
  bk_updatedAt :: int

record world =
  users :: "user list"
  projects :: "project list"
  memberships :: "membership list"
  apiKeys :: "api_key list"
  endpoints :: "endpoint list"
  events :: "webhook_event list"
  deliveries :: "delivery list"
  attempts :: "delivery_attempt list"
  refreshTokens :: "refresh_token list"
  published :: "publication list"
  emitted :: "(string \<times> realtime_event) list"
  buckets :: "string \<rightharpoonup> bucket"
  alertKeys :: "string \<rightharpoonup> int"
  requests :: "http_request list"
  clock :: int
  drift :: "int list"
  faults :: "fault list"
  fresh :: nat
  suffixes :: "nat \<Rightarrow> string"

type_synonym 'a act = "(world, exn, 'a) io"

definition unavailable :: exn where
  "unavailable = JsError None None ''connection lost''"

definition next_fault :: "world \<Rightarrow> fault" where
  "next_fault w = (case faults w of [] \<Rightarrow> NoFault | f # _ \<Rightarrow> f)"

definition pop_fault :: "world \<Rightarrow> world" where
  "pop_fault w = w\<lparr>faults := tl (faults w)\<rparr>"

text \<open>An awaited write, and an awaited read.\<close>

definition effect :: "(world \<Rightarrow> world) \<Rightarrow> unit act" where
  "effect f = (\<lambda>w.
    (case next_fault w of
       NoFault \<Rightarrow> (Inr (), f (pop_fault w))
     | FaultBefore \<Rightarrow> (Inl unavailable, pop_fault w)
     | FaultAfter \<Rightarrow> (Inl unavailable, f (pop_fault w))))"

definition query :: "(world \<Rightarrow> 'a) \<Rightarrow> 'a act" where
  "query g = (\<lambda>w.
    (case next_fault w of
       NoFault \<Rightarrow> (Inr (g (pop_fault w)), pop_fault w)
     | _ \<Rightarrow> (Inl unavailable, pop_fault w)))"

text \<open>An awaited call that changes the state and returns a value.\<close>

definition effect_ret :: "(world \<Rightarrow> 'a \<times> world) \<Rightarrow> 'a act" where
  "effect_ret f = (\<lambda>w.
    (case next_fault w of
       NoFault \<Rightarrow> (Inr (fst (f (pop_fault w))), snd (f (pop_fault w)))
     | FaultBefore \<Rightarrow> (Inl unavailable, pop_fault w)
     | FaultAfter \<Rightarrow> (Inl unavailable, snd (f (pop_fault w)))))"

text \<open>\<open>now()\<close> / \<open>Date.now()\<close>: the clock moves by the next entry of \<open>drift\<close>, if any.\<close>

definition now :: "int act" where
  "now = (\<lambda>w. (let t = clock w + (case drift w of [] \<Rightarrow> 0 | d # _ \<Rightarrow> d)
               in (Inr t, w\<lparr>clock := t, drift := tl (drift w)\<rparr>)))"

definition time_read :: "world \<Rightarrow> int" where
  "time_read w = clock w + (case drift w of [] \<Rightarrow> 0 | d # _ \<Rightarrow> d)"

text \<open>\<open>newId(kind)\<close> with the next random suffix.\<close>

definition fresh_id :: "string \<Rightarrow> string act" where
  "fresh_id kind = (\<lambda>w. (newId (suffixes w (fresh w)) kind, w\<lparr>fresh := Suc (fresh w)\<rparr>))"

definition lift :: "exn + 'a \<Rightarrow> 'a act" where
  "lift r = (case r of Inl e \<Rightarrow> io_raise e | Inr a \<Rightarrow> io_ret a)"

section \<open>Table operations\<close>

text \<open>\<open>findUnique\<close>, \<open>update\<close> by id and \<open>updateMany\<close>.\<close>

definition find_by :: "('r \<Rightarrow> 'k) \<Rightarrow> 'k \<Rightarrow> 'r list \<Rightarrow> 'r option" where
  "find_by key k rows = find (\<lambda>r. key r = k) rows"

definition update_where :: "('r \<Rightarrow> bool) \<Rightarrow> ('r \<Rightarrow> 'r) \<Rightarrow> 'r list \<Rightarrow> 'r list" where
  "update_where p f rows = map (\<lambda>r. if p r then f r else r) rows"

definition get_delivery :: "world \<Rightarrow> string \<Rightarrow> delivery option" where
  "get_delivery w i = find_by d_id i (deliveries w)"

definition get_endpoint :: "world \<Rightarrow> string \<Rightarrow> endpoint option" where
  "get_endpoint w i = find_by e_id i (endpoints w)"

definition get_event :: "world \<Rightarrow> string \<Rightarrow> webhook_event option" where
  "get_event w i = find_by v_id i (events w)"

definition upd_delivery :: "string \<Rightarrow> (delivery \<Rightarrow> delivery) \<Rightarrow> world \<Rightarrow> world" where
  "upd_delivery i f w = w\<lparr>deliveries := update_where (\<lambda>d. d_id d = i) f (deliveries w)\<rparr>"

definition upd_endpoint :: "string \<Rightarrow> (endpoint \<Rightarrow> endpoint) \<Rightarrow> world \<Rightarrow> world" where
  "upd_endpoint i f w = w\<lparr>endpoints := update_where (\<lambda>e. e_id e = i) f (endpoints w)\<rparr>"

definition add_attempt :: "delivery_attempt \<Rightarrow> world \<Rightarrow> world" where
  "add_attempt a w = w\<lparr>attempts := attempts w @ [a]\<rparr>"

definition record_not_found :: exn where
  "record_not_found = JsError (Some ''P2025'') None ''record not found''"

text \<open>
  A statement of a transaction, and \<open>$transaction([...])\<close>: an \<open>update\<close> rejects when the row
  is missing, and a rejection rolls every statement back.  \<open>commit ops g\<close> runs one transaction
  and returns what \<open>g\<close> reads of its result.
\<close>

type_synonym statement = "world \<Rightarrow> exn + world"

fun transaction :: "statement list \<Rightarrow> statement" where
  "transaction [] w = Inr w"
| "transaction (op # ops) w = (case op w of Inl e \<Rightarrow> Inl e | Inr w' \<Rightarrow> transaction ops w')"

definition create_attempt :: "delivery_attempt \<Rightarrow> statement" where
  "create_attempt a w = Inr (add_attempt a w)"

definition update_delivery :: "string \<Rightarrow> (delivery \<Rightarrow> delivery) \<Rightarrow> statement" where
  "update_delivery i f w =
    (case get_delivery w i of None \<Rightarrow> Inl record_not_found | Some _ \<Rightarrow> Inr (upd_delivery i f w))"

definition update_endpoint :: "string \<Rightarrow> (endpoint \<Rightarrow> endpoint) \<Rightarrow> statement" where
  "update_endpoint i f w =
    (case get_endpoint w i of None \<Rightarrow> Inl record_not_found | Some _ \<Rightarrow> Inr (upd_endpoint i f w))"

definition commit :: "statement list \<Rightarrow> (world \<Rightarrow> 'a) \<Rightarrow> 'a act" where
  "commit ops g = (\<lambda>w.
    (case next_fault w of
       FaultBefore \<Rightarrow> (Inl unavailable, pop_fault w)
     | NoFault \<Rightarrow>
         (case transaction ops (pop_fault w) of
            Inl e \<Rightarrow> (Inl e, pop_fault w)
          | Inr w' \<Rightarrow> (Inr (g w'), w'))
     | FaultAfter \<Rightarrow>
         (case transaction ops (pop_fault w) of
            Inl e \<Rightarrow> (Inl e, pop_fault w)
          | Inr w' \<Rightarrow> (Inl unavailable, w'))))"

section \<open>Laws\<close>

lemma wp_effect [wp_simps]:
  "wp (effect f) Q E w =
    (case next_fault w of
       NoFault \<Rightarrow> Q () (f (pop_fault w))
     | FaultBefore \<Rightarrow> E unavailable (pop_fault w)
     | FaultAfter \<Rightarrow> E unavailable (f (pop_fault w)))"
  by (simp add: wp_def effect_def split: fault.splits)

lemma wp_effect_ret [wp_simps]:
  "wp (effect_ret f) Q E w =
    (case next_fault w of
       NoFault \<Rightarrow> Q (fst (f (pop_fault w))) (snd (f (pop_fault w)))
     | FaultBefore \<Rightarrow> E unavailable (pop_fault w)
     | FaultAfter \<Rightarrow> E unavailable (snd (f (pop_fault w))))"
  by (simp add: wp_def effect_ret_def split: fault.splits)

lemma wp_query [wp_simps]:
  "wp (query g) Q E w =
    (case next_fault w of
       NoFault \<Rightarrow> Q (g (pop_fault w)) (pop_fault w)
     | _ \<Rightarrow> E unavailable (pop_fault w))"
  by (simp add: wp_def query_def split: fault.splits)

lemma wp_now [wp_simps]:
  "wp now Q E w =
    (let t = clock w + (case drift w of [] \<Rightarrow> 0 | d # _ \<Rightarrow> d)
     in Q t (w\<lparr>clock := t, drift := tl (drift w)\<rparr>))"
  by (simp add: wp_def now_def Let_def)

lemma wp_fresh_id [wp_simps]:
  "wp (fresh_id kind) Q E w =
    (case newId (suffixes w (fresh w)) kind of
       Inl e \<Rightarrow> E e (w\<lparr>fresh := Suc (fresh w)\<rparr>)
     | Inr i \<Rightarrow> Q i (w\<lparr>fresh := Suc (fresh w)\<rparr>))"
  by (simp add: wp_def fresh_id_def)

lemma wp_lift [wp_simps]: "wp (lift r) Q E w = (case r of Inl e \<Rightarrow> E e w | Inr a \<Rightarrow> Q a w)"
  by (simp add: lift_def wp_simps split: sum.splits)

lemma wp_commit [wp_simps]:
  "wp (commit ops g) Q E w =
    (case next_fault w of
       FaultBefore \<Rightarrow> E unavailable (pop_fault w)
     | NoFault \<Rightarrow>
         (case transaction ops (pop_fault w) of Inl e \<Rightarrow> E e (pop_fault w) | Inr w' \<Rightarrow> Q (g w') w')
     | FaultAfter \<Rightarrow>
         (case transaction ops (pop_fault w) of Inl e \<Rightarrow> E e (pop_fault w) | Inr w' \<Rightarrow> E unavailable w'))"
  by (simp add: wp_def commit_def split: fault.splits sum.splits)

lemma update_where_key:
  assumes "\<And>r. key (f r) = key r"
  shows "find_by key k' (update_where (\<lambda>r. key r = k) f rows) =
         (if k' = k then map_option f (find_by key k rows) else find_by key k' rows)"
  by (induction rows) (auto simp: find_by_def update_where_def assms)

text \<open>
  The interface the handlers rely on: a keyed store whose update touches one key only.
  The tables of the world provide it.
\<close>

locale keyed_store =
  fixes get :: "'w \<Rightarrow> 'k \<Rightarrow> 'r option"
    and upd :: "'k \<Rightarrow> ('r \<Rightarrow> 'r) \<Rightarrow> 'w \<Rightarrow> 'w"
    and key :: "'r \<Rightarrow> 'k"
  assumes get_key: "get w k = Some r \<Longrightarrow> key r = k"
    and get_upd: "(\<And>r. key (f r) = key r) \<Longrightarrow>
      get (upd k f w) k' = (if k' = k then map_option f (get w k) else get w k')"
begin

lemma get_upd_same: "(\<And>r. key (f r) = key r) \<Longrightarrow> get w k = Some r \<Longrightarrow> get (upd k f w) k = Some (f r)"
  by (simp add: get_upd)

lemma get_upd_other: "(\<And>r. key (f r) = key r) \<Longrightarrow> k' \<noteq> k \<Longrightarrow> get (upd k f w) k' = get w k'"
  by (simp add: get_upd)

lemma get_upd_upd:
  "(\<And>r. key (f r) = key r) \<Longrightarrow> (\<And>r. key (g r) = key r) \<Longrightarrow>
   get (upd k g (upd k f w)) k' = get (upd k (g \<circ> f) w) k'"
  by (simp add: get_upd option.map_comp)

lemma missing_stays_missing: "(\<And>r. key (f r) = key r) \<Longrightarrow> get (upd k f w) k' = None \<longleftrightarrow> get w k' = None"
  by (simp add: get_upd)

end

lemma find_by_SomeD: "find_by key k rows = Some r \<Longrightarrow> key r = k \<and> r \<in> set rows"
  by (auto simp: find_by_def dest: find_SomeD)

interpretation dlv: keyed_store get_delivery upd_delivery d_id
  by unfold_locales
     (auto simp: get_delivery_def upd_delivery_def update_where_key dest: find_by_SomeD)

interpretation ept: keyed_store get_endpoint upd_endpoint e_id
  by unfold_locales
     (auto simp: get_endpoint_def upd_endpoint_def update_where_key dest: find_by_SomeD)

text \<open>The operations that touch other fields leave the lookups alone.\<close>

lemma get_frame [simp]:
  "get_delivery (pop_fault w) i = get_delivery w i"
  "get_endpoint (pop_fault w) i = get_endpoint w i"
  "get_event (pop_fault w) i = get_event w i"
  "get_delivery (add_attempt a w) i = get_delivery w i"
  "get_endpoint (add_attempt a w) i = get_endpoint w i"
  "get_event (add_attempt a w) i = get_event w i"
  "get_delivery (upd_endpoint k g w) i = get_delivery w i"
  "get_endpoint (upd_delivery k f w) i = get_endpoint w i"
  "get_event (upd_endpoint k g w) i = get_event w i"
  "get_event (upd_delivery k f w) i = get_event w i"
  by (simp_all add: get_delivery_def get_endpoint_def get_event_def pop_fault_def add_attempt_def
      upd_endpoint_def upd_delivery_def)

lemma get_field_frame [simp]:
  "get_delivery (w\<lparr>clock := c\<rparr>) i = get_delivery w i"
  "get_delivery (w\<lparr>drift := dr\<rparr>) i = get_delivery w i"
  "get_delivery (w\<lparr>fresh := n\<rparr>) i = get_delivery w i"
  "get_delivery (w\<lparr>published := ps\<rparr>) i = get_delivery w i"
  "get_delivery (w\<lparr>emitted := es\<rparr>) i = get_delivery w i"
  "get_delivery (w\<lparr>buckets := bs\<rparr>) i = get_delivery w i"
  "get_delivery (w\<lparr>alertKeys := aks\<rparr>) i = get_delivery w i"
  "get_delivery (w\<lparr>requests := rqs\<rparr>) i = get_delivery w i"
  "get_endpoint (w\<lparr>clock := c\<rparr>) i = get_endpoint w i"
  "get_endpoint (w\<lparr>drift := dr\<rparr>) i = get_endpoint w i"
  "get_endpoint (w\<lparr>fresh := n\<rparr>) i = get_endpoint w i"
  "get_endpoint (w\<lparr>published := ps\<rparr>) i = get_endpoint w i"
  "get_endpoint (w\<lparr>emitted := es\<rparr>) i = get_endpoint w i"
  "get_endpoint (w\<lparr>buckets := bs\<rparr>) i = get_endpoint w i"
  "get_endpoint (w\<lparr>alertKeys := aks\<rparr>) i = get_endpoint w i"
  "get_endpoint (w\<lparr>requests := rqs\<rparr>) i = get_endpoint w i"
  "get_event (w\<lparr>clock := c\<rparr>) i = get_event w i"
  "get_event (w\<lparr>drift := dr\<rparr>) i = get_event w i"
  "get_event (w\<lparr>fresh := n\<rparr>) i = get_event w i"
  "get_event (w\<lparr>published := ps\<rparr>) i = get_event w i"
  "get_event (w\<lparr>emitted := es\<rparr>) i = get_event w i"
  "get_event (w\<lparr>buckets := bs\<rparr>) i = get_event w i"
  "get_event (w\<lparr>alertKeys := aks\<rparr>) i = get_event w i"
  "get_event (w\<lparr>requests := rqs\<rparr>) i = get_event w i"
  by (simp_all add: get_delivery_def get_endpoint_def get_event_def)

lemma pop_fault_fields [simp]:
  "deliveries (pop_fault w) = deliveries w" "endpoints (pop_fault w) = endpoints w"
  "events (pop_fault w) = events w" "attempts (pop_fault w) = attempts w"
  "published (pop_fault w) = published w" "emitted (pop_fault w) = emitted w"
  "buckets (pop_fault w) = buckets w" "projects (pop_fault w) = projects w"
  "memberships (pop_fault w) = memberships w" "users (pop_fault w) = users w"
  "apiKeys (pop_fault w) = apiKeys w" "refreshTokens (pop_fault w) = refreshTokens w"
  "alertKeys (pop_fault w) = alertKeys w" "requests (pop_fault w) = requests w"
  "clock (pop_fault w) = clock w" "drift (pop_fault w) = drift w" "fresh (pop_fault w) = fresh w"
  "suffixes (pop_fault w) = suffixes w"
  by (simp_all add: pop_fault_def)

lemma upd_fields [simp]:
  "endpoints (upd_delivery i f w) = endpoints w" "deliveries (upd_endpoint i g w) = deliveries w"
  "attempts (upd_delivery i f w) = attempts w" "attempts (upd_endpoint i g w) = attempts w"
  "requests (upd_delivery i f w) = requests w" "requests (upd_endpoint i g w) = requests w"
  "published (upd_delivery i f w) = published w" "published (upd_endpoint i g w) = published w"
  "emitted (upd_delivery i f w) = emitted w" "emitted (upd_endpoint i g w) = emitted w"
  "events (upd_delivery i f w) = events w" "events (upd_endpoint i g w) = events w"
  "projects (upd_delivery i f w) = projects w" "projects (upd_endpoint i g w) = projects w"
  "buckets (upd_delivery i f w) = buckets w" "buckets (upd_endpoint i g w) = buckets w"
  "faults (upd_delivery i f w) = faults w" "faults (upd_endpoint i g w) = faults w"
  "next_fault (upd_delivery i f w) = next_fault w" "next_fault (upd_endpoint i g w) = next_fault w"
  "clock (upd_delivery i f w) = clock w" "clock (upd_endpoint i g w) = clock w"
  "drift (upd_delivery i f w) = drift w" "drift (upd_endpoint i g w) = drift w"
  "fresh (upd_delivery i f w) = fresh w" "fresh (upd_endpoint i g w) = fresh w"
  "suffixes (upd_delivery i f w) = suffixes w" "suffixes (upd_endpoint i g w) = suffixes w"
  by (simp_all add: upd_delivery_def upd_endpoint_def next_fault_def)

lemma add_attempt_fields [simp]:
  "deliveries (add_attempt a w) = deliveries w" "endpoints (add_attempt a w) = endpoints w"
  "attempts (add_attempt a w) = attempts w @ [a]" "published (add_attempt a w) = published w"
  "emitted (add_attempt a w) = emitted w" "events (add_attempt a w) = events w"
  "requests (add_attempt a w) = requests w" "projects (add_attempt a w) = projects w" "buckets (add_attempt a w) = buckets w"
  "faults (add_attempt a w) = faults w" "next_fault (add_attempt a w) = next_fault w"
  "clock (add_attempt a w) = clock w" "drift (add_attempt a w) = drift w"
  "fresh (add_attempt a w) = fresh w" "suffixes (add_attempt a w) = suffixes w"
  by (simp_all add: add_attempt_def next_fault_def)

section \<open>Frames\<close>

text \<open>What every process keeps: rows are never lost, tables and the broker's log only grow.\<close>

definition grows :: "('a \<Rightarrow> bool) \<Rightarrow> 'a list \<Rightarrow> 'a list \<Rightarrow> bool" where
  "grows P xs ys \<longleftrightarrow> (\<exists>zs. ys = xs @ zs \<and> (\<forall>z \<in> set zs. P z))"

lemma grows_refl [simp]: "grows P xs xs"
  by (auto simp: grows_def)

lemma grows_snoc [simp]: "grows P xs (xs @ [z]) \<longleftrightarrow> P z"
  by (auto simp: grows_def)

lemma grows_trans: "grows P xs ys \<Longrightarrow> grows P ys zs \<Longrightarrow> grows P xs zs"
  by (force simp: grows_def)

lemma growsD: "grows P xs ys \<Longrightarrow> set xs \<subseteq> set ys"
  by (auto simp: grows_def)

lemma grows_mono: "grows P xs ys \<Longrightarrow> (\<And>z. P z \<Longrightarrow> Q z) \<Longrightarrow> grows Q xs ys"
  by (auto simp: grows_def)

text \<open>The frame of the process that handles delivery \<open>i\<close>: another delivery's row, and every
  attempt and message recorded so far, are left alone.\<close>

definition only_delivery :: "string \<Rightarrow> world \<Rightarrow> world \<Rightarrow> bool" where
  "only_delivery i w w' \<longleftrightarrow>
    (\<forall>j. j \<noteq> i \<longrightarrow> get_delivery w' j = get_delivery w j) \<and>
    (get_delivery w i = None \<longleftrightarrow> get_delivery w' i = None) \<and>
    (\<forall>v. get_event w' v = get_event w v) \<and>
    grows (\<lambda>a. a_deliveryId a = i) (attempts w) (attempts w') \<and>
    grows (\<lambda>p. mb_deliveryId (pub_body p) = i) (published w) (published w')"

interpretation od: frame_order "only_delivery i" for i
  by unfold_locales (auto simp: only_delivery_def intro: grows_trans)

end
