(* ===== verification/Broker.thy ===== *)
theory Broker
  imports World
begin

text \<open>
  \<open>src/backend/src/shared/queue/\<close>: the queue topology and its declaration
  (\<open>topology.js\<close>), the publisher (\<open>publisher.js\<close>) and the connection loop
  (\<open>connection.js\<close>).  Declaring the topology is a list of channel commands; a message the
  confirm channel accepted is appended to \<open>published\<close>.
\<close>

section \<open>Topology\<close>

record exchanges =
  ex_main :: string
  ex_retry :: string
  ex_dlx :: string

record delay_queue =
  dq_level :: string
  dq_delayMs :: int
  dq_queue :: string
  dq_routingKey :: string

record topology =
  tp_namespace :: string
  tp_exchanges :: exchanges
  tp_deliveryQueue :: string
  tp_deliveryRoutingKey :: string
  tp_retryQueues :: "delay_queue list"
  tp_throttleQueue :: delay_queue
  tp_deadLetterQueue :: string
  tp_deadLetterRoutingKey :: string

definition DEFAULT_NAMESPACE :: string where "DEFAULT_NAMESPACE = ''webhook''"
definition DELIVERY_ROUTING_KEY :: string where "DELIVERY_ROUTING_KEY = ''delivery''"
definition DLQ_ROUTING_KEY :: string where "DLQ_ROUTING_KEY = ''dlq''"
definition THROTTLE_LEVEL :: string where "THROTTLE_LEVEL = ''10s''"

definition retry_queue :: "string \<Rightarrow> retry_level \<Rightarrow> delay_queue" where
  "retry_queue ns l =
    \<lparr>dq_level = rl_level l, dq_delayMs = rl_delayMs l,
     dq_queue = ns @ ''.retry.'' @ rl_level l, dq_routingKey = ''retry.'' @ rl_level l\<rparr>"

definition createTopology :: "string \<Rightarrow> retry_level list \<Rightarrow> int \<Rightarrow> topology" where
  "createTopology ns schedule throttleDelayMs =
    \<lparr>tp_namespace = ns,
     tp_exchanges = \<lparr>ex_main = ns @ ''.exchange'', ex_retry = ns @ ''.retry'', ex_dlx = ns @ ''.dlx''\<rparr>,
     tp_deliveryQueue = ns @ ''.delivery'',
     tp_deliveryRoutingKey = DELIVERY_ROUTING_KEY,
     tp_retryQueues = map (retry_queue ns) schedule,
     tp_throttleQueue =
       \<lparr>dq_level = THROTTLE_LEVEL, dq_delayMs = throttleDelayMs,
        dq_queue = ns @ ''.throttle.'' @ THROTTLE_LEVEL, dq_routingKey = ''throttle.'' @ THROTTLE_LEVEL\<rparr>,
     tp_deadLetterQueue = ns @ ''.dlq'',
     tp_deadLetterRoutingKey = DLQ_ROUTING_KEY\<rparr>"

definition default_topology :: topology where
  "default_topology = createTopology DEFAULT_NAMESPACE RETRY_SCHEDULE THROTTLE_DELAY_MS"

record delay_arguments =
  xa_messageTtl :: int
  xa_deadLetterExchange :: string
  xa_deadLetterRoutingKey :: string

definition delayQueueArguments :: "topology \<Rightarrow> int \<Rightarrow> delay_arguments" where
  "delayQueueArguments t delayMs =
    \<lparr>xa_messageTtl = delayMs, xa_deadLetterExchange = ex_main (tp_exchanges t),
     xa_deadLetterRoutingKey = tp_deliveryRoutingKey t\<rparr>"

datatype channel_command =
  AssertExchange string string
| AssertQueue string "delay_arguments option"
| BindQueue string string string

definition declare_delay_queue :: "topology \<Rightarrow> delay_queue \<Rightarrow> channel_command list" where
  "declare_delay_queue t l =
    [AssertQueue (dq_queue l) (Some (delayQueueArguments t (dq_delayMs l))),
     BindQueue (dq_queue l) (ex_retry (tp_exchanges t)) (dq_routingKey l)]"

definition assertTopology :: "topology \<Rightarrow> channel_command list" where
  "assertTopology t =
    [AssertExchange (ex_main (tp_exchanges t)) ''direct'',
     AssertExchange (ex_retry (tp_exchanges t)) ''direct'',
     AssertExchange (ex_dlx (tp_exchanges t)) ''direct'',
     AssertQueue (tp_deliveryQueue t) None,
     BindQueue (tp_deliveryQueue t) (ex_main (tp_exchanges t)) (tp_deliveryRoutingKey t)]
    @ concat (map (declare_delay_queue t) (tp_retryQueues t @ [tp_throttleQueue t]))
    @ [AssertQueue (tp_deadLetterQueue t) None,
       BindQueue (tp_deadLetterQueue t) (ex_dlx (tp_exchanges t)) (tp_deadLetterRoutingKey t)]"

definition allQueueNames :: "topology \<Rightarrow> string list" where
  "allQueueNames t =
    [tp_deliveryQueue t] @ map dq_queue (tp_retryQueues t)
    @ [dq_queue (tp_throttleQueue t), tp_deadLetterQueue t]"

section \<open>Publisher\<close>

record publisher =
  pb_topology :: topology
  pb_random :: rat
  pb_deadLetterTtlMs :: int

definition HOUR_MS :: int where "HOUR_MS = 60 * 60 * 1000"

definition DEFAULT_DEAD_LETTER_TTL_MS :: int where
  "DEFAULT_DEAD_LETTER_TTL_MS = 24 * HOUR_MS"

definition messageFor :: "string \<Rightarrow> int \<Rightarrow> exn + message_body" where
  "messageFor deliveryId attempt =
    (case assertId ''delivery'' deliveryId of
       Inl e \<Rightarrow> Inl e
     | Inr _ \<Rightarrow>
         if attempt < 1 then Inl (JsError None None ''Expected a 1-based attempt number'')
         else Inr \<lparr>mb_deliveryId = deliveryId, mb_attempt = attempt\<rparr>)"

definition publish :: "string \<Rightarrow> string \<Rightarrow> message_body \<Rightarrow> int option \<Rightarrow> unit act" where
  "publish exchange routingKey payload expiration =
    effect (\<lambda>w. w\<lparr>published := published w @
      [\<lparr>pub_exchange = exchange, pub_routingKey = routingKey, pub_body = payload,
        pub_expiration = expiration\<rparr>]\<rparr>)"

definition delayLevel :: "publisher \<Rightarrow> string \<Rightarrow> exn + delay_queue" where
  "delayLevel pb l =
    (case find (\<lambda>entry. dq_level entry = l) (tp_retryQueues (pb_topology pb)) of
       None \<Rightarrow> Inl (JsError None None (''Unknown retry level '' @ l))
     | Some found \<Rightarrow> Inr found)"

definition publishDelivery :: "publisher \<Rightarrow> string \<Rightarrow> int \<Rightarrow> unit act" where
  "publishDelivery pb deliveryId attempt =
    io_bind (lift (messageFor deliveryId attempt)) (\<lambda>m.
      publish (ex_main (tp_exchanges (pb_topology pb))) (tp_deliveryRoutingKey (pb_topology pb)) m None)"

definition publishRetry :: "publisher \<Rightarrow> string \<Rightarrow> int \<Rightarrow> string \<Rightarrow> unit act" where
  "publishRetry pb deliveryId attempt l =
    io_bind (lift (delayLevel pb l)) (\<lambda>target.
    io_bind (lift (messageFor deliveryId attempt)) (\<lambda>m.
      publish (ex_retry (tp_exchanges (pb_topology pb))) (dq_routingKey target) m
        (Some (applyJitter (dq_delayMs target) (pb_random pb)))))"

definition publishThrottle :: "publisher \<Rightarrow> string \<Rightarrow> int \<Rightarrow> unit act" where
  "publishThrottle pb deliveryId attempt =
    io_bind (lift (messageFor deliveryId attempt)) (\<lambda>m.
      publish (ex_retry (tp_exchanges (pb_topology pb)))
        (dq_routingKey (tp_throttleQueue (pb_topology pb))) m None)"

definition publishDeadLetter :: "publisher \<Rightarrow> string \<Rightarrow> int \<Rightarrow> unit act" where
  "publishDeadLetter pb deliveryId attempt =
    io_bind (lift (messageFor deliveryId attempt)) (\<lambda>m.
      publish (ex_dlx (tp_exchanges (pb_topology pb))) (tp_deadLetterRoutingKey (pb_topology pb)) m
        (Some (pb_deadLetterTtlMs pb)))"

section \<open>Connecting\<close>

text \<open>
  \<open>connectWithRetry\<close>: \<open>try_connect n\<close> is what the n-th call of \<open>connect(url)\<close> gives.  The
  result carries the delays slept; with no attempts allowed the code throws \<open>undefined\<close>.
\<close>

definition backoff :: "int \<Rightarrow> int \<Rightarrow> nat \<Rightarrow> int" where
  "backoff baseDelayMs maxDelayMs attempt = min (baseDelayMs * 2 ^ (attempt - 1)) maxDelayMs"

function connect_loop ::
  "(nat \<Rightarrow> 'e + 'c) \<Rightarrow> nat \<Rightarrow> int \<Rightarrow> int \<Rightarrow> nat \<Rightarrow> 'e option \<Rightarrow> int list \<Rightarrow> ('e option + 'c) \<times> int list"
where
  "connect_loop try_connect tries baseDelayMs maxDelayMs attempt lastError slept =
    (if attempt \<le> tries then
       (case try_connect attempt of
          Inr c \<Rightarrow> (Inr c, slept)
        | Inl e \<Rightarrow>
            if attempt = tries then (Inl (Some e), slept)
            else connect_loop try_connect tries baseDelayMs maxDelayMs (Suc attempt) (Some e)
                   (slept @ [backoff baseDelayMs maxDelayMs attempt]))
     else (Inl lastError, slept))"
  by pat_completeness auto
termination
  by (relation "measure (\<lambda>(_, tries, _, _, attempt, _, _). Suc tries - attempt)") auto

declare connect_loop.simps [simp del]

definition connectWithRetry ::
  "(nat \<Rightarrow> 'e + 'c) \<Rightarrow> nat \<Rightarrow> int \<Rightarrow> int \<Rightarrow> ('e option + 'c) \<times> int list" where
  "connectWithRetry try_connect tries baseDelayMs maxDelayMs =
    connect_loop try_connect tries baseDelayMs maxDelayMs 1 None []"

section \<open>Facts about the topology\<close>

definition levels_distinct :: "retry_level list \<Rightarrow> bool" where
  "levels_distinct schedule \<longleftrightarrow> distinct (map rl_level schedule)"

lemma levels_distinct_default: "levels_distinct RETRY_SCHEDULE"
  by (simp add: levels_distinct_def RETRY_SCHEDULE_def)

lemma createTopology_fields [simp]:
  "tp_exchanges (createTopology ns s d) =
     \<lparr>ex_main = ns @ ''.exchange'', ex_retry = ns @ ''.retry'', ex_dlx = ns @ ''.dlx''\<rparr>"
  "tp_retryQueues (createTopology ns s d) = map (retry_queue ns) s"
  "tp_deliveryQueue (createTopology ns s d) = ns @ ''.delivery''"
  "tp_deliveryRoutingKey (createTopology ns s d) = ''delivery''"
  "tp_deadLetterQueue (createTopology ns s d) = ns @ ''.dlq''"
  "tp_deadLetterRoutingKey (createTopology ns s d) = ''dlq''"
  "dq_routingKey (tp_throttleQueue (createTopology ns s d)) = ''throttle.10s''"
  "dq_queue (tp_throttleQueue (createTopology ns s d)) = ns @ ''.throttle.10s''"
  "dq_delayMs (tp_throttleQueue (createTopology ns s d)) = d"
  by (simp_all add: createTopology_def DELIVERY_ROUTING_KEY_def DLQ_ROUTING_KEY_def THROTTLE_LEVEL_def)

lemma retry_queue_simps [simp]:
  "dq_level (retry_queue ns l) = rl_level l" "dq_delayMs (retry_queue ns l) = rl_delayMs l"
  "dq_queue (retry_queue ns l) = ns @ ''.retry.'' @ rl_level l"
  "dq_routingKey (retry_queue ns l) = ''retry.'' @ rl_level l"
  by (simp_all add: retry_queue_def)

lemma delayLevel_schedule:
  assumes "pb_topology pb = createTopology ns schedule d" "levels_distinct schedule" "l \<in> set schedule"
  shows "delayLevel pb (rl_level l) = Inr (retry_queue ns l)"
proof -
  have "find (\<lambda>entry. dq_level entry = rl_level l) (map (retry_queue ns) schedule) = Some (retry_queue ns l)"
    using assms(2,3) by (induction schedule) (auto simp: levels_distinct_def image_iff)
  then show ?thesis by (simp add: delayLevel_def assms(1))
qed

text \<open>The queues a message reaches: those bound to its exchange with its routing key.\<close>

definition bound_queues :: "channel_command list \<Rightarrow> string \<Rightarrow> string \<Rightarrow> string list" where
  "bound_queues cmds exchange key =
    concat (map (\<lambda>c. case c of BindQueue q e k \<Rightarrow> if e = exchange \<and> k = key then [q] else [] | _ \<Rightarrow> []) cmds)"

definition queue_arguments :: "channel_command list \<Rightarrow> string \<Rightarrow> delay_arguments option list" where
  "queue_arguments cmds q =
    concat (map (\<lambda>c. case c of AssertQueue q' args \<Rightarrow> if q' = q then [args] else [] | _ \<Rightarrow> []) cmds)"

lemma bound_queues_append [simp]:
  "bound_queues (xs @ ys) e k = bound_queues xs e k @ bound_queues ys e k"
  "bound_queues (c # ys) e k =
    (case c of BindQueue q e' k' \<Rightarrow> if e' = e \<and> k' = k then [q] else [] | _ \<Rightarrow> []) @ bound_queues ys e k"
  "bound_queues [] e k = []"
  by (simp_all add: bound_queues_def)

lemma queue_arguments_append [simp]:
  "queue_arguments (xs @ ys) q = queue_arguments xs q @ queue_arguments ys q"
  "queue_arguments (c # ys) q =
    (case c of AssertQueue q' args \<Rightarrow> if q' = q then [args] else [] | _ \<Rightarrow> []) @ queue_arguments ys q"
  "queue_arguments [] q = []"
  by (simp_all add: queue_arguments_def)

lemma bound_queues_delay:
  "bound_queues (concat (map (declare_delay_queue t) qs)) e k =
    map dq_queue (filter (\<lambda>q. dq_routingKey q = k \<and> ex_retry (tp_exchanges t) = e) qs)"
  by (induction qs) (auto simp: declare_delay_queue_def)

lemma queue_arguments_delay:
  "queue_arguments (concat (map (declare_delay_queue t) qs)) n =
    map (\<lambda>q. Some (delayQueueArguments t (dq_delayMs q))) (filter (\<lambda>q. dq_queue q = n) qs)"
  by (induction qs) (auto simp: declare_delay_queue_def)

lemma filter_level:
  "levels_distinct schedule \<Longrightarrow> l \<in> set schedule \<Longrightarrow> filter (\<lambda>x. rl_level x = rl_level l) schedule = [l]"
  by (induction schedule) (auto simp: levels_distinct_def image_iff filter_empty_conv)

lemma connect_loop_delays:
  assumes "0 \<le> b" "0 \<le> m" "\<forall>d \<in> set sl. 0 \<le> d \<and> d \<le> m"
    and "connect_loop f n b m k le sl = (r, ds)"
  shows "(\<forall>d \<in> set ds. 0 \<le> d \<and> d \<le> m) \<and> length ds \<le> length sl + (n - k)"
  using assms
proof (induction f n b m k le sl arbitrary: r ds rule: connect_loop.induct)
  case (1 f n b m k le sl)
  have *: "\<forall>d \<in> set (sl @ [backoff b m k]). 0 \<le> d \<and> d \<le> m"
    using "1.prems" by (auto simp: backoff_def)
  show ?case
  proof (cases "k \<le> n \<and> k \<noteq> n \<and> isl (f k)")
    case True
    then obtain e where e: "f k = Inl e" by (auto simp: isl_def)
    have "connect_loop f n b m (Suc k) (Some e) (sl @ [backoff b m k]) = (r, ds)"
      using "1.prems"(4) True e by (subst (asm) connect_loop.simps) simp
    from "1.IH"[OF _ e _ "1.prems"(1,2) * this] True show ?thesis by auto
  next
    case False
    then show ?thesis
      using "1.prems" by (subst (asm) connect_loop.simps) (auto split: if_splits sum.splits)
  qed
qed

end
