(* ===== verification/Js_Number.thy ===== *)
theory Js_Number
  imports Prelude Complex_Main
begin

text \<open>
  The language's conversions between numbers and strings, as the code uses them:
  \<open>Number(s)\<close> on a string, \<open>String(n)\<close> on a non-negative integer and \<open>parseInt(s, 16)\<close>.
  Values are exact rationals; doubles round where these do not.
\<close>

datatype jsnum = NaN | Infinity bool | Fin rat

definition js_finite :: "jsnum \<Rightarrow> rat option" where
  "js_finite x = (case x of Fin q \<Rightarrow> Some q | _ \<Rightarrow> None)"

text \<open>Comparisons with \<open>NaN\<close> are false.\<close>

definition js_eq :: "jsnum \<Rightarrow> int \<Rightarrow> bool" where
  "js_eq x k \<longleftrightarrow> x = Fin (of_int k)"

definition js_ge :: "jsnum \<Rightarrow> int \<Rightarrow> bool" where
  "js_ge x k \<longleftrightarrow> (case x of NaN \<Rightarrow> False | Infinity pos \<Rightarrow> pos | Fin q \<Rightarrow> of_int k \<le> q)"

definition js_le :: "jsnum \<Rightarrow> int \<Rightarrow> bool" where
  "js_le x k \<longleftrightarrow> (case x of NaN \<Rightarrow> False | Infinity pos \<Rightarrow> \<not> pos | Fin q \<Rightarrow> q \<le> of_int k)"

definition is_space :: "char \<Rightarrow> bool" where
  "is_space c \<longleftrightarrow> (of_char c :: nat) \<in> {9, 10, 11, 12, 13, 32, 160}"

definition trim :: "string \<Rightarrow> string" where
  "trim s = rev (dropWhile is_space (rev (dropWhile is_space s)))"

definition digit_val :: "char \<Rightarrow> nat" where
  "digit_val c =
    (let n = (of_char c :: nat) in
     if is_digit c then n - 48
     else if 97 \<le> n \<and> n \<le> 122 then n - 87
     else if 65 \<le> n \<and> n \<le> 90 then n - 55
     else 36)"

definition base_val :: "nat \<Rightarrow> string \<Rightarrow> nat" where
  "base_val b s = foldl (\<lambda>a c. b * a + digit_val c) 0 s"

definition in_base :: "nat \<Rightarrow> string \<Rightarrow> bool" where
  "in_base b s \<longleftrightarrow> s \<noteq> [] \<and> list_all (\<lambda>c. digit_val c < b) s"

definition exponent_part :: "rat \<Rightarrow> string \<Rightarrow> jsnum" where
  "exponent_part v r =
    (case r of
       [] \<Rightarrow> Fin v
     | e # t \<Rightarrow>
         if e \<noteq> CHR ''e'' \<and> e \<noteq> CHR ''E'' then NaN
         else (let neg = (case t of c # _ \<Rightarrow> c = CHR ''-'' | [] \<Rightarrow> False);
                   ds = (case t of c # u \<Rightarrow> if c = CHR ''-'' \<or> c = CHR ''+'' then u else t | [] \<Rightarrow> [])
               in if in_base 10 ds
                  then Fin (if neg then v / 10 ^ base_val 10 ds else v * 10 ^ base_val 10 ds)
                  else NaN))"

definition unsigned_decimal :: "string \<Rightarrow> jsnum" where
  "unsigned_decimal s =
    (let ip = takeWhile is_digit s; r = dropWhile is_digit s in
     case r of
       [] \<Rightarrow> if ip = [] then NaN else Fin (of_nat (base_val 10 ip))
     | c # t \<Rightarrow>
         if c = CHR ''.'' then
           (let fp = takeWhile is_digit t; u = dropWhile is_digit t in
            if ip = [] \<and> fp = [] then NaN
            else exponent_part (of_nat (base_val 10 ip)
                                + of_nat (base_val 10 fp) / 10 ^ length fp) u)
         else if ip = [] then NaN
         else exponent_part (of_nat (base_val 10 ip)) r)"

definition js_neg :: "jsnum \<Rightarrow> jsnum" where
  "js_neg x = (case x of NaN \<Rightarrow> NaN | Infinity b \<Rightarrow> Infinity (\<not> b) | Fin q \<Rightarrow> Fin (- q))"

definition magnitude :: "string \<Rightarrow> jsnum" where
  "magnitude s = (if s = ''Infinity'' then Infinity True else unsigned_decimal s)"

definition radix_literal :: "string \<Rightarrow> (nat \<times> string) option" where
  "radix_literal s =
    (case s of
       z # x # t \<Rightarrow>
         if z \<noteq> CHR ''0'' then None
         else if x = CHR ''x'' \<or> x = CHR ''X'' then Some (16, t)
         else if x = CHR ''o'' \<or> x = CHR ''O'' then Some (8, t)
         else if x = CHR ''b'' \<or> x = CHR ''B'' then Some (2, t)
         else None
     | _ \<Rightarrow> None)"

definition jsNumber :: "string \<Rightarrow> jsnum" where
  "jsNumber raw =
    (let s = trim raw in
     if s = [] then Fin 0
     else (case radix_literal s of
       Some (b, t) \<Rightarrow> if in_base b t then Fin (of_nat (base_val b t)) else NaN
     | None \<Rightarrow>
         (case s of
            c # t \<Rightarrow> if c = CHR ''-'' then js_neg (magnitude t)
                     else if c = CHR ''+'' then magnitude t else magnitude s
          | [] \<Rightarrow> Fin 0)))"

text \<open>\<open>parseInt(s, 16)\<close>: leading space, sign and \<open>0x\<close> are skipped, the longest run of hex
  digits is read, and an empty run is \<open>NaN\<close>.\<close>

definition strip_0x :: "string \<Rightarrow> string" where
  "strip_0x s = (case s of z # x # t \<Rightarrow>
      if z = CHR ''0'' \<and> (x = CHR ''x'' \<or> x = CHR ''X'') then t else s | _ \<Rightarrow> s)"

definition parseInt16 :: "string \<Rightarrow> int option" where
  "parseInt16 raw =
    (let s = dropWhile is_space raw;
         neg = (case s of c # _ \<Rightarrow> c = CHR ''-'' | [] \<Rightarrow> False);
         u = (case s of c # t \<Rightarrow> if c = CHR ''-'' \<or> c = CHR ''+'' then t else s | [] \<Rightarrow> []);
         ds = takeWhile (\<lambda>c. digit_val c < 16) (strip_0x u)
     in if ds = [] then None
        else Some (if neg then - int (base_val 16 ds) else int (base_val 16 ds)))"

section \<open>Printing\<close>

definition digit_char :: "nat \<Rightarrow> char" where
  "digit_char d = (if d < 10 then char_of (48 + d) else char_of (87 + d))"

text \<open>\<open>n.toString(b)\<close> for \<open>2 \<le> b \<le> 36\<close>; \<open>String(n)\<close> is base ten.\<close>

fun base_str :: "nat \<Rightarrow> nat \<Rightarrow> string" where
  "base_str b n =
    (if n < b \<or> b < 2 then [digit_char n] else base_str b (n div b) @ [digit_char (n mod b)])"

declare base_str.simps [simp del]

abbreviation nat_str :: "nat \<Rightarrow> string" where
  "nat_str \<equiv> base_str 10"

text \<open>\<open>String(n)\<close> on an integer.\<close>

definition int_str :: "int \<Rightarrow> string" where
  "int_str n = (if n < 0 then CHR ''-'' # nat_str (nat (- n)) else nat_str (nat n))"

section \<open>Reading back what was printed\<close>

lemma of_char_digit_char: "d < 36 \<Longrightarrow> (of_char (digit_char d) :: nat) = (if d < 10 then 48 + d else 87 + d)"
  by (simp add: digit_char_def of_char_of take_bit_eq_mod)

lemma digit_val_digit_char [simp]: "d < 36 \<Longrightarrow> digit_val (digit_char d) = d"
  by (simp add: digit_val_def is_digit_def of_char_digit_char Let_def)

lemma base_val_snoc: "base_val b (s @ [c]) = b * base_val b s + digit_val c"
  by (simp add: base_val_def)

lemma base_str_spec:
  assumes "2 \<le> b" "b \<le> 36"
  shows "base_val b (base_str b n) = n \<and> in_base b (base_str b n)"
  using assms
proof (induction b n rule: base_str.induct)
  case (1 b n)
  show ?case
  proof (cases "n < b")
    case True
    with 1 show ?thesis by (simp add: base_str.simps[of b n] base_val_def in_base_def)
  next
    case False
    have "n mod b < b" using 1 by simp
    moreover from this have "digit_val (digit_char (n mod b)) = n mod b"
      using 1(3) by (intro digit_val_digit_char) linarith
    ultimately show ?thesis using 1 False
      by (simp add: base_str.simps[of b n] base_val_snoc in_base_def)
  qed
qed

lemma is_digit_iff: "is_digit c \<longleftrightarrow> digit_val c < 10"
  by (auto simp: digit_val_def is_digit_def Let_def)

lemma nat_str_digits: "list_all is_digit (nat_str n)" "nat_str n \<noteq> []" "base_val 10 (nat_str n) = n"
  using base_str_spec[of 10 n] by (simp_all add: in_base_def is_digit_iff[abs_def])

lemma is_digit_not_space: "is_digit c \<Longrightarrow> \<not> is_space c"
  by (auto simp: is_digit_def is_space_def)

lemma trim_no_space:
  assumes "list_all (\<lambda>c. \<not> is_space c) s"
  shows "trim s = s"
proof -
  have "dropWhile is_space t = t" if "list_all (\<lambda>c. \<not> is_space c) t" for t
    using that by (cases t) auto
  with assms show ?thesis by (simp add: trim_def)
qed

lemma radix_literal_digits: "list_all is_digit s \<Longrightarrow> radix_literal s = None"
  by (auto simp: radix_literal_def is_digit_def split: list.splits)

lemma unsigned_decimal_digits:
  assumes "list_all is_digit s" "s \<noteq> []"
  shows "unsigned_decimal s = Fin (of_nat (base_val 10 s))"
proof -
  have tw: "takeWhile is_digit s = s" and dw: "dropWhile is_digit s = []"
    using assms by (simp_all add: list_all_iff takeWhile_eq_all_conv)
  show ?thesis using assms(2) unfolding unsigned_decimal_def Let_def tw dw by simp
qed

lemma jsNumber_digits:
  assumes "list_all is_digit s" "s \<noteq> []"
  shows "jsNumber s = Fin (of_nat (base_val 10 s))"
proof -
  have t: "trim s = s" using assms is_digit_not_space by (intro trim_no_space) (auto simp: list_all_iff)
  obtain c u where s: "s = c # u" using assms by (cases s) auto
  then have "c \<noteq> CHR ''-''" "c \<noteq> CHR ''+''" "c \<noteq> CHR ''I''"
    using assms by (auto simp: is_digit_def)
  with s show ?thesis
    using radix_literal_digits[OF assms(1)] unsigned_decimal_digits[OF assms] t
    by (simp add: jsNumber_def Let_def magnitude_def)
qed

lemma jsNumber_nat_str [simp]: "jsNumber (nat_str n) = Fin (of_nat n)"
  using nat_str_digits[of n] by (simp add: jsNumber_digits)

lemma base_str_chars: "2 \<le> b \<Longrightarrow> b \<le> 36 \<Longrightarrow> c \<in> set (base_str b n) \<Longrightarrow> is_alnum c"
proof (induction b n rule: base_str.induct)
  case (1 b n)
  have "is_alnum (digit_char d)" if "d < 36" for d
    using that by (auto simp: is_alnum_def is_lower_def is_digit_def of_char_digit_char)
  moreover have "n mod b < b" using 1 by simp
  then have "n mod b < 36" "n < b \<Longrightarrow> n < 36" using 1(3) by linarith+
  ultimately show ?case using 1 base_str.simps[of b n] by (auto split: if_splits)
qed

lemma parseInt16_base_str [simp]: "parseInt16 (base_str 16 n) = Some (int n)"
proof -
  let ?s = "base_str 16 n"
  have spec: "base_val 16 ?s = n" "?s \<noteq> []" "list_all (\<lambda>c. digit_val c < 16) ?s"
    using base_str_spec[of 16 n] by (simp_all add: in_base_def)
  then have small: "digit_val c < 16" if "c \<in> set ?s" for c using that by (simp add: list_all_iff)
  have sp: "\<not> is_space c \<and> c \<noteq> CHR ''-'' \<and> c \<noteq> CHR ''+'' \<and> c \<noteq> CHR ''x'' \<and> c \<noteq> CHR ''X''" if "c \<in> set ?s" for c
    using small[OF that] base_str_chars[OF _ _ that]
    by (auto simp: is_space_def is_alnum_def is_lower_def is_digit_def digit_val_def)
  obtain c t where s: "?s = c # t" using spec(2) by (cases ?s) auto
  have tw: "takeWhile (\<lambda>c. digit_val c < 16) (c # t) = c # t"
    using small s by (simp add: takeWhile_eq_all_conv)
  have x: "strip_0x (c # t) = c # t" using sp s by (auto simp: strip_0x_def split: list.splits)
  have dw: "dropWhile is_space (c # t) = c # t" and minus: "(c = CHR ''-'') = False"
    and u: "(if c = CHR ''-'' \<or> c = CHR ''+'' then t else c # t) = c # t"
    using sp[of c] s by simp_all
  show ?thesis
    unfolding parseInt16_def s Let_def dw list.case
    unfolding u x tw
    unfolding minus using spec(1) s by simp
qed

end
