(* ===== verification/Ssrf.thy ===== *)
theory Ssrf
  imports Js_Number "HOL-Library.Word"
begin

unbundle bit_operations_syntax

text \<open>
  \<open>src/backend/src/shared/ssrf.js\<close>: the guard every outbound URL passes.  The address
  classifier works on the text of an address as the code does: IPv4 by its decimal parts,
  IPv6 by its sixteen bytes.  \<open>isIP\<close>, \<open>new URL\<close> and the DNS lookup belong to the
  platform and are arguments of \<open>resolveSafeTarget\<close>.
\<close>

datatype addr_class =
  Public | Private | Loopback | Cgnat | LinkLocal | Reserved | Multicast | UniqueLocal | Unknown

section \<open>IPv4\<close>

definition part :: "string list \<Rightarrow> nat \<Rightarrow> jsnum" where
  "part ps i = (if i < length ps then jsNumber (ps ! i) else NaN)"

definition classifyIpv4 :: "string \<Rightarrow> addr_class" where
  "classifyIpv4 address =
    (let ps = split_on (CHR ''.'') address;
         first = part ps 0; second = part ps 1; third = part ps 2
     in if js_eq first 0 then Reserved
        else if js_eq first 10 then Private
        else if js_eq first 127 then Loopback
        else if js_eq first 100 \<and> js_ge second 64 \<and> js_le second 127 then Cgnat
        else if js_eq first 169 \<and> js_eq second 254 then LinkLocal
        else if js_eq first 172 \<and> js_ge second 16 \<and> js_le second 31 then Private
        else if js_eq first 192 \<and> js_eq second 0 \<and> js_eq third 0 then Reserved
        else if js_eq first 192 \<and> js_eq second 0 \<and> js_eq third 2 then Reserved
        else if js_eq first 192 \<and> js_eq second 168 then Private
        else if js_eq first 198 \<and> (js_eq second 18 \<or> js_eq second 19) then Reserved
        else if js_eq first 198 \<and> js_eq second 51 \<and> js_eq third 100 then Reserved
        else if js_eq first 203 \<and> js_eq second 0 \<and> js_eq third 113 then Reserved
        else if js_ge first 224 \<and> js_le first 239 then Multicast
        else if js_ge first 240 then Reserved
        else Public)"

section \<open>IPv6\<close>

text \<open>\<open>((a << 8) | b) >>> 0\<close> on the 32-bit conversion of the parts.\<close>

definition to_uint32 :: "jsnum \<Rightarrow> 32 word" where
  "to_uint32 x = (case x of Fin q \<Rightarrow> word_of_int (if q < 0 then - \<lfloor>- q\<rfloor> else \<lfloor>q\<rfloor>) | _ \<Rightarrow> 0)"

definition pair_hex :: "jsnum \<Rightarrow> jsnum \<Rightarrow> string" where
  "pair_hex a b = base_str 16 (unat ((push_bit 8 (to_uint32 a)) OR to_uint32 b))"

definition expandIpv4Suffix :: "string list \<Rightarrow> string list" where
  "expandIpv4Suffix groups =
    (if groups = [] \<or> CHR ''.'' \<notin> set (last groups) then groups
     else (let ps = split_on (CHR ''.'') (last groups)
           in butlast groups @ [pair_hex (part ps 0) (part ps 1), pair_hex (part ps 2) (part ps 3)]))"

definition splitGroups :: "string \<Rightarrow> string list" where
  "splitGroups p = (if p = [] then [] else expandIpv4Suffix (split_on (CHR '':'') p))"

text \<open>\<open>s.split('::')\<close>.\<close>

fun split_dcolon :: "string \<Rightarrow> string list" where
  "split_dcolon [] = [[]]"
| "split_dcolon [c] = [[c]]"
| "split_dcolon (a # b # s) =
    (if a = CHR '':'' \<and> b = CHR '':'' then [] # split_dcolon s
     else (case split_dcolon (b # s) of [] \<Rightarrow> [[a]] | y # ys \<Rightarrow> (a # y) # ys))"

definition lower_char :: "char \<Rightarrow> char" where
  "lower_char c = (let n = (of_char c :: nat) in if 65 \<le> n \<and> n \<le> 90 then char_of (n + 32) else c)"

definition group_bytes :: "string \<Rightarrow> 8 word list option" where
  "group_bytes g =
    (case parseInt16 g of
       None \<Rightarrow> None
     | Some n \<Rightarrow>
         if n < 0 \<or> n > 0xffff then None
         else Some [word_of_int (drop_bit 8 n), word_of_int (n AND 0xff)])"

fun groups_bytes :: "string list \<Rightarrow> 8 word list option" where
  "groups_bytes [] = Some []"
| "groups_bytes (g # gs) =
    (case group_bytes g of
       None \<Rightarrow> None
     | Some bs \<Rightarrow> (case groups_bytes gs of None \<Rightarrow> None | Some r \<Rightarrow> Some (bs @ r)))"

definition ipv6ToBytes :: "string \<Rightarrow> 8 word list option" where
  "ipv6ToBytes address =
    (let sides = split_dcolon (map lower_char address) in
     if length sides > 2 then None
     else (let leading = splitGroups (sides ! 0);
               trailing = (if length sides < 2 then [] else splitGroups (sides ! 1));
               gap = 8 - int (length leading) - int (length trailing);
               groups = (if length sides < 2 then leading
                         else leading @ replicate (nat gap) ''0'' @ trailing)
           in if length groups \<noteq> 8 \<or> gap < 0 then None else groups_bytes groups))"

definition isZeroRange :: "8 word list \<Rightarrow> nat \<Rightarrow> nat \<Rightarrow> bool" where
  "isZeroRange bytes start stop \<longleftrightarrow> (\<forall>i \<in> set [start..<stop]. bytes ! i = 0)"

definition EMBEDDED_IPV4_OFFSETS :: "nat list" where
  "EMBEDDED_IPV4_OFFSETS = [12, 13, 14, 15]"

definition ipv4At :: "8 word list \<Rightarrow> nat list \<Rightarrow> string" where
  "ipv4At bytes offsets = join ''.'' (map (\<lambda>offset. nat_str (unat (bytes ! offset))) offsets)"

definition classify_bytes :: "8 word list \<Rightarrow> addr_class" where
  "classify_bytes bytes =
    (let embedded = classifyIpv4 (ipv4At bytes EMBEDDED_IPV4_OFFSETS);
         nat64 = bytes ! 0 = 0x00 \<and> bytes ! 1 = 0x64 \<and> bytes ! 2 = 0xff \<and> bytes ! 3 = 0x9b;
         rest = (if nat64 \<and> (isZeroRange bytes 4 12 \<or> (bytes ! 4 = 0x00 \<and> bytes ! 5 = 0x01)) then embedded
                 else if bytes ! 0 = 0xfe \<and> (bytes ! 1 AND 0xc0) = 0x80 then LinkLocal
                 else if (bytes ! 0 AND 0xfe) = 0xfc then UniqueLocal
                 else if bytes ! 0 = 0xff then Multicast
                 else Public)
     in if isZeroRange bytes 0 10 then
          (if bytes ! 10 = 0xff \<and> bytes ! 11 = 0xff then embedded
           else if bytes ! 10 = 0 \<and> bytes ! 11 = 0 then
             (if isZeroRange bytes 12 16 then Reserved
              else if isZeroRange bytes 12 15 \<and> bytes ! 15 = 1 then Loopback
              else embedded)
           else rest)
        else rest)"

definition classifyIpv6 :: "string \<Rightarrow> addr_class" where
  "classifyIpv6 address =
    (case ipv6ToBytes address of None \<Rightarrow> Unknown | Some bytes \<Rightarrow> classify_bytes bytes)"

definition classifyAddress :: "(string \<Rightarrow> nat) \<Rightarrow> string \<Rightarrow> addr_class" where
  "classifyAddress isIP address =
    (let version = isIP address in
     if version = 4 then classifyIpv4 address
     else if version = 6 then classifyIpv6 address
     else Unknown)"

section \<open>The guard\<close>

record url =
  url_protocol :: string
  url_hostname :: string
  url_port :: string

record address_entry =
  ad_address :: string
  ad_family :: nat

record target =
  tg_url :: url
  tg_hostname :: string
  tg_port :: jsnum
  tg_address :: string
  tg_family :: nat

datatype ssrf_reason =
  InvalidUrl | UnsupportedScheme | BlockedPort | DnsFailure | PrivateAddress addr_class

definition DEFAULT_PORTS :: "string \<Rightarrow> int option" where
  "DEFAULT_PORTS protocol =
    (if protocol = ''http:'' then Some 80 else if protocol = ''https:'' then Some 443 else None)"

definition targetPort :: "url \<Rightarrow> jsnum" where
  "targetPort u =
    (if url_port u \<noteq> [] then jsNumber (url_port u)
     else (case DEFAULT_PORTS (url_protocol u) of Some p \<Rightarrow> Fin (of_int p) | None \<Rightarrow> NaN))"

text \<open>\<open>hostname.replace(/^\[|\]$/g, '')\<close>: both alternatives, everywhere they match.\<close>

definition strip_brackets :: "string \<Rightarrow> string" where
  "strip_brackets h =
    (let a = (case h of c # t \<Rightarrow> if c = CHR ''['' then t else h | [] \<Rightarrow> [])
     in if a \<noteq> [] \<and> last a = CHR '']'' then butlast a else a)"

fun first_not_public :: "(string \<Rightarrow> nat) \<Rightarrow> address_entry list \<Rightarrow> addr_class option" where
  "first_not_public isIP [] = None"
| "first_not_public isIP (x # xs) =
    (let c = classifyAddress isIP (ad_address x)
     in if c \<noteq> Public then Some c else first_not_public isIP xs)"

definition resolveSafeTarget ::
  "(string \<Rightarrow> url option) \<Rightarrow> (string \<Rightarrow> nat) \<Rightarrow> (string \<Rightarrow> address_entry list option)
    \<Rightarrow> bool \<Rightarrow> string list \<Rightarrow> int list \<Rightarrow> string \<Rightarrow> ssrf_reason + target" where
  "resolveSafeTarget parseUrl isIP lookup allowPrivate allowlistHosts blockedPorts rawUrl =
    (case parseUrl rawUrl of
       None \<Rightarrow> Inl InvalidUrl
     | Some u \<Rightarrow>
       if DEFAULT_PORTS (url_protocol u) = None then Inl UnsupportedScheme
       else (let port = targetPort u in
         if \<exists>p \<in> set blockedPorts. js_eq port p then Inl BlockedPort
         else (let hostname = strip_brackets (url_hostname u);
                   allowlisted = hostname \<in> set allowlistHosts;
                   resolved = (if isIP hostname \<noteq> 0
                               then Some [\<lparr>ad_address = hostname, ad_family = isIP hostname\<rparr>]
                               else lookup hostname)
               in case resolved of
                    None \<Rightarrow> Inl DnsFailure
                  | Some [] \<Rightarrow> Inl DnsFailure
                  | Some (pinned # others) \<Rightarrow>
                      (case (if \<not> allowPrivate \<and> \<not> allowlisted
                             then first_not_public isIP (pinned # others) else None) of
                         Some c \<Rightarrow> Inl (PrivateAddress c)
                       | None \<Rightarrow> Inr \<lparr>tg_url = u, tg_hostname = hostname, tg_port = port,
                                     tg_address = ad_address pinned, tg_family = ad_family pinned\<rparr>))))"


section \<open>Facts about IPv4\<close>

definition dotted :: "nat list \<Rightarrow> string" where
  "dotted ps = join ''.'' (map nat_str ps)"

lemma nat_str_no_char: "\<not> is_digit c \<Longrightarrow> c \<notin> set (nat_str n)"
  using nat_str_digits(1)[of n] by (auto simp: list_all_iff)

lemma split_dotted: "ps \<noteq> [] \<Longrightarrow> split_on (CHR ''.'') (dotted ps) = map nat_str ps"
  unfolding dotted_def by (rule split_on_join) (auto simp: nat_str_no_char is_digit_def)

lemma part_dotted: "part (map nat_str ps) i = (if i < length ps then Fin (of_nat (ps ! i)) else NaN)"
  by (simp add: part_def)

lemma js_cmp_nat:
  "js_eq (Fin (of_nat n)) 0 \<longleftrightarrow> n = 0"
  "js_eq (Fin (of_nat n)) (numeral k) \<longleftrightarrow> n = numeral k"
  "js_ge (Fin (of_nat n)) (numeral k) \<longleftrightarrow> numeral k \<le> n"
  "js_le (Fin (of_nat n)) (numeral k) \<longleftrightarrow> n \<le> numeral k"
  by (simp_all add: js_eq_def js_ge_def js_le_def)

text \<open>The ranges the architecture names, as CIDR blocks on the 32-bit number.\<close>

definition ipv4_num :: "nat \<Rightarrow> nat \<Rightarrow> nat \<Rightarrow> nat \<Rightarrow> nat" where
  "ipv4_num a b c d = ((a * 256 + b) * 256 + c) * 256 + d"

definition in_cidr :: "nat \<Rightarrow> nat \<times> nat \<Rightarrow> bool" where
  "in_cidr n block \<longleftrightarrow> n div 2 ^ (32 - snd block) = fst block div 2 ^ (32 - snd block)"

definition blocked_cidrs :: "(nat \<times> nat) list" where
  "blocked_cidrs =
    [(ipv4_num 0 0 0 0, 8), (ipv4_num 10 0 0 0, 8), (ipv4_num 127 0 0 0, 8),
     (ipv4_num 100 64 0 0, 10), (ipv4_num 169 254 0 0, 16), (ipv4_num 172 16 0 0, 12),
     (ipv4_num 192 0 0 0, 24), (ipv4_num 192 0 2 0, 24), (ipv4_num 192 168 0 0, 16),
     (ipv4_num 198 18 0 0, 15), (ipv4_num 198 51 100 0, 24), (ipv4_num 203 0 113 0, 24),
     (ipv4_num 224 0 0 0, 4), (ipv4_num 240 0 0 0, 4)]"

lemma ipv4_num_div:
  assumes "a < 256" "b < 256" "c < 256" "d < 256"
  shows "ipv4_num a b c d div 2 ^ 28 = a div 16" "ipv4_num a b c d div 2 ^ 24 = a"
    "ipv4_num a b c d div 2 ^ 22 = a * 4 + b div 64" "ipv4_num a b c d div 2 ^ 20 = a * 16 + b div 16"
    "ipv4_num a b c d div 2 ^ 17 = a * 128 + b div 2" "ipv4_num a b c d div 2 ^ 16 = a * 256 + b"
    "ipv4_num a b c d div 2 ^ 8 = (a * 256 + b) * 256 + c"
  using assms by (simp_all add: ipv4_num_def)

lemma digits_unique:
  fixes a b w x k :: nat
  assumes "b < k" "x < k"
  shows "a * k + b = w * k + x \<longleftrightarrow> a = w \<and> b = x"
proof
  assume eq: "a * k + b = w * k + x"
  then have "(a * k + b) div k = (w * k + x) div k" by simp
  then have "a = w" using assms by simp
  with eq show "a = w \<and> b = x" by simp
qed simp

lemma in_cidr_dotted:
  assumes "a < 256" "b < 256" "c < 256" "d < 256" "w < 256" "x < 256" "y < 256" "z < 256"
  shows "in_cidr (ipv4_num a b c d) (ipv4_num w x y z, 4) \<longleftrightarrow> a div 16 = w div 16"
    "in_cidr (ipv4_num a b c d) (ipv4_num w x y z, 8) \<longleftrightarrow> a = w"
    "in_cidr (ipv4_num a b c d) (ipv4_num w x y z, 10) \<longleftrightarrow> a = w \<and> b div 64 = x div 64"
    "in_cidr (ipv4_num a b c d) (ipv4_num w x y z, 12) \<longleftrightarrow> a = w \<and> b div 16 = x div 16"
    "in_cidr (ipv4_num a b c d) (ipv4_num w x y z, 15) \<longleftrightarrow> a = w \<and> b div 2 = x div 2"
    "in_cidr (ipv4_num a b c d) (ipv4_num w x y z, 16) \<longleftrightarrow> a = w \<and> b = x"
    "in_cidr (ipv4_num a b c d) (ipv4_num w x y z, 24) \<longleftrightarrow> a = w \<and> b = x \<and> c = y"
proof -
  note divs = ipv4_num_div[OF assms(1-4)] ipv4_num_div[OF assms(5-8)]
  have exps: "32 - 4 = (28::nat)" "32 - 8 = (24::nat)" "32 - 10 = (22::nat)" "32 - 12 = (20::nat)"
    "32 - 15 = (17::nat)" "32 - 16 = (16::nat)" "32 - 24 = (8::nat)" by simp_all
  note unf = in_cidr_def fst_conv snd_conv exps divs
  have small: "b div 64 < 4" "b div 16 < 16" "b div 2 < 128" "x div 64 < 4" "x div 16 < 16" "x div 2 < 128"
    using assms by (simp_all add: less_mult_imp_div_less)
  show "in_cidr (ipv4_num a b c d) (ipv4_num w x y z, 4) \<longleftrightarrow> a div 16 = w div 16" by (simp only: unf)
  show "in_cidr (ipv4_num a b c d) (ipv4_num w x y z, 8) \<longleftrightarrow> a = w" by (simp only: unf)
  show "in_cidr (ipv4_num a b c d) (ipv4_num w x y z, 10) \<longleftrightarrow> a = w \<and> b div 64 = x div 64"
    by (simp only: unf digits_unique[OF small(1,4)])
  show "in_cidr (ipv4_num a b c d) (ipv4_num w x y z, 12) \<longleftrightarrow> a = w \<and> b div 16 = x div 16"
    by (simp only: unf digits_unique[OF small(2,5)])
  show "in_cidr (ipv4_num a b c d) (ipv4_num w x y z, 15) \<longleftrightarrow> a = w \<and> b div 2 = x div 2"
    by (simp only: unf digits_unique[OF small(3,6)])
  show "in_cidr (ipv4_num a b c d) (ipv4_num w x y z, 16) \<longleftrightarrow> a = w \<and> b = x"
    by (simp only: unf digits_unique[OF assms(2,6)])
  show "in_cidr (ipv4_num a b c d) (ipv4_num w x y z, 24) \<longleftrightarrow> a = w \<and> b = x \<and> c = y"
    by (simp only: unf digits_unique[OF assms(3,7)] digits_unique[OF assms(2,6)] conj_assoc)
qed

lemma classifyIpv4_dotted:
  "classifyIpv4 (dotted [a, b, c, d]) =
    (if a = 0 then Reserved else if a = 10 then Private else if a = 127 then Loopback
     else if a = 100 \<and> 64 \<le> b \<and> b \<le> 127 then Cgnat
     else if a = 169 \<and> b = 254 then LinkLocal
     else if a = 172 \<and> 16 \<le> b \<and> b \<le> 31 then Private
     else if a = 192 \<and> b = 0 \<and> c = 0 then Reserved
     else if a = 192 \<and> b = 0 \<and> c = 2 then Reserved
     else if a = 192 \<and> b = 168 then Private
     else if a = 198 \<and> (b = 18 \<or> b = 19) then Reserved
     else if a = 198 \<and> b = 51 \<and> c = 100 then Reserved
     else if a = 203 \<and> b = 0 \<and> c = 113 then Reserved
     else if 224 \<le> a \<and> a \<le> 239 then Multicast
     else if 240 \<le> a then Reserved else Public)"
proof -
  have sp: "split_on (CHR ''.'') (dotted [a, b, c, d]) = map nat_str [a, b, c, d]"
    by (rule split_dotted) simp
  have ps: "part (map nat_str [a, b, c, d]) 0 = Fin (of_nat a)"
    "part (map nat_str [a, b, c, d]) 1 = Fin (of_nat b)"
    "part (map nat_str [a, b, c, d]) 2 = Fin (of_nat c)"
    by (simp_all add: part_def)
  show ?thesis unfolding classifyIpv4_def sp Let_def ps js_cmp_nat by (rule refl)
qed

lemma classifyIpv4_public_iff:
  assumes "a < 256" "b < 256" "c < 256" "d < 256"
  shows "classifyIpv4 (dotted [a, b, c, d]) = Public \<longleftrightarrow>
    (\<forall>block \<in> set blocked_cidrs. \<not> in_cidr (ipv4_num a b c d) block)"
proof -
  have div_b: "b div 64 = 1 \<longleftrightarrow> 64 \<le> b \<and> b \<le> 127" "b div 16 = 1 \<longleftrightarrow> 16 \<le> b \<and> b \<le> 31"
    "b div 2 = 9 \<longleftrightarrow> b = 18 \<or> b = 19" "a div 16 = 14 \<longleftrightarrow> 224 \<le> a \<and> a \<le> 239"
    by linarith+
  have "a div 16 = 15 \<longleftrightarrow> 240 \<le> a" using assms(1) by linarith
  note div_iff = div_b this
  note cidr = in_cidr_dotted[OF assms]
  have b0: "in_cidr (ipv4_num a b c d) (ipv4_num 0 0 0 0, 8) \<longleftrightarrow> a = 0"
    using cidr(2)[of 0 0 0 0] div_iff by simp
  have b1: "in_cidr (ipv4_num a b c d) (ipv4_num 10 0 0 0, 8) \<longleftrightarrow> a = 10"
    using cidr(2)[of 10 0 0 0] div_iff by simp
  have b2: "in_cidr (ipv4_num a b c d) (ipv4_num 127 0 0 0, 8) \<longleftrightarrow> a = 127"
    using cidr(2)[of 127 0 0 0] div_iff by simp
  have b3: "in_cidr (ipv4_num a b c d) (ipv4_num 100 64 0 0, 10) \<longleftrightarrow> a = 100 \<and> 64 \<le> b \<and> b \<le> 127"
    using cidr(3)[of 100 64 0 0] div_iff by simp
  have b4: "in_cidr (ipv4_num a b c d) (ipv4_num 169 254 0 0, 16) \<longleftrightarrow> a = 169 \<and> b = 254"
    using cidr(6)[of 169 254 0 0] div_iff by simp
  have b5: "in_cidr (ipv4_num a b c d) (ipv4_num 172 16 0 0, 12) \<longleftrightarrow> a = 172 \<and> 16 \<le> b \<and> b \<le> 31"
    using cidr(4)[of 172 16 0 0] div_iff by simp
  have b6: "in_cidr (ipv4_num a b c d) (ipv4_num 192 0 0 0, 24) \<longleftrightarrow> a = 192 \<and> b = 0 \<and> c = 0"
    using cidr(7)[of 192 0 0 0] div_iff by simp
  have b7: "in_cidr (ipv4_num a b c d) (ipv4_num 192 0 2 0, 24) \<longleftrightarrow> a = 192 \<and> b = 0 \<and> c = 2"
    using cidr(7)[of 192 0 2 0] div_iff by simp
  have b8: "in_cidr (ipv4_num a b c d) (ipv4_num 192 168 0 0, 16) \<longleftrightarrow> a = 192 \<and> b = 168"
    using cidr(6)[of 192 168 0 0] div_iff by simp
  have b9: "in_cidr (ipv4_num a b c d) (ipv4_num 198 18 0 0, 15) \<longleftrightarrow> a = 198 \<and> (b = 18 \<or> b = 19)"
    using cidr(5)[of 198 18 0 0] div_iff by simp
  have b10: "in_cidr (ipv4_num a b c d) (ipv4_num 198 51 100 0, 24) \<longleftrightarrow> a = 198 \<and> b = 51 \<and> c = 100"
    using cidr(7)[of 198 51 100 0] div_iff by simp
  have b11: "in_cidr (ipv4_num a b c d) (ipv4_num 203 0 113 0, 24) \<longleftrightarrow> a = 203 \<and> b = 0 \<and> c = 113"
    using cidr(7)[of 203 0 113 0] div_iff by simp
  have b12: "in_cidr (ipv4_num a b c d) (ipv4_num 224 0 0 0, 4) \<longleftrightarrow> 224 \<le> a \<and> a \<le> 239"
    using cidr(1)[of 224 0 0 0] div_iff by simp
  have b13: "in_cidr (ipv4_num a b c d) (ipv4_num 240 0 0 0, 4) \<longleftrightarrow> 240 \<le> a"
    using cidr(1)[of 240 0 0 0] div_iff by simp
  note blocks = b0 b1 b2 b3 b4 b5 b6 b7 b8 b9 b10 b11 b12 b13
  show ?thesis
    unfolding classifyIpv4_dotted blocked_cidrs_def list.set ball_simps blocks by (simp, blast)
qed

section \<open>Facts about IPv6\<close>

lemma split_dcolon_nonempty [simp]: "split_dcolon s \<noteq> []"
  by (induction s rule: split_dcolon.induct) (auto split: list.splits)

lemma split_dcolon_cons:
  assumes "a \<noteq> CHR '':'' \<or> s = [] \<or> hd s \<noteq> CHR '':''"
  shows "split_dcolon (a # s) = (a # hd (split_dcolon s)) # tl (split_dcolon s)"
  using assms by (cases s) (auto split: list.splits)

lemma split_dcolon_append:
  assumes "CHR '':'' \<notin> set g"
  shows "split_dcolon (g @ s) = (g @ hd (split_dcolon s)) # tl (split_dcolon s)"
  using assms by (induction g) (auto simp: split_dcolon_cons)

lemma split_dcolon_join:
  assumes "\<forall>g \<in> set gs. g \<noteq> [] \<and> CHR '':'' \<notin> set g"
  shows "split_dcolon (join '':'' gs) = [join '':'' gs]"
  using assms
proof (induction gs)
  case (Cons g gs)
  show ?case
  proof (cases gs)
    case Nil then show ?thesis using Cons.prems split_dcolon_append[of g "[]"] by simp
  next
    case (Cons h hs)
    then have "join '':'' gs \<noteq> [] \<and> hd (join '':'' gs) \<noteq> CHR '':''"
      using Cons.prems by (cases h; cases hs) auto
    then show ?thesis using Cons Cons.IH Cons.prems
      by (simp add: split_dcolon_append split_dcolon_cons)
  qed
qed simp

lemma lower_alnum: "is_alnum c \<or> c = CHR '':'' \<or> c = CHR ''.'' \<Longrightarrow> lower_char c = c"
  by (auto simp: lower_char_def is_alnum_def is_lower_def is_digit_def Let_def)

abbreviation hex :: "nat \<Rightarrow> string" where
  "hex \<equiv> base_str 16"

lemma hex_chars: "c \<in> set (hex n) \<Longrightarrow> is_alnum c"
  by (rule base_str_chars[of 16]) simp_all

lemma hex_no_char: "\<not> is_alnum c \<Longrightarrow> c \<notin> set (hex n)"
  using hex_chars by blast

lemma hex_nonempty [simp]: "hex n \<noteq> []"
  by (simp add: base_str.simps[of 16 n])

definition group_pair :: "nat \<Rightarrow> 8 word list" where
  "group_pair g = [word_of_nat (g div 256), word_of_nat (g mod 256)]"

lemma group_bytes_hex: "g < 65536 \<Longrightarrow> group_bytes (hex g) = Some (group_pair g)"
proof -
  assume "g < 65536"
  moreover have "drop_bit 8 (int g) = int (g div 256)" by (simp add: drop_bit_eq_div zdiv_int)
  moreover have "int g AND 255 = int (g mod 256)"
    using take_bit_eq_mask[of 8 "int g"]
    by (simp add: mask_eq_exp_minus_1 take_bit_eq_mod zmod_int)
  ultimately show ?thesis by (simp add: group_bytes_def group_pair_def)
qed

lemma groups_bytes_hex:
  "\<forall>g \<in> set gs. g < 65536 \<Longrightarrow> groups_bytes (map hex gs) = Some (concat (map group_pair gs))"
  by (induction gs) (simp_all add: group_bytes_hex)

lemma splitGroups_hex: "gs \<noteq> [] \<Longrightarrow> splitGroups (join '':'' (map hex gs)) = map hex gs"
proof -
  assume ne: "gs \<noteq> []"
  then have "split_on (CHR '':'') (join '':'' (map hex gs)) = map hex gs"
    by (intro split_on_join) (auto simp: hex_no_char is_alnum_def is_lower_def is_digit_def)
  moreover have "CHR ''.'' \<notin> set (hex (last gs))"
    by (simp add: hex_no_char is_alnum_def is_lower_def is_digit_def)
  moreover have "join '':'' (map hex gs) \<noteq> []" using ne by (cases gs; cases "tl gs") auto
  ultimately show ?thesis using ne by (simp add: splitGroups_def expandIpv4Suffix_def last_map)
qed

lemma lower_id: "(\<And>c. c \<in> set s \<Longrightarrow> is_alnum c \<or> c = CHR '':'' \<or> c = CHR ''.'') \<Longrightarrow> map lower_char s = s"
  by (rule map_idI) (simp add: lower_alnum)

lemma set_join_subset: "c \<in> set (join sep xs) \<Longrightarrow> c \<in> set sep \<or> (\<exists>x \<in> set xs. c \<in> set x)"
  by (induction sep xs rule: join.induct) auto

lemma lower_text:
  "map lower_char (join '':'' (map hex gs)) = join '':'' (map hex gs)"
  "map lower_char (dotted ps) = dotted ps"
  unfolding dotted_def
  by (rule lower_id, drule set_join_subset, auto dest: hex_chars base_str_chars[of 10, simplified])+

lemma ipv6ToBytes_full:
  assumes "length gs = 8" "\<forall>g \<in> set gs. g < 65536"
  shows "ipv6ToBytes (join '':'' (map hex gs)) = Some (concat (map group_pair gs))"
proof -
  have "gs \<noteq> []" using assms by auto
  moreover have "split_dcolon (join '':'' (map hex gs)) = [join '':'' (map hex gs)]"
    by (rule split_dcolon_join) (auto simp: hex_no_char is_alnum_def is_lower_def is_digit_def)
  ultimately show ?thesis
    using assms by (simp add: ipv6ToBytes_def lower_text splitGroups_hex groups_bytes_hex)
qed

lemma pair_hex_bytes:
  assumes "a < 256" "b < 256"
  shows "pair_hex (Fin (of_nat a)) (Fin (of_nat b)) = hex (a * 256 + b)"
proof -
  have "push_bit 8 (word_of_nat a :: 32 word) OR word_of_nat b = push_bit 8 (word_of_nat a) + word_of_nat b"
    (is "?x OR ?y = _")
  proof (rule disjunctive_add [symmetric])
    fix n
    have "\<not> bit ?y n" if "8 \<le> n"
      using that bit_take_bit_iff[of 8 b n] take_bit_nat_eq_self[of b 8] assms(2)
      by (simp add: bit_of_nat_iff)
    then show "\<not> bit ?x n \<or> \<not> bit ?y n" by (auto simp: bit_push_bit_iff not_le)
  qed
  also have "unat \<dots> = a * 256 + b"
    using assms by (simp add: unat_word_ariths push_bit_eq_mult unat_of_nat)
  finally show ?thesis by (simp add: pair_hex_def to_uint32_def)
qed

lemma split_dotted_hex: "expandIpv4Suffix [hex 65535, dotted [a, b, c, d]] =
    [hex 65535, pair_hex (Fin (of_nat a)) (Fin (of_nat b)), pair_hex (Fin (of_nat c)) (Fin (of_nat d))]"
proof -
  have "CHR ''.'' \<in> set (dotted [a, b, c, d])" by (simp add: dotted_def)
  then show ?thesis
    using split_dotted[of "[a, b, c, d]"] by (simp add: expandIpv4Suffix_def part_def)
qed

lemma hex_0: "hex 0 = ''0''" and hex_ffff: "hex 65535 = ''ffff''"
  by (simp_all add: base_str.simps[of 16] digit_char_def char_of_def bit_0)

lemma ipv6ToBytes_mapped_aux:
  assumes "t \<noteq> []" "\<forall>c \<in> set t. is_alnum c \<or> c = CHR '':'' \<or> c = CHR ''.''" "hd t \<noteq> CHR '':''"
    "split_dcolon t = [t]" "splitGroups (''ffff:'' @ t) = map hex [0xffff, x, y]" "x < 65536" "y < 65536"
  shows "ipv6ToBytes (''::ffff:'' @ t) =
    Some (replicate 10 0 @ [0xff, 0xff] @ group_pair x @ group_pair y)"
proof -
  have lower: "map lower_char (''::ffff:'' @ t) = ''::ffff:'' @ t"
    using assms(2) by (intro lower_id) (auto simp: is_alnum_def is_lower_def)
  have inner: "split_dcolon (''ffff:'' @ t) = [''ffff:'' @ t]"
    using assms(3,4) by (simp add: split_dcolon_cons)
  have sides: "split_dcolon (''::ffff:'' @ t) = [[], ''ffff:'' @ t]"
    using inner by simp
  have "nat (8 - int 0 - int (length (map hex [0xffff, x, y]))) = 5" by simp
  moreover have z: "replicate 5 ''0'' = map hex [0, 0, 0, 0, 0]"
    unfolding list.map hex_0 by (simp add: eval_nat_numeral)
  moreover have zeros: "replicate 10 (0 :: 8 word) = [0, 0, 0, 0, 0, 0, 0, 0, 0, 0]"
    by (simp add: eval_nat_numeral)
  moreover have "groups_bytes (map hex [0, 0, 0, 0, 0, 0xffff, x, y]) =
      Some (replicate 10 0 @ [0xff, 0xff] @ group_pair x @ group_pair y)"
    using groups_bytes_hex[of "[0, 0, 0, 0, 0, 0xffff, x, y]"] assms(6,7) zeros
    by (simp add: group_pair_def)
  ultimately show ?thesis
    unfolding ipv6ToBytes_def lower sides Let_def using assms(5) by (simp add: splitGroups_def)
qed

lemma dotted_props:
  "dotted [a, b, c, d] \<noteq> []" "hd (dotted [a, b, c, d]) \<noteq> CHR '':''"
  "CHR '':'' \<notin> set (dotted [a, b, c, d])"
proof -
  have colon: "CHR '':'' \<notin> set (nat_str n)" for n by (rule nat_str_no_char) (simp add: is_digit_def)
  then show no: "CHR '':'' \<notin> set (dotted [a, b, c, d])" by (simp add: dotted_def)
  show ne: "dotted [a, b, c, d] \<noteq> []" by (simp add: dotted_def)
  show "hd (dotted [a, b, c, d]) \<noteq> CHR '':''" using no ne by (metis hd_in_set)
qed

lemma ipv6ToBytes_mapped_dotted:
  assumes "a < 256" "b < 256" "c < 256" "d < 256"
  shows "ipv6ToBytes (''::ffff:'' @ dotted [a, b, c, d]) =
    Some (replicate 10 0 @ [0xff, 0xff] @ group_pair (a * 256 + b) @ group_pair (c * 256 + d))"
proof (rule ipv6ToBytes_mapped_aux)
  let ?t = "dotted [a, b, c, d]"
  show "?t \<noteq> []" "hd ?t \<noteq> CHR '':''" by (rule dotted_props)+
  show "\<forall>c \<in> set ?t. is_alnum c \<or> c = CHR '':'' \<or> c = CHR ''.''"
    unfolding dotted_def using base_str_chars[of 10] by (auto dest!: set_join_subset)
  show "split_dcolon ?t = [?t]"
    using split_dcolon_append[OF dotted_props(3), of a b c d "[]"] by simp
  have "split_on (CHR '':'') (''ffff:'' @ ?t) = [''ffff'', ?t]"
  proof -
    have "split_on (CHR '':'') (join '':'' [''ffff'', ?t]) = [''ffff'', ?t]"
      by (rule split_on_join) (use dotted_props(3)[of a b c d] in auto)
    then show ?thesis by simp
  qed
  then show "splitGroups (''ffff:'' @ ?t) = map hex [0xffff, a * 256 + b, c * 256 + d]"
    using split_dotted_hex[of a b c d] assms by (simp add: splitGroups_def hex_ffff pair_hex_bytes)
qed (use assms in simp_all)

lemma ipv6ToBytes_mapped_hex:
  assumes "x < 65536" "y < 65536"
  shows "ipv6ToBytes (''::ffff:'' @ hex x @ '':'' @ hex y) =
    Some (replicate 10 0 @ [0xff, 0xff] @ group_pair x @ group_pair y)"
proof (rule ipv6ToBytes_mapped_aux)
  let ?t = "hex x @ '':'' @ hex y"
  have j: "?t = join '':'' (map hex [x, y])" by simp
  have colon: "CHR '':'' \<notin> set (hex n)" for n
    by (simp add: hex_no_char is_alnum_def is_lower_def is_digit_def)
  show "hd ?t \<noteq> CHR '':''" using colon[of x] by (metis hd_append2 hd_in_set hex_nonempty)
  show "\<forall>c \<in> set ?t. is_alnum c \<or> c = CHR '':'' \<or> c = CHR ''.''" using hex_chars by auto
  show "split_dcolon ?t = [?t]" unfolding j using colon by (intro split_dcolon_join) auto
  show "splitGroups (''ffff:'' @ ?t) = map hex [0xffff, x, y]"
    using splitGroups_hex[of "[0xffff, x, y]"] by (simp add: hex_ffff)
qed (use assms in simp_all)

lemma classify_mapped_bytes:
  assumes "a < 256" "b < 256" "c < 256" "d < 256"
  shows "classify_bytes (replicate 10 0 @ [0xff, 0xff] @ group_pair (a * 256 + b) @ group_pair (c * 256 + d))
    = classifyIpv4 (dotted [a, b, c, d])"
proof -
  let ?bs = "replicate 10 (0 :: 8 word) @ [0xff, 0xff] @ group_pair (a * 256 + b) @ group_pair (c * 256 + d)"
  have z: "isZeroRange ?bs 0 10" "?bs ! 10 = 0xff" "?bs ! 11 = 0xff"
    by (simp_all add: isZeroRange_def nth_append)
  have "(a * 256 + b) div 256 = a" "(a * 256 + b) mod 256 = b" "(c * 256 + d) div 256 = c" "(c * 256 + d) mod 256 = d"
    using assms by auto
  then have "map (\<lambda>i. unat (?bs ! i)) EMBEDDED_IPV4_OFFSETS = [a, b, c, d]"
    using assms by (simp add: EMBEDDED_IPV4_OFFSETS_def group_pair_def nth_append unat_of_nat)
  then have "ipv4At ?bs EMBEDDED_IPV4_OFFSETS = dotted [a, b, c, d]"
    unfolding ipv4At_def dotted_def by (metis (no_types, lifting) map_map comp_def map_eq_conv)
  then show ?thesis unfolding classify_bytes_def Let_def using z by simp
qed

lemma classifyIpv6_mapped_forms:
  assumes "a < 256" "b < 256" "c < 256" "d < 256"
  shows "classifyIpv6 (''::ffff:'' @ dotted [a, b, c, d]) = classifyIpv4 (dotted [a, b, c, d])"
    "classifyIpv6 (''::ffff:'' @ hex (a * 256 + b) @ '':'' @ hex (c * 256 + d)) = classifyIpv4 (dotted [a, b, c, d])"
proof -
  have small: "a * 256 + b < 65536" "c * 256 + d < 65536" using assms by linarith+
  show "classifyIpv6 (''::ffff:'' @ dotted [a, b, c, d]) = classifyIpv4 (dotted [a, b, c, d])"
    unfolding classifyIpv6_def ipv6ToBytes_mapped_dotted[OF assms] option.case
    by (rule classify_mapped_bytes[OF assms])
  show "classifyIpv6 (''::ffff:'' @ hex (a * 256 + b) @ '':'' @ hex (c * 256 + d)) = classifyIpv4 (dotted [a, b, c, d])"
    unfolding classifyIpv6_def ipv6ToBytes_mapped_hex[OF small] option.case
    by (rule classify_mapped_bytes[OF assms])
qed

section \<open>Facts about the guard\<close>

lemma first_not_public_None:
  "first_not_public isIP xs = None \<longleftrightarrow> list_all (\<lambda>x. classifyAddress isIP (ad_address x) = Public) xs"
  by (induction xs) (auto simp: Let_def)

lemma DEFAULT_PORTS_iff: "DEFAULT_PORTS p \<noteq> None \<longleftrightarrow> p \<in> {''http:'', ''https:''}"
  by (simp add: DEFAULT_PORTS_def)

lemma resolveSafeTarget_InrD:
  assumes "resolveSafeTarget parseUrl isIP lookup allowPrivate allowlist blocked raw = Inr tgt"
  shows "\<exists>u as. parseUrl raw = Some u \<and> url_protocol u \<in> {''http:'', ''https:''} \<and>
    (\<forall>p \<in> set blocked. \<not> js_eq (tg_port tgt) p) \<and>
    as \<noteq> [] \<and> tg_address tgt = ad_address (hd as) \<and>
    (if isIP (tg_hostname tgt) \<noteq> 0 then map ad_address as = [tg_hostname tgt]
     else lookup (tg_hostname tgt) = Some as) \<and>
    (allowPrivate \<or> tg_hostname tgt \<in> set allowlist \<or>
     list_all (\<lambda>x. classifyAddress isIP (ad_address x) = Public) as)"
proof -
  obtain u where u: "parseUrl raw = Some u" using assms by (auto simp: resolveSafeTarget_def split: option.splits)
  let ?h = "strip_brackets (url_hostname u)"
  let ?res = "if isIP ?h \<noteq> 0 then Some [\<lparr>ad_address = ?h, ad_family = isIP ?h\<rparr>] else lookup ?h"
  obtain a as where as: "?res = Some (a # as)"
    using assms u by (fastforce simp: resolveSafeTarget_def Let_def split: if_splits option.splits list.splits)
  have tgt: "tgt = \<lparr>tg_url = u, tg_hostname = ?h, tg_port = targetPort u, tg_address = ad_address a,
      tg_family = ad_family a\<rparr>"
    and guards: "DEFAULT_PORTS (url_protocol u) \<noteq> None" "\<not> (\<exists>p \<in> set blocked. js_eq (targetPort u) p)"
      "(if \<not> allowPrivate \<and> ?h \<notin> set allowlist then first_not_public isIP (a # as) else None) = None"
    using assms unfolding resolveSafeTarget_def Let_def u option.case as list.case
    by (auto split: if_splits option.splits)
  have ip: "if isIP ?h \<noteq> 0 then map ad_address (a # as) = [?h] else lookup ?h = Some (a # as)"
    using as by (auto split: if_splits)
  have pub: "allowPrivate \<or> ?h \<in> set allowlist \<or>
      list_all (\<lambda>x. classifyAddress isIP (ad_address x) = Public) (a # as)"
    using guards(3) by (auto simp only: first_not_public_None split: if_splits)
  have none: "\<forall>p \<in> set blocked. \<not> js_eq (targetPort u) p" using guards(2) by blast
  show ?thesis
    unfolding tgt target.simps
    by (intro exI[of _ u] exI[of _ "a # as"] conjI)
       (rule u guards(1)[unfolded DEFAULT_PORTS_iff] none list.distinct(2) ip pub | simp only: list.sel)+
qed

end
