(* ===== verification/Event_Types.thy ===== *)
theory Event_Types
  imports Prelude
begin

text \<open>
  \<open>src/backend/src/shared/event-types.js\<close>: the shape of an event type and the subscription
  patterns.  The regular expression is deterministic and read off as an automaton; the
  lemmas relate it to words joined by separators, and the prefix arithmetic of
  \<open>patternMatches\<close> to a comparison of dot-separated segments.
\<close>

definition is_separator :: "char \<Rightarrow> bool" where
  "is_separator c \<longleftrightarrow> c \<in> set ''._-''"

text \<open>\<open>EVENT_TYPE_PATTERN\<close>; \<open>start\<close> holds where a word has to begin.\<close>

fun event_word :: "bool \<Rightarrow> string \<Rightarrow> bool" where
  "event_word start [] \<longleftrightarrow> \<not> start"
| "event_word start (c # s) \<longleftrightarrow>
    (if is_alnum c then event_word False s
     else \<not> start \<and> is_separator c \<and> event_word True s)"

definition EVENT_TYPE_PATTERN :: "string \<Rightarrow> bool" where
  "EVENT_TYPE_PATTERN s = event_word True s"

definition MAX_EVENT_TYPE_LENGTH :: nat where
  "MAX_EVENT_TYPE_LENGTH = 64"

definition isValidEventType :: "string \<Rightarrow> bool" where
  "isValidEventType v \<longleftrightarrow> length v \<le> MAX_EVENT_TYPE_LENGTH \<and> EVENT_TYPE_PATTERN v"

definition patternMatches :: "string \<Rightarrow> string \<Rightarrow> bool" where
  "patternMatches pattern eventType =
    (if pattern = ''*'' then False
     else if \<not> ends_with pattern ''.*'' then pattern = eventType
     else (let prefix = take (length pattern - 2) pattern in
           if \<not> starts_with eventType (prefix @ ''.'') then False
           else (let remainder = drop (length prefix + 1) eventType
                 in 0 < length remainder \<and> CHR ''.'' \<notin> set remainder)))"

definition subscriptionMatches :: "string list option \<Rightarrow> string \<Rightarrow> bool" where
  "subscriptionMatches patterns eventType =
    (case patterns of
       None \<Rightarrow> True
     | Some ps \<Rightarrow> if length ps = 0 then True else list_ex (\<lambda>p. patternMatches p eventType) ps)"

section \<open>The pattern as words joined by separators\<close>

inductive event_type :: "string \<Rightarrow> bool" where
  word: "w \<noteq> [] \<Longrightarrow> list_all is_alnum w \<Longrightarrow> event_type w"
| more: "event_type t \<Longrightarrow> is_separator c \<Longrightarrow> w \<noteq> [] \<Longrightarrow> list_all is_alnum w \<Longrightarrow> event_type (t @ c # w)"

inductive_cases event_typeE: "event_type s"

lemma separator_not_alnum: "is_separator c \<Longrightarrow> \<not> is_alnum c"
  by (auto simp: is_separator_def is_alnum_def is_lower_def is_digit_def)

lemma event_word_alnum: "list_all is_alnum w \<Longrightarrow> event_word False (w @ s) = event_word False s"
  by (induction w) auto

lemma event_word_start: "w \<noteq> [] \<Longrightarrow> list_all is_alnum w \<Longrightarrow> event_word b (w @ s) = event_word False s"
  by (cases w) (auto simp: event_word_alnum)

lemma event_word_append_sep:
  "event_word b t \<Longrightarrow> is_separator c \<Longrightarrow> event_word b (t @ c # s) = event_word True s"
  by (induction b t rule: event_word.induct) (auto simp: separator_not_alnum split: if_splits)

lemma event_word_only: "w \<noteq> [] \<Longrightarrow> list_all is_alnum w \<Longrightarrow> event_word b w"
  using event_word_start[of w b "[]"] by simp

lemma event_type_word: "event_type s \<Longrightarrow> event_word True s"
  by (induction rule: event_type.induct) (auto simp: event_word_append_sep event_word_only)

lemma event_type_extend: "event_type t \<Longrightarrow> is_alnum c \<Longrightarrow> event_type (t @ [c])"
proof (induction rule: event_type.induct)
  case (word w)
  then show ?case by (intro event_type.word) auto
next
  case (more t d w)
  then show ?case using event_type.more[of t d "w @ [c]"] by simp
qed

lemma word_event_type:
  "event_word start s \<Longrightarrow>
   (start \<longrightarrow> t = [] \<or> (\<exists>t' c. t = t' @ [c] \<and> event_type t' \<and> is_separator c)) \<Longrightarrow>
   (\<not> start \<longrightarrow> event_type t) \<Longrightarrow> event_type (t @ s)"
proof (induction start s arbitrary: t rule: event_word.induct)
  case (2 start c s)
  show ?case
  proof (cases "is_alnum c")
    case True
    then have "event_type (t @ [c])"
      using 2(4,5) event_type.word[of "[c]"] event_type.more[of _ _ "[c]"] event_type_extend
      by (cases start) auto
    then show ?thesis using 2(1)[OF True, of "t @ [c]"] 2(3) True by simp
  next
    case False
    then show ?thesis using 2(2)[OF False, of "t @ [c]"] 2(3,5) by auto
  qed
qed simp

lemma EVENT_TYPE_PATTERN_iff: "EVENT_TYPE_PATTERN s \<longleftrightarrow> event_type s"
  using word_event_type[of True s "[]"] event_type_word by (auto simp: EVENT_TYPE_PATTERN_def)

section \<open>Patterns compare segments\<close>

definition segments_match :: "string list \<Rightarrow> string list \<Rightarrow> bool" where
  "segments_match ps es \<longleftrightarrow>
    (if 2 \<le> length ps \<and> last ps = ''*''
     then length es = length ps \<and> butlast es = butlast ps \<and> last es \<noteq> []
     else ps = es \<and> ps \<noteq> [''*''])"

lemma split_on_last_star:
  "2 \<le> length (split_on c p) \<and> last (split_on c p) = ''*'' \<longleftrightarrow> ends_with p [c, CHR ''*'']"
  if "c \<noteq> CHR ''*''"
proof
  assume a: "2 \<le> length (split_on c p) \<and> last (split_on c p) = ''*''"
  then obtain xs where "split_on c p = xs @ [''*'']" "xs \<noteq> []"
    by (cases "split_on c p" rule: rev_cases) (auto simp: Suc_le_eq)
  then have "p = join [c] (xs @ [''*''])" "xs \<noteq> []" by (metis join_split_on)+
  moreover have "join [c] (xs @ [''*'']) = join [c] xs @ [c, CHR ''*'']" if "xs \<noteq> []"
    using that by (induction xs rule: induct_list012) auto
  ultimately show "ends_with p [c, CHR ''*'']" by (auto simp: ends_with_iff)
next
  assume "ends_with p [c, CHR ''*'']"
  then obtain t where p: "p = t @ c # ''*''" by (auto simp: ends_with_iff)
  have "split_on c ''*'' = [''*'']" using that by simp
  then show "2 \<le> length (split_on c p) \<and> last (split_on c p) = ''*''"
    by (cases "split_on c t") (auto simp: p split_on_append_gen)
qed

lemma patternMatches_star:
  "patternMatches (q @ ''.*'') e \<longleftrightarrow> (\<exists>r. e = q @ ''.'' @ r \<and> r \<noteq> [] \<and> CHR ''.'' \<notin> set r)"
  by (auto simp: patternMatches_def ends_with_iff starts_with_iff Let_def)

lemma patternMatches_segments:
  "patternMatches p e \<longleftrightarrow> segments_match (split_on (CHR ''.'') p) (split_on (CHR ''.'') e)"
proof (cases "ends_with p ''.*''")
  case False
  then have "\<not> (2 \<le> length (split_on (CHR ''.'') p) \<and> last (split_on (CHR ''.'') p) = ''*'')"
    using split_on_last_star[of "CHR ''.''" p] by simp
  moreover have "split_on (CHR ''.'') p = [''*''] \<longleftrightarrow> p = ''*''"
    using split_on_inj[of "CHR ''.''" p "''*''"] by simp
  ultimately show ?thesis
    using False by (auto simp: patternMatches_def segments_match_def split_on_inj)
next
  case True
  then obtain q where p: "p = q @ ''.*''" by (auto simp: ends_with_iff)
  have sp: "split_on (CHR ''.'') p = split_on (CHR ''.'') q @ [''*'']"
    using split_on_append_gen[of "CHR ''.''" q "''*''"] by (simp add: p)
  have "(\<exists>r. e = q @ ''.'' @ r \<and> r \<noteq> [] \<and> CHR ''.'' \<notin> set r) \<longleftrightarrow>
    (\<exists>r. split_on (CHR ''.'') e = split_on (CHR ''.'') q @ [r] \<and> r \<noteq> [])" (is "?l \<longleftrightarrow> ?r")
  proof
    assume ?l
    then show ?r using split_on_append_gen[of "CHR ''.''" q] by (auto simp: split_on_no_sep)
  next
    assume ?r
    then obtain r where r: "split_on (CHR ''.'') e = split_on (CHR ''.'') q @ [r]" "r \<noteq> []" by blast
    then have nr: "CHR ''.'' \<notin> set r" using split_on_parts[of r "CHR ''.''" e] by simp
    then have "split_on (CHR ''.'') e = split_on (CHR ''.'') (q @ ''.'' @ r)"
      using r split_on_append_gen[of "CHR ''.''" q r] by (simp add: split_on_no_sep)
    then show ?l using r nr by (auto simp only: split_on_inj)
  qed
  also have "\<dots> \<longleftrightarrow> segments_match (split_on (CHR ''.'') p) (split_on (CHR ''.'') e)"
    unfolding segments_match_def sp
    by (cases "split_on (CHR ''.'') q"; cases "split_on (CHR ''.'') e" rule: rev_cases) auto
  finally show ?thesis using patternMatches_star[of q e] by (simp add: p)
qed

end
