(* ===== verification/Base64.thy ===== *)
theory Base64
  imports Prelude "HOL-Library.More_List"
begin

text \<open>
  The platform's \<open>base64url\<close> coding of a byte string, used for secrets
  (\<open>shared/crypto.js\<close>) and for page cursors (\<open>services/keyset.js\<close>).  A string stands for
  its UTF-8 bytes.  Decoding skips characters outside the alphabet, as the platform does.
\<close>

definition sextet_char :: "nat \<Rightarrow> char" where
  "sextet_char n =
    (if n < 26 then char_of (65 + n) else if n < 52 then char_of (71 + n)
     else if n < 62 then char_of (n - 4) else if n = 62 then CHR ''-'' else CHR ''_'')"

definition char_sextet :: "char \<Rightarrow> nat option" where
  "char_sextet c =
    (let n = (of_char c :: nat) in
     if 65 \<le> n \<and> n \<le> 90 then Some (n - 65)
     else if 97 \<le> n \<and> n \<le> 122 then Some (n - 71)
     else if 48 \<le> n \<and> n \<le> 57 then Some (n + 4)
     else if n = 45 \<or> n = 43 then Some 62
     else if n = 95 \<or> n = 47 then Some 63
     else None)"

fun to_sextets :: "nat list \<Rightarrow> nat list" where
  "to_sextets [] = []"
| "to_sextets [a] = [a div 4, (a mod 4) * 16]"
| "to_sextets [a, b] = [a div 4, (a mod 4) * 16 + b div 16, (b mod 16) * 4]"
| "to_sextets (a # b # c # r) =
     [a div 4, (a mod 4) * 16 + b div 16, (b mod 16) * 4 + c div 64, c mod 64] @ to_sextets r"

fun of_sextets :: "nat list \<Rightarrow> nat list" where
  "of_sextets [] = []"
| "of_sextets [p] = []"
| "of_sextets [p, q] = [p * 4 + q div 16]"
| "of_sextets [p, q, r] = [p * 4 + q div 16, (q mod 16) * 16 + r div 4]"
| "of_sextets (p # q # r # s # t) =
     [p * 4 + q div 16, (q mod 16) * 16 + r div 4, (r mod 4) * 64 + s] @ of_sextets t"

definition base64url_encode :: "string \<Rightarrow> string" where
  "base64url_encode s = map sextet_char (to_sextets (map of_char s))"

definition base64url_decode :: "string \<Rightarrow> string" where
  "base64url_decode s =
    map char_of (of_sextets (List.map_filter char_sextet (takeWhile (\<lambda>c. c \<noteq> CHR ''='') s)))"

lemma char_sextet_char [simp]: "n < 64 \<Longrightarrow> char_sextet (sextet_char n) = Some n"
  by (auto simp: char_sextet_def sextet_char_def of_char_of take_bit_eq_mod Let_def)

lemma sextet_char_alphabet:
  "n < 64 \<Longrightarrow> sextet_char n \<noteq> CHR ''='' \<and> sextet_char n \<noteq> CHR ''.'' \<and> sextet_char n \<noteq> CHR ''|''"
  using char_sextet_char[of n] by (auto simp: char_sextet_def)

lemma mod_small: "(a::nat) mod 4 < 4" "(b::nat) mod 16 < 16" "(c::nat) mod 64 < 64"
  by simp_all

lemma sextet_bounds:
  fixes a b c :: nat
  shows "a < 256 \<Longrightarrow> a div 4 < 64" "b < 256 \<Longrightarrow> (a mod 4) * 16 + b div 16 < 64"
    "c < 256 \<Longrightarrow> (b mod 16) * 4 + c div 64 < 64" "c mod 64 < 64"
    "(a mod 4) * 16 < 64" "(b mod 16) * 4 < 64"
  using mod_small(1)[of a] mod_small(2)[of b] mod_small(3)[of c] by linarith+

lemma sextet_bytes:
  fixes a b c :: nat
  shows "b < 256 \<Longrightarrow> a div 4 * 4 + ((a mod 4) * 16 + b div 16) div 16 = a"
    "b < 256 \<Longrightarrow> c < 256 \<Longrightarrow>
      ((a mod 4) * 16 + b div 16) mod 16 * 16 + ((b mod 16) * 4 + c div 64) div 4 = b"
    "c < 256 \<Longrightarrow> ((b mod 16) * 4 + c div 64) mod 4 * 64 + c mod 64 = c"
    "b < 256 \<Longrightarrow> ((a mod 4) * 16 + b div 16) mod 16 * 16 + ((b mod 16) * 4) div 4 = b"
    "a div 4 * 4 + ((a mod 4) * 16) div 16 = a"
proof -
  have d: "b < 256 \<Longrightarrow> ((a mod 4) * 16 + b div 16) div 16 = a mod 4"
    "b < 256 \<Longrightarrow> ((a mod 4) * 16 + b div 16) mod 16 = b div 16"
    "c < 256 \<Longrightarrow> ((b mod 16) * 4 + c div 64) div 4 = b mod 16"
    "c < 256 \<Longrightarrow> ((b mod 16) * 4 + c div 64) mod 4 = c div 64"
    by (simp_all add: less_mult_imp_div_less)
  show "b < 256 \<Longrightarrow> a div 4 * 4 + ((a mod 4) * 16 + b div 16) div 16 = a" by (simp only: d) simp
  show "b < 256 \<Longrightarrow> c < 256 \<Longrightarrow>
      ((a mod 4) * 16 + b div 16) mod 16 * 16 + ((b mod 16) * 4 + c div 64) div 4 = b" by (simp only: d) simp
  show "c < 256 \<Longrightarrow> ((b mod 16) * 4 + c div 64) mod 4 * 64 + c mod 64 = c" by (simp only: d) simp
  show "b < 256 \<Longrightarrow> ((a mod 4) * 16 + b div 16) mod 16 * 16 + ((b mod 16) * 4) div 4 = b" by (simp only: d) simp
  show "a div 4 * 4 + ((a mod 4) * 16) div 16 = a" by simp
qed

lemma to_sextets_bound: "\<forall>b \<in> set bs. b < 256 \<Longrightarrow> \<forall>n \<in> set (to_sextets bs). n < 64"
  by (induction bs rule: to_sextets.induct)
     (simp_all only: to_sextets.simps list.set ball_simps append.simps sextet_bounds simp_thms, blast)

lemma of_to_sextets: "\<forall>b \<in> set bs. b < 256 \<Longrightarrow> of_sextets (to_sextets bs) = bs"
  by (induction bs rule: to_sextets.induct)
     (simp_all only: to_sextets.simps of_sextets.simps list.set ball_simps append.simps sextet_bytes simp_thms, blast)

lemma byte_bound: "(of_char c :: nat) < 256"
  using of_char_mod_256[of c] by (metis mod_less_divisor zero_less_numeral)

lemma bytes_bound: "\<forall>b \<in> set (map of_char s). b < (256 :: nat)"
  using byte_bound by auto

lemma base64url_no_char:
  assumes "c \<in> {CHR ''='', CHR ''.'', CHR ''|''}"
  shows "c \<notin> set (base64url_encode s)"
  using assms to_sextets_bound[OF bytes_bound[of s]] sextet_char_alphabet
  by (auto simp: base64url_encode_def)

lemma base64url_nonempty: "base64url_encode s = [] \<longleftrightarrow> s = []"
  by (cases s rule: remdups_adj.cases; cases "tl (tl s)") (auto simp: base64url_encode_def)

lemma base64url_round_trip: "base64url_decode (base64url_encode s) = s"
proof -
  let ?n = "to_sextets (map of_char s)"
  have "takeWhile (\<lambda>c. c \<noteq> CHR ''='') (base64url_encode s) = base64url_encode s"
    using base64url_no_char[of "CHR ''=''" s] by (simp add: takeWhile_eq_all_conv) metis
  moreover have "List.map_filter char_sextet (map sextet_char ns) = ns" if "\<forall>n \<in> set ns. n < 64" for ns
    using that by (induction ns) (auto simp: List.map_filter_simps)
  ultimately show ?thesis
    using to_sextets_bound[OF bytes_bound[of s]] of_to_sextets[OF bytes_bound[of s]]
    by (simp only: base64url_decode_def) (simp add: base64url_encode_def map_idI)
qed

end
