(* ===== verification/Crypto.thy ===== *)
theory Crypto
  imports Base64 Errors
begin

text \<open>
  \<open>src/backend/src/shared/crypto.js\<close>: API keys and endpoint secrets.  AES-256-GCM, SHA-256,
  Argon2 and the random bytes belong to the platform; they are arguments.  What is
  modelled is the code around them: the markers, the stored prefix, the versioned
  dot-separated encoding of an encrypted secret and its validation.
\<close>

definition API_KEY_MARKER :: string where "API_KEY_MARKER = ''ht_''"
definition API_KEY_PREFIX_LENGTH :: nat where "API_KEY_PREFIX_LENGTH = 8"
definition ENDPOINT_SECRET_MARKER :: string where "ENDPOINT_SECRET_MARKER = ''whsec_''"
definition ENCRYPTION_VERSION :: string where "ENCRYPTION_VERSION = ''v1''"

definition type_error :: "string \<Rightarrow> exn" where
  "type_error m = JsError None None m"

text \<open>\<open>argonVerify\<close> may reject; \<open>verifyPassword\<close> turns that into a mismatch.\<close>

definition verifyPassword :: "(string \<Rightarrow> string \<Rightarrow> exn + bool) \<Rightarrow> string \<Rightarrow> string \<Rightarrow> bool" where
  "verifyPassword argonVerify passwordHash password =
    (case argonVerify passwordHash password of Inl _ \<Rightarrow> False | Inr b \<Rightarrow> b)"

text \<open>\<open>None\<close> stands for a value that is not a string.\<close>

definition constantTimeEquals :: "string option \<Rightarrow> string option \<Rightarrow> bool" where
  "constantTimeEquals a b =
    (case (a, b) of
       (Some left, Some right) \<Rightarrow> if length left \<noteq> length right then False else left = right
     | _ \<Rightarrow> False)"

definition apiKeyPrefix :: "string \<Rightarrow> exn + string" where
  "apiKeyPrefix plaintext =
    (if \<not> starts_with plaintext API_KEY_MARKER then Inl (type_error ''API key must start with ht_'')
     else Inr (take API_KEY_PREFIX_LENGTH (drop (length API_KEY_MARKER) plaintext)))"

record generated_key =
  gk_plaintext :: string
  gk_keyPrefix :: string
  gk_keyHash :: string

text \<open>\<open>random\<close> is the result of \<open>randomBytes(24)\<close>.\<close>

definition generateApiKey :: "(string \<Rightarrow> string) \<Rightarrow> string \<Rightarrow> exn + generated_key" where
  "generateApiKey sha256Hex random =
    (let plaintext = API_KEY_MARKER @ base64url_encode random
     in case apiKeyPrefix plaintext of
          Inl e \<Rightarrow> Inl e
        | Inr p \<Rightarrow> Inr \<lparr>gk_plaintext = plaintext, gk_keyPrefix = p, gk_keyHash = sha256Hex plaintext\<rparr>)"

definition generateEndpointSecret :: "string \<Rightarrow> string" where
  "generateEndpointSecret random = ENDPOINT_SECRET_MARKER @ base64url_encode random"

text \<open>\<open>seal iv p\<close> gives the ciphertext and the authentication tag; \<open>unseal iv tag c\<close> the
  plaintext, or the error of a failed authentication.\<close>

definition encryptSecret ::
  "(string \<Rightarrow> string \<Rightarrow> string \<times> string) \<Rightarrow> string \<Rightarrow> string \<Rightarrow> string" where
  "encryptSecret seal iv plaintext =
    (case seal iv plaintext of (ciphertext, authTag) \<Rightarrow>
      join ''.'' [ENCRYPTION_VERSION, base64url_encode iv, base64url_encode authTag,
                  base64url_encode ciphertext])"

definition decryptSecret ::
  "(string \<Rightarrow> string \<Rightarrow> string \<Rightarrow> exn + string) \<Rightarrow> string \<Rightarrow> exn + string" where
  "decryptSecret unseal encoded =
    (case split_on (CHR ''.'') encoded of
       version # iv # authTag # ciphertext # _ \<Rightarrow>
         if version \<noteq> ENCRYPTION_VERSION \<or> iv = [] \<or> authTag = [] \<or> ciphertext = []
         then Inl (type_error ''Malformed encrypted secret'')
         else unseal (base64url_decode iv) (base64url_decode authTag) (base64url_decode ciphertext)
     | _ \<Rightarrow> Inl (type_error ''Malformed encrypted secret''))"

section \<open>Facts\<close>

lemma constantTimeEquals_iff: "constantTimeEquals (Some a) (Some b) \<longleftrightarrow> a = b"
  by (auto simp: constantTimeEquals_def)

lemma split_encryptSecret:
  assumes "seal iv p = (c, t)"
  shows "split_on (CHR ''.'') (encryptSecret seal iv p) =
    [ENCRYPTION_VERSION, base64url_encode iv, base64url_encode t, base64url_encode c]"
  unfolding encryptSecret_def assms prod.case
  by (rule split_on_join) (auto simp: ENCRYPTION_VERSION_def base64url_no_char)

lemma decrypt_encrypt_general:
  assumes "seal iv p = (c, t)"
  shows "decryptSecret unseal (encryptSecret seal iv p) =
    (if iv = [] \<or> t = [] \<or> c = [] then Inl (type_error ''Malformed encrypted secret'') else unseal iv t c)"
  using split_encryptSecret[of seal iv p c t] assms
  by (simp add: decryptSecret_def base64url_nonempty base64url_round_trip)

lemma generateApiKey_prefix:
  assumes "generateApiKey sha random = Inr g"
  shows "gk_keyPrefix g = take 8 (base64url_encode random)" "gk_keyHash g = sha (gk_plaintext g)"
    "starts_with (gk_plaintext g) API_KEY_MARKER"
  using assms
  by (auto simp: generateApiKey_def apiKeyPrefix_def API_KEY_MARKER_def API_KEY_PREFIX_LENGTH_def
      starts_with_def Let_def split: if_splits)

end
