(* ===== verification/Signing.thy ===== *)
theory Signing
  imports Crypto World Js_Number
begin

text \<open>
  \<open>src/backend/src/shared/hmac.js\<close> and \<open>src/backend/src/worker/signing.js\<close>: the signature
  header, its verification, the secrets that are active during a rotation, and the headers
  of a delivery.  \<open>hmac secret data\<close> is the hexadecimal HMAC-SHA256 of the platform.
\<close>

definition SIGNATURE_VERSION :: string where "SIGNATURE_VERSION = ''v1''"
definition TIMESTAMP_TOLERANCE_SECONDS :: int where "TIMESTAMP_TOLERANCE_SECONDS = 300"
definition WEBHOOK_USER_AGENT :: string where "WEBHOOK_USER_AGENT = ''HookTracker/1.0''"

definition WEBHOOK_HEADERS :: "(string \<times> string) list" where
  "WEBHOOK_HEADERS =
    [(''id'', ''x-webhook-id''), (''event'', ''x-webhook-event''), (''attempt'', ''x-webhook-attempt''),
     (''timestamp'', ''x-webhook-timestamp''), (''signature'', ''x-webhook-signature'')]"

definition HMAC_HOUR_MS :: int where "HMAC_HOUR_MS = 3600000"

definition previousSecretExpiresAt :: "int \<Rightarrow> int \<Rightarrow> int" where
  "previousSecretExpiresAt secretRotatedAt graceHours = secretRotatedAt + graceHours * HMAC_HOUR_MS"

definition signPayload :: "(string \<Rightarrow> string \<Rightarrow> string) \<Rightarrow> string \<Rightarrow> string \<Rightarrow> string \<Rightarrow> string" where
  "signPayload hmac secret timestamp rawBody = hmac secret (timestamp @ ''.'' @ rawBody)"

definition buildSignatureHeader ::
  "(string \<Rightarrow> string \<Rightarrow> string) \<Rightarrow> string list \<Rightarrow> string \<Rightarrow> string \<Rightarrow> string" where
  "buildSignatureHeader hmac secrets timestamp rawBody =
    join '','' (map (\<lambda>secret. SIGNATURE_VERSION @ ''='' @ signPayload hmac secret timestamp rawBody)
                 (filter (\<lambda>secret. secret \<noteq> []) secrets))"

definition parseSignatureHeader :: "string option \<Rightarrow> string list" where
  "parseSignatureHeader header =
    (case header of
       None \<Rightarrow> []
     | Some h \<Rightarrow>
         map (\<lambda>entry. drop (length SIGNATURE_VERSION + 1) entry)
           (filter (\<lambda>entry. starts_with entry (SIGNATURE_VERSION @ ''=''))
             (map trim (split_on (CHR '','') h))))"

text \<open>\<open>Buffer.from(s, 'hex')\<close>: decoding stops at the first pair that is not hexadecimal.\<close>

fun hex_bytes :: "string \<Rightarrow> nat list" where
  "hex_bytes (a # b # s) =
    (if digit_val a < 16 \<and> digit_val b < 16 then (16 * digit_val a + digit_val b) # hex_bytes s else [])"
| "hex_bytes _ = []"

definition signaturesMatch :: "string \<Rightarrow> string \<Rightarrow> bool" where
  "signaturesMatch expected candidate =
    (let left = hex_bytes expected; right = hex_bytes candidate in
     if length left = 0 \<or> length left \<noteq> length right then False else left = right)"

datatype verdict = Valid | Invalid string

definition verifySignature ::
  "(string \<Rightarrow> string \<Rightarrow> string) \<Rightarrow> string option \<Rightarrow> string \<Rightarrow> string \<Rightarrow> string \<Rightarrow> int \<Rightarrow> int \<Rightarrow> verdict" where
  "verifySignature hmac header secret timestamp rawBody toleranceSeconds nowSeconds =
    (case js_finite (jsNumber timestamp) of
       None \<Rightarrow> Invalid ''missing_timestamp''
     | Some sentAt \<Rightarrow>
         if of_int toleranceSeconds < \<bar>of_int nowSeconds - sentAt\<bar> then Invalid ''timestamp_skew''
         else (let candidates = parseSignatureHeader header in
           if length candidates = 0 then Invalid ''missing_signature''
           else (let expected = signPayload hmac secret timestamp rawBody;
                     matched = list_ex (signaturesMatch expected) candidates
                 in if matched then Valid else Invalid ''signature_mismatch'')))"

section \<open>The worker's side\<close>

definition activeSecrets ::
  "(string \<Rightarrow> exn + string) \<Rightarrow> endpoint \<Rightarrow> int \<Rightarrow> int \<Rightarrow> exn + string list" where
  "activeSecrets decrypt endpoint graceHours nowMs =
    (case decrypt (e_secret endpoint) of
       Inl e \<Rightarrow> Inl e
     | Inr s \<Rightarrow>
         (case (e_previousSecret endpoint, e_secretRotatedAt endpoint) of
            (Some previous, Some rotatedAt) \<Rightarrow>
              if previous = [] then Inr [s]
              else if nowMs < previousSecretExpiresAt rotatedAt graceHours then
                (case decrypt previous of Inl e \<Rightarrow> Inl e | Inr p \<Rightarrow> Inr [s, p])
              else Inr [s]
          | _ \<Rightarrow> Inr [s]))"

definition deliveryHeaders ::
  "(string \<Rightarrow> string \<Rightarrow> string) \<Rightarrow> (string \<Rightarrow> exn + string) \<Rightarrow> delivery \<Rightarrow> webhook_event \<Rightarrow> endpoint
    \<Rightarrow> int \<Rightarrow> string \<Rightarrow> int \<Rightarrow> int \<Rightarrow> exn + (string \<times> string) list" where
  "deliveryHeaders hmac decrypt delivery event endpoint attempt rawBody graceHours nowMs =
    (let timestamp = nowMs div 1000 in
     case activeSecrets decrypt endpoint graceHours nowMs of
       Inl e \<Rightarrow> Inl e
     | Inr secrets \<Rightarrow> Inr
        [(''content-type'', ''application/json''),
         (''user-agent'', WEBHOOK_USER_AGENT),
         (''x-webhook-id'', d_id delivery),
         (''x-webhook-event'', v_eventType event),
         (''x-webhook-attempt'', int_str attempt),
         (''x-webhook-timestamp'', int_str timestamp),
         (''x-webhook-signature'', buildSignatureHeader hmac secrets (int_str timestamp) rawBody)])"

section \<open>Facts\<close>

text \<open>What the code relies on in HMAC-SHA256: a non-empty lower-case hexadecimal digest of an
  even number of digits.\<close>

definition hex_digest :: "string \<Rightarrow> bool" where
  "hex_digest d \<longleftrightarrow> d \<noteq> [] \<and> even (length d) \<and> list_all (\<lambda>c. is_alnum c \<and> digit_val c < 16) d"

lemma hex_bytes_length: "list_all (\<lambda>c. digit_val c < 16) d \<Longrightarrow> length (hex_bytes d) = length d div 2"
  by (induction d rule: hex_bytes.induct) auto

lemma hex_digest_match: "hex_digest d \<Longrightarrow> signaturesMatch d d"
proof -
  assume d: "hex_digest d"
  then have "length (hex_bytes d) = length d div 2"
    by (intro hex_bytes_length) (auto simp: hex_digest_def list_all_iff)
  moreover have "2 \<le> length d" using d by (cases d; cases "tl d") (auto simp: hex_digest_def)
  ultimately have "length (hex_bytes d) \<noteq> 0" by linarith
  then show ?thesis by (simp add: signaturesMatch_def)
qed

lemma alnum_no_comma_space: "is_alnum c \<Longrightarrow> c \<noteq> CHR '','' \<and> \<not> is_space c"
  by (auto simp: is_alnum_def is_lower_def is_digit_def is_space_def)

lemma signature_entry:
  assumes "hex_digest d"
  shows "trim (''v1='' @ d) = ''v1='' @ d" "CHR '','' \<notin> set (''v1='' @ d)"
proof -
  have marker: "\<not> is_space (CHR ''v'')" "\<not> is_space (CHR ''1'')" "\<not> is_space (CHR ''='')"
    by (simp_all add: is_space_def)
  have d: "is_alnum c" if "c \<in> set d" for c
    using assms that by (simp add: hex_digest_def list_all_iff)
  show "trim (''v1='' @ d) = ''v1='' @ d"
    using marker d alnum_no_comma_space by (intro trim_no_space) (simp add: list_all_iff)
  show "CHR '','' \<notin> set (''v1='' @ d)"
    using d alnum_no_comma_space by auto
qed

lemma parse_buildSignatureHeader:
  assumes dig: "\<And>secret data. hex_digest (hmac secret data)" and ne: "\<exists>s \<in> set secrets. s \<noteq> []"
  shows "parseSignatureHeader (Some (buildSignatureHeader hmac secrets ts body)) =
    map (\<lambda>s. signPayload hmac s ts body) (filter (\<lambda>s. s \<noteq> []) secrets)"
proof -
  let ?ss = "filter (\<lambda>s. s \<noteq> []) secrets"
  let ?e = "\<lambda>s. ''v1='' @ signPayload hmac s ts body"
  have d: "hex_digest (signPayload hmac s ts body)" for s by (simp add: signPayload_def dig)
  have "?ss \<noteq> []" using ne by (auto simp: filter_empty_conv)
  then have sp: "split_on (CHR '','') (join '','' (map ?e ?ss)) = map ?e ?ss"
    using signature_entry(2)[OF d] by (intro split_on_join) auto
  have b: "buildSignatureHeader hmac secrets ts body = join '','' (map ?e ?ss)"
    by (simp add: buildSignatureHeader_def SIGNATURE_VERSION_def)
  have t: "map trim (map ?e ?ss) = map ?e ?ss"
    unfolding map_map comp_def signature_entry(1)[OF d] ..
  have f: "filter (\<lambda>entry. starts_with entry (SIGNATURE_VERSION @ ''='')) (map ?e xs) = map ?e xs" for xs
    by (induction xs) (simp_all add: SIGNATURE_VERSION_def starts_with_def)
  show ?thesis
    unfolding parseSignatureHeader_def option.case b sp t f by (simp add: SIGNATURE_VERSION_def)
qed

lemma int_str_nonneg: "0 \<le> n \<Longrightarrow> int_str n = nat_str (nat n)"
  by (simp add: int_str_def)

lemma jsNumber_int_str: "0 \<le> n \<Longrightarrow> js_finite (jsNumber (int_str n)) = Some (of_int n)"
  by (simp add: int_str_nonneg js_finite_def)

text \<open>A receiver with one of the secrets the header was built with accepts it within the tolerance.\<close>

lemma verify_built:
  assumes "\<And>s data. hex_digest (hmac s data)" "secret \<in> set secrets" "secret \<noteq> []"
    and "0 \<le> timestamp" "\<bar>nowSeconds - timestamp\<bar> \<le> tolerance"
  shows "verifySignature hmac (Some (buildSignatureHeader hmac secrets (int_str timestamp) body)) secret
           (int_str timestamp) body tolerance nowSeconds = Valid"
proof -
  have "parseSignatureHeader (Some (buildSignatureHeader hmac secrets (int_str timestamp) body)) =
      map (\<lambda>s. signPayload hmac s (int_str timestamp) body) (filter (\<lambda>s. s \<noteq> []) secrets)"
    by (rule parse_buildSignatureHeader) (use assms(1-3) in auto)
  then have "signPayload hmac secret (int_str timestamp) body \<in>
      set (parseSignatureHeader (Some (buildSignatureHeader hmac secrets (int_str timestamp) body)))"
    using assms(2,3) by simp
  moreover have "signaturesMatch (signPayload hmac secret (int_str timestamp) body)
      (signPayload hmac secret (int_str timestamp) body)"
    by (rule hex_digest_match) (simp add: signPayload_def assms(1))
  moreover have "\<not> of_int tolerance < \<bar>of_int nowSeconds - (of_int timestamp :: rat)\<bar>"
    using assms(5) by (simp flip: of_int_diff of_int_abs)
  ultimately show ?thesis
    using jsNumber_int_str[OF assms(4)]
    by (auto simp: verifySignature_def Let_def list_ex_iff)
qed

end
