(* ===== verification/Token_Bucket.thy ===== *)
theory Token_Bucket
  imports World
begin

text \<open>
  \<open>src/backend/src/shared/token-bucket.js\<close>: the script that refills a bucket and takes a
  token in one step, and the call the worker makes.  The script computes with doubles; the
  model with rationals.  A key expires \<open>ttl\<close> milliseconds after its last write.
\<close>

definition TTL_MS :: int where "TTL_MS = 300000"

text \<open>The script: \<open>st\<close> is what \<open>HMGET\<close> finds under the key.\<close>

definition take_token :: "rat \<Rightarrow> rat \<Rightarrow> int \<Rightarrow> bucket option \<Rightarrow> bool \<times> bucket" where
  "take_token ratePerMinute capacity nowMs st =
    (let tokens0 = (case st of None \<Rightarrow> capacity | Some b \<Rightarrow> bk_tokens b);
         updatedAt = (case st of None \<Rightarrow> nowMs | Some b \<Rightarrow> bk_updatedAt b);
         elapsed = nowMs - updatedAt;
         tokens = (if 0 < elapsed then min capacity (tokens0 + of_int elapsed * ratePerMinute / 60000)
                   else tokens0)
     in if 1 \<le> tokens
        then (True, \<lparr>bk_tokens = tokens - 1, bk_updatedAt = nowMs\<rparr>)
        else (False, \<lparr>bk_tokens = tokens, bk_updatedAt = nowMs\<rparr>))"

definition live :: "int \<Rightarrow> int \<Rightarrow> bucket option \<Rightarrow> bucket option" where
  "live ttl nowMs st =
    (case st of None \<Rightarrow> None | Some b \<Rightarrow> if nowMs - bk_updatedAt b < ttl then Some b else None)"

definition bucket_key :: "string \<Rightarrow> string" where
  "bucket_key endpointId = ''bucket:endpoint:'' @ endpointId"

definition take_bucket :: "string \<Rightarrow> int \<Rightarrow> bool act" where
  "take_bucket endpointId ratePerMinute =
    io_bind now (\<lambda>t.
      effect_ret (\<lambda>w.
        (case take_token (of_int ratePerMinute) (of_int ratePerMinute) t
                (live TTL_MS t (buckets w (bucket_key endpointId))) of
           (allowed, b) \<Rightarrow> (allowed, w\<lparr>buckets := (buckets w)(bucket_key endpointId \<mapsto> b)\<rparr>))))"

section \<open>Facts about a sequence of calls\<close>

text \<open>The calls for one endpoint at the times \<open>ts\<close>: how many were allowed, and the bucket left.\<close>

fun takes :: "int \<Rightarrow> rat \<Rightarrow> int list \<Rightarrow> bucket option \<Rightarrow> nat \<times> bucket option" where
  "takes ttl rate [] st = (0, st)"
| "takes ttl rate (t # ts) st =
    (case take_token rate rate t (live ttl t st) of
       (allowed, b) \<Rightarrow>
         (case takes ttl rate ts (Some b) of
            (n, st') \<Rightarrow> ((if allowed then Suc n else n), st')))"

definition bucket_ok :: "rat \<Rightarrow> bucket \<Rightarrow> bool" where
  "bucket_ok capacity b \<longleftrightarrow> 0 \<le> bk_tokens b \<and> bk_tokens b \<le> capacity"

lemma take_token_ok:
  assumes "0 \<le> rate" "0 \<le> cap" "\<And>b. st = Some b \<Longrightarrow> bucket_ok cap b"
    and "take_token rate cap t st = (allowed, b')"
  shows "bucket_ok cap b'" "bk_updatedAt b' = t"
proof -
  have refill: "0 \<le> of_int (t - u) * rate / 60000" if "0 < t - u" for u
    using that assms(1) by simp
  show "bucket_ok cap b'" "bk_updatedAt b' = t"
    using assms(2-4) refill
    by (auto simp: take_token_def bucket_ok_def Let_def min_def split: option.splits if_splits)
qed

text \<open>An expired bucket would have refilled to its capacity, so the expiry cannot be observed.\<close>

lemma take_token_live:
  assumes "1 \<le> rate" "\<And>b. st = Some b \<Longrightarrow> bucket_ok rate b"
  shows "take_token rate rate t (live TTL_MS t st) = take_token rate rate t st"
proof (cases st)
  case (Some b)
  show ?thesis
  proof (cases "t - bk_updatedAt b < TTL_MS")
    case False
    let ?e = "of_int (t - bk_updatedAt b) :: rat"
    have "(300000 :: rat) \<le> ?e" using False by (simp add: TTL_MS_def flip: of_int_diff)
    then have "300000 * rate \<le> ?e * rate" using assms(1) by (intro mult_right_mono) auto
    moreover have "0 \<le> bk_tokens b" using assms(2) Some by (simp add: bucket_ok_def)
    ultimately have "rate \<le> bk_tokens b + ?e * rate / 60000" using assms(1) by linarith
    then show ?thesis
      using False Some by (simp add: live_def take_token_def Let_def TTL_MS_def min_def)
  qed (simp add: live_def Some)
qed (simp add: live_def)

lemma take_token_account:
  assumes "0 \<le> rate" "bk_updatedAt b \<le> t" "take_token rate rate t (Some b) = (allowed, b')"
  shows "bk_tokens b' + (if allowed then 1 else 0)
    \<le> bk_tokens b + rate * of_int (t - bk_updatedAt b) / 60000"
  using assms
  by (auto simp: take_token_def Let_def mult.commute split: if_splits)

lemma takes_account:
  assumes "1 \<le> rate" "bucket_ok rate b" "sorted (bk_updatedAt b # ts)" "takes TTL_MS rate ts (Some b) = (n, st)"
  shows "of_nat n \<le> bk_tokens b + rate * of_int (last (bk_updatedAt b # ts) - bk_updatedAt b) / 60000"
  using assms
proof (induction ts arbitrary: b n st)
  case Nil
  then show ?case by (simp add: bucket_ok_def)
next
  case (Cons t ts)
  obtain allowed b' where tk: "take_token rate rate t (Some b) = (allowed, b')" by fastforce
  obtain m st' where m: "takes TTL_MS rate ts (Some b') = (m, st')" by fastforce
  have lv: "take_token rate rate t (live TTL_MS t (Some b)) = (allowed, b')"
    using take_token_live[of rate "Some b" t] Cons.prems tk by simp
  have ok: "bucket_ok rate b'" "bk_updatedAt b' = t"
    using take_token_ok[OF _ _ _ tk] Cons.prems by auto
  have n: "n = (if allowed then Suc m else m)" using Cons.prems(4) lv m by simp
  have "of_nat m \<le> bk_tokens b' + rate * of_int (last (t # ts) - t) / 60000"
    using Cons.IH[of b' m] m ok Cons.prems by auto
  moreover have "bk_tokens b' + (if allowed then 1 else 0)
      \<le> bk_tokens b + rate * of_int (t - bk_updatedAt b) / 60000"
    using take_token_account[OF _ _ tk] Cons.prems by auto
  moreover have "rate * of_int (t - bk_updatedAt b) / 60000 + rate * of_int (last (t # ts) - t) / 60000
      = rate * of_int (last (bk_updatedAt b # t # ts) - bk_updatedAt b) / 60000"
    by (simp add: field_simps)
  ultimately show ?case by (simp add: n split: if_splits)
qed

lemma takes_bound:
  assumes "1 \<le> rate" "sorted (t # ts)" "takes TTL_MS rate (t # ts) None = (n, st)"
  shows "of_nat n \<le> rate + rate * of_int (last (t # ts) - t) / 60000"
proof -
  have first: "take_token rate rate t None = (True, \<lparr>bk_tokens = rate - 1, bk_updatedAt = t\<rparr>)"
    using assms(1) by (simp add: take_token_def)
  obtain m st' where m: "takes TTL_MS rate ts (Some \<lparr>bk_tokens = rate - 1, bk_updatedAt = t\<rparr>) = (m, st')"
    by fastforce
  have "n = Suc m" using assms(3) m first by (simp add: live_def)
  moreover have "of_nat m \<le> rate - 1 + rate * of_int (last (t # ts) - t) / 60000"
    using takes_account[OF assms(1) _ _ m] assms by (simp add: bucket_ok_def)
  ultimately show ?thesis by simp
qed

text \<open>
  A clock that goes back is another matter: the script stores the caller's clock even when it
  is behind the stored one, so two workers whose clocks differ by \<open>s\<close> refill the bucket by
  \<open>s\<close> milliseconds each time they take turns.
\<close>

lemma live_ok: "(\<And>b. st = Some b \<Longrightarrow> bucket_ok cap b) \<Longrightarrow> live ttl t st = Some b \<Longrightarrow> bucket_ok cap b"
  by (auto simp: live_def split: option.splits if_splits)

lemma takes_pair:
  assumes r: "1 \<le> rate" "60000 \<le> of_int s * rate" and s: "0 < s" "s < TTL_MS"
    and ok: "\<And>b. st = Some b \<Longrightarrow> bucket_ok rate b"
  shows "\<exists>b k. bucket_ok rate b \<and> 1 \<le> k \<and>
    (\<forall>ts. fst (takes TTL_MS rate (t # (t + s) # ts) st) = k + fst (takes TTL_MS rate ts (Some b)))"
proof -
  obtain a1 b1 where tk1: "take_token rate rate t (live TTL_MS t st) = (a1, b1)" by fastforce
  have b1: "bucket_ok rate b1" "bk_updatedAt b1 = t"
    using take_token_ok[OF _ _ live_ok[OF ok] tk1] r by auto
  obtain a2 b2 where tk2: "take_token rate rate (t + s) (Some b1) = (a2, b2)" by fastforce
  have b2: "bucket_ok rate b2" using take_token_ok[OF _ _ _ tk2] r b1 by auto
  have "1 \<le> of_int s * rate / 60000" using r(2) by simp
  then have "1 \<le> min rate (bk_tokens b1 + of_int s * rate / 60000)"
    using r(1) b1(1) by (simp add: bucket_ok_def)
  then have a2: "a2" using tk2 b1(2) s(1) by (auto simp: take_token_def Let_def split: if_splits)
  have lv: "live TTL_MS (t + s) (Some b1) = Some b1" using s(2) b1(2) by (simp add: live_def)
  have "fst (takes TTL_MS rate (t # (t + s) # ts) st) = (if a1 then 2 else 1) + fst (takes TTL_MS rate ts (Some b2))" for ts
    using tk1 tk2 a2 lv by (simp split: prod.split)
  then show ?thesis using b2 by (intro exI[of _ b2] exI[of _ "if a1 then 2 else 1"]) auto
qed

lemma takes_skewed:
  assumes r: "1 \<le> rate" "60000 \<le> of_int s * rate" and s: "0 < s" "s < TTL_MS"
    and ok: "\<And>b. st = Some b \<Longrightarrow> bucket_ok rate b"
  shows "n \<le> fst (takes TTL_MS rate (concat (replicate n [t, t + s])) st)"
  using ok
proof (induction n arbitrary: st)
  case (Suc n)
  obtain b k where b: "bucket_ok rate b" "1 \<le> k"
    and eq: "\<And>ts. fst (takes TTL_MS rate (t # (t + s) # ts) st) = k + fst (takes TTL_MS rate ts (Some b))"
    using takes_pair[OF r s Suc.prems] by blast
  have "n \<le> fst (takes TTL_MS rate (concat (replicate n [t, t + s])) (Some b))"
    using Suc.IH[of "Some b"] b(1) by simp
  then show ?case using eq b(2) by simp
qed simp

end
