(* ===== verification/Env_Schema.thy ===== *)
theory Env_Schema
  imports Retry Js_Number
begin

text \<open>
  \<open>src/backend/src/shared/env-schema.js\<close>: the configuration, the bounds its schema declares,
  the rules across fields, and the text of the issues.  Parsing a single field belongs to
  the zod package; \<open>field_parse\<close> stands for it and \<open>schema_bounds\<close> lists what the schema asks
  of the values it returns.
\<close>

datatype node_env = Development | Test | Production

record config =
  cf_NODE_ENV :: node_env
  cf_JWT_SECRET :: string
  cf_SECRET_ENCRYPTION_KEY :: string
  cf_REFRESH_TOKEN_TTL_DAYS :: int
  cf_DELIVERY_CONNECT_TIMEOUT_MS :: int
  cf_DELIVERY_TIMEOUT_MS :: int
  cf_MAX_ATTEMPTS :: int
  cf_RESPONSE_SNIPPET_BYTES :: int
  cf_RATE_LIMIT_PUBLISH_PER_MINUTE :: int
  cf_RATE_LIMIT_PUBLISH_PROJECT_PER_MINUTE :: int
  cf_IDEMPOTENCY_TTL_SECONDS :: int
  cf_BULK_REPLAY_LIMIT :: int
  cf_SSRF_ALLOW_PRIVATE :: bool
  cf_SSRF_ALLOWLIST_HOSTS :: "string list"
  cf_SSRF_BLOCKED_PORTS :: "int list"
  cf_ENDPOINT_AUTO_DISABLE_THRESHOLD :: int
  cf_SECRET_ROTATION_GRACE_HOURS :: int
  cf_DLQ_MESSAGE_TTL_HOURS :: int
  cf_ALERT_TIMEOUT_MS :: int
  cf_ALERT_SUPPRESSION_MINUTES :: int
  cf_ALERT_DLQ_THRESHOLD :: int
  cf_RETENTION_DAYS :: int
  cf_STUCK_DELIVERY_MINUTES :: int
  cf_SHUTDOWN_GRACE_MS :: int
  cf_REALTIME_MAX_EVENTS_PER_SECOND :: int

definition PLACEHOLDER_JWT_SECRET :: string where
  "PLACEHOLDER_JWT_SECRET = ''change-me-this-is-a-placeholder-secret''"

definition PLACEHOLDER_ENCRYPTION_KEY :: string where
  "PLACEHOLDER_ENCRYPTION_KEY = replicate 64 (CHR ''0'')"

definition booleanFromEnv :: "string \<Rightarrow> bool option" where
  "booleanFromEnv v = (if v = ''true'' then Some True else if v = ''false'' then Some False else None)"

definition csv :: "string \<Rightarrow> string list" where
  "csv v = filter (\<lambda>entry. entry \<noteq> []) (map trim (split_on (CHR '','') v))"

text \<open>\<open>^\d+[smhd]$\<close>\<close>

definition durationString :: "string \<Rightarrow> bool" where
  "durationString v \<longleftrightarrow>
    (let rest = dropWhile is_digit v in takeWhile is_digit v \<noteq> [] \<and> length rest = 1 \<and> hd rest \<in> set ''smhd'')"

definition hex64 :: "string \<Rightarrow> bool" where
  "hex64 v \<longleftrightarrow> length v = 64 \<and> list_all (\<lambda>c. digit_val c < 16) v"

definition schema_bounds :: "config \<Rightarrow> bool" where
  "schema_bounds env \<longleftrightarrow>
    32 \<le> length (cf_JWT_SECRET env) \<and> hex64 (cf_SECRET_ENCRYPTION_KEY env) \<and>
    1 \<le> cf_REFRESH_TOKEN_TTL_DAYS env \<and> cf_REFRESH_TOKEN_TTL_DAYS env \<le> 365 \<and>
    100 \<le> cf_DELIVERY_CONNECT_TIMEOUT_MS env \<and> 100 \<le> cf_DELIVERY_TIMEOUT_MS env \<and>
    1 \<le> cf_MAX_ATTEMPTS env \<and> 1 \<le> cf_RESPONSE_SNIPPET_BYTES env \<and>
    1 \<le> cf_RATE_LIMIT_PUBLISH_PER_MINUTE env \<and> 1 \<le> cf_RATE_LIMIT_PUBLISH_PROJECT_PER_MINUTE env \<and>
    1 \<le> cf_IDEMPOTENCY_TTL_SECONDS env \<and> 1 \<le> cf_BULK_REPLAY_LIMIT env \<and>
    (\<forall>p \<in> set (cf_SSRF_BLOCKED_PORTS env). 1 \<le> p \<and> p \<le> 65535) \<and>
    1 \<le> cf_ENDPOINT_AUTO_DISABLE_THRESHOLD env \<and> 1 \<le> cf_SECRET_ROTATION_GRACE_HOURS env \<and>
    1 \<le> cf_DLQ_MESSAGE_TTL_HOURS env \<and> 100 \<le> cf_ALERT_TIMEOUT_MS env \<and>
    1 \<le> cf_ALERT_SUPPRESSION_MINUTES env \<and> 1 \<le> cf_ALERT_DLQ_THRESHOLD env \<and>
    1 \<le> cf_RETENTION_DAYS env \<and> 1 \<le> cf_STUCK_DELIVERY_MINUTES env \<and>
    0 \<le> cf_SHUTDOWN_GRACE_MS env \<and> 1 \<le> cf_REALTIME_MAX_EVENTS_PER_SECOND env"

type_synonym issue = "string list \<times> string"

definition placeholder_message :: string where
  "placeholder_message =
    ''is still the .env.example placeholder; generate one with `openssl rand -hex 32`''"

definition issue_if :: "bool \<Rightarrow> 'a \<Rightarrow> 'a list" where
  "issue_if b x = (if b then [x] else [])"

definition crossFieldIssues :: "config \<Rightarrow> issue list" where
  "crossFieldIssues env =
    issue_if (cf_RATE_LIMIT_PUBLISH_PROJECT_PER_MINUTE env < cf_RATE_LIMIT_PUBLISH_PER_MINUTE env)
      ([''RATE_LIMIT_PUBLISH_PROJECT_PER_MINUTE''],
       ''must be greater than or equal to RATE_LIMIT_PUBLISH_PER_MINUTE'')
    @ issue_if (MAX_SUPPORTED_ATTEMPTS < cf_MAX_ATTEMPTS env)
      ([''MAX_ATTEMPTS''], ''may not exceed '' @ nat_str (nat MAX_SUPPORTED_ATTEMPTS)
         @ '' (retry levels + 1); raising it requires a new retry queue, see docs/architecture.md ''
         @ [CHR 0xC2, CHR 0xA7] @ ''4'')
    @ issue_if (cf_DELIVERY_TIMEOUT_MS env < cf_DELIVERY_CONNECT_TIMEOUT_MS env)
      ([''DELIVERY_CONNECT_TIMEOUT_MS''], ''may not exceed DELIVERY_TIMEOUT_MS, which is the total budget'')
    @ issue_if (cf_JWT_SECRET env = cf_SECRET_ENCRYPTION_KEY env)
      ([''SECRET_ENCRYPTION_KEY''], ''must differ from JWT_SECRET'')
    @ (if cf_NODE_ENV env \<noteq> Production then []
       else issue_if (cf_JWT_SECRET env = PLACEHOLDER_JWT_SECRET) ([''JWT_SECRET''], placeholder_message)
            @ issue_if (cf_SECRET_ENCRYPTION_KEY env = PLACEHOLDER_ENCRYPTION_KEY)
                ([''SECRET_ENCRYPTION_KEY''], placeholder_message))"

definition parseEnv :: "('s \<Rightarrow> issue list + config) \<Rightarrow> 's \<Rightarrow> issue list + config" where
  "parseEnv field_parse source =
    (case field_parse source of
       Inl issues \<Rightarrow> Inl issues
     | Inr env \<Rightarrow> (let issues = crossFieldIssues env in if issues = [] then Inr env else Inl issues))"

definition formatEnvIssues :: "issue list \<Rightarrow> string" where
  "formatEnvIssues issues =
    join [CHR 0x0A] (map (\<lambda>(path, message).
      ''  - '' @ (let p = join ''.'' path in if p = [] then ''(root)'' else p) @ '': '' @ message) issues)"

section \<open>Facts\<close>

lemma issue_if_empty [simp]: "issue_if b x = [] \<longleftrightarrow> \<not> b"
  by (simp add: issue_if_def)

lemma parseEnv_Inr:
  "parseEnv fp src = Inr env \<longleftrightarrow> fp src = Inr env \<and> crossFieldIssues env = []"
  by (auto simp: parseEnv_def Let_def split: sum.splits if_splits)

lemma crossFieldIssues_empty:
  "crossFieldIssues env = [] \<longleftrightarrow>
    cf_RATE_LIMIT_PUBLISH_PER_MINUTE env \<le> cf_RATE_LIMIT_PUBLISH_PROJECT_PER_MINUTE env \<and>
    cf_MAX_ATTEMPTS env \<le> MAX_SUPPORTED_ATTEMPTS \<and>
    cf_DELIVERY_CONNECT_TIMEOUT_MS env \<le> cf_DELIVERY_TIMEOUT_MS env \<and>
    cf_JWT_SECRET env \<noteq> cf_SECRET_ENCRYPTION_KEY env \<and>
    (cf_NODE_ENV env = Production \<longrightarrow>
      cf_JWT_SECRET env \<noteq> PLACEHOLDER_JWT_SECRET \<and> cf_SECRET_ENCRYPTION_KEY env \<noteq> PLACEHOLDER_ENCRYPTION_KEY)"
  unfolding crossFieldIssues_def by (cases "cf_NODE_ENV env") auto

lemma csv_entries: "entry \<in> set (csv v) \<Longrightarrow> entry \<noteq> [] \<and> (\<exists>p \<in> set (split_on (CHR '','') v). entry = trim p)"
  by (auto simp: csv_def)

text \<open>A valid configuration never asks for a retry level the schedule lacks.\<close>

lemma valid_config_levels:
  assumes "crossFieldIssues env = []" "1 \<le> attempt" "attempt < cf_MAX_ATTEMPTS env"
  shows "\<exists>l. selectRetryLevel attempt (cf_MAX_ATTEMPTS env) RETRY_SCHEDULE ra = Some l"
  using assms by (intro selectRetryLevel_defined)
    (auto simp: crossFieldIssues_empty MAX_SUPPORTED_ATTEMPTS_def)

end
