(* ===== verification/Http_Client.thy ===== *)
theory Http_Client
  imports Ssrf World
begin

text \<open>
  \<open>src/backend/src/shared/http-client.js\<close>: one outbound request on a pinned address.  The
  undici package is an argument \<open>request\<close>: for a target, headers and body it gives either an
  error or a response whose body arrives in chunks and may break off.  \<open>utf8\<close> is the
  platform's decoding of bytes.
\<close>

definition CAPTURED_RESPONSE_HEADERS :: "string list" where
  "CAPTURED_RESPONSE_HEADERS =
    [''content-type'', ''content-length'', ''retry-after'', ''date'', ''x-request-id'']"

definition TIMEOUT_CODES :: "string list" where
  "TIMEOUT_CODES =
    [''UND_ERR_CONNECT_TIMEOUT'', ''UND_ERR_HEADERS_TIMEOUT'', ''UND_ERR_BODY_TIMEOUT'', ''ABORT_ERR'']"

definition DNS_CODES :: "string list" where
  "DNS_CODES = [''ENOTFOUND'', ''EAI_AGAIN'']"

definition CONNECTION_CODES :: "string list" where
  "CONNECTION_CODES = [''ECONNREFUSED'', ''ECONNRESET'', ''EHOSTUNREACH'', ''ENETUNREACH'', ''EPIPE'']"

record net_error =
  ne_name :: "string option"
  ne_code :: "string option"
  ne_causeCode :: "string option"
  ne_message :: string

definition classifyTransportError :: "net_error \<Rightarrow> string" where
  "classifyTransportError error =
    (let code = (case ne_code error of Some c \<Rightarrow> Some c | None \<Rightarrow> ne_causeCode error);
         code_in = (\<lambda>codes. case code of None \<Rightarrow> False | Some c \<Rightarrow> c \<in> set codes)
     in if ne_name error = Some ''TimeoutError'' \<or> code_in TIMEOUT_CODES then ''TIMEOUT''
        else if code_in DNS_CODES then ''DNS''
        else if code_in CONNECTION_CODES then ''CONNECTION''
        else ''REQUEST_FAILED'')"

text \<open>The response headers as a map; a repeated header is its values joined by commas.\<close>

definition capture :: "(string \<Rightarrow> string option) \<Rightarrow> (string \<times> string) list" where
  "capture headers =
    map (\<lambda>name. (name, the (headers name)))
      (filter (\<lambda>name. headers name \<noteq> None) CAPTURED_RESPONSE_HEADERS)"

record response =
  rp_statusCode :: int
  rp_headers :: "string \<Rightarrow> string option"
  rp_chunks :: "string list"
  rp_abort :: "net_error option"

text \<open>\<open>readSnippet\<close>: the loop over the chunks stops once the limit is reached; a body that
  breaks off before that rejects.\<close>

fun read_chunks :: "nat \<Rightarrow> nat \<Rightarrow> string list \<Rightarrow> string list \<Rightarrow> net_error option \<Rightarrow> net_error + string list" where
  "read_chunks limitBytes sz chunks [] abort =
     (case abort of Some e \<Rightarrow> Inl e | None \<Rightarrow> Inr chunks)"
| "read_chunks limitBytes sz chunks (chunk # body) abort =
     (if limitBytes \<le> sz + length chunk then Inr (chunks @ [chunk])
      else read_chunks limitBytes (sz + length chunk) (chunks @ [chunk]) body abort)"

definition readSnippet :: "(string \<Rightarrow> string) \<Rightarrow> response \<Rightarrow> nat \<Rightarrow> net_error + string" where
  "readSnippet utf8 rp limitBytes =
    (case read_chunks limitBytes 0 [] (rp_chunks rp) (rp_abort rp) of
       Inl e \<Rightarrow> Inl e
     | Inr chunks \<Rightarrow> Inr (utf8 (take limitBytes (concat chunks))))"

text \<open>\<open>pinnedDispatcher\<close>'s \<open>lookup\<close>: whatever name is asked for, the checked address answers.\<close>

definition pinned_lookup :: "target \<Rightarrow> string \<Rightarrow> bool \<Rightarrow> address_entry list" where
  "pinned_lookup tgt hostname all = [\<lparr>ad_address = tg_address tgt, ad_family = tg_family tgt\<rparr>]"

record result =
  rs_responseStatus :: "int option"
  rs_responseHeaders :: "(string \<times> string) list option"
  rs_responseBodySnippet :: "string option"
  rs_durationMs :: "int option"
  rs_errorCode :: "string option"
  rs_errorMessage :: "string option"

definition transport_failure :: "net_error \<Rightarrow> int \<Rightarrow> result" where
  "transport_failure error durationMs =
    \<lparr>rs_responseStatus = None, rs_responseHeaders = None, rs_responseBodySnippet = None,
     rs_durationMs = Some durationMs, rs_errorCode = Some (classifyTransportError error),
     rs_errorMessage = Some (ne_message error)\<rparr>"

text \<open>\<open>startedAt\<close> and \<open>endedAt\<close> are the two readings of the clock, \<open>close\<close> the rejection of
  \<open>dispatcher.close()\<close>, if any, which the \<open>finally\<close> lets through.\<close>

definition sendWebhook ::
  "(target \<Rightarrow> (string \<times> string) list \<Rightarrow> string \<Rightarrow> net_error + response) \<Rightarrow> (string \<Rightarrow> string)
    \<Rightarrow> nat \<Rightarrow> int \<Rightarrow> int \<Rightarrow> exn option \<Rightarrow> target \<Rightarrow> (string \<times> string) list \<Rightarrow> string \<Rightarrow> exn + result" where
  "sendWebhook request utf8 snippetBytes startedAt endedAt close tgt headers body =
    (let outcome =
       (case request tgt headers body of
          Inl error \<Rightarrow> transport_failure error (endedAt - startedAt)
        | Inr rp \<Rightarrow>
            (case readSnippet utf8 rp snippetBytes of
               Inl error \<Rightarrow> transport_failure error (endedAt - startedAt)
             | Inr snippet \<Rightarrow>
                 \<lparr>rs_responseStatus = Some (rp_statusCode rp), rs_responseHeaders = Some (capture (rp_headers rp)),
                  rs_responseBodySnippet = Some snippet, rs_durationMs = Some (endedAt - startedAt),
                  rs_errorCode = None, rs_errorMessage = None\<rparr>))
     in case close of Some e \<Rightarrow> Inl e | None \<Rightarrow> Inr outcome)"

section \<open>Sending\<close>

text \<open>How the handlers call it: \<open>send\<close> may depend on the state of the world, and the request is
  logged.\<close>

type_synonym sender = "target \<Rightarrow> (string \<times> string) list \<Rightarrow> string \<Rightarrow> world \<Rightarrow> exn + result"

definition send_request :: "sender \<Rightarrow> target \<Rightarrow> (string \<times> string) list \<Rightarrow> string \<Rightarrow> result act" where
  "send_request send tgt headers body = (\<lambda>w.
    (send tgt headers body w,
     w\<lparr>requests := requests w @
        [\<lparr>hr_address = tg_address tgt, hr_headers = headers, hr_body = body\<rparr>]\<rparr>))"

text \<open>What \<open>resolveSafeTarget\<close> throws: the code, the reason and the message.\<close>

record target_error =
  te_code :: "string option"
  te_reason :: "string option"
  te_message :: string

definition SSRF_ERROR_CODE :: string where "SSRF_ERROR_CODE = ''SSRF_BLOCKED''"

definition reason_text :: "ssrf_reason \<Rightarrow> string" where
  "reason_text r =
    (case r of InvalidUrl \<Rightarrow> ''invalid_url'' | UnsupportedScheme \<Rightarrow> ''unsupported_scheme''
     | BlockedPort \<Rightarrow> ''blocked_port'' | DnsFailure \<Rightarrow> ''dns_failure'' | PrivateAddress _ \<Rightarrow> ''private_address'')"

definition SsrfBlockedError :: "ssrf_reason \<Rightarrow> string \<Rightarrow> target_error" where
  "SsrfBlockedError r detail =
    \<lparr>te_code = Some SSRF_ERROR_CODE, te_reason = Some (reason_text r), te_message = detail\<rparr>"

type_synonym resolver = "string \<Rightarrow> world \<Rightarrow> target_error + target"

section \<open>Facts\<close>

lemma wp_send_request [wp_simps]:
  "wp (send_request send tgt headers body) Q E w =
    (let w' = w\<lparr>requests := requests w @
        [\<lparr>hr_address = tg_address tgt, hr_headers = headers, hr_body = body\<rparr>]\<rparr>
     in case send tgt headers body w of Inl e \<Rightarrow> E e w' | Inr r \<Rightarrow> Q r w')"
  by (simp add: wp_def send_request_def Let_def)

lemma read_chunks_outcome:
  "sz = length (concat cs) \<Longrightarrow>
   (case read_chunks limit sz cs body abort of
      Inr out \<Rightarrow> take limit (concat out) = take limit (concat (cs @ body))
    | Inl e \<Rightarrow> abort = Some e \<and> (length (concat (cs @ body)) < limit \<or> body = []))"
proof (induction limit sz cs body abort rule: read_chunks.induct)
  case (2 limit sz cs c body abort)
  show ?case
  proof (cases "limit \<le> sz + length c")
    case False
    then show ?thesis using 2 by (auto split: sum.splits)
  qed (use 2(2) in simp)
qed (auto split: option.splits)

lemma read_chunks_no_abort: "\<exists>out. read_chunks limit sz cs body None = Inr out"
  by (induction limit sz cs body "None :: net_error option" rule: read_chunks.induct) auto

lemma sendWebhook_exclusive:
  assumes "sendWebhook request utf8 n t0 t1 close tgt hs body = Inr r"
  shows "rs_responseStatus r = None \<longleftrightarrow> rs_errorCode r \<noteq> None"
  using assms
  by (auto simp: sendWebhook_def Let_def transport_failure_def split: sum.splits option.splits)

end
