(* ===== verification/Alerts.thy ===== *)
theory Alerts
  imports Http_Client Env_Schema
begin

text \<open>
  \<open>src/backend/src/shared/alerts.js\<close> and \<open>shared/realtime.js\<close>: the side channels.  Both
  swallow their failures: an alert is claimed in Redis with \<open>NX\<close> and an expiry before it is
  posted, a realtime message is published and forgotten.
\<close>

definition ALERT_SNIPPET_BYTES :: nat where "ALERT_SNIPPET_BYTES = 256"

datatype alert_reason = ENDPOINT_DISABLED | DEAD_LETTER_BACKLOG | DEPENDENCY_UNREACHABLE

definition ALERT_REASON :: "alert_reason \<Rightarrow> string" where
  "ALERT_REASON r =
    (case r of ENDPOINT_DISABLED \<Rightarrow> ''endpoint_disabled'' | DEAD_LETTER_BACKLOG \<Rightarrow> ''dead_letter_backlog''
     | DEPENDENCY_UNREACHABLE \<Rightarrow> ''dependency_unreachable'')"

definition suppressionKey :: "string \<Rightarrow> string \<Rightarrow> string \<Rightarrow> string" where
  "suppressionKey projectId reason scope = ''alert:'' @ projectId @ '':'' @ reason @ '':'' @ scope"

record alert_deps =
  al_config :: config
  al_send :: sender
  al_resolve :: resolver
  al_iso :: "int \<Rightarrow> string"
  al_num :: "rat \<Rightarrow> string"

datatype alert_outcome = AlertSent | AlertSkipped string

text \<open>\<open>SET key value EX seconds NX\<close>: set unless a value that has not expired is there.\<close>

definition set_nx :: "string \<Rightarrow> int \<Rightarrow> world \<Rightarrow> bool \<times> world" where
  "set_nx key seconds w =
    (case alertKeys w key of
       Some expiry \<Rightarrow>
         if clock w < expiry then (False, w)
         else (True, w\<lparr>alertKeys := (alertKeys w)(key \<mapsto> clock w + seconds * 1000)\<rparr>)
     | None \<Rightarrow> (True, w\<lparr>alertKeys := (alertKeys w)(key \<mapsto> clock w + seconds * 1000)\<rparr>))"

definition claim :: "alert_deps \<Rightarrow> string \<Rightarrow> string \<Rightarrow> string \<Rightarrow> bool act" where
  "claim al projectId reason scope =
    io_bind now (\<lambda>_. effect_ret
      (set_nx (suppressionKey projectId reason scope) (cf_ALERT_SUPPRESSION_MINUTES (al_config al) * 60)))"

definition target_exn :: "target_error \<Rightarrow> exn" where
  "target_exn e = JsError (te_code e) None (te_message e)"

definition alert_post :: "alert_deps \<Rightarrow> string \<Rightarrow> json \<Rightarrow> result act" where
  "alert_post al u body =
    io_bind (io_get (al_resolve al u)) (\<lambda>r.
      (case r of
         Inl e \<Rightarrow> io_raise (target_exn e)
       | Inr tgt \<Rightarrow>
           send_request (al_send al) tgt
             [(''content-type'', ''application/json''), (''user-agent'', ''hook-tracker/alerts'')]
             (stringify (al_num al) body)))"

definition alertBody :: "string \<Rightarrow> string \<Rightarrow> json \<Rightarrow> string \<Rightarrow> json" where
  "alertBody projectId reason detail occurredAt =
    JObj [(''source'', JStr ''hook-tracker''), (''reason'', JStr reason), (''projectId'', JStr projectId),
          (''occurredAt'', JStr occurredAt), (''detail'', detail)]"

definition notifyProject :: "alert_deps \<Rightarrow> project \<Rightarrow> string \<Rightarrow> string \<Rightarrow> json \<Rightarrow> alert_outcome act" where
  "notifyProject al project reason scope detail =
    (case p_alertWebhookUrl project of
       None \<Rightarrow> io_ret (AlertSkipped ''not_configured'')
     | Some u \<Rightarrow>
       if u = [] then io_ret (AlertSkipped ''not_configured'')
       else io_bind (claim al (p_id project) reason scope) (\<lambda>claimed.
         if \<not> claimed then io_ret (AlertSkipped ''suppressed'')
         else io_bind now (\<lambda>t.
           io_bind (alert_post al u (alertBody (p_id project) reason detail (al_iso al t))) (\<lambda>r.
             if rs_errorCode r \<noteq> None
                \<or> (case rs_responseStatus r of None \<Rightarrow> False | Some st \<Rightarrow> 400 \<le> st)
             then io_ret (AlertSkipped ''failed'')
             else io_ret AlertSent))))"

definition guard_alert :: "alert_outcome act \<Rightarrow> alert_outcome act" where
  "guard_alert work = io_catch work (\<lambda>_. io_ret (AlertSkipped ''failed''))"

definition notify :: "alert_deps \<Rightarrow> string \<Rightarrow> string \<Rightarrow> string \<Rightarrow> json \<Rightarrow> alert_outcome act" where
  "notify al projectId reason scope detail =
    guard_alert (io_bind (query (\<lambda>w. find_by p_id projectId (projects w))) (\<lambda>r.
      (case r of
         None \<Rightarrow> io_ret (AlertSkipped ''unknown_project'')
       | Some project \<Rightarrow> notifyProject al project reason scope detail)))"

fun notify_all :: "alert_deps \<Rightarrow> string \<Rightarrow> string \<Rightarrow> json \<Rightarrow> project list \<Rightarrow> alert_outcome list act" where
  "notify_all al reason scope detail [] = io_ret []"
| "notify_all al reason scope detail (p # ps) =
    io_bind (guard_alert (notifyProject al p reason scope detail)) (\<lambda>r.
      io_bind (notify_all al reason scope detail ps) (\<lambda>rs. io_ret (r # rs)))"

text \<open>The number sent and the number of projects; \<open>None\<close> when the query itself failed.\<close>

definition notifyConfiguredProjects ::
  "alert_deps \<Rightarrow> string \<Rightarrow> string \<Rightarrow> json \<Rightarrow> (nat \<times> nat) option act" where
  "notifyConfiguredProjects al reason scope detail =
    io_catch
      (io_bind (query (\<lambda>w. filter (\<lambda>p. p_alertWebhookUrl p \<noteq> None) (projects w))) (\<lambda>ps.
        io_bind (notify_all al reason scope detail ps) (\<lambda>rs.
          io_ret (Some (length (filter (\<lambda>r. r = AlertSent) rs), length ps)))))
      (\<lambda>_. io_ret None)"

section \<open>Realtime\<close>

definition realtimeChannel :: "string \<Rightarrow> string" where
  "realtimeChannel projectId = ''realtime:'' @ projectId"

definition emit :: "string \<Rightarrow> realtime_event \<Rightarrow> unit act" where
  "emit projectId ev =
    io_catch (effect (\<lambda>w. w\<lparr>emitted := emitted w @ [(realtimeChannel projectId, ev)]\<rparr>)) (\<lambda>_. io_ret ())"

section \<open>The side channels leave the tables and the broker alone, and never reject\<close>

definition same_rows :: "world \<Rightarrow> world \<Rightarrow> bool" where
  "same_rows w w' \<longleftrightarrow>
    deliveries w' = deliveries w \<and> endpoints w' = endpoints w \<and> events w' = events w \<and>
    attempts w' = attempts w \<and> published w' = published w \<and> projects w' = projects w"

interpretation sr: frame_order same_rows
  by unfold_locales (simp_all add: same_rows_def)

lemma same_rows_get:
  "same_rows w w' \<Longrightarrow> get_delivery w' i = get_delivery w i"
  "same_rows w w' \<Longrightarrow> get_endpoint w' i = get_endpoint w i"
  "same_rows w w' \<Longrightarrow> get_event w' i = get_event w i"
  by (simp_all add: same_rows_def get_delivery_def get_endpoint_def get_event_def)

definition no_raise :: "('w, 'e, 'a) io \<Rightarrow> bool" where
  "no_raise m \<longleftrightarrow> (\<forall>w. \<exists>a w'. m w = (Inr a, w'))"

lemma no_raise_catch: "(\<And>e. no_raise (h e)) \<Longrightarrow> no_raise (io_catch m h)"
  unfolding no_raise_def io_catch_def
  by (auto split: prod.splits sum.splits)

lemma no_raise_ret: "no_raise (io_ret a)"
  by (simp add: no_raise_def io_ret_def)

lemma wp_side_channel:
  assumes "keeps same_rows m" "no_raise m" "\<And>a w'. same_rows w w' \<Longrightarrow> Q a w'"
  shows "wp m Q E w"
proof -
  obtain a w' where m: "m w = (Inr a, w')" using assms(2) unfolding no_raise_def by blast
  moreover have "same_rows w w'" using assms(1) m unfolding keeps_def by (metis snd_conv)
  ultimately show ?thesis using assms(3) by (simp add: wp_def)
qed

lemma keeps_same_rows:
  "keeps same_rows now" "keeps same_rows (send_request send tgt hs b)" "keeps same_rows (query g)"
  "keeps same_rows (effect_ret (set_nx k s))"
  by (auto simp: keeps_def now_def send_request_def query_def effect_ret_def set_nx_def same_rows_def Let_def
      pop_fault_def split: fault.splits option.splits)

lemma emit_side: "keeps same_rows (emit p ev)" "no_raise (emit p ev)"
proof -
  have "keeps same_rows (effect (\<lambda>w. w\<lparr>emitted := emitted w @ [(realtimeChannel p, ev)]\<rparr>))"
    by (auto simp: keeps_def effect_def same_rows_def pop_fault_def split: fault.splits)
  then show "keeps same_rows (emit p ev)" "no_raise (emit p ev)"
    unfolding emit_def by (auto intro: sr.keeps_intros no_raise_catch no_raise_ret)
qed

lemma alert_post_side: "keeps same_rows (alert_post al u body)"
  unfolding alert_post_def by (auto intro!: sr.keeps_intros keeps_same_rows split: sum.splits)

lemma notifyProject_side: "keeps same_rows (notifyProject al p reason scope detail)"
  unfolding notifyProject_def claim_def
  by (auto intro!: sr.keeps_intros keeps_same_rows alert_post_side split: option.splits)

lemma notify_side: "keeps same_rows (notify al p reason scope detail)" "no_raise (notify al p reason scope detail)"
  unfolding notify_def guard_alert_def
  by (auto intro!: sr.keeps_intros keeps_same_rows notifyProject_side no_raise_catch no_raise_ret split: option.splits)

lemma notify_all_side: "keeps same_rows (notify_all al reason scope detail ps)"
  by (induction ps)
     (auto intro!: sr.keeps_intros keeps_same_rows notifyProject_side simp: guard_alert_def)

lemma notifyConfiguredProjects_side:
  "keeps same_rows (notifyConfiguredProjects al reason scope detail)"
  "no_raise (notifyConfiguredProjects al reason scope detail)"
  unfolding notifyConfiguredProjects_def
  by (auto intro!: sr.keeps_intros keeps_same_rows notify_all_side no_raise_catch no_raise_ret)

section \<open>One alert per suppression window\<close>

text \<open>The claims of one key made at the times \<open>ts\<close>: those granted, given the expiry set so far.\<close>

fun granted :: "string \<Rightarrow> int \<Rightarrow> int list \<Rightarrow> world \<Rightarrow> int list" where
  "granted key seconds [] w = []"
| "granted key seconds (t # ts) w =
    (case set_nx key seconds (w\<lparr>clock := t\<rparr>) of
       (ok, w') \<Rightarrow> (if ok then t # granted key seconds ts w' else granted key seconds ts w'))"

lemma granted_after:
  assumes "sorted ts" "alertKeys w key = Some expiry" "s \<in> set (granted key seconds ts w)"
  shows "expiry \<le> s \<and> s \<in> set ts"
  using assms
proof (induction ts arbitrary: w expiry)
  case (Cons t ts)
  show ?case
  proof (cases "t < expiry")
    case True
    then have "set_nx key seconds (w\<lparr>clock := t\<rparr>) = (False, w\<lparr>clock := t\<rparr>)"
      using Cons.prems(2) by (simp add: set_nx_def)
    then show ?thesis using Cons.IH[of "w\<lparr>clock := t\<rparr>" expiry] Cons.prems by simp
  next
    case False
    let ?w' = "w\<lparr>clock := t, alertKeys := (alertKeys w)(key \<mapsto> t + seconds * 1000)\<rparr>"
    have nx: "set_nx key seconds (w\<lparr>clock := t\<rparr>) = (True, ?w')"
      using Cons.prems(2) False by (simp add: set_nx_def)
    then consider "s = t" | "s \<in> set (granted key seconds ts ?w')" using Cons.prems(3) by auto
    then show ?thesis
    proof cases
      case 2
      then have "s \<in> set ts" using Cons.IH[of ?w' "t + seconds * 1000"] Cons.prems(1) by simp
      then show ?thesis using Cons.prems(1) False by auto
    qed (use False in simp)
  qed
qed simp

lemma granted_spaced:
  assumes "sorted ts"
  shows "sorted_wrt (\<lambda>a b. a + seconds * 1000 \<le> b) (granted key seconds ts w)"
  using assms
proof (induction ts arbitrary: w)
  case (Cons t ts)
  obtain ok w' where nx: "set_nx key seconds (w\<lparr>clock := t\<rparr>) = (ok, w')" by fastforce
  then have "ok \<Longrightarrow> alertKeys w' key = Some (t + seconds * 1000)"
    by (auto simp: set_nx_def split: option.splits if_splits)
  then show ?case
    using granted_after[of ts w' key "t + seconds * 1000" _ seconds] Cons nx by auto
qed simp

end
