(* ===== verification/Handler.thy ===== *)
theory Handler
  imports Alerts Token_Bucket Broker Signing
begin

text \<open>
  \<open>src/backend/src/worker/handle-delivery.js\<close>: what a worker does with one message.  The
  dependencies of \<open>createDeliveryHandler\<close> are a record; the handler is one state transformer
  whose awaited calls can all fail.  Below it stands the contract \<open>handled\<close>, which says for
  each outcome what became of the row, of the attempt log and of the messages.
\<close>

section \<open>Reading the response\<close>

text \<open>\<open>date_parse\<close> is \<open>Date.parse\<close>, \<open>None\<close> for \<open>NaN\<close>.\<close>

definition retryAfterSeconds ::
  "(string \<Rightarrow> int option) \<Rightarrow> (string \<times> string) list option \<Rightarrow> rat option act" where
  "retryAfterSeconds date_parse responseHeaders =
    (case (case responseHeaders of None \<Rightarrow> None | Some hs \<Rightarrow> map_of hs ''retry-after'') of
       None \<Rightarrow> io_ret None
     | Some v \<Rightarrow>
         if v = [] then io_ret None
         else (case js_finite (jsNumber v) of
           Some numeric \<Rightarrow> io_ret (Some numeric)
         | None \<Rightarrow>
             (case date_parse v of
                None \<Rightarrow> io_ret None
              | Some parsed \<Rightarrow>
                  io_bind now (\<lambda>t.
                    io_ret (Some (of_int (max 0 (js_round (of_int (parsed - t) / 1000)))))))))"

definition isSuccess :: "int option \<Rightarrow> bool" where
  "isSuccess responseStatus =
    (case responseStatus of None \<Rightarrow> False | Some st \<Rightarrow> 200 \<le> st \<and> st < 300)"

definition attemptRow :: "string \<Rightarrow> string \<Rightarrow> int \<Rightarrow> result \<Rightarrow> int \<Rightarrow> delivery_attempt" where
  "attemptRow attemptId deliveryId attempt r startedAt =
    \<lparr>a_id = attemptId, a_deliveryId = deliveryId, a_attemptNumber = attempt,
     a_responseStatus = rs_responseStatus r, a_responseHeaders = rs_responseHeaders r,
     a_responseBodySnippet = rs_responseBodySnippet r, a_durationMs = rs_durationMs r,
     a_errorCode = rs_errorCode r, a_errorMessage = rs_errorMessage r, a_startedAt = startedAt\<rparr>"

definition describe :: "result \<Rightarrow> string" where
  "describe r =
    (case (case rs_errorCode r of Some code \<Rightarrow> if code = [] then None else Some code | None \<Rightarrow> None) of
       Some code \<Rightarrow> code @ '': '' @ (case rs_errorMessage r of Some m \<Rightarrow> m | None \<Rightarrow> ''undefined'')
     | None \<Rightarrow> ''HTTP '' @ (case rs_responseStatus r of Some st \<Rightarrow> int_str st | None \<Rightarrow> ''undefined''))"

definition RETRYABLE_TARGET_REASONS :: "string list" where
  "RETRYABLE_TARGET_REASONS = [''dns_failure'']"

section \<open>The handler\<close>

record handler_deps =
  hd_publisher :: publisher
  hd_alerts :: alert_deps
  hd_config :: config
  hd_schedule :: "retry_level list"
  hd_send :: sender
  hd_resolve :: resolver
  hd_buildHeaders ::
    "delivery \<Rightarrow> webhook_event \<Rightarrow> endpoint \<Rightarrow> int \<Rightarrow> string \<Rightarrow> int \<Rightarrow> int \<Rightarrow> exn + (string \<times> string) list"
  hd_dateParse :: "string \<Rightarrow> int option"
  hd_num :: "rat \<Rightarrow> string"

definition nextRetryLevel :: "handler_deps \<Rightarrow> failure \<Rightarrow> int \<Rightarrow> rat option \<Rightarrow> retry_level option" where
  "nextRetryLevel hn classification attempt retryAfter =
    (if \<not> shouldRetry classification attempt (cf_MAX_ATTEMPTS (hd_config hn)) then None
     else selectRetryLevel attempt (cf_MAX_ATTEMPTS (hd_config hn)) (hd_schedule hn) retryAfter)"

definition failureReason :: "failure \<Rightarrow> failure_reason" where
  "failureReason classification = (if classification = PERMANENT then Reason PERMANENT else EXHAUSTED)"

text \<open>The attempt row of a transaction: its id is drawn before the transaction starts, its
  \<open>startedAt\<close> is the database's clock.\<close>

definition create_attempt_row :: "string \<Rightarrow> string \<Rightarrow> int \<Rightarrow> result \<Rightarrow> statement" where
  "create_attempt_row attemptId deliveryId attempt r w =
    create_attempt (attemptRow attemptId deliveryId attempt r (clock w)) w"

definition finaliseSuccess ::
  "delivery \<Rightarrow> webhook_event \<Rightarrow> int \<Rightarrow> result \<Rightarrow> int \<Rightarrow> unit act" where
  "finaliseSuccess dl ev attempt r completedAt =
    io_bind (fresh_id ''attempt'') (\<lambda>attemptId.
    io_seq (commit
      [create_attempt_row attemptId (d_id dl) attempt r,
       update_delivery (d_id dl) (\<lambda>d. d\<lparr>d_status := SUCCEEDED, d_attemptCount := attempt,
         d_lastError := None, d_nextAttemptAt := None, d_completedAt := Some completedAt\<rparr>),
       update_endpoint (d_endpointId dl) (\<lambda>e. e\<lparr>e_consecutiveFailures := 0\<rparr>)] (\<lambda>_. ()))
    (emit (v_projectId ev)
      (DeliverySucceeded (d_id dl) attempt (rs_responseStatus r) (rs_durationMs r) completedAt)))"

definition finaliseRetry ::
  "handler_deps \<Rightarrow> delivery \<Rightarrow> webhook_event \<Rightarrow> int \<Rightarrow> result \<Rightarrow> retry_level \<Rightarrow> int \<Rightarrow> unit act" where
  "finaliseRetry hn dl ev attempt r l failedAt =
    (let nextAttemptAt = failedAt + rl_delayMs l in
     io_bind (fresh_id ''attempt'') (\<lambda>attemptId.
     io_seq (commit
       [create_attempt_row attemptId (d_id dl) attempt r,
        update_delivery (d_id dl) (\<lambda>d. d\<lparr>d_status := RETRYING, d_attemptCount := attempt,
          d_lastError := Some (describe r), d_nextAttemptAt := Some nextAttemptAt\<rparr>)] (\<lambda>_. ()))
     (io_seq (publishRetry (hd_publisher hn) (d_id dl) (attempt + 1) (rl_level l))
     (emit (v_projectId ev)
       (DeliveryAttempted (d_id dl) attempt (rs_responseStatus r) (rs_durationMs r) nextAttemptAt)))))"

text \<open>\<open>endpoint.updateMany\<close> with its guard, returning the count.\<close>

definition disable_if_over :: "string \<Rightarrow> int \<Rightarrow> world \<Rightarrow> nat \<times> world" where
  "disable_if_over endpointId threshold w =
    (let over = (\<lambda>e. e_id e = endpointId \<and> e_status e = ACTIVE \<and> threshold \<le> e_consecutiveFailures e)
     in (length (filter over (endpoints w)),
         w\<lparr>endpoints := update_where over (\<lambda>e. e\<lparr>e_status := DISABLED\<rparr>) (endpoints w)\<rparr>))"

definition consecutive_failures :: "string \<Rightarrow> world \<Rightarrow> int" where
  "consecutive_failures endpointId w =
    (case get_endpoint w endpointId of Some e \<Rightarrow> e_consecutiveFailures e | None \<Rightarrow> 0)"

text \<open>The end of \<open>finaliseFailure\<close>: the announcement made when the count is positive.\<close>

definition announce_disable ::
  "handler_deps \<Rightarrow> webhook_event \<Rightarrow> endpoint \<Rightarrow> int \<Rightarrow> int \<Rightarrow> nat \<Rightarrow> unit act" where
  "announce_disable hn ev ep failures completedAt count =
    (if 0 < count then
       io_seq (emit (v_projectId ev) (EndpointDisabled (e_id ep) failures completedAt))
       (io_bind (notify (hd_alerts hn) (v_projectId ev) (ALERT_REASON ENDPOINT_DISABLED) (e_id ep)
         (JObj [(''endpointId'', JStr (e_id ep)), (''consecutiveFailures'', JNum (of_int failures)),
                (''threshold'', JNum (of_int (cf_ENDPOINT_AUTO_DISABLE_THRESHOLD (hd_config hn))))]))
         (\<lambda>_. io_ret ()))
     else io_ret ())"

definition finaliseFailure ::
  "handler_deps \<Rightarrow> delivery \<Rightarrow> webhook_event \<Rightarrow> endpoint \<Rightarrow> int \<Rightarrow> result \<Rightarrow> failure_reason \<Rightarrow> int \<Rightarrow> unit act" where
  "finaliseFailure hn dl ev ep attempt r reason completedAt =
    io_bind (fresh_id ''attempt'') (\<lambda>attemptId.
    io_bind (commit
      [create_attempt_row attemptId (d_id dl) attempt r,
       update_delivery (d_id dl) (\<lambda>d. d\<lparr>d_status := FAILED_PERMANENTLY, d_attemptCount := attempt,
         d_lastError := Some (describe r), d_nextAttemptAt := None, d_completedAt := Some completedAt\<rparr>),
       update_endpoint (e_id ep) (\<lambda>e. e\<lparr>e_consecutiveFailures := e_consecutiveFailures e + 1\<rparr>)]
      (consecutive_failures (e_id ep))) (\<lambda>failures.
    io_bind (effect_ret (disable_if_over (e_id ep) (cf_ENDPOINT_AUTO_DISABLE_THRESHOLD (hd_config hn)))) (\<lambda>count.
    io_seq (publishDeadLetter (hd_publisher hn) (d_id dl) attempt)
    (io_seq (emit (v_projectId ev)
      (DeliveryFailed (d_id dl) attempt reason (rs_errorCode r) (rs_responseStatus r) completedAt))
    (announce_disable hn ev ep failures completedAt count)))))"

datatype outcome =
  UnknownDelivery | AlreadyFinalised | SkippedDisabled | Throttled
| Retrying string | SsrfBlocked | FailedPermanently | Succeeded

definition load_delivery :: "string \<Rightarrow> world \<Rightarrow> (delivery \<times> webhook_event \<times> endpoint) option" where
  "load_delivery deliveryId w =
    (case get_delivery w deliveryId of
       None \<Rightarrow> None
     | Some d \<Rightarrow>
         (case (get_event w (d_eventId d), get_endpoint w (d_endpointId d)) of
            (Some v, Some e) \<Rightarrow> Some (d, v, e)
          | _ \<Rightarrow> None))"

text \<open>The two ends of the handler: a rejected target, and the answer of the receiver.\<close>

definition handle_rejected ::
  "handler_deps \<Rightarrow> delivery \<Rightarrow> webhook_event \<Rightarrow> endpoint \<Rightarrow> int \<Rightarrow> target_error \<Rightarrow> outcome act" where
  "handle_rejected hn dl ev ep attempt error =
    (let r = \<lparr>rs_responseStatus = None, rs_responseHeaders = None, rs_responseBodySnippet = None,
              rs_durationMs = Some 0,
              rs_errorCode = Some (case te_code error of Some c \<Rightarrow> c | None \<Rightarrow> SSRF_ERROR_CODE),
              rs_errorMessage = Some (te_message error)\<rparr>;
         classification = (case te_reason error of
             Some reason \<Rightarrow> if reason \<in> set RETRYABLE_TARGET_REASONS then RETRYABLE else PERMANENT
           | None \<Rightarrow> PERMANENT)
     in (case nextRetryLevel hn classification attempt None of
           Some l \<Rightarrow>
             io_bind now (\<lambda>failedAt.
             io_seq (finaliseRetry hn dl ev attempt r l failedAt) (io_ret (Retrying (rl_level l))))
         | None \<Rightarrow>
             io_bind now (\<lambda>completedAt.
             io_seq (finaliseFailure hn dl ev ep attempt r (failureReason classification) completedAt)
             (io_ret (if classification = PERMANENT then SsrfBlocked else FailedPermanently)))))"

definition handle_response ::
  "handler_deps \<Rightarrow> delivery \<Rightarrow> webhook_event \<Rightarrow> endpoint \<Rightarrow> int \<Rightarrow> result \<Rightarrow> outcome act" where
  "handle_response hn dl ev ep attempt r =
    (if isSuccess (rs_responseStatus r) then
       io_bind now (\<lambda>completedAt.
       io_seq (finaliseSuccess dl ev attempt r completedAt) (io_ret Succeeded))
     else (let classification = classifyFailure (rs_responseStatus r) in
       io_bind (retryAfterSeconds (hd_dateParse hn) (rs_responseHeaders r)) (\<lambda>ra.
       (case nextRetryLevel hn classification attempt ra of
          Some l \<Rightarrow>
            io_bind now (\<lambda>failedAt.
            io_seq (finaliseRetry hn dl ev attempt r l failedAt) (io_ret (Retrying (rl_level l))))
        | None \<Rightarrow>
            io_bind now (\<lambda>completedAt.
            io_seq (finaliseFailure hn dl ev ep attempt r (failureReason classification) completedAt)
            (io_ret FailedPermanently))))))"

text \<open>Sending one attempt: the target is resolved, the headers are built and signed, the
  request is sent on the resolved address.\<close>

definition attempt_delivery ::
  "handler_deps \<Rightarrow> delivery \<Rightarrow> webhook_event \<Rightarrow> endpoint \<Rightarrow> int \<Rightarrow> outcome act" where
  "attempt_delivery hn dl ev ep attempt =
    io_bind now (\<lambda>startedAt.
    (let rawBody = stringify (hd_num hn) (v_payload ev) in
     io_bind (io_get (hd_resolve hn (e_url ep))) (\<lambda>resolved.
     (case resolved of
        Inl error \<Rightarrow> handle_rejected hn dl ev ep attempt error
      | Inr tgt \<Rightarrow>
          io_bind (lift (hd_buildHeaders hn dl ev ep attempt rawBody
                           (cf_SECRET_ROTATION_GRACE_HOURS (hd_config hn)) startedAt)) (\<lambda>headers.
          io_bind (send_request (hd_send hn) tgt headers rawBody) (\<lambda>r.
            handle_response hn dl ev ep attempt r))))))"

definition handle_loaded ::
  "handler_deps \<Rightarrow> delivery \<Rightarrow> webhook_event \<Rightarrow> endpoint \<Rightarrow> int \<Rightarrow> outcome act" where
  "handle_loaded hn dl ev ep attempt =
    (if terminal (d_status dl) then io_ret AlreadyFinalised
     else if e_status ep = DISABLED then
       io_bind now (\<lambda>t.
       io_seq (commit [update_delivery (d_id dl) (\<lambda>d. d\<lparr>d_status := SKIPPED,
           d_completedAt := Some t, d_lastError := Some ''endpoint is disabled''\<rparr>)] (\<lambda>_. ()))
       (io_ret SkippedDisabled))
     else
       io_bind (take_bucket (e_id ep) (e_rateLimitPerMinute ep)) (\<lambda>allowed.
       if \<not> allowed then
         io_seq (publishThrottle (hd_publisher hn) (d_id dl) attempt) (io_ret Throttled)
       else
         io_seq (commit [update_delivery (d_id dl) (\<lambda>d. d\<lparr>d_status := IN_FLIGHT\<rparr>)] (\<lambda>_. ()))
         (attempt_delivery hn dl ev ep attempt)))"

definition handleDelivery :: "handler_deps \<Rightarrow> string \<Rightarrow> int \<Rightarrow> outcome act" where
  "handleDelivery hn deliveryId attempt =
    io_bind (query (load_delivery deliveryId)) (\<lambda>loaded.
    (case loaded of
       None \<Rightarrow> io_ret UnknownDelivery
     | Some (dl, ev, ep) \<Rightarrow> handle_loaded hn dl ev ep attempt))"

section \<open>The contract\<close>

definition row_is :: "world \<Rightarrow> string \<Rightarrow> delivery_status \<Rightarrow> int \<Rightarrow> bool" where
  "row_is w i st n \<longleftrightarrow> (\<exists>d. get_delivery w i = Some d \<and> d_status d = st \<and> d_attemptCount d = n)"

definition one_attempt :: "string \<Rightarrow> int \<Rightarrow> world \<Rightarrow> world \<Rightarrow> bool" where
  "one_attempt i n w w' \<longleftrightarrow>
    (\<exists>a. attempts w' = attempts w @ [a] \<and> a_deliveryId a = i \<and> a_attemptNumber a = n)"

definition one_message :: "string \<Rightarrow> string \<Rightarrow> int \<Rightarrow> world \<Rightarrow> world \<Rightarrow> bool" where
  "one_message exchange i n w w' \<longleftrightarrow>
    (\<exists>p. published w' = published w @ [p] \<and> pub_exchange p = exchange \<and>
         pub_body p = \<lparr>mb_deliveryId = i, mb_attempt = n\<rparr>)"

definition tables_same :: "world \<Rightarrow> world \<Rightarrow> bool" where
  "tables_same w w' \<longleftrightarrow> attempts w' = attempts w \<and> published w' = published w"

text \<open>What a normal return promises, by outcome.\<close>

definition handled :: "handler_deps \<Rightarrow> string \<Rightarrow> int \<Rightarrow> world \<Rightarrow> outcome \<Rightarrow> world \<Rightarrow> bool" where
  "handled hn i n w oc w' \<longleftrightarrow>
    only_delivery i w w' \<and>
    (let ex = tp_exchanges (pb_topology (hd_publisher hn)) in
     case oc of
       UnknownDelivery \<Rightarrow> load_delivery i w = None \<and> same_rows w w'
     | AlreadyFinalised \<Rightarrow>
         (\<exists>d. get_delivery w i = Some d \<and> terminal (d_status d)) \<and> same_rows w w'
     | SkippedDisabled \<Rightarrow> (\<exists>m. row_is w' i SKIPPED m) \<and> tables_same w w'
     | Throttled \<Rightarrow>
         get_delivery w' i = get_delivery w i \<and> attempts w' = attempts w \<and> one_message (ex_retry ex) i n w w'
     | Retrying l \<Rightarrow>
         row_is w' i RETRYING n \<and> one_attempt i n w w' \<and> one_message (ex_retry ex) i (n + 1) w w' \<and>
         n < cf_MAX_ATTEMPTS (hd_config hn) \<and> l \<in> rl_level ` set (hd_schedule hn)
     | SsrfBlocked \<Rightarrow>
         row_is w' i FAILED_PERMANENTLY n \<and> one_attempt i n w w' \<and> one_message (ex_dlx ex) i n w w'
     | FailedPermanently \<Rightarrow>
         row_is w' i FAILED_PERMANENTLY n \<and> one_attempt i n w w' \<and> one_message (ex_dlx ex) i n w w'
     | Succeeded \<Rightarrow> row_is w' i SUCCEEDED n \<and> one_attempt i n w w' \<and> published w' = published w)"

text \<open>What is left when some call rejects.\<close>

definition crashed :: "string \<Rightarrow> int \<Rightarrow> world \<Rightarrow> world \<Rightarrow> bool" where
  "crashed i n w w' \<longleftrightarrow>
    only_delivery i w w' \<and> (attempts w' = attempts w \<or> one_attempt i n w w') \<and>
    (\<forall>d. get_delivery w i = Some d \<and> terminal (d_status d) \<longrightarrow> same_rows w w')"

lemmas contract_defs = handled_def crashed_def row_is_def one_attempt_def one_message_def tables_same_def

section \<open>Each step meets its part of the contract\<close>

lemma same_rows_contract:
  assumes "same_rows w' w''"
  shows "only_delivery i w w' \<Longrightarrow> only_delivery i w w''" "row_is w' i st n \<Longrightarrow> row_is w'' i st n"
    "one_attempt i n w w' \<Longrightarrow> one_attempt i n w w''" "one_message x i n w w' \<Longrightarrow> one_message x i n w w''"
  using assms
  by (auto simp: only_delivery_def row_is_def one_attempt_def one_message_def same_rows_get[OF assms])
     (auto simp: same_rows_def)

lemma same_rows_published: "same_rows w w' \<Longrightarrow> published w' = published w"
  by (simp add: same_rows_def)

text \<open>A step that leaves the deliveries, the attempts and the messages alone, and a step that
  only publishes one message.\<close>

definition quiet :: "world \<Rightarrow> world \<Rightarrow> bool" where
  "quiet w w' \<longleftrightarrow>
    (\<forall>j. get_delivery w' j = get_delivery w j) \<and> (\<forall>v. get_event w' v = get_event w v) \<and>
    attempts w' = attempts w \<and> published w' = published w"

definition sent :: "string \<Rightarrow> string \<Rightarrow> int \<Rightarrow> world \<Rightarrow> world \<Rightarrow> bool" where
  "sent exchange i n w w' \<longleftrightarrow>
    (\<forall>j. get_delivery w' j = get_delivery w j) \<and> (\<forall>v. get_event w' v = get_event w v) \<and>
    attempts w' = attempts w \<and> one_message exchange i n w w'"

lemma same_rows_quiet: "same_rows w w' \<Longrightarrow> quiet w w'"
  by (simp add: quiet_def same_rows_get) (simp add: same_rows_def)

lemma quiet_trans: "quiet w w' \<Longrightarrow> quiet w' w'' \<Longrightarrow> quiet w w''"
  by (simp add: quiet_def)

lemma quiet_sent: "quiet w w' \<Longrightarrow> sent x i n w' w'' \<Longrightarrow> sent x i n w w''"
  "sent x i n w w' \<Longrightarrow> quiet w' w'' \<Longrightarrow> sent x i n w w''"
  by (auto simp: quiet_def sent_def one_message_def)

lemma only_delivery_same_rows: "same_rows w w' \<Longrightarrow> only_delivery i w w'"
  by (simp add: only_delivery_def same_rows_get) (simp add: same_rows_def)

lemma wp_emit: "(\<And>w'. same_rows w w' \<Longrightarrow> Q () w') \<Longrightarrow> wp (emit p ev) Q E w"
  by (rule wp_side_channel[OF emit_side]) auto

lemma wp_notify: "(\<And>a w'. same_rows w w' \<Longrightarrow> Q a w') \<Longrightarrow> wp (notify al p reason scope detail) Q E w"
  by (rule wp_side_channel[OF notify_side]) auto

lemma newId_attempt: "newId s ''attempt'' = Inr (''att_'' @ s)"
  by (simp add: newId_def prefixFor_def ID_PREFIXES_def)

text \<open>A committed attempt: the row of \<open>i\<close> is rewritten and the attempt appended.\<close>

definition committed :: "string \<Rightarrow> int \<Rightarrow> (delivery \<Rightarrow> delivery) \<Rightarrow> world \<Rightarrow> world \<Rightarrow> bool" where
  "committed i n f w w' \<longleftrightarrow>
    get_delivery w' i = map_option f (get_delivery w i) \<and> one_attempt i n w w' \<and>
    published w' = published w \<and> only_delivery i w w'"

lemma wp_commit_attempt:
  assumes key: "\<And>d. d_id (f d) = d_id d"
    and ok: "\<And>w'. committed i n f w w' \<Longrightarrow> Q (g w') w'"
    and bad: "\<And>e w'. same_rows w w' \<or> committed i n f w w' \<Longrightarrow> E e w'"
    and eps: "eps = [] \<or> (\<exists>k h. eps = [update_endpoint k h])"
  shows "wp (commit ([create_attempt_row aid i n r, update_delivery i f] @ eps) g) Q E w"
proof -
  have tr: "committed i n f w w'"
    if "transaction ([create_attempt_row aid i n r, update_delivery i f] @ eps) (pop_fault w) = Inr w'" for w'
    using that eps dlv.get_upd[OF key]
    by (auto simp: committed_def one_attempt_def only_delivery_def create_attempt_row_def create_attempt_def
        update_delivery_def update_endpoint_def attemptRow_def split: option.splits)
  have "same_rows w (pop_fault w)" by (simp add: same_rows_def)
  then show ?thesis
    unfolding wp_commit
    by (auto simp del: transaction.simps append.simps split: fault.splits sum.splits intro: ok bad tr)
qed

lemma wp_commit_attempt2:
  assumes "\<And>d. d_id (f d) = d_id d" "\<And>w'. committed i n f w w' \<Longrightarrow> Q (g w') w'"
    "\<And>e w'. same_rows w w' \<or> committed i n f w w' \<Longrightarrow> E e w'"
  shows "wp (commit [create_attempt_row aid i n r, update_delivery i f] g) Q E w"
proof -
  have "wp (commit ([create_attempt_row aid i n r, update_delivery i f] @ []) g) Q E w"
    by (rule wp_commit_attempt) (use assms in auto)
  then show ?thesis by simp
qed

lemma wp_commit_attempt3:
  assumes "\<And>d. d_id (f d) = d_id d" "\<And>w'. committed i n f w w' \<Longrightarrow> Q (g w') w'"
    "\<And>e w'. same_rows w w' \<or> committed i n f w w' \<Longrightarrow> E e w'"
  shows "wp (commit [create_attempt_row aid i n r, update_delivery i f, update_endpoint k h] g) Q E w"
proof -
  have "wp (commit ([create_attempt_row aid i n r, update_delivery i f] @ [update_endpoint k h]) g) Q E w"
    by (rule wp_commit_attempt) (use assms in auto)
  then show ?thesis by simp
qed

definition fresh_only :: "world \<Rightarrow> world" where
  "fresh_only w = w\<lparr>fresh := Suc (fresh w)\<rparr>"

lemma same_rows_steps [simp]:
  "same_rows w (fresh_only w)" "same_rows w (pop_fault w)" "same_rows w w"
  by (simp_all add: same_rows_def fresh_only_def)

lemma same_rows_trans: "same_rows w w' \<Longrightarrow> same_rows w' w'' \<Longrightarrow> same_rows w w''"
  by (simp add: same_rows_def)

lemma same_rows_committed:
  assumes sr: "same_rows w0 w" and c: "committed i n f w w'"
  shows "committed i n f w0 w'"
proof -
  have eqs: "attempts w = attempts w0" "published w = published w0" using sr by (simp_all add: same_rows_def)
  show ?thesis using c unfolding committed_def one_attempt_def only_delivery_def same_rows_get[OF sr] eqs .
qed

lemma wp_attempt_id:
  "(\<And>aid. wp (f aid) Q E (fresh_only w)) \<Longrightarrow> wp (io_bind (fresh_id ''attempt'') f) Q E w"
  by (simp add: wp_simps newId_attempt fresh_only_def)

lemma wp_now_bind:
  "(\<And>t w'. same_rows w w' \<Longrightarrow> wp (f t) Q E w') \<Longrightarrow> wp (io_bind now f) Q E w"
  by (simp add: wp_simps Let_def same_rows_def)

lemma crashed_intros:
  assumes "get_delivery w i = Some d" "\<not> terminal (d_status d)"
  shows "same_rows w w' \<Longrightarrow> crashed i n w w'" "committed i n f w w' \<Longrightarrow> crashed i n w w'"
proof -
  assume sr: "same_rows w w'"
  then have "attempts w' = attempts w" by (simp add: same_rows_def)
  with sr show "crashed i n w w'" by (simp add: crashed_def only_delivery_same_rows)
next
  assume "committed i n f w w'"
  then show "crashed i n w w'" using assms by (simp add: crashed_def committed_def)
qed

lemma crashed_fresh:
  assumes "get_delivery w i = Some d" "\<not> terminal (d_status d)"
    "same_rows (fresh_only w) w' \<or> committed i n f (fresh_only w) w'"
  shows "crashed i n w w'"
  using assms(3) crashed_intros[OF assms(1,2)] same_rows_committed[OF same_rows_steps(1)]
    same_rows_trans[OF same_rows_steps(1)] by metis

text \<open>After the transaction only messages are published and side channels used.\<close>

lemma finaliseSuccess_wp:
  assumes d: "get_delivery w i = Some d" "\<not> terminal (d_status d)" and dl: "d_id dl = i"
  shows "wp (finaliseSuccess dl ev n r t)
    (\<lambda>_ w'. only_delivery i w w' \<and> row_is w' i SUCCEEDED n \<and> one_attempt i n w w' \<and> published w' = published w)
    (\<lambda>_ w'. crashed i n w w') w"
  unfolding finaliseSuccess_def dl
proof (rule wp_attempt_id, subst wp_seq, rule wp_commit_attempt3)
  fix aid w'
  let ?f = "\<lambda>d. d\<lparr>d_status := SUCCEEDED, d_attemptCount := n, d_lastError := None,
      d_nextAttemptAt := None, d_completedAt := Some t\<rparr>"
  assume "committed i n ?f (fresh_only w) w'"
  then have c: "committed i n ?f w w'" by (rule same_rows_committed[OF same_rows_steps(1)])
  then have "row_is w' i SUCCEEDED n" using d by (simp add: committed_def row_is_def)
  with c show "wp (emit (v_projectId ev)
      (DeliverySucceeded i n (rs_responseStatus r) (rs_durationMs r) t))
    (\<lambda>_ w'. only_delivery i w w' \<and> row_is w' i SUCCEEDED n \<and> one_attempt i n w w' \<and> published w' = published w)
    (\<lambda>_ w'. crashed i n w w') w'"
    by (intro wp_emit) (auto simp only: committed_def same_rows_published intro: same_rows_contract)
qed (use crashed_fresh[OF d] in simp_all)

lemma committed_later:
  assumes c: "committed i n f w w'"
  shows "quiet w' w'' \<Longrightarrow> only_delivery i w w'' \<and> one_attempt i n w w'' \<and> published w'' = published w \<and>
      get_delivery w'' i = map_option f (get_delivery w i)"
    "sent x i m w' w'' \<Longrightarrow> only_delivery i w w'' \<and> one_attempt i n w w'' \<and> one_message x i m w w'' \<and>
      get_delivery w'' i = map_option f (get_delivery w i)"
proof -
  have get: "get_delivery w' i = map_option f (get_delivery w i)" and att: "one_attempt i n w w'"
    and pub: "published w' = published w" and only: "only_delivery i w w'"
    using c by (simp_all add: committed_def)
  show "only_delivery i w w'' \<and> one_attempt i n w w'' \<and> published w'' = published w \<and>
      get_delivery w'' i = map_option f (get_delivery w i)" if "quiet w' w''"
    using that get att pub only unfolding quiet_def one_attempt_def only_delivery_def by simp
  show "only_delivery i w w'' \<and> one_attempt i n w w'' \<and> one_message x i m w w'' \<and>
      get_delivery w'' i = map_option f (get_delivery w i)" if s: "sent x i m w' w''"
  proof -
    have "one_message x i m w w''" using s pub by (simp add: sent_def one_message_def)
    moreover from this have "grows (\<lambda>p. mb_deliveryId (pub_body p) = i) (published w) (published w'')"
      by (auto simp: one_message_def)
    ultimately show ?thesis
      using s get att only unfolding sent_def one_attempt_def only_delivery_def by simp
  qed
qed

lemma crashed_later:
  assumes "get_delivery w i = Some d" "\<not> terminal (d_status d)" "committed i n f w w'"
    "quiet w' w'' \<or> sent x i m w' w''"
  shows "crashed i n w w''"
  using assms committed_later[OF assms(3)] by (auto simp: crashed_def)

lemma wp_publish_to:
  assumes "\<And>w'. sent exchange i n w w' \<Longrightarrow> Q () w'"
    "\<And>e w'. quiet w w' \<or> sent exchange i n w w' \<Longrightarrow> E e w'"
  shows "wp (io_bind (lift (messageFor i n)) (\<lambda>m. publish exchange k m x)) Q E w"
proof -
  have sent: "sent exchange i n w ((pop_fault w)\<lparr>published := published w @
      [\<lparr>pub_exchange = exchange, pub_routingKey = k, pub_body = \<lparr>mb_deliveryId = i, mb_attempt = n\<rparr>,
        pub_expiration = x\<rparr>]\<rparr>)"
    by (simp add: sent_def one_message_def)
  have q: "quiet w w" "quiet w (pop_fault w)" by (simp_all add: quiet_def)
  consider (bad) e where "messageFor i n = Inl e"
    | (good) "messageFor i n = Inr \<lparr>mb_deliveryId = i, mb_attempt = n\<rparr>"
    by (cases "messageFor i n") (auto simp: messageFor_def split: sum.splits if_splits)
  then show ?thesis
  proof cases
    case bad
    then show ?thesis using assms(2) q by (simp add: wp_simps)
  next
    case good
    then show ?thesis using assms sent q by (simp add: wp_simps publish_def split: fault.split)
  qed
qed

lemma wp_publishRetry:
  assumes "\<And>w'. sent (ex_retry (tp_exchanges (pb_topology pb))) i n w w' \<Longrightarrow> Q () w'"
    "\<And>e w'. quiet w w' \<or> sent (ex_retry (tp_exchanges (pb_topology pb))) i n w w' \<Longrightarrow> E e w'"
  shows "wp (publishRetry pb i n l) Q E w"
proof (cases "delayLevel pb l")
  case (Inl e)
  then show ?thesis using assms(2) by (simp add: publishRetry_def wp_simps quiet_def)
next
  case (Inr q)
  then show ?thesis
    unfolding publishRetry_def wp_bind[of "lift (delayLevel pb l)"] wp_lift sum.case
    by simp (rule wp_publish_to, rule assms(1), assumption, rule assms(2), assumption)
qed

lemma publish_defs_wp:
  "publishThrottle pb i n = io_bind (lift (messageFor i n)) (\<lambda>m.
     publish (ex_retry (tp_exchanges (pb_topology pb))) (dq_routingKey (tp_throttleQueue (pb_topology pb))) m None)"
  "publishDeadLetter pb i n = io_bind (lift (messageFor i n)) (\<lambda>m.
     publish (ex_dlx (tp_exchanges (pb_topology pb))) (tp_deadLetterRoutingKey (pb_topology pb)) m
       (Some (pb_deadLetterTtlMs pb)))"
  by (simp_all add: publishThrottle_def publishDeadLetter_def)

lemma finaliseRetry_wp:
  assumes d: "get_delivery w i = Some d" "\<not> terminal (d_status d)" and dl: "d_id dl = i"
  shows "wp (finaliseRetry hn dl ev n r l t)
    (\<lambda>_ w'. only_delivery i w w' \<and> row_is w' i RETRYING n \<and> one_attempt i n w w' \<and>
       one_message (ex_retry (tp_exchanges (pb_topology (hd_publisher hn)))) i (n + 1) w w')
    (\<lambda>_ w'. crashed i n w w') w"
  unfolding finaliseRetry_def dl Let_def
proof (rule wp_attempt_id, subst wp_seq, rule wp_commit_attempt2)
  fix aid w'
  let ?x = "ex_retry (tp_exchanges (pb_topology (hd_publisher hn)))"
  let ?f = "\<lambda>d. d\<lparr>d_status := RETRYING, d_attemptCount := n, d_lastError := Some (describe r),
      d_nextAttemptAt := Some (t + rl_delayMs l)\<rparr>"
  assume "committed i n ?f (fresh_only w) w'"
  then have c: "committed i n ?f w w'" by (rule same_rows_committed[OF same_rows_steps(1)])
  show "wp (io_seq (publishRetry (hd_publisher hn) i (n + 1) (rl_level l))
        (emit (v_projectId ev) (DeliveryAttempted i n (rs_responseStatus r) (rs_durationMs r) (t + rl_delayMs l))))
      (\<lambda>_ w'. only_delivery i w w' \<and> row_is w' i RETRYING n \<and> one_attempt i n w w' \<and> one_message ?x i (n + 1) w w')
      (\<lambda>_ w'. crashed i n w w') w'"
    unfolding wp_seq
  proof (rule wp_publishRetry, rule wp_emit)
    fix w1 w2
    assume "sent ?x i (n + 1) w' w1" "same_rows w1 w2"
    then have s: "sent ?x i (n + 1) w' w2" using quiet_sent(2) same_rows_quiet by blast
    show "only_delivery i w w2 \<and> row_is w2 i RETRYING n \<and> one_attempt i n w w2 \<and> one_message ?x i (n + 1) w w2"
      using committed_later(2)[OF c s] d by (simp add: row_is_def)
  qed (use crashed_later[OF d c] in blast)
qed (use crashed_fresh[OF d] in simp_all)

lemma wp_disable:
  assumes "\<And>c w'. quiet w w' \<Longrightarrow> Q c w'" "\<And>e w'. quiet w w' \<Longrightarrow> E e w'"
  shows "wp (effect_ret (disable_if_over k m)) Q E w"
proof -
  have "quiet w (pop_fault w)" "quiet w (snd (disable_if_over k m (pop_fault w)))"
    by (simp_all add: quiet_def disable_if_over_def get_delivery_def get_event_def Let_def)
  then show ?thesis unfolding wp_effect_ret using assms by (auto split: fault.split)
qed

abbreviation dlx_of :: "handler_deps \<Rightarrow> string" where
  "dlx_of hn \<equiv> ex_dlx (tp_exchanges (pb_topology (hd_publisher hn)))"

abbreviation retry_of :: "handler_deps \<Rightarrow> string" where
  "retry_of hn \<equiv> ex_retry (tp_exchanges (pb_topology (hd_publisher hn)))"

lemma wp_announce:
  assumes "\<And>w'. same_rows w w' \<Longrightarrow> Q () w'"
  shows "wp (announce_disable hn ev ep k t c) Q E w"
proof (cases "0 < c")
  case True
  then show ?thesis
    unfolding announce_disable_def if_P[OF True] wp_seq wp_bind wp_ret
    by (intro wp_emit wp_notify assms) (rule same_rows_trans)
qed (simp add: announce_disable_def wp_ret assms)

lemma finaliseFailure_wp:
  assumes d: "get_delivery w i = Some d" "\<not> terminal (d_status d)" and dl: "d_id dl = i"
  shows "wp (finaliseFailure hn dl ev ep n r reason t)
    (\<lambda>_ w'. only_delivery i w w' \<and> row_is w' i FAILED_PERMANENTLY n \<and> one_attempt i n w w' \<and>
       one_message (dlx_of hn) i n w w')
    (\<lambda>_ w'. crashed i n w w') w" (is "wp _ ?Q ?E w")
  unfolding finaliseFailure_def dl
proof (rule wp_attempt_id, subst wp_bind, rule wp_commit_attempt3)
  fix aid w'
  let ?f = "\<lambda>d. d\<lparr>d_status := FAILED_PERMANENTLY, d_attemptCount := n, d_lastError := Some (describe r),
      d_nextAttemptAt := None, d_completedAt := Some t\<rparr>"
  assume "committed i n ?f (fresh_only w) w'"
  then have c: "committed i n ?f w w'" by (rule same_rows_committed[OF same_rows_steps(1)])
  have fin: "?Q u w4" if "sent (dlx_of hn) i n w' w4" for u w4
    using committed_later(2)[OF c that] d by (simp add: row_is_def)
  have bad: "?E e w4" if "quiet w' w4 \<or> sent (dlx_of hn) i n w' w4" for e w4
    using crashed_later[OF d c] that by blast
  have side: "sent (dlx_of hn) i n w' w3" if "sent (dlx_of hn) i n w' w2" "same_rows w2 w3" for w2 w3
    using that quiet_sent(2) same_rows_quiet by blast
  let ?tail = "\<lambda>count. io_seq
    (emit (v_projectId ev) (DeliveryFailed i n reason (rs_errorCode r) (rs_responseStatus r) t))
    (announce_disable hn ev ep (consecutive_failures (e_id ep) w') t count)"
  show "wp (io_bind (effect_ret (disable_if_over (e_id ep) (cf_ENDPOINT_AUTO_DISABLE_THRESHOLD (hd_config hn))))
      (\<lambda>count. io_seq (publishDeadLetter (hd_publisher hn) i n) (?tail count))) ?Q ?E w'"
  proof (subst wp_bind, rule wp_disable)
    fix count w1
    assume q: "quiet w' w1"
    show "wp (io_seq (publishDeadLetter (hd_publisher hn) i n) (?tail count)) ?Q ?E w1"
      unfolding publish_defs_wp
    proof (subst wp_seq, rule wp_publish_to)
      fix w2
      assume "sent (dlx_of hn) i n w1 w2"
      then have s: "sent (dlx_of hn) i n w' w2" by (rule quiet_sent(1)[OF q])
      show "wp (?tail count) ?Q ?E w2"
        unfolding wp_seq by (intro wp_emit wp_announce fin) (use s side in blast)
    next
      fix e w2
      assume "quiet w1 w2 \<or> sent (dlx_of hn) i n w1 w2"
      then show "?E e w2" using bad quiet_trans[OF q] quiet_sent(1)[OF q] by blast
    qed
  qed (use bad in blast)
qed (use crashed_fresh[OF d] in simp_all)

section \<open>The handler meets its contract\<close>

definition is_attempt :: "outcome \<Rightarrow> bool" where
  "is_attempt oc \<longleftrightarrow> oc \<notin> {UnknownDelivery, AlreadyFinalised, SkippedDisabled, Throttled}"

definition started :: "string \<Rightarrow> world \<Rightarrow> world \<Rightarrow> bool" where
  "started i w0 w \<longleftrightarrow>
    only_delivery i w0 w \<and> attempts w = attempts w0 \<and> published w = published w0"

lemma started_same_rows: "same_rows w w' \<Longrightarrow> started i w w'"
  by (simp add: started_def only_delivery_same_rows) (simp add: same_rows_def)

lemma started_trans: "started i w w' \<Longrightarrow> started i w' w'' \<Longrightarrow> started i w w''"
  by (auto simp: started_def intro: od.frame_trans)

lemma started_contract:
  assumes "started i w0 w"
  shows "one_attempt i n w w' = one_attempt i n w0 w'" "one_message x i m w w' = one_message x i m w0 w'"
    "published w' = published w \<longleftrightarrow> published w' = published w0"
    "only_delivery i w w' \<Longrightarrow> only_delivery i w0 w'"
  using assms by (auto simp: started_def one_attempt_def one_message_def intro: od.frame_trans)

lemma handled_transport:
  assumes "started i w0 w" "is_attempt oc" "handled hn i n w oc w'"
  shows "handled hn i n w0 oc w'"
  using assms(2,3) started_contract[OF assms(1)]
  by (cases oc) (simp_all add: handled_def is_attempt_def Let_def)

lemma crashed_transport:
  assumes "started i w0 w" "get_delivery w0 i = Some d" "\<not> terminal (d_status d)" "crashed i n w w'"
  shows "crashed i n w0 w'"
proof -
  have "attempts w = attempts w0" using assms(1) by (simp add: started_def)
  then show ?thesis
    using assms(2-4) started_contract(1,4)[OF assms(1)] by (simp add: crashed_def)
qed

lemma nextRetryLevel_SomeD:
  "nextRetryLevel hn c n ra = Some l \<Longrightarrow>
   n < cf_MAX_ATTEMPTS (hd_config hn) \<and> l \<in> set (hd_schedule hn) \<and> c = RETRYABLE"
  by (auto simp: nextRetryLevel_def shouldRetry_def dest: selectRetryLevel_in split: if_splits)

abbreviation attempt_post :: "handler_deps \<Rightarrow> string \<Rightarrow> int \<Rightarrow> world \<Rightarrow> outcome \<Rightarrow> world \<Rightarrow> bool" where
  "attempt_post hn i n w oc w' \<equiv> handled hn i n w oc w' \<and> is_attempt oc"

lemma wp_transport:
  assumes "wp m (attempt_post hn i n w) (\<lambda>_. crashed i n w) w" "started i w0 w"
    "get_delivery w0 i = Some d" "\<not> terminal (d_status d)"
  shows "wp m (attempt_post hn i n w0) (\<lambda>_. crashed i n w0) w"
  using assms(1)
  by (rule wp_mono) (use assms(2-4) handled_transport crashed_transport in blast)+

lemma retry_end_wp:
  assumes d: "get_delivery w i = Some d" "\<not> terminal (d_status d)" and dl: "d_id dl = i"
    and l: "nextRetryLevel hn c n ra = Some l"
  shows "wp (io_bind now (\<lambda>failedAt. io_seq (finaliseRetry hn dl ev n r l failedAt) (io_ret (Retrying (rl_level l)))))
    (attempt_post hn i n w) (\<lambda>_. crashed i n w) w"
proof (rule wp_now_bind)
  fix t w'
  assume sr: "same_rows w w'"
  have d': "get_delivery w' i = Some d" using d same_rows_get[OF sr] by simp
  have "wp (io_seq (finaliseRetry hn dl ev n r l t) (io_ret (Retrying (rl_level l))))
    (attempt_post hn i n w') (\<lambda>_. crashed i n w') w'"
    unfolding wp_seq wp_ret
    by (rule wp_mono[OF finaliseRetry_wp[OF d' d(2) dl]])
       (use nextRetryLevel_SomeD[OF l] in \<open>auto simp: handled_def is_attempt_def Let_def\<close>)
  then show "wp (io_seq (finaliseRetry hn dl ev n r l t) (io_ret (Retrying (rl_level l))))
    (attempt_post hn i n w) (\<lambda>_. crashed i n w) w'"
    by (rule wp_transport[OF _ started_same_rows[OF sr] d])
qed

lemma failure_end_wp:
  assumes d: "get_delivery w i = Some d" "\<not> terminal (d_status d)" and dl: "d_id dl = i"
    and oc: "oc = SsrfBlocked \<or> oc = FailedPermanently"
  shows "wp (io_bind now (\<lambda>t. io_seq (finaliseFailure hn dl ev ep n r reason t) (io_ret oc)))
    (attempt_post hn i n w) (\<lambda>_. crashed i n w) w"
proof (rule wp_now_bind)
  fix t w'
  assume sr: "same_rows w w'"
  have d': "get_delivery w' i = Some d" using d same_rows_get[OF sr] by simp
  have "wp (io_seq (finaliseFailure hn dl ev ep n r reason t) (io_ret oc))
    (attempt_post hn i n w') (\<lambda>_. crashed i n w') w'"
    unfolding wp_seq wp_ret
    by (rule wp_mono[OF finaliseFailure_wp[OF d' d(2) dl]])
       (use oc in \<open>auto simp: handled_def is_attempt_def Let_def\<close>)
  then show "wp (io_seq (finaliseFailure hn dl ev ep n r reason t) (io_ret oc))
    (attempt_post hn i n w) (\<lambda>_. crashed i n w) w'"
    by (rule wp_transport[OF _ started_same_rows[OF sr] d])
qed

lemma success_end_wp:
  assumes d: "get_delivery w i = Some d" "\<not> terminal (d_status d)" and dl: "d_id dl = i"
  shows "wp (io_bind now (\<lambda>t. io_seq (finaliseSuccess dl ev n r t) (io_ret Succeeded)))
    (attempt_post hn i n w) (\<lambda>_. crashed i n w) w"
proof (rule wp_now_bind)
  fix t w'
  assume sr: "same_rows w w'"
  have d': "get_delivery w' i = Some d" using d same_rows_get[OF sr] by simp
  have "wp (io_seq (finaliseSuccess dl ev n r t) (io_ret Succeeded))
    (attempt_post hn i n w') (\<lambda>_. crashed i n w') w'"
    unfolding wp_seq wp_ret
    by (rule wp_mono[OF finaliseSuccess_wp[OF d' d(2) dl]])
       (auto simp: handled_def is_attempt_def Let_def)
  then show "wp (io_seq (finaliseSuccess dl ev n r t) (io_ret Succeeded))
    (attempt_post hn i n w) (\<lambda>_. crashed i n w) w'"
    by (rule wp_transport[OF _ started_same_rows[OF sr] d])
qed

lemma handle_rejected_wp:
  assumes "get_delivery w i = Some d" "\<not> terminal (d_status d)" "d_id dl = i"
  shows "wp (handle_rejected hn dl ev ep n e) (attempt_post hn i n w) (\<lambda>_. crashed i n w) w"
  unfolding handle_rejected_def Let_def
  by (split option.split) (intro conjI impI allI retry_end_wp[OF assms] failure_end_wp[OF assms]; simp)

lemma wp_retryAfterSeconds:
  assumes "\<And>ra w'. same_rows w w' \<Longrightarrow> Q ra w'"
  shows "wp (retryAfterSeconds dp hs) Q E w"
  unfolding retryAfterSeconds_def
  using assms
  by (auto simp: wp_simps Let_def same_rows_def split: option.split)

lemma handle_response_wp:
  assumes d: "get_delivery w i = Some d" "\<not> terminal (d_status d)" and dl: "d_id dl = i"
  shows "wp (handle_response hn dl ev ep n r) (attempt_post hn i n w) (\<lambda>_. crashed i n w) w"
proof (cases "isSuccess (rs_responseStatus r)")
  case True
  then show ?thesis unfolding handle_response_def using success_end_wp[OF assms] by simp
next
  case False
  show ?thesis
    unfolding handle_response_def if_not_P[OF False] Let_def
  proof (subst wp_bind, rule wp_retryAfterSeconds)
    fix ra w'
    assume sr: "same_rows w w'"
    have d': "get_delivery w' i = Some d" using d same_rows_get[OF sr] by simp
    let ?last = "case nextRetryLevel hn (classifyFailure (rs_responseStatus r)) n ra of
        Some l \<Rightarrow> io_bind now (\<lambda>failedAt. io_seq (finaliseRetry hn dl ev n r l failedAt) (io_ret (Retrying (rl_level l))))
      | None \<Rightarrow> io_bind now (\<lambda>t. io_seq (finaliseFailure hn dl ev ep n r
          (failureReason (classifyFailure (rs_responseStatus r))) t) (io_ret FailedPermanently))"
    have "wp ?last (attempt_post hn i n w') (\<lambda>_. crashed i n w') w'"
      by (split option.split) (intro conjI impI allI retry_end_wp[OF d' d(2) dl] failure_end_wp[OF d' d(2) dl]; simp)
    then show "wp ?last (attempt_post hn i n w) (\<lambda>_. crashed i n w) w'"
      by (rule wp_transport[OF _ started_same_rows[OF sr] d])
  qed
qed

lemma attempt_delivery_wp:
  assumes d: "get_delivery w i = Some d" "\<not> terminal (d_status d)" and dl: "d_id dl = i"
  shows "wp (attempt_delivery hn dl ev ep n) (attempt_post hn i n w) (\<lambda>_. crashed i n w) w"
  unfolding attempt_delivery_def Let_def
proof (rule wp_now_bind)
  fix t w'
  assume sr: "same_rows w w'"
  let ?body = "stringify (hd_num hn) (v_payload ev)"
  let ?m = "io_bind (io_get (hd_resolve hn (e_url ep))) (\<lambda>resolved.
     (case resolved of
        Inl error \<Rightarrow> handle_rejected hn dl ev ep n error
      | Inr tgt \<Rightarrow>
          io_bind (lift (hd_buildHeaders hn dl ev ep n ?body (cf_SECRET_ROTATION_GRACE_HOURS (hd_config hn)) t)) (\<lambda>headers.
          io_bind (send_request (hd_send hn) tgt headers ?body) (\<lambda>r. handle_response hn dl ev ep n r))))"
  have d': "get_delivery w' i = Some d" using d same_rows_get[OF sr] by simp
  have step: "same_rows w' (w'\<lparr>requests := q\<rparr>)" for q by (simp add: same_rows_def)
  have resp: "wp (handle_response hn dl ev ep n r) (attempt_post hn i n w') (\<lambda>_. crashed i n w') (w'\<lparr>requests := q\<rparr>)" for r q
    by (rule wp_transport[OF handle_response_wp started_same_rows[OF step] d' d(2)])
       (use d' d(2) dl same_rows_get[OF step] in auto)
  have "wp ?m (attempt_post hn i n w') (\<lambda>_. crashed i n w') w'"
    using handle_rejected_wp[OF d' d(2) dl] resp crashed_intros(1)[OF d' d(2)] step
    by (auto simp: wp_simps Let_def split: sum.split)
  then show "wp ?m (attempt_post hn i n w) (\<lambda>_. crashed i n w) w'"
    by (rule wp_transport[OF _ started_same_rows[OF sr] d])
qed

lemma wp_take_bucket:
  assumes "\<And>a w'. same_rows w w' \<Longrightarrow> Q a w'" "\<And>e w'. same_rows w w' \<Longrightarrow> E e w'"
  shows "wp (take_bucket k rate) Q E w"
  unfolding take_bucket_def
  by (rule wp_now_bind)
     (auto simp: wp_simps same_rows_def intro!: assms split: fault.split prod.split)

definition rewritten :: "string \<Rightarrow> (delivery \<Rightarrow> delivery) \<Rightarrow> world \<Rightarrow> world \<Rightarrow> bool" where
  "rewritten i f w w' \<longleftrightarrow> started i w w' \<and> get_delivery w' i = map_option f (get_delivery w i)"

lemma wp_commit_row:
  assumes key: "\<And>d. d_id (f d) = d_id d"
    and ok: "\<And>w'. rewritten i f w w' \<Longrightarrow> Q () w'"
    and bad: "\<And>e w'. same_rows w w' \<or> rewritten i f w w' \<Longrightarrow> E e w'"
  shows "wp (commit [update_delivery i f] (\<lambda>_. ())) Q E w"
proof -
  have "rewritten i f w w'" if "transaction [update_delivery i f] (pop_fault w) = Inr w'" for w'
    using that dlv.get_upd[OF key]
    by (auto simp: rewritten_def started_def only_delivery_def update_delivery_def split: option.splits)
  then show ?thesis
    unfolding wp_commit
    by (auto simp del: transaction.simps split: fault.splits sum.splits intro!: ok bad)
qed

lemma rewritten_crashed:
  assumes "get_delivery w i = Some d" "\<not> terminal (d_status d)" "same_rows w w' \<or> rewritten i f w w'"
  shows "crashed i n w w'"
  using assms crashed_intros(1)[OF assms(1,2)] by (auto simp: crashed_def rewritten_def started_def)

lemma load_deliveryD:
  "load_delivery i w = Some (d, v, e) \<Longrightarrow>
   get_delivery w i = Some d \<and> d_id d = i \<and> get_event w (d_eventId d) = Some v \<and> get_endpoint w (d_endpointId d) = Some e"
  by (auto simp: load_delivery_def dest: dlv.get_key split: option.splits)

lemma handle_open_wp:
  assumes d: "get_delivery w i = Some d" "\<not> terminal (d_status d)" and dl: "d_id d = i"
  shows "wp (io_bind (take_bucket (e_id ep) (e_rateLimitPerMinute ep)) (\<lambda>allowed.
      if \<not> allowed then io_seq (publishThrottle (hd_publisher hn) (d_id d) n) (io_ret Throttled)
      else io_seq (commit [update_delivery (d_id d) (\<lambda>d. d\<lparr>d_status := IN_FLIGHT\<rparr>)] (\<lambda>_. ()))
             (attempt_delivery hn d ev ep n)))
    (handled hn i n w) (\<lambda>_. crashed i n w) w"
proof (subst wp_bind, rule wp_take_bucket)
  fix allowed w'
  assume sr: "same_rows w w'"
  have d': "get_delivery w' i = Some d" using d same_rows_get[OF sr] by simp
  show "wp (if \<not> allowed then io_seq (publishThrottle (hd_publisher hn) (d_id d) n) (io_ret Throttled)
      else io_seq (commit [update_delivery (d_id d) (\<lambda>d. d\<lparr>d_status := IN_FLIGHT\<rparr>)] (\<lambda>_. ()))
             (attempt_delivery hn d ev ep n)) (handled hn i n w) (\<lambda>_. crashed i n w) w'"
  proof (cases allowed)
    case False
    have thr: "handled hn i n w Throttled w2 \<and> crashed i n w w2" if s: "sent (retry_of hn) i n w' w2" for w2
    proof -
      have "sent (retry_of hn) i n w w2" by (rule quiet_sent(1)[OF same_rows_quiet[OF sr] s])
      then have "only_delivery i w w2 \<and> attempts w2 = attempts w \<and> one_message (retry_of hn) i n w w2 \<and>
          get_delivery w2 i = get_delivery w i"
        by (auto simp: sent_def only_delivery_def one_message_def)
      then show ?thesis using d by (simp add: handled_def crashed_def)
    qed
    have q: "crashed i n w w2" if "quiet w' w2" for w2
    proof -
      have "quiet w w2" by (rule quiet_trans[OF same_rows_quiet[OF sr] that])
      then show ?thesis using d by (simp add: crashed_def only_delivery_def quiet_def)
    qed
    show ?thesis
      unfolding publish_defs_wp dl if_P[OF False] wp_seq wp_ret
      by (rule wp_publish_to) (use thr q in blast)+
  next
    case True
    have "wp (io_seq (commit [update_delivery i (\<lambda>d. d\<lparr>d_status := IN_FLIGHT\<rparr>)] (\<lambda>_. ()))
             (attempt_delivery hn d ev ep n)) (attempt_post hn i n w) (\<lambda>_. crashed i n w) w'"
    proof (rule wp_transport[OF _ started_same_rows[OF sr] d], subst wp_seq, rule wp_commit_row)
      fix w2
      assume r: "rewritten i (\<lambda>d. d\<lparr>d_status := IN_FLIGHT\<rparr>) w' w2"
      then have st: "started i w' w2" and d2: "get_delivery w2 i = Some (d\<lparr>d_status := IN_FLIGHT\<rparr>)"
        using d' by (simp_all add: rewritten_def)
      have "\<not> terminal (d_status (d\<lparr>d_status := IN_FLIGHT\<rparr>))" by simp
      from attempt_delivery_wp[OF d2 this dl]
      show "wp (attempt_delivery hn d ev ep n) (attempt_post hn i n w') (\<lambda>_. crashed i n w') w2"
        by (rule wp_transport[OF _ st d' d(2)])
    qed (use rewritten_crashed[OF d' d(2)] in auto)
    then show ?thesis using True by (simp add: dl) (erule wp_mono, auto)
  qed
qed (use crashed_intros(1)[OF d] in blast)

lemma load_pop [simp]: "load_delivery i (pop_fault w) = load_delivery i w"
  by (auto simp: load_delivery_def split: option.splits)

lemma contract_pop:
  "only_delivery i (pop_fault w) w' = only_delivery i w w'" "same_rows (pop_fault w) w' = same_rows w w'"
  "one_attempt i n (pop_fault w) w' = one_attempt i n w w'" "one_message x i n (pop_fault w) w' = one_message x i n w w'"
  "tables_same (pop_fault w) w' = tables_same w w'"
  by (simp_all add: only_delivery_def same_rows_def one_attempt_def one_message_def tables_same_def)

lemma handled_pop: "handled hn i n (pop_fault w) oc w' = handled hn i n w oc w'"
  unfolding handled_def contract_pop load_pop get_frame pop_fault_fields ..

lemma crashed_pop: "crashed i n (pop_fault w) w' = crashed i n w w'"
  unfolding crashed_def contract_pop get_frame pop_fault_fields ..

lemma handleDelivery_wp: "wp (handleDelivery hn i n) (handled hn i n w) (\<lambda>_. crashed i n w) w"
proof -
  let ?w = "pop_fault w"
  have sr: "same_rows w ?w" by simp
  have crash: "crashed i n w ?w"
    using sr by (simp add: crashed_def only_delivery_same_rows)
  show ?thesis
  proof (cases "load_delivery i w")
    case None
    then show ?thesis using crash sr only_delivery_same_rows[OF sr]
      unfolding handleDelivery_def handle_loaded_def by (simp add: wp_simps handled_def Let_def split: fault.split)
  next
    case (Some r)
    obtain dl ev ep where r: "r = (dl, ev, ep)" by (cases r)
    note ld = load_deliveryD[OF Some[unfolded r]]
    then have d: "get_delivery w i = Some dl" "get_delivery ?w i = Some dl" and dl: "d_id dl = i" by simp_all
    show ?thesis
    proof (cases "terminal (d_status dl)")
      case True
      then show ?thesis using crash sr only_delivery_same_rows[OF sr] d
        unfolding handleDelivery_def handle_loaded_def by (simp add: wp_simps Some r handled_def Let_def split: fault.split)
    next
      case nt: False
      have skip: "wp (io_bind now (\<lambda>t. io_seq (commit [update_delivery (d_id dl) (\<lambda>d. d\<lparr>d_status := SKIPPED,
               d_completedAt := Some t, d_lastError := Some ''endpoint is disabled''\<rparr>)] (\<lambda>_. ()))
           (io_ret SkippedDisabled))) (handled hn i n w) (\<lambda>_. crashed i n w) ?w"
      proof (rule wp_now_bind, subst wp_seq, unfold dl, rule wp_commit_row)
        fix t w1 w2
        let ?f = "\<lambda>d. d\<lparr>d_status := SKIPPED, d_completedAt := Some t, d_lastError := Some ''endpoint is disabled''\<rparr>"
        assume s1: "same_rows ?w w1" and rw: "rewritten i ?f w1 w2"
        have sw: "same_rows w w1" by (rule same_rows_trans[OF sr s1])
        have "started i w w2" using rw started_trans[OF started_same_rows[OF sw]] by (simp add: rewritten_def)
        moreover have "get_delivery w2 i = Some (?f dl)"
          using rw d same_rows_get[OF sw] by (simp add: rewritten_def)
        ultimately show "wp (io_ret SkippedDisabled) (handled hn i n w) (\<lambda>_. crashed i n w) w2"
          by (auto simp: wp_ret handled_def started_def row_is_def tables_same_def Let_def)
      next
        fix t w1 e w2
        let ?f = "\<lambda>d. d\<lparr>d_status := SKIPPED, d_completedAt := Some t, d_lastError := Some ''endpoint is disabled''\<rparr>"
        assume s1: "same_rows ?w w1" and rw: "same_rows w1 w2 \<or> rewritten i ?f w1 w2"
        have sw: "same_rows w w1" by (rule same_rows_trans[OF sr s1])
        have "get_delivery w1 i = Some dl" using d same_rows_get[OF sw] by simp
        then have "crashed i n w1 w2" by (rule rewritten_crashed[OF _ nt rw])
        then show "crashed i n w w2" by (rule crashed_transport[OF started_same_rows[OF sw] d(1) nt])
      qed simp
      have "wp (io_bind (take_bucket (e_id ep) (e_rateLimitPerMinute ep)) (\<lambda>allowed.
          if \<not> allowed then io_seq (publishThrottle (hd_publisher hn) (d_id dl) n) (io_ret Throttled)
          else io_seq (commit [update_delivery (d_id dl) (\<lambda>d. d\<lparr>d_status := IN_FLIGHT\<rparr>)] (\<lambda>_. ()))
             (attempt_delivery hn dl ev ep n))) (handled hn i n w) (\<lambda>_. crashed i n w) ?w"
        by (rule handle_open_wp[OF d(2) nt dl, unfolded handled_pop crashed_pop])
      then show ?thesis
        using skip crash unfolding handleDelivery_def handle_loaded_def wp_bind[of "query _"] wp_query
        by (auto simp only: load_pop Some r option.case prod.case nt if_False split: fault.split if_split)
    qed
  qed
qed

section \<open>Consequences\<close>

lemma handleDelivery_terminal:
  assumes "get_delivery w i = Some d" "terminal (d_status d)"
  shows "same_rows w (snd (handleDelivery hn i n w))"
proof (rule wp_sndD)
  have "same_rows w (pop_fault w)" by simp
  then show "wp (handleDelivery hn i n) (\<lambda>_. same_rows w) (\<lambda>_. same_rows w) w"
    using assms load_deliveryD
    by (auto simp: handleDelivery_def handle_loaded_def wp_bind wp_query wp_ret split: fault.split option.split prod.split)
qed

lemma handleDelivery_only: "only_delivery i w (snd (handleDelivery hn i n w))"
  by (rule wp_sndD, rule wp_mono[OF handleDelivery_wp]) (auto simp: handled_def crashed_def)

text \<open>How many attempts a run records.\<close>

lemma handled_attempts:
  "handled hn i n w oc w' \<Longrightarrow> length (attempts w') = length (attempts w) + (if is_attempt oc then 1 else 0)"
  by (cases oc) (auto simp: handled_def is_attempt_def one_attempt_def tables_same_def same_rows_def Let_def)

lemma crashed_attempts: "crashed i n w w' \<Longrightarrow> length (attempts w') \<le> length (attempts w) + 1"
  by (auto simp: crashed_def one_attempt_def)

section \<open>The ladder\<close>

text \<open>
  A chain of attempts: \<open>step n s\<close> is attempt number \<open>n\<close>; it ends the chain (\<open>Inl\<close>) or asks for the
  next one (\<open>Inr\<close>).  A step that only goes on below a bound cannot go on for ever.
\<close>

fun climb :: "(int \<Rightarrow> 's \<Rightarrow> 'r + 's) \<Rightarrow> nat \<Rightarrow> int \<Rightarrow> 's \<Rightarrow> (int \<times> 'r) option" where
  "climb step 0 n s = None"
| "climb step (Suc fuel) n s =
    (case step n s of Inl r \<Rightarrow> Some (n, r) | Inr s' \<Rightarrow> climb step fuel (n + 1) s')"

locale bounded_ladder =
  fixes step :: "int \<Rightarrow> 's \<Rightarrow> 'r + 's" and bound :: int
  assumes below: "step n s = Inr s' \<Longrightarrow> n < bound"
begin

lemma climb_ends: "n \<le> bound \<Longrightarrow> \<exists>m r. climb step (Suc (nat (bound - n))) n s = Some (m, r) \<and> n \<le> m \<and> m \<le> bound"
proof (induction "nat (bound - n)" arbitrary: n s)
  case 0
  then have "n = bound" by simp
  then show ?case using below[of bound s] by (cases "step n s") auto
next
  case (Suc k)
  show ?case
  proof (cases "step n s")
    case (Inl r)
    then show ?thesis using Suc.prems by simp
  next
    case (Inr s')
    then have "n < bound" by (rule below)
    then have "k = nat (bound - (n + 1))" using Suc.hyps(2) by linarith
    with Suc.hyps(1)[OF this, of s'] \<open>n < bound\<close> obtain m r
      where m: "climb step (Suc k) (n + 1) s' = Some (m, r)" "n + 1 \<le> m" "m \<le> bound" by auto
    then have "climb step (Suc (Suc k)) n s = Some (m, r)" using Inr by simp
    moreover have "nat (bound - n) = Suc k" using Suc.hyps(2) by simp
    ultimately show ?thesis using m(2,3) by fastforce
  qed
qed

end

text \<open>The handler as such a step: between two attempts of one delivery anything may happen to the
  world (\<open>env\<close>).\<close>

definition attempt_step ::
  "handler_deps \<Rightarrow> (int \<Rightarrow> world \<Rightarrow> world) \<Rightarrow> string \<Rightarrow> int \<Rightarrow> world \<Rightarrow> ((exn + outcome) \<times> world) + world" where
  "attempt_step hn env i n w =
    (case handleDelivery hn i n w of
       (Inr (Retrying l), w') \<Rightarrow> Inr (env n w')
     | r \<Rightarrow> Inl r)"

interpretation ladder: bounded_ladder "attempt_step hn env i" "cf_MAX_ATTEMPTS (hd_config hn)" for hn env i
proof
  fix n s s'
  assume "attempt_step hn env i n s = Inr s'"
  then obtain l w' where "handleDelivery hn i n s = (Inr (Retrying l), w')"
    by (auto simp: attempt_step_def split: prod.splits sum.splits outcome.splits)
  then have "handled hn i n s (Retrying l) w'" by (rule wp_InrD[OF handleDelivery_wp])
  then show "n < cf_MAX_ATTEMPTS (hd_config hn)" by (simp add: handled_def Let_def)
qed

section \<open>Disabling an endpoint\<close>

text \<open>What workers do to one endpoint's row, in any interleaving: count a failure, reset the
  counter after a success, and check the threshold.\<close>

datatype endpoint_op = CountFailure | ResetFailures | CheckThreshold

fun endpoint_ops :: "string \<Rightarrow> int \<Rightarrow> endpoint_op list \<Rightarrow> world \<Rightarrow> nat list \<times> world" where
  "endpoint_ops k threshold [] w = ([], w)"
| "endpoint_ops k threshold (CountFailure # ops) w =
    endpoint_ops k threshold ops (upd_endpoint k (\<lambda>e. e\<lparr>e_consecutiveFailures := e_consecutiveFailures e + 1\<rparr>) w)"
| "endpoint_ops k threshold (ResetFailures # ops) w =
    endpoint_ops k threshold ops (upd_endpoint k (\<lambda>e. e\<lparr>e_consecutiveFailures := 0\<rparr>) w)"
| "endpoint_ops k threshold (CheckThreshold # ops) w =
    (case disable_if_over k threshold w of
       (c, w1) \<Rightarrow> (case endpoint_ops k threshold ops w1 of (cs, w2) \<Rightarrow> (c # cs, w2)))"

definition active_rows :: "string \<Rightarrow> world \<Rightarrow> nat" where
  "active_rows k w = length (filter (\<lambda>e. e_id e = k \<and> e_status e = ACTIVE) (endpoints w))"

lemma active_rows_upd:
  assumes "\<And>e. e_id (f e) = e_id e" "\<And>e. e_status (f e) = e_status e"
  shows "active_rows k (upd_endpoint k f w) = active_rows k w"
proof -
  have "((\<lambda>e. e_id e = k \<and> e_status e = ACTIVE) \<circ> (\<lambda>e. if e_id e = k then f e else e)) =
      (\<lambda>e. e_id e = k \<and> e_status e = ACTIVE)"
    by (rule ext) (simp add: assms)
  then show ?thesis by (simp add: active_rows_def upd_endpoint_def update_where_def)
qed

lemma length_filter_split:
  assumes "\<And>x. q x \<Longrightarrow> p x \<and> \<not> p (f x)"
  shows "length (filter p xs) = length (filter q xs) + length (filter p (map (\<lambda>x. if q x then f x else x) xs))"
  using assms by (induction xs) auto

lemma disable_active_rows:
  assumes "disable_if_over k threshold w = (c, w')"
  shows "active_rows k w = c + active_rows k w'"
proof -
  let ?q = "\<lambda>e. e_id e = k \<and> e_status e = ACTIVE \<and> threshold \<le> e_consecutiveFailures e"
  have "c = length (filter ?q (endpoints w))"
    "endpoints w' = map (\<lambda>e. if ?q e then e\<lparr>e_status := DISABLED\<rparr> else e) (endpoints w)"
    using assms unfolding disable_if_over_def update_where_def Let_def prod.inject by auto
  then show ?thesis
    unfolding active_rows_def by (simp only:) (rule length_filter_split, auto)
qed

lemma endpoint_ops_announce:
  "endpoint_ops k threshold ops w = (cs, w') \<Longrightarrow> sum_list cs + active_rows k w' = active_rows k w"
proof (induction k threshold ops w arbitrary: cs w' rule: endpoint_ops.induct)
  case (4 k threshold ops w)
  obtain c w1 where d: "disable_if_over k threshold w = (c, w1)" by fastforce
  obtain cs2 w2 where e: "endpoint_ops k threshold ops w1 = (cs2, w2)" by fastforce
  have "sum_list cs2 + active_rows k w2 = active_rows k w1" using "4.IH"[OF d[symmetric] e] .
  then show ?case using "4.prems" d e disable_active_rows[OF d] by auto
qed (simp_all add: active_rows_upd)

end
