(* ===== verification/Samples.thy ===== *)
theory Samples
  imports Handler
begin

text \<open>
  Concrete inputs on which the properties of the other theories are instantiated: one
  project with one endpoint and one event, its delivery in a chosen status, and handler
  dependencies whose receiver answers with a chosen status code.
\<close>

definition sample_suffix :: string where
  "sample_suffix = ''abcdefghijklmnopqrstuvwx''"

definition sample_id :: string where
  "sample_id = ''dlv_'' @ sample_suffix"

definition sample_delivery :: "delivery_status \<Rightarrow> delivery" where
  "sample_delivery st =
    \<lparr>d_id = sample_id, d_eventId = ''evt_1'', d_endpointId = ''ep_1'', d_status = st, d_attemptCount = 0,
     d_nextAttemptAt = None, d_lastError = None, d_completedAt = None, d_replayedFromId = None,
     d_createdAt = 0\<rparr>"

definition sample_endpoint :: endpoint where
  "sample_endpoint =
    \<lparr>e_id = ''ep_1'', e_projectId = ''prj_1'', e_url = ''https://example.com/hook'', e_description = None,
     e_status = ACTIVE, e_secret = ''s'', e_previousSecret = None, e_secretRotatedAt = None,
     e_eventTypes = [], e_rateLimitPerMinute = 600, e_consecutiveFailures = 0, e_createdAt = 0\<rparr>"

definition sample_event :: webhook_event where
  "sample_event =
    \<lparr>v_id = ''evt_1'', v_projectId = ''prj_1'', v_eventType = ''order.paid'', v_payload = JNull,
     v_idempotencyKey = ''key'', v_receivedAt = 0\<rparr>"

definition sample_project :: project where
  "sample_project =
    \<lparr>p_id = ''prj_1'', p_name = ''Demo'', p_slug = ''demo'', p_alertWebhookUrl = None, p_createdAt = 0\<rparr>"

definition sample_world :: "delivery_status \<Rightarrow> fault list \<Rightarrow> world" where
  "sample_world st fs =
    \<lparr>users = [], projects = [sample_project], memberships = [], apiKeys = [],
     endpoints = [sample_endpoint], events = [sample_event], deliveries = [sample_delivery st],
     attempts = [], refreshTokens = [], published = [], emitted = [], buckets = (\<lambda>_. None),
     alertKeys = (\<lambda>_. None), requests = [], clock = 1000, drift = [], faults = fs, fresh = 0,
     suffixes = (\<lambda>_. sample_suffix)\<rparr>"

definition sample_config :: config where
  "sample_config =
    \<lparr>cf_NODE_ENV = Test, cf_JWT_SECRET = replicate 32 (CHR ''a''),
     cf_SECRET_ENCRYPTION_KEY = replicate 64 (CHR ''b''), cf_REFRESH_TOKEN_TTL_DAYS = 7,
     cf_DELIVERY_CONNECT_TIMEOUT_MS = 3000, cf_DELIVERY_TIMEOUT_MS = 10000, cf_MAX_ATTEMPTS = 6,
     cf_RESPONSE_SNIPPET_BYTES = 8192, cf_RATE_LIMIT_PUBLISH_PER_MINUTE = 600,
     cf_RATE_LIMIT_PUBLISH_PROJECT_PER_MINUTE = 6000, cf_IDEMPOTENCY_TTL_SECONDS = 86400,
     cf_BULK_REPLAY_LIMIT = 500, cf_SSRF_ALLOW_PRIVATE = False, cf_SSRF_ALLOWLIST_HOSTS = [],
     cf_SSRF_BLOCKED_PORTS = [22, 25], cf_ENDPOINT_AUTO_DISABLE_THRESHOLD = 20,
     cf_SECRET_ROTATION_GRACE_HOURS = 24, cf_DLQ_MESSAGE_TTL_HOURS = 24, cf_ALERT_TIMEOUT_MS = 5000,
     cf_ALERT_SUPPRESSION_MINUTES = 60, cf_ALERT_DLQ_THRESHOLD = 100, cf_RETENTION_DAYS = 30,
     cf_STUCK_DELIVERY_MINUTES = 15, cf_SHUTDOWN_GRACE_MS = 15000,
     cf_REALTIME_MAX_EVENTS_PER_SECOND = 20\<rparr>"

definition sample_target :: target where
  "sample_target =
    \<lparr>tg_url = \<lparr>url_protocol = ''https:'', url_hostname = ''example.com'', url_port = []\<rparr>,
     tg_hostname = ''example.com'', tg_port = Fin 443, tg_address = ''93.184.216.34'', tg_family = 4\<rparr>"

definition sample_result :: "int \<Rightarrow> result" where
  "sample_result st =
    \<lparr>rs_responseStatus = Some st, rs_responseHeaders = Some [], rs_responseBodySnippet = Some [],
     rs_durationMs = Some 5, rs_errorCode = None, rs_errorMessage = None\<rparr>"

definition sample_publisher :: publisher where
  "sample_publisher =
    \<lparr>pb_topology = default_topology, pb_random = 0, pb_deadLetterTtlMs = DEFAULT_DEAD_LETTER_TTL_MS\<rparr>"

definition sample_alerts :: alert_deps where
  "sample_alerts =
    \<lparr>al_config = sample_config, al_send = (\<lambda>_ _ _ _. Inr (sample_result 200)),
     al_resolve = (\<lambda>_ _. Inr sample_target), al_iso = (\<lambda>_. []), al_num = (\<lambda>_. [])\<rparr>"

definition sample_deps :: "int \<Rightarrow> handler_deps" where
  "sample_deps st =
    \<lparr>hd_publisher = sample_publisher, hd_alerts = sample_alerts, hd_config = sample_config,
     hd_schedule = RETRY_SCHEDULE, hd_send = (\<lambda>_ _ _ _. Inr (sample_result st)),
     hd_resolve = (\<lambda>_ _. Inr sample_target), hd_buildHeaders = (\<lambda>_ _ _ _ _ _ _. Inr []),
     hd_dateParse = (\<lambda>_. None), hd_num = (\<lambda>_. [])\<rparr>"

lemmas sample_defs =
  sample_id_def sample_suffix_def sample_delivery_def sample_endpoint_def sample_event_def
  sample_project_def sample_world_def sample_config_def sample_target_def sample_result_def
  sample_publisher_def sample_alerts_def sample_deps_def

text \<open>A number formatting that satisfies what the JSON theory asks of it: numerator, \<open>e\<close>,
  denominator.\<close>

definition sample_num :: "rat \<Rightarrow> string" where
  "sample_num x = int_str (fst (quotient_of x)) @ ''e'' @ int_str (snd (quotient_of x))"

lemma int_str_chars: "c \<in> set (int_str n) \<Longrightarrow> is_digit c \<or> c = CHR ''-''"
  using nat_str_digits(1) by (auto simp: int_str_def list_all_iff split: if_splits)

lemma int_str_inj: "int_str m = int_str n \<Longrightarrow> m = n"
proof -
  have nn: "nat_str a = nat_str b \<Longrightarrow> a = b" for a b using nat_str_digits(3) by metis
  have minus: "nat_str a \<noteq> CHR ''-'' # s" for a s
    using nat_str_digits(1)[of a] by (auto simp: is_digit_def)
  assume "int_str m = int_str n"
  then have "(m < 0 \<longleftrightarrow> n < 0) \<and> nat \<bar>m\<bar> = nat \<bar>n\<bar>"
    using minus minus[symmetric] by (auto simp: int_str_def dest!: nn split: if_splits)
  then show "m = n" by linarith
qed

lemma digit_numch: "is_digit c \<Longrightarrow> numch c \<and> c \<in> set ''0123456789-''"
proof -
  assume d: "is_digit c"
  define n where "n = (of_char c :: nat)"
  have "n = 48 \<or> n = 49 \<or> n = 50 \<or> n = 51 \<or> n = 52 \<or> n = 53 \<or> n = 54 \<or> n = 55 \<or> n = 56 \<or> n = 57"
    using d unfolding is_digit_def n_def by arith
  moreover have c: "c = char_of n" by (simp add: n_def)
  ultimately have "c \<in> set ''0123456789''"
    by (elim disjE) (simp_all add: c char_of_def bit_0)
  then show ?thesis by (auto simp: numch_def)
qed

lemma int_str_numch: "list_all numch (int_str n)" "hd (int_str n) \<in> set ''0123456789-''" "int_str n \<noteq> []"
proof -
  show ne: "int_str n \<noteq> []" using nat_str_digits(2) by (simp add: int_str_def)
  have "numch (CHR ''-'') \<and> CHR ''-'' \<in> set ''0123456789-''" by (simp add: numch_def)
  then have "numch c \<and> c \<in> set ''0123456789-''" if "c \<in> set (int_str n)" for c
    using int_str_chars[OF that] digit_numch by blast
  then show "list_all numch (int_str n)" "hd (int_str n) \<in> set ''0123456789-''"
    using hd_in_set[OF ne] by (auto simp only: list_all_iff)
qed

lemma split_sample_num:
  "split_on (CHR ''e'') (sample_num z) = [int_str (fst (quotient_of z)), int_str (snd (quotient_of z))]"
proof -
  have "\<not> is_digit (CHR ''e'')" by (simp add: is_digit_def)
  then have no_e: "CHR ''e'' \<notin> set (int_str n)" for n using int_str_chars by fastforce
  show ?thesis unfolding sample_num_def using no_e by (simp add: split_on_append split_on_no_sep)
qed

lemma num_ok_sample: "num_ok sample_num"
  unfolding num_ok_def
proof (intro conjI allI injI)
  fix x y
  assume "sample_num x = sample_num y"
  then have "int_str (fst (quotient_of x)) = int_str (fst (quotient_of y))"
    "int_str (snd (quotient_of x)) = int_str (snd (quotient_of y))"
    using split_sample_num[of x] split_sample_num[of y] by simp_all
  then have "quotient_of x = quotient_of y" by (intro prod_eqI int_str_inj)
  then show "x = y" by (metis quotient_of_div prod.collapse)
next
  fix x
  show "sample_num x \<noteq> []" by (simp add: sample_num_def)
  show "list_all numch (sample_num x)" using int_str_numch(1) by (simp add: sample_num_def numch_def)
  show "hd (sample_num x) \<in> set ''0123456789-''"
    unfolding sample_num_def hd_append2[OF int_str_numch(3)] by (rule int_str_numch(2))
qed

end
