(* ===== verification/Publish_Service.thy ===== *)
theory Publish_Service
  imports Broker Event_Types
begin

text \<open>
  \<open>src/backend/src/api/services/publish-service.js\<close>: an accepted event becomes one delivery
  per endpoint that takes it, in one transaction, and one message per active endpoint.
\<close>

section \<open>Creating rows\<close>

definition unique_violation :: exn where
  "unique_violation = JsError (Some ''P2002'') None ''unique constraint failed''"

definition create_event :: "webhook_event \<Rightarrow> statement" where
  "create_event v w =
    (if get_event w (v_id v) \<noteq> None then Inl unique_violation else Inr (w\<lparr>events := events w @ [v]\<rparr>))"

definition create_deliveries :: "delivery list \<Rightarrow> statement" where
  "create_deliveries ds w =
    (if \<not> distinct (map d_id ds) \<or> (\<exists>d \<in> set ds. get_delivery w (d_id d) \<noteq> None) then Inl unique_violation
     else Inr (w\<lparr>deliveries := deliveries w @ ds\<rparr>))"

text \<open>A new row with the schema's defaults; \<open>createdAt\<close> is the database's clock.\<close>

definition new_delivery :: "string \<Rightarrow> string \<Rightarrow> string \<Rightarrow> delivery_status \<Rightarrow> string option \<Rightarrow> int \<Rightarrow> delivery" where
  "new_delivery i eventId endpointId st replayedFromId createdAt =
    \<lparr>d_id = i, d_eventId = eventId, d_endpointId = endpointId, d_status = st, d_attemptCount = 0,
     d_nextAttemptAt = None, d_lastError = None, d_completedAt = None,
     d_replayedFromId = replayedFromId, d_createdAt = createdAt\<rparr>"

section \<open>The service\<close>

record receipt_delivery =
  rd_id :: string
  rd_endpointId :: string
  rd_status :: delivery_status

record receipt =
  rc_eventId :: string
  rc_deliveries :: "receipt_delivery list"

definition explicitEndpoints :: "string \<Rightarrow> string list \<Rightarrow> endpoint list act" where
  "explicitEndpoints projectId endpointIds =
    (let unique = remdups endpointIds in
     io_bind (query (\<lambda>w. filter (\<lambda>e. e_projectId e = projectId \<and> e_id e \<in> set unique) (endpoints w))) (\<lambda>eps.
       if length eps \<noteq> length unique
       then io_raise (App (UnprocessableError ''One or more endpoints are not available for this project''))
       else io_ret eps))"

definition subscribedEndpoints :: "string \<Rightarrow> string \<Rightarrow> endpoint list act" where
  "subscribedEndpoints projectId eventType =
    io_bind (query (\<lambda>w. filter (\<lambda>e. e_projectId e = projectId) (endpoints w))) (\<lambda>eps.
      io_ret (filter (\<lambda>e. subscriptionMatches (Some (e_eventTypes e)) eventType) eps))"

definition no_endpoint_error :: "string \<Rightarrow> exn" where
  "no_endpoint_error eventType = App (UnprocessableError
    (''No endpoint of this project subscribes to '' @ json_quote eventType
     @ ''; sending data nowhere is a configuration error''))"

definition draft_delivery :: "endpoint \<Rightarrow> receipt_delivery act" where
  "draft_delivery e =
    io_bind (fresh_id ''delivery'') (\<lambda>i.
      io_ret \<lparr>rd_id = i, rd_endpointId = e_id e,
              rd_status = (if e_status e = ACTIVE then PENDING else SKIPPED)\<rparr>)"

definition publishEvent ::
  "publisher \<Rightarrow> string \<Rightarrow> string \<Rightarrow> json \<Rightarrow> string list \<Rightarrow> string \<Rightarrow> receipt act" where
  "publishEvent pb projectId eventType payload endpointIds idempotencyKey =
    io_bind (if endpointIds \<noteq> [] then explicitEndpoints projectId endpointIds
             else subscribedEndpoints projectId eventType) (\<lambda>eps.
    if eps = [] then io_raise (no_endpoint_error eventType)
    else
      io_bind (fresh_id ''event'') (\<lambda>eventId.
      io_bind (io_mapM draft_delivery eps) (\<lambda>drafts.
      io_seq (commit
        [\<lambda>w. create_event \<lparr>v_id = eventId, v_projectId = projectId, v_eventType = eventType,
             v_payload = payload, v_idempotencyKey = idempotencyKey, v_receivedAt = clock w\<rparr> w,
         \<lambda>w. create_deliveries (map (\<lambda>r. new_delivery (rd_id r) eventId (rd_endpointId r) (rd_status r)
             None (clock w)) drafts) w] (\<lambda>_. ()))
      (io_seq (io_each (\<lambda>r. publishDelivery pb (rd_id r) 1) (filter (\<lambda>r. rd_status r = PENDING) drafts))
      (io_ret \<lparr>rc_eventId = eventId, rc_deliveries = drafts\<rparr>)))))"

section \<open>Facts\<close>

text \<open>Publishing a delivery's message touches the broker's log only, and fails only when a call
  rejects or the message is not well-formed.\<close>

definition main_message :: "publisher \<Rightarrow> string \<Rightarrow> int \<Rightarrow> publication" where
  "main_message pb i n =
    \<lparr>pub_exchange = ex_main (tp_exchanges (pb_topology pb)),
     pub_routingKey = tp_deliveryRoutingKey (pb_topology pb),
     pub_body = \<lparr>mb_deliveryId = i, mb_attempt = n\<rparr>, pub_expiration = None\<rparr>"

definition rows_same :: "world \<Rightarrow> world \<Rightarrow> bool" where
  "rows_same w w' \<longleftrightarrow> deliveries w' = deliveries w \<and> events w' = events w \<and> attempts w' = attempts w \<and>
    endpoints w' = endpoints w"

definition well_formed :: "string \<Rightarrow> int \<Rightarrow> bool" where
  "well_formed i n \<longleftrightarrow> assertId ''delivery'' i = Inr i \<and> 1 \<le> n"

lemma wp_publish_main:
  assumes "\<And>w'. published w' = published v @ [main_message pb i n] \<Longrightarrow> rows_same v w' \<Longrightarrow> 1 \<le> n \<Longrightarrow>
       (faults v = [] \<Longrightarrow> faults w' = []) \<Longrightarrow> Q () w'"
    "\<And>e w'. published w' = published v \<or> (published w' = published v @ [main_message pb i n] \<and> 1 \<le> n) \<Longrightarrow>
       rows_same v w' \<Longrightarrow> \<not> (faults v = [] \<and> well_formed i n) \<Longrightarrow> E e w'"
  shows "wp (publishDelivery pb i n) Q E v"
proof (cases "messageFor i n")
  case (Inl e)
  then have "\<not> well_formed i n" by (auto simp: messageFor_def well_formed_def split: if_splits)
  with Inl show ?thesis using assms(2) by (simp add: publishDelivery_def wp_simps rows_same_def)
next
  case (Inr x)
  then have "x = \<lparr>mb_deliveryId = i, mb_attempt = n\<rparr>" "1 \<le> n"
    by (auto simp: messageFor_def split: sum.splits if_splits)
  with Inr show ?thesis
    using assms by (simp add: publishDelivery_def wp_simps publish_def main_message_def pop_fault_def
        next_fault_def rows_same_def split: fault.split list.split)
qed

text \<open>The endpoints an event is for.\<close>

definition recipients :: "world \<Rightarrow> string \<Rightarrow> string \<Rightarrow> string list \<Rightarrow> endpoint list" where
  "recipients w projectId eventType endpointIds =
    filter (\<lambda>e. e_projectId e = projectId \<and>
      (if endpointIds \<noteq> [] then e_id e \<in> set endpointIds
       else subscriptionMatches (Some (e_eventTypes e)) eventType)) (endpoints w)"

text \<open>The effect of an accepted event: its row, one row per recipient in order, and one first-attempt
  message on the main exchange for each pending one, in order.\<close>

definition first_message :: "publisher \<Rightarrow> string \<Rightarrow> publication" where
  "first_message pb i =
    \<lparr>pub_exchange = ex_main (tp_exchanges (pb_topology pb)),
     pub_routingKey = tp_deliveryRoutingKey (pb_topology pb),
     pub_body = \<lparr>mb_deliveryId = i, mb_attempt = 1\<rparr>, pub_expiration = None\<rparr>"

definition rows_created :: "endpoint list \<Rightarrow> world \<Rightarrow> receipt \<Rightarrow> world \<Rightarrow> bool" where
  "rows_created eps w r w' \<longleftrightarrow>
    map rd_endpointId (rc_deliveries r) = map e_id eps \<and>
    map rd_status (rc_deliveries r) = map (\<lambda>e. if e_status e = ACTIVE then PENDING else SKIPPED) eps \<and>
    (\<exists>v ds. events w' = events w @ [v] \<and> v_id v = rc_eventId r \<and> deliveries w' = deliveries w @ ds \<and>
      map d_id ds = map rd_id (rc_deliveries r) \<and> map d_status ds = map rd_status (rc_deliveries r) \<and>
      map d_endpointId ds = map e_id eps \<and> list_all (\<lambda>d. d_eventId d = v_id v \<and> d_attemptCount d = 0) ds \<and>
      get_event w (v_id v) = None \<and> distinct (map d_id ds) \<and> list_all (\<lambda>d. get_delivery w (d_id d) = None) ds) \<and>
    attempts w' = attempts w \<and> endpoints w' = endpoints w"

definition fanned_out :: "publisher \<Rightarrow> endpoint list \<Rightarrow> world \<Rightarrow> receipt \<Rightarrow> nat \<Rightarrow> world \<Rightarrow> bool" where
  "fanned_out pb eps w r k w' \<longleftrightarrow> rows_created eps w r w' \<and>
    published w' = published w @
      take k (map (\<lambda>r. first_message pb (rd_id r)) (filter (\<lambda>r. rd_status r = PENDING) (rc_deliveries r)))"

definition untouched :: "world \<Rightarrow> world \<Rightarrow> bool" where
  "untouched w w' \<longleftrightarrow> rows_same w w' \<and> published w' = published w"

lemma rows_created_frame:
  assumes "rows_created eps w r w'" and e: "rows_same w' w''"
  shows "rows_created eps w r w''"
proof -
  have q: "events w'' = events w'" "deliveries w'' = deliveries w'" "attempts w'' = attempts w'" "endpoints w'' = endpoints w'"
    using e by (simp_all add: rows_same_def)
  show ?thesis using assms(1) unfolding rows_created_def q .
qed

lemma wp_endpoints:
  assumes "\<And>w'. untouched w w' \<Longrightarrow> Q (recipients w projectId eventType ids) w'"
    "\<And>e w'. untouched w w' \<Longrightarrow> E e w'"
  shows "wp (if ids \<noteq> [] then explicitEndpoints projectId ids else subscribedEndpoints projectId eventType) Q E w"
proof -
  have u: "untouched w (pop_fault w)" by (simp add: untouched_def rows_same_def)
  have f: "filter (\<lambda>e. P e \<and> R e) xs = filter (\<lambda>e. R e \<and> P e) xs" for P R and xs :: "endpoint list"
    by (rule filter_cong) auto
  show ?thesis
    using assms(1)[OF u] assms(2)[OF u]
    by (auto simp: explicitEndpoints_def subscribedEndpoints_def Let_def wp_simps recipients_def f split: fault.split)
qed

lemma wp_draft:
  "wp (draft_delivery e) Q E w =
    Q \<lparr>rd_id = ''dlv_'' @ suffixes w (fresh w), rd_endpointId = e_id e,
       rd_status = (if e_status e = ACTIVE then PENDING else SKIPPED)\<rparr> (w\<lparr>fresh := Suc (fresh w)\<rparr>)"
  by (simp add: draft_delivery_def wp_simps newId_def prefixFor_def ID_PREFIXES_def)

lemma wp_drafts:
  assumes "\<And>rs w'. untouched w w' \<Longrightarrow> map rd_endpointId rs = map e_id eps \<Longrightarrow>
      map rd_status rs = map (\<lambda>e. if e_status e = ACTIVE then PENDING else SKIPPED) eps \<Longrightarrow> Q rs w'"
  shows "wp (io_mapM draft_delivery eps) Q E w"
  using assms
proof (induction eps arbitrary: w Q)
  case Nil
  then show ?case by (simp add: wp_ret untouched_def rows_same_def)
next
  case (Cons e eps)
  show ?case
    unfolding io_mapM.simps wp_bind wp_ret wp_draft
    by (rule Cons.IH, rule Cons.prems) (simp_all add: untouched_def rows_same_def)
qed

lemma first_message_main: "first_message pb i = main_message pb i 1"
  by (simp add: first_message_def main_message_def)

lemma wp_publishDelivery:
  assumes "\<And>w'. published w' = published v @ [first_message pb i] \<Longrightarrow>
       rows_same v w' \<Longrightarrow> Q () w'"
    "\<And>e w'. published w' = published v \<or> published w' = published v @ [first_message pb i] \<Longrightarrow>
       rows_same v w' \<Longrightarrow> E e w'"
  shows "wp (publishDelivery pb i 1) Q E v"
  by (rule wp_publish_main) (use assms in \<open>auto simp: first_message_main\<close>)

lemma publishEvent_wp:
  "wp (publishEvent pb projectId eventType payload ids key)
     (\<lambda>r w'. recipients w projectId eventType ids \<noteq> [] \<and>
        fanned_out pb (recipients w projectId eventType ids) w r (length (rc_deliveries r)) w')
     (\<lambda>_ w'. untouched w w' \<or>
        (\<exists>r k. fanned_out pb (recipients w projectId eventType ids) w r k w')) w"
  (is "wp _ ?Q ?E w")
  unfolding publishEvent_def
proof (subst wp_bind, rule wp_endpoints)
  fix w1
  let ?eps = "recipients w projectId eventType ids"
  assume u1: "untouched w w1"
  show "wp (if ?eps = [] then io_raise (no_endpoint_error eventType)
    else
      io_bind (fresh_id ''event'') (\<lambda>eventId.
      io_bind (io_mapM draft_delivery ?eps) (\<lambda>drafts.
      io_seq (commit
        [\<lambda>w. create_event \<lparr>v_id = eventId, v_projectId = projectId, v_eventType = eventType,
             v_payload = payload, v_idempotencyKey = key, v_receivedAt = clock w\<rparr> w,
         \<lambda>w. create_deliveries (map (\<lambda>r. new_delivery (rd_id r) eventId (rd_endpointId r) (rd_status r)
             None (clock w)) drafts) w] (\<lambda>_. ()))
      (io_seq (io_each (\<lambda>r. publishDelivery pb (rd_id r) 1) (filter (\<lambda>r. rd_status r = PENDING) drafts))
      (io_ret \<lparr>rc_eventId = eventId, rc_deliveries = drafts\<rparr>))))) ?Q ?E w1"
  proof (cases "?eps = []")
    case True
    then show ?thesis using u1 by (simp add: wp_raise)
  next
    case False
    have new: "newId s ''event'' = Inr (''evt_'' @ s)" for s
      by (simp add: newId_def prefixFor_def ID_PREFIXES_def)
    show ?thesis
      unfolding if_not_P[OF False] wp_bind[of "fresh_id _"] wp_fresh_id new sum.case
    proof (subst wp_bind, rule wp_drafts, subst wp_seq)
      fix drafts :: "receipt_delivery list" and w2
      let ?w1 = "w1\<lparr>fresh := Suc (fresh w1)\<rparr>" and ?ev = "''evt_'' @ suffixes w1 (fresh w1)"
      assume u2: "untouched ?w1 w2" and ids: "map rd_endpointId drafts = map e_id ?eps"
        and sts: "map rd_status drafts = map (\<lambda>e. if e_status e = ACTIVE then PENDING else SKIPPED) ?eps"
      have u: "untouched w w2" using u1 u2 by (simp add: untouched_def rows_same_def)
      let ?r = "\<lparr>rc_eventId = ?ev, rc_deliveries = drafts\<rparr>"
      let ?pend = "filter (\<lambda>r. rd_status r = PENDING) drafts"
      let ?ops = "[\<lambda>w. create_event \<lparr>v_id = ?ev, v_projectId = projectId, v_eventType = eventType,
             v_payload = payload, v_idempotencyKey = key, v_receivedAt = clock w\<rparr> w,
         \<lambda>w. create_deliveries (map (\<lambda>r. new_delivery (rd_id r) ?ev (rd_endpointId r) (rd_status r)
             None (clock w)) drafts) w]"
      have ids': "map (rd_endpointId) drafts = map e_id ?eps" by (rule ids)
      have tr: "fanned_out pb ?eps w ?r 0 w3" if t: "transaction ?ops (pop_fault w2) = Inr w3" for w3
        using t u ids sts
        by (auto simp: fanned_out_def rows_created_def create_event_def create_deliveries_def untouched_def
            rows_same_def new_delivery_def get_delivery_def get_event_def comp_def list_all_iff split: if_splits)
      have step: "fanned_out pb ?eps w ?r (Suc k) w4"
        if f: "fanned_out pb ?eps w ?r k w3" and k: "k < length ?pend"
          and p: "published w4 = published w3 @ [first_message pb (rd_id (?pend ! k))]"
          and e: "rows_same w3 w4" for k and w3 w4 :: world
        using f k p by (auto simp: fanned_out_def take_Suc_conv_app_nth intro: rows_created_frame[OF _ e])
      have loop: "wp (io_each (\<lambda>r. publishDelivery pb (rd_id r) 1) ?pend)
          (\<lambda>_ w'. fanned_out pb ?eps w ?r (length ?pend) w') ?E w3" if f: "fanned_out pb ?eps w ?r 0 w3" for w3
      proof (rule wp_each_inv[where I = "\<lambda>pre w'. fanned_out pb ?eps w ?r (length pre) w'"])
        fix pre x rest and v :: world
        assume sp: "?pend = pre @ x # rest" and f: "fanned_out pb ?eps w ?r (length pre) v"
        have x: "?pend ! length pre = x" "length pre < length ?pend" unfolding sp by simp_all
        have nxt: "fanned_out pb ?eps w ?r (Suc (length pre)) v'"
          if "published v' = published v @ [first_message pb (rd_id x)]" "rows_same v v'" for v' :: world
          using step[OF f x(2)] that x(1) by simp
        show "wp (publishDelivery pb (rd_id x) 1) (\<lambda>_. fanned_out pb ?eps w ?r (length (pre @ [x]))) ?E v"
        proof (rule wp_publishDelivery)
          fix e and v' :: world
          assume p: "published v' = published v \<or> published v' = published v @ [first_message pb (rd_id x)]"
            and s: "rows_same v v'"
          have "fanned_out pb ?eps w ?r (length pre) v'" if "published v' = published v"
            using f that by (auto simp: fanned_out_def intro: rows_created_frame[OF _ s])
          then show "?E e v'" using p nxt[OF _ s] by blast
        qed (use nxt in simp)
      qed (use f in simp_all)
      have all: "fanned_out pb ?eps w ?r (length drafts) w'" if "fanned_out pb ?eps w ?r (length ?pend) w'" for w'
        using that length_filter_le[of "\<lambda>r. rd_status r = PENDING" drafts] by (simp add: fanned_out_def)
      show "wp (commit ?ops (\<lambda>_. ()))
        (\<lambda>_. wp (io_seq (io_each (\<lambda>r. publishDelivery pb (rd_id r) 1) ?pend) (io_ret ?r)) ?Q ?E) ?E w2"
      proof -
        have "untouched w (pop_fault w2)" using u by (simp add: untouched_def rows_same_def)
        moreover have "wp (io_seq (io_each (\<lambda>r. publishDelivery pb (rd_id r) 1) ?pend) (io_ret ?r)) ?Q ?E w3"
          if "transaction ?ops (pop_fault w2) = Inr w3" for w3
          unfolding wp_seq wp_ret
          by (rule wp_mono_simple[OF loop[OF tr[OF that]]]) (use all False in simp)
        ultimately show ?thesis
          unfolding wp_commit using tr by (auto simp del: transaction.simps split: fault.split sum.split)
      qed
    qed
  qed
qed auto

end
