(* ===== verification/Stuck_Sweeper.thy ===== *)
theory Stuck_Sweeper
  imports Publish_Service Alerts
begin

text \<open>
  \<open>src/backend/src/jobs/stuck-sweeper.js\<close>: rows that have been \<open>IN_FLIGHT\<close> for too long are
  claimed by a conditional update and their message is published again.  A row is described
  by what a sweep did to it: nothing, claimed it, or claimed and released it.
\<close>

definition MS_PER_MINUTE :: int where "MS_PER_MINUTE = 60000"
definition SWEEPS_PER_THRESHOLD :: int where "SWEEPS_PER_THRESHOLD = 3"
definition MIN_SWEEP_INTERVAL_MS :: int where "MIN_SWEEP_INTERVAL_MS = MS_PER_MINUTE"
definition SWEEP_BATCH_SIZE :: nat where "SWEEP_BATCH_SIZE = 200"

definition STUCK_RECOVERY_ERROR :: string where
  "STUCK_RECOVERY_ERROR = ''recovered by the stuck-delivery sweeper''"

definition stuckCutoff :: "int \<Rightarrow> int \<Rightarrow> int" where
  "stuckCutoff t stuckMinutes = t - stuckMinutes * MS_PER_MINUTE"

definition sweepIntervalMs :: "int \<Rightarrow> int" where
  "sweepIntervalMs stuckMinutes =
    (let derived = js_round (of_int (stuckMinutes * MS_PER_MINUTE) / of_int SWEEPS_PER_THRESHOLD)
     in max MIN_SWEEP_INTERVAL_MS derived)"

definition stuckDeliveryFilter :: "int \<Rightarrow> delivery \<Rightarrow> bool" where
  "stuckDeliveryFilter cutoff d \<longleftrightarrow>
    d_status d = IN_FLIGHT \<and>
    ((case d_nextAttemptAt d of Some t \<Rightarrow> t < cutoff | None \<Rightarrow> False) \<or>
     (d_nextAttemptAt d = None \<and> d_createdAt d < cutoff))"

text \<open>\<open>updateMany\<close>: the number of rows the predicate matched, and the table after it.\<close>

definition update_many :: "(delivery \<Rightarrow> bool) \<Rightarrow> (delivery \<Rightarrow> delivery) \<Rightarrow> world \<Rightarrow> nat \<times> world" where
  "update_many p f w =
    (length (filter p (deliveries w)), w\<lparr>deliveries := update_where p f (deliveries w)\<rparr>)"

definition claimed_row :: "delivery \<Rightarrow> delivery" where
  "claimed_row d = d\<lparr>d_status := RETRYING, d_lastError := Some STUCK_RECOVERY_ERROR\<rparr>"

definition claim_stuck :: "string \<Rightarrow> bool act" where
  "claim_stuck deliveryId =
    io_bind (effect_ret (update_many (\<lambda>d. d_id d = deliveryId \<and> d_status d = IN_FLIGHT) claimed_row))
      (\<lambda>count. io_ret (count = 1))"

definition release :: "string \<Rightarrow> unit act" where
  "release deliveryId =
    io_bind (effect_ret (update_many (\<lambda>d. d_id d = deliveryId \<and> d_status d = RETRYING)
      (\<lambda>d. d\<lparr>d_status := IN_FLIGHT\<rparr>))) (\<lambda>_. io_ret ())"

definition recover :: "publisher \<Rightarrow> delivery \<Rightarrow> bool act" where
  "recover pb d =
    io_bind (claim_stuck (d_id d)) (\<lambda>claimed.
      if \<not> claimed then io_ret False
      else
        io_seq (io_catch (publishDelivery pb (d_id d) (d_attemptCount d + 1))
                  (\<lambda>e. io_seq (release (d_id d)) (io_raise e)))
          (io_ret True))"

fun sweep_rows :: "publisher \<Rightarrow> nat \<Rightarrow> delivery list \<Rightarrow> nat act" where
  "sweep_rows pb recovered [] = io_ret recovered"
| "sweep_rows pb recovered (d # ds) =
    io_bind (recover pb d) (\<lambda>ok. sweep_rows pb (if ok then recovered + 1 else recovered) ds)"

record sweep_result =
  sw_cutoff :: int
  sw_examined :: nat
  sw_recovered :: nat

definition stuck_rows :: "int \<Rightarrow> nat \<Rightarrow> world \<Rightarrow> delivery list" where
  "stuck_rows cutoff batchSize w =
    take batchSize (sort_key d_createdAt (filter (stuckDeliveryFilter cutoff) (deliveries w)))"

definition runStuckSweep :: "publisher \<Rightarrow> int \<Rightarrow> nat \<Rightarrow> sweep_result act" where
  "runStuckSweep pb stuckMinutes batchSize =
    io_bind now (\<lambda>t.
      (let cutoff = stuckCutoff t stuckMinutes in
       io_bind (query (stuck_rows cutoff batchSize)) (\<lambda>stuck.
       io_bind (sweep_rows pb 0 stuck) (\<lambda>recovered.
         io_ret \<lparr>sw_cutoff = cutoff, sw_examined = length stuck, sw_recovered = recovered\<rparr>))))"

section \<open>One recovery\<close>

definition mark :: "string \<Rightarrow> (delivery \<Rightarrow> delivery) \<Rightarrow> delivery list \<Rightarrow> delivery list" where
  "mark i f rows = update_where (\<lambda>d. d_id d = i) f rows"

definition released_row :: "delivery \<Rightarrow> delivery" where
  "released_row d = d\<lparr>d_lastError := Some STUCK_RECOVERY_ERROR\<rparr>"

text \<open>The rows with one id: all in the given status.\<close>

definition all_in :: "delivery_status \<Rightarrow> string \<Rightarrow> delivery list \<Rightarrow> bool" where
  "all_in st i rows \<longleftrightarrow> (\<forall>d \<in> set rows. d_id d = i \<longrightarrow> d_status d = st)"

lemma update_where_all_in:
  "all_in st i rows \<Longrightarrow> update_where (\<lambda>d. d_id d = i \<and> d_status d = st) f rows = mark i f rows"
  by (auto simp: mark_def update_where_def all_in_def)

lemma filter_unique:
  "distinct (map d_id rows) \<Longrightarrow> d \<in> set rows \<Longrightarrow> filter (\<lambda>r. d_id r = d_id d \<and> P r) rows = (if P d then [d] else [])"
  by (induction rows) (auto simp: filter_empty_conv, (metis image_eqI)+)

lemma mark_mark: "(\<And>d. d_id (f d) = d_id d) \<Longrightarrow> mark i g (mark i f rows) = mark i (g \<circ> f) rows"
  by (auto simp: mark_def update_where_def)

lemma mark_id: "mark i id rows = rows"
  by (induction rows) (auto simp: mark_def update_where_def)

lemma mark_ids: "(\<And>d. d_id (f d) = d_id d) \<Longrightarrow> map d_id (mark i f rows) = map d_id rows"
  by (auto simp: mark_def update_where_def)

lemma mark_cong:
  "(\<And>d. d \<in> set rows \<Longrightarrow> d_id d = i \<Longrightarrow> f d = g d) \<Longrightarrow> mark i f rows = mark i g rows"
  by (auto simp: mark_def update_where_def)

lemma claimed_row_simps [simp]:
  "d_id (claimed_row d) = d_id d" "d_status (claimed_row d) = RETRYING"
  "d_attemptCount (claimed_row d) = d_attemptCount d" "d_id (released_row d) = d_id d"
  by (simp_all add: claimed_row_def released_row_def)

definition again :: "publisher \<Rightarrow> delivery \<Rightarrow> publication" where
  "again pb d = main_message pb (d_id d) (d_attemptCount d + 1)"

definition well_formed_row :: "delivery \<Rightarrow> bool" where
  "well_formed_row d \<longleftrightarrow> well_formed (d_id d) (d_attemptCount d + 1)"

lemma wp_publish_again:
  assumes "\<And>w'. published w' = published v @ [again pb d] \<Longrightarrow> deliveries w' = deliveries v \<Longrightarrow>
       (faults v = [] \<Longrightarrow> faults w' = []) \<Longrightarrow> Q () w'"
    "\<And>e w'. published w' \<in> {published v, published v @ [again pb d]} \<Longrightarrow> deliveries w' = deliveries v \<Longrightarrow>
       \<not> (faults v = [] \<and> well_formed_row d) \<Longrightarrow> E e w'"
  shows "wp (publishDelivery pb (d_id d) (d_attemptCount d + 1)) Q E v"
  by (rule wp_publish_main) (use assms in \<open>auto simp: again_def well_formed_row_def rows_same_def\<close>)

lemma wp_claim_stuck:
  "wp (claim_stuck i) Q E w =
    (let p = \<lambda>d. d_id d = i \<and> d_status d = IN_FLIGHT;
         w' = (pop_fault w)\<lparr>deliveries := update_where p claimed_row (deliveries w)\<rparr> in
     case next_fault w of
       NoFault \<Rightarrow> Q (length (filter p (deliveries w)) = 1) w'
     | FaultBefore \<Rightarrow> E unavailable (pop_fault w) | FaultAfter \<Rightarrow> E unavailable w')"
  by (simp add: claim_stuck_def update_many_def wp_simps Let_def split: fault.split)

lemma wp_release:
  "wp (release i) Q E w =
    (let w' = (pop_fault w)\<lparr>deliveries := update_where (\<lambda>d. d_id d = i \<and> d_status d = RETRYING)
          (\<lambda>d. d\<lparr>d_status := IN_FLIGHT\<rparr>) (deliveries w)\<rparr> in
     case next_fault w of
       NoFault \<Rightarrow> Q () w' | FaultBefore \<Rightarrow> E unavailable (pop_fault w) | FaultAfter \<Rightarrow> E unavailable w')"
  by (simp add: release_def update_many_def wp_simps Let_def split: fault.split)

lemma no_faults_next: "next_fault w \<noteq> NoFault \<Longrightarrow> faults w \<noteq> []"
  by (auto simp: next_fault_def)

lemma pop_no_faults [simp]: "faults w = [] \<Longrightarrow> faults (pop_fault w) = []"
  by (simp add: pop_fault_def)

text \<open>A row that is still in flight is claimed and its message published; if that fails the row is
  as it was, claimed, or released.  A row that is not in flight any more is left alone.\<close>

lemma recover_wp:
  assumes u: "distinct (map d_id (deliveries w))" and r: "r \<in> set (deliveries w)" "d_id r = d_id d"
  shows "wp (recover pb d)
    (\<lambda>ok w'. (faults w = [] \<longrightarrow> faults w' = []) \<and>
       (if d_status r = IN_FLIGHT
        then ok \<and> deliveries w' = mark (d_id d) claimed_row (deliveries w) \<and> published w' = published w @ [again pb d]
        else \<not> ok \<and> deliveries w' = deliveries w \<and> published w' = published w))
    (\<lambda>_ w'. \<not> (faults w = [] \<and> well_formed_row d) \<and>
       (\<exists>f \<in> {id, claimed_row, released_row}. deliveries w' = mark (d_id d) f (deliveries w)) \<and>
       published w' \<in> {published w, published w @ [again pb d]} \<and>
       (d_status r \<noteq> IN_FLIGHT \<longrightarrow> deliveries w' = deliveries w \<and> published w' = published w)) w"
  (is "wp _ ?Q ?E w")
proof (cases "d_status r = IN_FLIGHT")
  case False
  have f: "filter (\<lambda>d'. d_id d' = d_id d \<and> d_status d' = IN_FLIGHT) (deliveries w) = []"
    using filter_unique[OF u r(1)] r(2) False by simp
  then have m: "update_where (\<lambda>d'. d_id d' = d_id d \<and> d_status d' = IN_FLIGHT) claimed_row (deliveries w) = deliveries w"
    by (auto simp: update_where_def filter_empty_conv intro!: map_idI)
  have "?E e w'" if "next_fault w \<noteq> NoFault" "deliveries w' = deliveries w" "published w' = published w" for e and w' :: world
    using that False no_faults_next by (auto simp: mark_id)
  then show ?thesis
    unfolding recover_def wp_bind wp_claim_stuck f m Let_def
    using False by (simp add: wp_ret split: fault.split)
next
  case True
  have f: "filter (\<lambda>d'. d_id d' = d_id d \<and> d_status d' = IN_FLIGHT) (deliveries w) = [r]"
    using filter_unique[OF u r(1)] r(2) True by simp
  have "x = r" if "x \<in> set (deliveries w)" "d_id x = d_id d" for x
    using u that r by (simp add: distinct_map inj_on_def)
  then have "all_in IN_FLIGHT (d_id d) (deliveries w)"
    using True by (auto simp: all_in_def)
  then have m: "update_where (\<lambda>d'. d_id d' = d_id d \<and> d_status d' = IN_FLIGHT) claimed_row (deliveries w) =
      mark (d_id d) claimed_row (deliveries w)" and fl: "\<And>x. x \<in> set (deliveries w) \<Longrightarrow> d_id x = d_id d \<Longrightarrow> d_status x = IN_FLIGHT"
    by (auto simp: update_where_all_in all_in_def)
  let ?w1 = "(pop_fault w)\<lparr>deliveries := mark (d_id d) claimed_row (deliveries w)\<rparr>"
  have rel: "update_where (\<lambda>d'. d_id d' = d_id d \<and> d_status d' = RETRYING) (\<lambda>d. d\<lparr>d_status := IN_FLIGHT\<rparr>)
      (mark (d_id d) claimed_row (deliveries w)) = mark (d_id d) released_row (deliveries w)"
    using fl by (auto simp: update_where_def mark_def claimed_row_def released_row_def)
  have p: "wp (io_seq (io_catch (publishDelivery pb (d_id d) (d_attemptCount d + 1))
        (\<lambda>e. io_seq (release (d_id d)) (io_raise e))) (io_ret True)) ?Q ?E ?w1"
    if nf: "next_fault w = NoFault"
    unfolding wp_seq wp_ret wp_catch
  proof (rule wp_publish_again)
    fix w' :: world
    assume "published w' = published ?w1 @ [again pb d]" "deliveries w' = deliveries ?w1" "faults ?w1 = [] \<Longrightarrow> faults w' = []"
    then show "?Q True w'" using True by (simp add: pop_fault_def)
  next
    fix e and w' :: world
    assume s: "published w' \<in> {published ?w1, published ?w1 @ [again pb d]}" "deliveries w' = deliveries ?w1"
      and nh: "\<not> (faults ?w1 = [] \<and> well_formed_row d)"
    have nh': "\<not> (faults w = [] \<and> well_formed_row d)" using nh by (auto simp: pop_fault_def)
    have d': "deliveries w' = mark (d_id d) claimed_row (deliveries w)" using s(2) by simp
    show "wp (release (d_id d)) (\<lambda>_. wp (io_raise e) (\<lambda>_. ?Q True) ?E) ?E w'"
      using s(1) nh' True d' by (simp add: wp_release wp_raise Let_def rel split: fault.split)
  qed
  have bad: "?E e w'" if "next_fault w \<noteq> NoFault" "f \<in> {id, claimed_row}"
      "deliveries w' = mark (d_id d) f (deliveries w)" "published w' = published w" for e f and w' :: world
    using that True no_faults_next by auto
  show ?thesis
    unfolding recover_def wp_bind wp_claim_stuck f m Let_def
    using p True bad[where f = id] bad[where f = claimed_row] by (simp add: mark_id split: fault.split)
qed

section \<open>A sweep\<close>

definition claim_all :: "delivery list \<Rightarrow> delivery list \<Rightarrow> delivery list" where
  "claim_all ds rows = update_where (\<lambda>r. d_id r \<in> set (map d_id ds)) claimed_row rows"

text \<open>The first \<open>k\<close> rows recovered, and nothing else.\<close>

definition swept :: "publisher \<Rightarrow> delivery list \<Rightarrow> world \<Rightarrow> world \<Rightarrow> bool" where
  "swept pb ds w w' \<longleftrightarrow>
    deliveries w' = claim_all ds (deliveries w) \<and> published w' = published w @ map (again pb) ds"

text \<open>Stopped while recovering row \<open>k\<close>.\<close>

definition sweep_stopped :: "publisher \<Rightarrow> delivery list \<Rightarrow> world \<Rightarrow> world \<Rightarrow> bool" where
  "sweep_stopped pb ds w w' \<longleftrightarrow>
    (\<exists>k < length ds. \<exists>f \<in> {id, claimed_row, released_row}.
       deliveries w' = mark (d_id (ds ! k)) f (claim_all (take k ds) (deliveries w)) \<and>
       published w' \<in> {published w @ map (again pb) (take k ds), published w @ map (again pb) (take (Suc k) ds)})"

definition in_table :: "delivery list \<Rightarrow> delivery list \<Rightarrow> bool" where
  "in_table ds rows \<longleftrightarrow> distinct (map d_id rows) \<and> distinct (map d_id ds) \<and>
    (\<forall>d \<in> set ds. d \<in> set rows \<and> d_status d = IN_FLIGHT)"

lemma claim_all_simps [simp]:
  "claim_all [] rows = rows"
  "claim_all (d # ds) rows = claim_all ds (mark (d_id d) claimed_row rows)"
  by (auto simp: claim_all_def update_where_def mark_def claimed_row_def)

lemma in_table_step: "in_table (d # ds) rows \<Longrightarrow> in_table ds (mark (d_id d) claimed_row rows)"
  unfolding in_table_def by (auto simp: mark_ids) (auto simp: mark_def update_where_def image_iff)

lemma sweep_stopped_later:
  assumes "sweep_stopped pb ds w1 w'" "deliveries w1 = mark (d_id d) claimed_row (deliveries w)"
    "published w1 = published w @ [again pb d]"
  shows "sweep_stopped pb (d # ds) w w'"
proof -
  obtain k f where k: "k < length ds" "f \<in> {id, claimed_row, released_row}"
    "deliveries w' = mark (d_id (ds ! k)) f (claim_all (take k ds) (deliveries w1))"
    "published w' \<in> {published w1 @ map (again pb) (take k ds), published w1 @ map (again pb) (take (Suc k) ds)}"
    using assms(1) unfolding sweep_stopped_def by blast
  show ?thesis
    unfolding sweep_stopped_def
    by (rule exI[where x = "Suc k"], intro conjI, use k(1) in simp, rule bexI[where x = f])
       (use k assms(2,3) in auto)
qed

lemma sweep_rows_wp:
  assumes "in_table ds (deliveries w)"
  shows "wp (sweep_rows pb n ds)
    (\<lambda>m w'. m = n + length ds \<and> swept pb ds w w')
    (\<lambda>_ w'. sweep_stopped pb ds w w' \<and> \<not> (faults w = [] \<and> list_all well_formed_row ds)) w"
  using assms
proof (induction ds arbitrary: w n)
  case Nil
  then show ?case by (simp add: wp_ret swept_def)
next
  case (Cons d ds)
  have d: "distinct (map d_id (deliveries w))" "d \<in> set (deliveries w)" "d_status d = IN_FLIGHT"
    using Cons.prems by (auto simp: in_table_def)
  show ?case
    unfolding sweep_rows.simps wp_bind
  proof (rule wp_mono[OF recover_wp[OF d(1,2) refl]])
    fix ok and w1 :: world
    assume q: "(faults w = [] \<longrightarrow> faults w1 = []) \<and>
       (if d_status d = IN_FLIGHT
        then ok \<and> deliveries w1 = mark (d_id d) claimed_row (deliveries w) \<and> published w1 = published w @ [again pb d]
        else \<not> ok \<and> deliveries w1 = deliveries w \<and> published w1 = published w)"
    then have w1: ok "deliveries w1 = mark (d_id d) claimed_row (deliveries w)"
      "published w1 = published w @ [again pb d]" "faults w = [] \<longrightarrow> faults w1 = []" using d(3) by simp_all
    have t: "in_table ds (deliveries w1)" using in_table_step[OF Cons.prems] w1(2) by simp
    show "wp (sweep_rows pb (if ok then n + 1 else n) ds)
      (\<lambda>m w'. m = n + length (d # ds) \<and> swept pb (d # ds) w w')
      (\<lambda>_ w'. sweep_stopped pb (d # ds) w w' \<and> \<not> (faults w = [] \<and> list_all well_formed_row (d # ds))) w1"
    proof (rule wp_mono[OF Cons.IH[OF t]])
      fix m and w' :: world
      assume "m = (if ok then n + 1 else n) + length ds \<and> swept pb ds w1 w'"
      then show "m = n + length (d # ds) \<and> swept pb (d # ds) w w'" using w1 by (simp add: swept_def)
    next
      fix e and w' :: world
      assume "sweep_stopped pb ds w1 w' \<and> \<not> (faults w1 = [] \<and> list_all well_formed_row ds)"
      then show "sweep_stopped pb (d # ds) w w' \<and> \<not> (faults w = [] \<and> list_all well_formed_row (d # ds))"
        using w1 sweep_stopped_later by auto
    qed
  next
    fix e and w1 :: world
    assume b: "\<not> (faults w = [] \<and> well_formed_row d) \<and>
       (\<exists>f \<in> {id, claimed_row, released_row}. deliveries w1 = mark (d_id d) f (deliveries w)) \<and>
       published w1 \<in> {published w, published w @ [again pb d]} \<and>
       (d_status d \<noteq> IN_FLIGHT \<longrightarrow> deliveries w1 = deliveries w \<and> published w1 = published w)"
    then show "sweep_stopped pb (d # ds) w w1 \<and> \<not> (faults w = [] \<and> list_all well_formed_row (d # ds))"
      unfolding sweep_stopped_def by (intro conjI exI[where x = 0]) auto
  qed
qed

lemma stuck_rows_in_table:
  assumes "distinct (map d_id (deliveries w))"
  shows "in_table (stuck_rows cutoff b w) (deliveries w)"
proof -
  have s: "set (stuck_rows cutoff b w) \<subseteq> {d \<in> set (deliveries w). stuckDeliveryFilter cutoff d}"
    using set_take_subset by (fastforce simp: stuck_rows_def)
  have "distinct (deliveries w)" "inj_on d_id (set (deliveries w))" using assms by (auto simp: distinct_map)
  then have "distinct (map d_id (stuck_rows cutoff b w))"
    using s by (auto simp: distinct_map stuck_rows_def intro: inj_on_subset)
  then show ?thesis using s assms by (auto simp: in_table_def stuckDeliveryFilter_def)
qed

lemma runStuckSweep_wp:
  assumes "distinct (map d_id (deliveries w))"
  shows "wp (runStuckSweep pb stuckMinutes b)
    (\<lambda>r w'. let ds = stuck_rows (sw_cutoff r) b w in
       sw_examined r = length ds \<and> sw_recovered r = length ds \<and> swept pb ds w w')
    (\<lambda>_ w'. \<exists>cutoff. let ds = stuck_rows cutoff b w in
       (same_rows w w' \<or> sweep_stopped pb ds w w') \<and> \<not> (faults w = [] \<and> list_all well_formed_row ds)) w"
proof -
  let ?t = "clock w + (case drift w of [] \<Rightarrow> 0 | d # _ \<Rightarrow> d)"
  let ?c = "stuckCutoff ?t stuckMinutes"
  let ?w1 = "w\<lparr>clock := ?t, drift := tl (drift w)\<rparr>"
  have st: "stuck_rows c b w' = stuck_rows c b w" if "deliveries w' = deliveries w" for c and w' :: world
    using that by (simp add: stuck_rows_def)
  have t: "in_table (stuck_rows ?c b w) (deliveries (pop_fault ?w1))"
    using stuck_rows_in_table[OF assms] by simp
  have fr: "swept pb ds (pop_fault ?w1) w' = swept pb ds w w'"
    "sweep_stopped pb ds (pop_fault ?w1) w' = sweep_stopped pb ds w w'" for ds w'
    by (simp_all add: swept_def sweep_stopped_def)
  have nf: "next_fault ?w1 = next_fault w" "faults w = [] \<Longrightarrow> faults (pop_fault ?w1) = []"
    by (simp_all add: next_fault_def pop_fault_def)
  have sr: "same_rows w (pop_fault ?w1)" by (simp add: same_rows_def)
  have main: "wp (sweep_rows pb 0 (stuck_rows ?c b w))
     (\<lambda>m w'. wp (io_ret \<lparr>sw_cutoff = ?c, sw_examined = length (stuck_rows ?c b w), sw_recovered = m\<rparr>)
        (\<lambda>r w'. let ds = stuck_rows (sw_cutoff r) b w in
            sw_examined r = length ds \<and> sw_recovered r = length ds \<and> swept pb ds w w') E w')
     (\<lambda>_ w'. \<exists>cutoff. let ds = stuck_rows cutoff b w in
       (same_rows w w' \<or> sweep_stopped pb ds w w') \<and> \<not> (faults w = [] \<and> list_all well_formed_row ds)) (pop_fault ?w1)" for E
    by (rule wp_mono[OF sweep_rows_wp[OF t]])
       (auto simp: wp_ret fr Let_def intro!: exI[where x = ?c] dest: nf(2))
  show ?thesis
    unfolding runStuckSweep_def wp_bind wp_now wp_query Let_def
    using main sr no_faults_next[of w] st[of "pop_fault ?w1"]
    by (auto simp: nf Let_def split: fault.split)
qed

lemma runStuckSweep_cutoff:
  "wp (runStuckSweep pb stuckMinutes b) (\<lambda>r _. sw_cutoff r = stuckCutoff (time_read w) stuckMinutes) (\<lambda>_ _. True) w"
  unfolding runStuckSweep_def wp_bind wp_now Let_def
  by (rule wp_mono[OF wp_trivial], rule wp_mono[OF wp_trivial]) (simp_all add: wp_ret time_read_def)

text \<open>With every call answered, a sweep recovers every row it selects.\<close>

lemma claim_all_get:
  assumes "distinct (map d_id rows)" "d \<in> set ds" "d \<in> set rows"
  shows "find_by d_id (d_id d) (claim_all ds rows) = Some (claimed_row d)"
  using assms
proof (induction rows)
  case (Cons r rows)
  show ?case
  proof (cases "d = r")
    case True
    then show ?thesis using Cons.prems(2) by (auto simp: find_by_def claim_all_def update_where_def)
  next
    case False
    then have "d \<in> set rows" "d_id r \<noteq> d_id d" using Cons.prems by auto
    then show ?thesis using Cons by (simp add: find_by_def claim_all_def update_where_def)
  qed
qed simp

lemma runStuckSweep_recovers:
  assumes u: "distinct (map d_id (deliveries w))" and f: "faults w = []" "list_all well_formed_row (deliveries w)"
  shows "wp (runStuckSweep pb stuckMinutes b)
    (\<lambda>r w'. \<forall>d \<in> set (stuck_rows (stuckCutoff (time_read w) stuckMinutes) b w).
        again pb d \<in> set (published w') \<and> get_delivery w' (d_id d) = Some (claimed_row d))
    (\<lambda>_ _. False) w"
proof (rule wp_mono[OF wp_conj[OF runStuckSweep_wp[OF u] runStuckSweep_cutoff]])
  fix r and w' :: world
  let ?ds = "stuck_rows (stuckCutoff (time_read w) stuckMinutes) b w"
  assume h: "(let ds = stuck_rows (sw_cutoff r) b w in
       sw_examined r = length ds \<and> sw_recovered r = length ds \<and> swept pb ds w w') \<and>
     sw_cutoff r = stuckCutoff (time_read w) stuckMinutes"
  have t: "in_table ?ds (deliveries w)" by (rule stuck_rows_in_table[OF u])
  have s: "swept pb ?ds w w'" using h by (auto simp: Let_def)
  show "\<forall>d \<in> set ?ds. again pb d \<in> set (published w') \<and> get_delivery w' (d_id d) = Some (claimed_row d)"
    using s t claim_all_get[OF u] by (auto simp: swept_def in_table_def get_delivery_def)
next
  fix e and w' :: world
  have "list_all well_formed_row (stuck_rows c b w)" for c
    using f(2) stuck_rows_in_table[OF u, of c b] by (auto simp: in_table_def list_all_iff)
  then show "False" if "(\<exists>cutoff. let ds = stuck_rows cutoff b w in
       (same_rows w w' \<or> sweep_stopped pb ds w w') \<and> \<not> (faults w = [] \<and> list_all well_formed_row ds)) \<and> True"
    using that f(1) by (auto simp: Let_def)
qed

end
