(* ===== verification/Retention.thy ===== *)
theory Retention
  imports Alerts
begin

text \<open>
  \<open>src/backend/src/jobs/retention.js\<close>: events older than the retention window are deleted in
  batches, at most \<open>maxBatches\<close> a pass.  The schema's foreign keys delete an event's deliveries and
  their attempts with it, and clear \<open>replayedFromId\<close> where it named a deleted delivery.
\<close>

definition MS_PER_DAY :: int where "MS_PER_DAY = 86400000"
definition RETENTION_INTERVAL_MS :: int where "RETENTION_INTERVAL_MS = 3600000"
definition RETENTION_BATCH_SIZE :: nat where "RETENTION_BATCH_SIZE = 500"
definition RETENTION_MAX_BATCHES :: nat where "RETENTION_MAX_BATCHES = 20"

definition retentionCutoff :: "int \<Rightarrow> int \<Rightarrow> int" where
  "retentionCutoff t retentionDays = t - retentionDays * MS_PER_DAY"

text \<open>Deleting the events with the given ids, and what hangs on them.\<close>

definition gone_deliveries :: "string set \<Rightarrow> world \<Rightarrow> string set" where
  "gone_deliveries S w = set (map d_id (filter (\<lambda>d. d_eventId d \<in> S) (deliveries w)))"

definition unlink :: "string set \<Rightarrow> delivery \<Rightarrow> delivery" where
  "unlink G d = (case d_replayedFromId d of
     None \<Rightarrow> d | Some i \<Rightarrow> if i \<in> G then d\<lparr>d_replayedFromId := None\<rparr> else d)"

definition cascade :: "string set \<Rightarrow> world \<Rightarrow> world" where
  "cascade S w =
    (let G = gone_deliveries S w in
     w\<lparr>events := filter (\<lambda>v. v_id v \<notin> S) (events w),
       deliveries := map (unlink G) (filter (\<lambda>d. d_eventId d \<notin> S) (deliveries w)),
       attempts := filter (\<lambda>a. a_deliveryId a \<notin> G) (attempts w)\<rparr>)"

definition delete_events :: "string list \<Rightarrow> world \<Rightarrow> nat \<times> world" where
  "delete_events ids w =
    (length (filter (\<lambda>v. v_id v \<in> set ids) (events w)), cascade (set ids) w)"

definition is_stale :: "int \<Rightarrow> webhook_event \<Rightarrow> bool" where
  "is_stale cutoff v \<longleftrightarrow> v_receivedAt v < cutoff"

definition stale_batch :: "int \<Rightarrow> nat \<Rightarrow> world \<Rightarrow> string list" where
  "stale_batch cutoff batchSize w =
    map v_id (take batchSize (sort_key v_receivedAt (filter (is_stale cutoff) (events w))))"

definition deleteBatch :: "int \<Rightarrow> nat \<Rightarrow> nat act" where
  "deleteBatch cutoff batchSize =
    io_bind (query (stale_batch cutoff batchSize)) (\<lambda>stale.
      if length stale = 0 then io_ret 0
      else effect_ret (delete_events stale))"

text \<open>The \<open>while\<close> loop; the first argument is what is left of \<open>maxBatches\<close>.\<close>

fun retention_loop :: "nat \<Rightarrow> int \<Rightarrow> nat \<Rightarrow> nat \<Rightarrow> nat \<Rightarrow> (nat \<times> nat) act" where
  "retention_loop 0 cutoff batchSize deleted batches = io_ret (deleted, batches)"
| "retention_loop (Suc left) cutoff batchSize deleted batches =
    io_bind (deleteBatch cutoff batchSize) (\<lambda>count.
      if count < batchSize then io_ret (deleted + count, batches + 1)
      else retention_loop left cutoff batchSize (deleted + count) (batches + 1))"

record retention_result =
  rr_cutoff :: int
  rr_deleted :: nat
  rr_batches :: nat

definition runRetention :: "int \<Rightarrow> nat \<Rightarrow> nat \<Rightarrow> retention_result act" where
  "runRetention retentionDays batchSize maxBatches =
    io_bind now (\<lambda>t.
      (let cutoff = retentionCutoff t retentionDays in
       io_bind (retention_loop maxBatches cutoff batchSize 0 0) (\<lambda>(deleted, batches).
         io_ret \<lparr>rr_cutoff = cutoff, rr_deleted = deleted, rr_batches = batches\<rparr>)))"

section \<open>Cascades compose\<close>

text \<open>The tables after deleting a set of events.\<close>

definition purged :: "string set \<Rightarrow> world \<Rightarrow> world \<Rightarrow> bool" where
  "purged S w w' \<longleftrightarrow>
    events w' = events (cascade S w) \<and> deliveries w' = deliveries (cascade S w) \<and>
    attempts w' = attempts (cascade S w) \<and> published w' = published w \<and> endpoints w' = endpoints w"

lemma unlink_simps [simp]: "d_id (unlink G d) = d_id d" "d_eventId (unlink G d) = d_eventId d"
  by (simp_all add: unlink_def split: option.split)

lemma unlink_unlink: "unlink G' (unlink G d) = unlink (G \<union> G') d"
  by (auto simp: unlink_def split: option.split)

lemma filter_unlink: "filter (\<lambda>d. d_eventId d \<notin> S) (map (unlink G) rows) = map (unlink G) (filter (\<lambda>d. d_eventId d \<notin> S) rows)"
  by (simp add: filter_map comp_def)

lemma gone_Un: "gone_deliveries S w \<union> gone_deliveries T (cascade S w) = gone_deliveries (S \<union> T) w"
proof -
  have "{x \<in> unlink G ` A. d_eventId x \<in> T} = unlink G ` {x \<in> A. d_eventId x \<in> T}" for G A by auto
  then have "gone_deliveries T (cascade S w) = d_id ` {d \<in> set (deliveries w). d_eventId d \<notin> S \<and> d_eventId d \<in> T}"
    by (simp add: gone_deliveries_def cascade_def Let_def image_image conj_assoc)
  then show ?thesis by (auto simp: gone_deliveries_def)
qed

lemma purged_refl: "purged {} w w"
proof -
  have "unlink {} = id" by (rule ext) (simp add: unlink_def split: option.split)
  then show ?thesis by (simp add: purged_def cascade_def gone_deliveries_def)
qed

lemma purged_cascade: "purged S w w' \<Longrightarrow> purged (S \<union> T) w (cascade T w')"
proof -
  assume p: "purged S w w'"
  then have g: "gone_deliveries S w \<union> gone_deliveries T w' = gone_deliveries (S \<union> T) w"
    using gone_Un[of S w T] by (simp add: purged_def gone_deliveries_def)
  have f: "filter (\<lambda>x. Q x \<and> P x) xs = filter (\<lambda>x. P x \<and> Q x) xs" for P Q and xs :: "'a list"
    by (rule filter_cong) auto
  have u: "unlink (gone_deliveries T w') \<circ> unlink (gone_deliveries S w) = unlink (gone_deliveries (S \<union> T) w)"
    by (rule ext) (simp add: unlink_unlink g)
  have a: "a_deliveryId a \<notin> gone_deliveries (S \<union> T) w \<longleftrightarrow>
      a_deliveryId a \<notin> gone_deliveries S w \<and> a_deliveryId a \<notin> gone_deliveries T w'" for a
    unfolding g[symmetric] by simp
  show ?thesis
    using p unfolding purged_def cascade_def Let_def
    by (simp add: filter_unlink u a f conj_commute)
qed

section \<open>What a pass does\<close>

definition stale_ids :: "int \<Rightarrow> world \<Rightarrow> string set" where
  "stale_ids cutoff w = v_id ` {v \<in> set (events w). is_stale cutoff v}"

lemma stale_batch_sub: "set (stale_batch cutoff b w) \<subseteq> stale_ids cutoff w"
  using set_take_subset by (fastforce simp: stale_batch_def stale_ids_def)

lemma purged_stale_ids: "purged S w w' \<Longrightarrow> stale_ids cutoff w' \<subseteq> stale_ids cutoff w"
  by (auto simp: purged_def cascade_def Let_def stale_ids_def)

lemma purged_pop [simp]: "purged S w (pop_fault w') = purged S w w'"
  by (simp add: purged_def)

text \<open>With unique ids, a batch removes exactly as many events as it selected.\<close>

lemma filter_in_ids:
  assumes "distinct (map key rows)" "set sub \<subseteq> set rows" "distinct sub"
  shows "length (filter (\<lambda>r. key r \<in> key ` set sub) rows) = length sub"
proof -
  have d: "distinct rows" "inj_on key (set rows)" using assms(1) by (auto simp: distinct_map)
  have "{r \<in> set rows. key r \<in> key ` set sub} = set sub"
    using assms(2) d(2) by (auto simp: inj_on_def)
  then have "set (filter (\<lambda>r. key r \<in> key ` set sub) rows) = set sub" by simp
  then show ?thesis using d(1) assms(3) by (metis distinct_card distinct_filter)
qed

lemma batch_count:
  assumes "distinct (map v_id (events w))"
  shows "fst (delete_events (stale_batch c b w) w) = length (stale_batch c b w)"
proof -
  let ?sub = "take b (sort_key v_receivedAt (filter (is_stale c) (events w)))"
  have "distinct (events w)" using assms by (auto simp: distinct_map)
  then have "distinct ?sub" by simp
  moreover have "set ?sub \<subseteq> set (events w)" using set_take_subset by fastforce
  ultimately show ?thesis
    using filter_in_ids[OF assms] by (simp add: delete_events_def stale_batch_def)
qed

lemma batch_short:
  "length (stale_batch c b w) < b \<Longrightarrow> set (stale_batch c b w) = stale_ids c w"
  by (auto simp: stale_batch_def stale_ids_def)

lemma stale_gone: "stale_ids c (cascade (stale_ids c w) w) = {}"
  by (auto simp: stale_ids_def cascade_def Let_def)

lemma purged_unique: "purged S w w' \<Longrightarrow> distinct (map v_id (events w)) \<Longrightarrow> distinct (map v_id (events w'))"
  by (auto simp: purged_def cascade_def Let_def distinct_map intro: inj_on_subset)

lemma purged_count:
  "length (events (cascade S w)) + length (filter (\<lambda>v. v_id v \<in> S) (events w)) = length (events w)"
  using sum_length_filter_compl[of "\<lambda>v. v_id v \<in> S" "events w"] by (simp add: cascade_def Let_def)

text \<open>The loop invariant: some stale events and their dependents are gone, nothing else, and the
  counters tell the truth.\<close>

definition retained :: "int \<Rightarrow> world \<Rightarrow> nat \<Rightarrow> world \<Rightarrow> bool" where
  "retained cutoff w deleted w' \<longleftrightarrow>
    (\<exists>S. S \<subseteq> stale_ids cutoff w \<and> purged S w w') \<and> length (events w') + deleted = length (events w)"

definition partly_retained :: "int \<Rightarrow> world \<Rightarrow> world \<Rightarrow> bool" where
  "partly_retained cutoff w w' \<longleftrightarrow> (\<exists>S. S \<subseteq> stale_ids cutoff w \<and> purged S w w')"

lemma retained_step:
  assumes r: "retained c w deleted v" and u: "distinct (map v_id (events w))"
  shows "retained c w (deleted + fst (delete_events (stale_batch c b v) v)) (cascade (set (stale_batch c b v)) v)"
proof -
  obtain S where S: "S \<subseteq> stale_ids c w" "purged S w v" using r by (auto simp: retained_def)
  have "set (stale_batch c b v) \<subseteq> stale_ids c w"
    using stale_batch_sub purged_stale_ids[OF S(2)] by blast
  then have "S \<union> set (stale_batch c b v) \<subseteq> stale_ids c w" using S(1) by blast
  with purged_cascade[OF S(2)] have "\<exists>T. T \<subseteq> stale_ids c w \<and> purged T w (cascade (set (stale_batch c b v)) v)" by blast
  moreover have "length (events (cascade (set (stale_batch c b v)) v)) + (deleted + fst (delete_events (stale_batch c b v) v))
      = length (events w)"
    using r purged_count[of "set (stale_batch c b v)" v] by (simp add: retained_def delete_events_def)
  ultimately show ?thesis by (simp add: retained_def)
qed

lemma retained_pop [simp]: "retained c w n (pop_fault w') = retained c w n w'"
  by (simp add: retained_def)

lemma batch_pop [simp]:
  "stale_batch c b (pop_fault w) = stale_batch c b w" "stale_ids c (pop_fault w) = stale_ids c w"
  by (simp_all add: stale_batch_def stale_ids_def)

lemma wp_deleteBatch:
  "wp (deleteBatch c b) Q E v =
    (let ids = stale_batch c b v; v1 = pop_fault v; v2 = pop_fault v1; v3 = cascade (set ids) v2 in
     case next_fault v of
       NoFault \<Rightarrow>
         if ids = [] then Q 0 v1
         else (case next_fault v1 of
            NoFault \<Rightarrow> Q (fst (delete_events ids v2)) v3
          | FaultBefore \<Rightarrow> E unavailable v2
          | FaultAfter \<Rightarrow> E unavailable v3)
     | _ \<Rightarrow> E unavailable v1)"
  by (simp add: deleteBatch_def wp_simps Let_def delete_events_def split: fault.split)

lemma deleteBatchI:
  assumes "stale_batch c b v = [] \<Longrightarrow> Q 0 (pop_fault v)"
    "Q (fst (delete_events (stale_batch c b v) (pop_fault (pop_fault v))))
       (cascade (set (stale_batch c b v)) (pop_fault (pop_fault v)))"
    "\<And>e. E e (pop_fault v)" "\<And>e. E e (pop_fault (pop_fault v))"
    "\<And>e. E e (cascade (set (stale_batch c b v)) (pop_fault (pop_fault v)))"
  shows "wp (deleteBatch c b) Q E v"
  unfolding wp_deleteBatch using assms by (simp add: Let_def split: fault.split)

lemma retention_loop_wp:
  assumes "retained c w deleted v" "distinct (map v_id (events w))" "0 < b"
  shows "wp (retention_loop left c b deleted batches)
    (\<lambda>(n, k) w'. retained c w n w' \<and> k \<le> batches + left \<and>
       (stale_ids c w' = {} \<or> (n = deleted + left * b \<and> k = batches + left)))
    (\<lambda>_ w'. partly_retained c w w') v"
  using assms(1)
proof (induction left arbitrary: v deleted batches)
  case 0
  then show ?case by (simp add: wp_ret)
next
  case (Suc left)
  let ?b = "stale_batch c b v"
  have pr: "partly_retained c w v" using Suc.prems by (auto simp: retained_def partly_retained_def)
  obtain S where S: "purged S w v" using Suc.prems by (auto simp: retained_def)
  have cn: "fst (delete_events ?b (pop_fault (pop_fault v))) = length ?b"
    using batch_count[of "pop_fault (pop_fault v)" c b] purged_unique[OF S assms(2)] by simp
  have st: "retained c w (deleted + length ?b) (cascade (set ?b) (pop_fault (pop_fault v)))"
    using retained_step[of c w deleted "pop_fault (pop_fault v)" b] Suc.prems assms(2) cn by simp
  have pst: "partly_retained c w (cascade (set ?b) (pop_fault (pop_fault v)))"
    using st by (auto simp: retained_def partly_retained_def)
  have len: "length ?b \<le> b" by (simp add: stale_batch_def)
  have none: "length ?b < b \<Longrightarrow> stale_ids c (cascade (set ?b) (pop_fault (pop_fault v))) = {}"
    using batch_short[of c b v] stale_gone[of c "pop_fault (pop_fault v)"] by simp
  have ih: "wp (retention_loop left c b (deleted + b) (batches + 1))
    (\<lambda>(n, k) w'. retained c w n w' \<and> k \<le> batches + Suc left \<and>
       (stale_ids c w' = {} \<or> (n = deleted + Suc left * b \<and> k = batches + Suc left)))
    (\<lambda>_ w'. partly_retained c w w') (cascade (set ?b) (pop_fault (pop_fault v)))" if "length ?b = b"
    by (rule wp_mono[OF Suc.IH]) (use st that in \<open>auto simp: algebra_simps\<close>)
  have pp: "partly_retained c w (pop_fault v)" "partly_retained c w (pop_fault (pop_fault v))"
    using pr by (simp_all add: partly_retained_def)
  have empty: "stale_ids c v = {}" if "?b = []" using batch_short[of c b v] assms(3) that by simp
  let ?v3 = "cascade (set ?b) (pop_fault (pop_fault v))"
  let ?Q = "\<lambda>(n, k) w'. retained c w n w' \<and> k \<le> batches + Suc left \<and>
       (stale_ids c w' = {} \<or> (n = deleted + Suc left * b \<and> k = batches + Suc left))"
  let ?E = "\<lambda>_ w'. partly_retained c w w'"
  have q0: "wp (if 0 < b then io_ret (deleted + 0, batches + 1)
      else retention_loop left c b (deleted + 0) (batches + 1)) ?Q ?E (pop_fault v)" if "?b = []"
    using empty[OF that] Suc.prems assms(3) by (simp add: wp_ret)
  have q1: "wp (if length ?b < b then io_ret (deleted + length ?b, batches + 1)
      else retention_loop left c b (deleted + length ?b) (batches + 1)) ?Q ?E ?v3"
  proof (cases "length ?b < b")
    case True
    then show ?thesis using none[OF True] st by (simp add: wp_ret)
  next
    case False
    then have "length ?b = b" using len by simp
    with ih[OF this] show ?thesis by simp
  qed
  show ?case
    unfolding retention_loop.simps wp_bind
    by (rule deleteBatchI, rule q0, assumption, subst cn, subst cn, subst cn, rule q1, rule pp(1), rule pp(2), rule pst)
qed

lemma runRetention_wp:
  assumes "distinct (map v_id (events w))" "0 < b"
  shows "wp (runRetention days b m)
    (\<lambda>r w'. retained (rr_cutoff r) w (rr_deleted r) w' \<and> rr_batches r \<le> m \<and>
       (stale_ids (rr_cutoff r) w' = {} \<or> rr_deleted r = m * b))
    (\<lambda>_ w'. \<exists>c. partly_retained c w w') w"
proof -
  let ?t = "clock w + (case drift w of [] \<Rightarrow> 0 | d # _ \<Rightarrow> d)"
  let ?w1 = "w\<lparr>clock := ?t, drift := tl (drift w)\<rparr>"
  have u: "distinct (map v_id (events ?w1))" using assms(1) by simp
  have fr: "retained c ?w1 n w' = retained c w n w'" "partly_retained c ?w1 w' = partly_retained c w w'" for c n w'
    by (simp_all add: retained_def partly_retained_def purged_def cascade_def Let_def stale_ids_def gone_deliveries_def)
  have r0: "retained c ?w1 0 ?w1" for c using purged_refl[of ?w1] by (auto simp: retained_def)
  show ?thesis
    unfolding runRetention_def wp_bind wp_now Let_def
    by (rule wp_mono[OF retention_loop_wp[OF r0 u assms(2)]]) (auto simp: wp_ret fr)
qed

lemma runRetention_cutoff:
  "wp (runRetention days b m) (\<lambda>r _. rr_cutoff r = retentionCutoff (time_read w) days) (\<lambda>_ _. True) w"
  unfolding runRetention_def wp_bind wp_now Let_def
  by (rule wp_mono[OF wp_trivial]) (simp_all add: wp_ret time_read_def split_def)

end
