(* ===== verification/Schedule.thy ===== *)
theory Schedule
  imports Main
begin

text \<open>
  \<open>src/backend/src/jobs/schedule.js\<close> and \<open>shared/lifecycle.js\<close>: the timers of the jobs process
  and the shutdown every process shares, as state machines driven by what the runtime calls
  back: timers, settled promises and signals.
\<close>

section \<open>The schedule runner\<close>

record job =
  jb_name :: string
  jb_intervalMs :: int
  jb_inProgress :: bool
  jb_started :: nat
  jb_finished :: nat

text \<open>A job is known by its position.  \<open>handles\<close> are the timers set, \<open>active\<close> the passes running.\<close>

record runner =
  rn_jobs :: "job list"
  rn_handles :: "nat list"
  rn_active :: "nat list"

definition createScheduleRunner :: runner where
  "createScheduleRunner = \<lparr>rn_jobs = [], rn_handles = [], rn_active = []\<rparr>"

definition tick :: "nat \<Rightarrow> runner \<Rightarrow> runner" where
  "tick j r =
    (if jb_inProgress (rn_jobs r ! j) then r
     else r\<lparr>rn_jobs := (rn_jobs r)[j := (rn_jobs r ! j)\<lparr>jb_inProgress := True,
                jb_started := jb_started (rn_jobs r ! j) + 1\<rparr>],
            rn_active := rn_active r @ [j]\<rparr>)"

text \<open>The \<open>finally\<close> of a pass: \<open>invoke\<close> swallows what the job throws, so it always runs.\<close>

definition settle_pass :: "nat \<Rightarrow> runner \<Rightarrow> runner" where
  "settle_pass j r =
    r\<lparr>rn_jobs := (rn_jobs r)[j := (rn_jobs r ! j)\<lparr>jb_inProgress := False,
         jb_finished := jb_finished (rn_jobs r ! j) + 1\<rparr>],
      rn_active := remove1 j (rn_active r)\<rparr>"

definition every :: "string \<Rightarrow> int \<Rightarrow> bool \<Rightarrow> runner \<Rightarrow> runner" where
  "every name intervalMs runOnStart r =
    (let j = length (rn_jobs r);
         r' = r\<lparr>rn_jobs := rn_jobs r @ [\<lparr>jb_name = name, jb_intervalMs = intervalMs,
                  jb_inProgress = False, jb_started = 0, jb_finished = 0\<rparr>],
                rn_handles := rn_handles r @ [j]\<rparr>
     in if runOnStart then tick j r' else r')"

text \<open>\<open>stop\<close> clears the timers and waits for the passes in \<open>active\<close>.\<close>

definition stop :: "runner \<Rightarrow> nat list \<times> runner" where
  "stop r = (rn_active r, r\<lparr>rn_handles := []\<rparr>)"

inductive runner_step :: "runner \<Rightarrow> runner \<Rightarrow> bool" where
  added: "runner_step r (every name intervalMs runOnStart r)"
| timer: "j \<in> set (rn_handles r) \<Longrightarrow> runner_step r (tick j r)"
| settled: "j \<in> set (rn_active r) \<Longrightarrow> runner_step r (settle_pass j r)"
| stopped: "runner_step r (snd (stop r))"

inductive runner_reachable :: "runner \<Rightarrow> bool" where
  initial: "runner_reachable createScheduleRunner"
| step: "runner_reachable r \<Longrightarrow> runner_step r r' \<Longrightarrow> runner_reachable r'"

inductive_cases runner_stepE: "runner_step r r'"

text \<open>A pass of a job is running exactly when the job is marked in progress, and then exactly one.\<close>

definition job_ok :: "nat list \<Rightarrow> nat \<Rightarrow> job \<Rightarrow> bool" where
  "job_ok act j jb \<longleftrightarrow>
    (j \<in> set act \<longleftrightarrow> jb_inProgress jb) \<and>
    jb_started jb = jb_finished jb + (if jb_inProgress jb then 1 else 0)"

definition runner_ok :: "runner \<Rightarrow> bool" where
  "runner_ok r \<longleftrightarrow>
    distinct (rn_active r) \<and> set (rn_active r) \<subseteq> {..<length (rn_jobs r)} \<and>
    set (rn_handles r) \<subseteq> {..<length (rn_jobs r)} \<and>
    (\<forall>j < length (rn_jobs r). job_ok (rn_active r) j (rn_jobs r ! j))"

lemma nth_upd: "i < length xs \<Longrightarrow> xs[j := x] ! i = (if j = i then x else xs ! i)"
  by (cases "j = i") auto

lemma tick_ok: "runner_ok r \<Longrightarrow> j < length (rn_jobs r) \<Longrightarrow> runner_ok (tick j r)"
  by (auto simp: runner_ok_def tick_def job_ok_def nth_upd)

lemma settle_ok: "runner_ok r \<Longrightarrow> j \<in> set (rn_active r) \<Longrightarrow> runner_ok (settle_pass j r)"
  by (auto simp: runner_ok_def settle_pass_def job_ok_def nth_upd)

lemma every_ok: "runner_ok r \<Longrightarrow> runner_ok (every name intervalMs b r)"
proof -
  assume "runner_ok r"
  then have "runner_ok (r\<lparr>rn_jobs := rn_jobs r @ [\<lparr>jb_name = name, jb_intervalMs = intervalMs,
      jb_inProgress = False, jb_started = 0, jb_finished = 0\<rparr>], rn_handles := rn_handles r @ [length (rn_jobs r)]\<rparr>)"
    by (auto simp: runner_ok_def job_ok_def nth_append less_Suc_eq)
  then show ?thesis by (simp add: every_def Let_def tick_ok)
qed

lemma runner_step_ok: "runner_step r r' \<Longrightarrow> runner_ok r \<Longrightarrow> runner_ok r'"
  by (elim runner_stepE)
     (auto simp: every_ok settle_ok stop_def intro!: tick_ok, auto simp: runner_ok_def)

lemma runner_reachable_ok: "runner_reachable r \<Longrightarrow> runner_ok r"
  by (induction rule: runner_reachable.induct)
     (auto simp: runner_step_ok, simp add: runner_ok_def createScheduleRunner_def)

text \<open>Once stopped, no timer step starts a pass: only the passes \<open>stop\<close> waits for can settle.\<close>

lemma stopped_drains:
  assumes "runner_step r r'" "rn_handles r = []" "rn_jobs r' ! j \<noteq> rn_jobs r ! j" "j < length (rn_jobs r)"
  shows "j \<in> set (rn_active r) \<and> jb_started (rn_jobs r' ! j) = jb_started (rn_jobs r ! j)"
  using assms
  by (elim runner_stepE)
     (auto simp: every_def tick_def settle_pass_def stop_def nth_append nth_upd Let_def split: if_splits)

section \<open>Shutting down\<close>

datatype shutdown_event = Signal string | GraceElapsed | CloseResolved | CloseRejected

record shutdown_state =
  sd_shuttingDown :: bool
  sd_timer :: bool
  sd_closing :: bool
  sd_closeCalls :: nat
  sd_exit :: "int option"

definition onShutdown :: shutdown_state where
  "onShutdown = \<lparr>sd_shuttingDown = False, sd_timer = False, sd_closing = False, sd_closeCalls = 0, sd_exit = None\<rparr>"

fun shutdown_step :: "shutdown_state \<Rightarrow> shutdown_event \<Rightarrow> shutdown_state" where
  "shutdown_step s (Signal sig) =
    (if sd_exit s \<noteq> None \<or> sd_shuttingDown s then s
     else s\<lparr>sd_shuttingDown := True, sd_timer := True, sd_closing := True, sd_closeCalls := sd_closeCalls s + 1\<rparr>)"
| "shutdown_step s GraceElapsed =
    (if sd_exit s = None \<and> sd_timer s then s\<lparr>sd_timer := False, sd_exit := Some 1\<rparr> else s)"
| "shutdown_step s CloseRejected =
    (if sd_exit s = None \<and> sd_closing s then s\<lparr>sd_timer := False, sd_closing := False, sd_exit := Some 1\<rparr> else s)"
| "shutdown_step s CloseResolved =
    (if sd_exit s = None \<and> sd_closing s then s\<lparr>sd_timer := False, sd_closing := False, sd_exit := Some 0\<rparr> else s)"

text \<open>What the run amounts to: after the first signal, the first of the three other events decides.\<close>

definition is_signal :: "shutdown_event \<Rightarrow> bool" where
  "is_signal e \<longleftrightarrow> (case e of Signal _ \<Rightarrow> True | _ \<Rightarrow> False)"

fun exit_of :: "shutdown_event \<Rightarrow> int" where
  "exit_of CloseResolved = 0"
| "exit_of _ = 1"

definition decided :: "shutdown_event list \<Rightarrow> int option" where
  "decided es = map_option exit_of (find (\<lambda>e. \<not> is_signal e) (dropWhile (\<lambda>e. \<not> is_signal e) es))"

lemma exited_stays: "sd_exit s \<noteq> None \<Longrightarrow> foldl shutdown_step s es = s"
proof (induction es arbitrary: s)
  case (Cons e es)
  have "shutdown_step s e = s" using Cons.prems by (cases e) auto
  with Cons show ?case by simp
qed simp

lemma closing_run:
  assumes "sd_shuttingDown s" "sd_timer s" "sd_closing s" "sd_exit s = None"
  shows "sd_exit (foldl shutdown_step s es) = map_option exit_of (find (\<lambda>e. \<not> is_signal e) es) \<and>
    sd_closeCalls (foldl shutdown_step s es) = sd_closeCalls s"
  using assms
proof (induction es arbitrary: s)
  case (Cons e es)
  then show ?case by (cases e) (auto simp: is_signal_def exited_stays)
qed simp

lemma shutdown_run:
  "sd_exit (foldl shutdown_step onShutdown es) = decided es \<and>
   sd_closeCalls (foldl shutdown_step onShutdown es) = (if list_ex is_signal es then 1 else 0)"
proof (induction es)
  case (Cons e es)
  show ?case
  proof (cases "is_signal e")
    case True
    then obtain sig where e: "e = Signal sig" by (auto simp: is_signal_def split: shutdown_event.splits)
    show ?thesis
      using closing_run[of "shutdown_step onShutdown e" es] True by (simp add: e onShutdown_def decided_def)
  next
    case False
    then have "shutdown_step onShutdown e = onShutdown"
      by (cases e) (auto simp: onShutdown_def is_signal_def)
    with Cons False show ?thesis by (simp add: decided_def)
  qed
qed (simp add: onShutdown_def decided_def)

end
