(* ===== verification/Worker.thy ===== *)
theory Worker
  imports Handler Stuck_Sweeper
begin

text \<open>
  \<open>src/backend/src/worker/worker.js\<close>: the consumer around the delivery handler.  A message is
  acknowledged, or given back to the queue once; \<open>inFlight\<close> counts the messages being handled
  and the drain on shutdown waits for it.  \<open>parse\<close> is \<open>JSON.parse\<close> of the content.
\<close>

definition DRAIN_POLL_MS :: int where "DRAIN_POLL_MS = 50"
definition DRAIN_SHARE :: rat where "DRAIN_SHARE = 4 / 5"

record worker_message =
  wm_content :: string
  wm_redelivered :: bool

datatype settlement = Acked | Requeued

text \<open>\<open>wk_open\<close>: whether the channel still takes acknowledgements; it throws when it does not.\<close>

record worker =
  wk_inFlight :: nat
  wk_open :: bool
  wk_settled :: "(worker_message \<times> settlement) list"
  wk_world :: world

definition settle :: "worker_message \<Rightarrow> settlement \<Rightarrow> worker \<Rightarrow> worker" where
  "settle m s wk = (if wk_open wk then wk\<lparr>wk_settled := wk_settled wk @ [(m, s)]\<rparr> else wk)"

text \<open>The \<open>try\<close>: parsing and handling.  The rest is the \<open>ack\<close>, the \<open>catch\<close> and the \<open>finally\<close>; an
  \<open>ack\<close> that throws inside the \<open>try\<close> enters the \<open>catch\<close>, whose own call throws as well.\<close>

definition handle_message ::
  "handler_deps \<Rightarrow> (string \<Rightarrow> exn + string \<times> int) \<Rightarrow> worker_message \<Rightarrow> outcome act" where
  "handle_message hn parse m =
    io_bind (lift (parse (wm_content m))) (\<lambda>(deliveryId, attempt). handleDelivery hn deliveryId attempt)"

definition consume ::
  "handler_deps \<Rightarrow> (string \<Rightarrow> exn + string \<times> int) \<Rightarrow> worker_message option \<Rightarrow> worker \<Rightarrow> worker" where
  "consume hn parse message wk =
    (case message of
       None \<Rightarrow> wk
     | Some m \<Rightarrow>
         let started = wk\<lparr>wk_inFlight := wk_inFlight wk + 1\<rparr>;
             settled = (case handle_message hn parse m (wk_world started) of
                 (Inr _, w') \<Rightarrow> settle m Acked (started\<lparr>wk_world := w'\<rparr>)
               | (Inl _, w') \<Rightarrow>
                   settle m (if wm_redelivered m then Acked else Requeued) (started\<lparr>wk_world := w'\<rparr>))
         in settled\<lparr>wk_inFlight := wk_inFlight settled - 1\<rparr>)"

text \<open>\<open>drain(deadline)\<close>: \<open>busy t\<close> is whether a message is in flight at time \<open>t\<close>, \<open>lag t\<close> how much
  later than asked the timer set at \<open>t\<close> fires.  The result is the time it returns.\<close>

function drain :: "(int \<Rightarrow> bool) \<Rightarrow> (int \<Rightarrow> nat) \<Rightarrow> int \<Rightarrow> int \<Rightarrow> int" where
  "drain busy lag deadline t =
    (if busy t \<and> t < deadline then drain busy lag deadline (t + DRAIN_POLL_MS + int (lag t)) else t)"
  by pat_completeness auto
termination
  by (relation "measure (\<lambda>(_, _, deadline, t). nat (deadline - t))") (auto simp: DRAIN_POLL_MS_def)

declare drain.simps [simp del]

definition drain_deadline :: "int \<Rightarrow> int \<Rightarrow> rat" where
  "drain_deadline t graceMs = of_int t + of_int graceMs * DRAIN_SHARE"

section \<open>Facts\<close>

lemma settle_simps [simp]:
  "wk_inFlight (settle m s wk) = wk_inFlight wk" "wk_world (settle m s wk) = wk_world wk"
  "wk_open (settle m s wk) = wk_open wk"
  "wk_settled (settle m s wk) = wk_settled wk @ (if wk_open wk then [(m, s)] else [])"
  by (simp_all add: settle_def)

lemma consume_Some:
  "consume hn parse (Some m) wk =
    (case handle_message hn parse m (wk_world wk) of
       (Inr _, w') \<Rightarrow> settle m Acked (wk\<lparr>wk_world := w'\<rparr>)
     | (Inl _, w') \<Rightarrow> settle m (if wm_redelivered m then Acked else Requeued) (wk\<lparr>wk_world := w'\<rparr>))"
  by (auto simp: consume_def settle_def split: prod.split sum.split)

lemma handle_message_wp:
  assumes "parse (wm_content m) = Inr (i, n)"
  shows "wp (handle_message hn parse m) (handled hn i n w) (\<lambda>_. crashed i n w) w"
  using assms handleDelivery_wp[of hn i n w] by (simp add: handle_message_def wp_bind wp_lift)

lemma handle_message_bad: "parse (wm_content m) = Inl e \<Longrightarrow> handle_message hn parse m w = (Inl e, w)"
  by (simp add: handle_message_def io_bind_def lift_def io_raise_def)

lemma drain_result:
  "drain busy lag deadline t = T \<Longrightarrow> \<not> busy T \<or> deadline \<le> T"
proof (induction busy lag deadline t rule: drain.induct)
  case (1 busy lag deadline t)
  then show ?case by (cases "busy t \<and> t < deadline") (auto simp: drain.simps[of busy lag deadline t])
qed

lemma drain_bound:
  assumes "\<And>t. int (lag t) \<le> l"
  shows "drain busy lag deadline t \<le> max t (deadline + DRAIN_POLL_MS + l)"
  using assms
proof (induction busy lag deadline t rule: drain.induct)
  case (1 busy lag deadline t)
  have l: "int (lag t) \<le> l" "0 \<le> l" using 1(2)[of t] by linarith+
  show ?case
  proof (cases "busy t \<and> t < deadline")
    case True
    then show ?thesis using 1(1)[OF True 1(2)] l by (subst drain.simps) auto
  next
    case False
    then show ?thesis by (subst drain.simps) auto
  qed
qed

end
