(* ===== verification/Alert_Watch.thy ===== *)
theory Alert_Watch
  imports Alerts Broker
begin

text \<open>
  \<open>src/backend/src/jobs/alert-watch.js\<close>: the instance-wide conditions.  The broker's answer to
  \<open>checkQueue\<close> is a parameter \<open>depth\<close>; a probe is an awaited call that may reject.
\<close>

definition ALERT_WATCH_INTERVAL_MS :: int where "ALERT_WATCH_INTERVAL_MS = 300000"

record watch_deps =
  wt_alerts :: alert_deps
  wt_topology :: topology
  wt_config :: config
  wt_depth :: "world \<Rightarrow> int"

definition deadLetterDepth :: "watch_deps \<Rightarrow> int act" where
  "deadLetterDepth wt = query (wt_depth wt)"

definition watchDeadLetterQueue :: "watch_deps \<Rightarrow> unit act" where
  "watchDeadLetterQueue wt =
    io_bind (deadLetterDepth wt) (\<lambda>depth.
      if depth < cf_ALERT_DLQ_THRESHOLD (wt_config wt) then io_ret ()
      else io_bind (notifyConfiguredProjects (wt_alerts wt) (ALERT_REASON DEAD_LETTER_BACKLOG) (ALERT_REASON DEAD_LETTER_BACKLOG)
             (JObj [(''queue'', JStr (tp_deadLetterQueue (wt_topology wt))),
                    (''depth'', JNum (of_int depth)),
                    (''threshold'', JNum (of_int (cf_ALERT_DLQ_THRESHOLD (wt_config wt))))]))
             (\<lambda>_. io_ret ()))"

text \<open>The probes in order, each with whether its failure is alerted on.\<close>

definition probes :: "(string \<times> bool) list" where
  "probes = [(''redis'', True), (''rabbitmq'', True), (''postgres'', False)]"

definition watch_probe :: "watch_deps \<Rightarrow> string \<times> bool \<Rightarrow> unit act" where
  "watch_probe wt p =
    (case p of (name, alertable) \<Rightarrow>
      io_catch (query (\<lambda>_. ())) (\<lambda>_.
        if alertable
        then io_bind (notifyConfiguredProjects (wt_alerts wt) (ALERT_REASON DEPENDENCY_UNREACHABLE) name
               (JObj [(''dependency'', JStr name)])) (\<lambda>_. io_ret ())
        else io_ret ()))"

definition watchDependencies :: "watch_deps \<Rightarrow> unit act" where
  "watchDependencies wt = io_each (watch_probe wt) probes"

definition runAlertWatch :: "watch_deps \<Rightarrow> unit act" where
  "runAlertWatch wt = io_seq (watchDependencies wt) (watchDeadLetterQueue wt)"

end
