(* ===== verification/Keyset.thy ===== *)
theory Keyset
  imports Errors Base64 "HOL-Library.List_Lexorder" "HOL-Library.Char_ord" "HOL-Library.Product_Lexorder"
begin

text \<open>
  \<open>src/backend/src/api/services/keyset.js\<close>: keyset pagination over rows ordered by
  creation time and id, newest first.  The text of a date is the language's, given as
  \<open>iso_text\<close> and \<open>date_parse\<close>.  The pages a caller walks are compared with the whole sorted list.
\<close>

definition SEPARATOR :: char where "SEPARATOR = CHR ''|''"

record cursor =
  cu_createdAt :: int
  cu_id :: string

definition encodeCursor :: "(int \<Rightarrow> string) \<Rightarrow> cursor \<Rightarrow> string" where
  "encodeCursor iso_text c = base64url_encode (iso_text (cu_createdAt c) @ [SEPARATOR] @ cu_id c)"

definition malformed_cursor :: exn where
  "malformed_cursor = App (ValidationError ''The cursor is malformed''
    (Some [\<lparr>fe_path = ''cursor'', fe_message = ''expected a cursor returned by a previous page''\<rparr>]))"

definition decodeCursor :: "(string \<Rightarrow> int option) \<Rightarrow> string \<Rightarrow> exn + cursor" where
  "decodeCursor date_parse s =
    (let parts = split_on SEPARATOR (base64url_decode s);
         createdAt = (case parts of [] \<Rightarrow> [] | x # _ \<Rightarrow> x);
         i = (case parts of _ # y # _ \<Rightarrow> y | _ \<Rightarrow> [])
     in case date_parse createdAt of
          None \<Rightarrow> Inl malformed_cursor
        | Some t \<Rightarrow> if i = [] then Inl malformed_cursor else Inr \<lparr>cu_createdAt = t, cu_id = i\<rparr>)"

text \<open>The filter on a row's creation time and id.\<close>

definition olderThan :: "cursor \<Rightarrow> cursor \<Rightarrow> bool" where
  "olderThan c r \<longleftrightarrow>
    cu_createdAt r < cu_createdAt c \<or> (cu_createdAt r = cu_createdAt c \<and> cu_id r < cu_id c)"

definition has_more :: "'r list \<Rightarrow> nat \<Rightarrow> bool" where
  "has_more rows limit \<longleftrightarrow> limit < length rows"

definition paginate :: "(int \<Rightarrow> string) \<Rightarrow> ('r \<Rightarrow> cursor) \<Rightarrow> 'r list \<Rightarrow> nat \<Rightarrow> 'r list \<times> string option" where
  "paginate iso_text key rows limit =
    (let hasMore = has_more rows limit;
         page = (if hasMore then take limit rows else rows)
     in (page, if hasMore then Some (encodeCursor iso_text (key (page ! (length page - 1)))) else None))"

section \<open>Cursors\<close>

definition date_round_trip :: "(int \<Rightarrow> string) \<Rightarrow> (string \<Rightarrow> int option) \<Rightarrow> bool" where
  "date_round_trip iso_text date_parse \<longleftrightarrow> (\<forall>t. date_parse (iso_text t) = Some t \<and> SEPARATOR \<notin> set (iso_text t))"

lemma decode_encode_cursor:
  assumes "date_parse (iso_text (cu_createdAt c)) = Some (cu_createdAt c)" "SEPARATOR \<notin> set (iso_text (cu_createdAt c))"
    "cu_id c \<noteq> []" "SEPARATOR \<notin> set (cu_id c)"
  shows "decodeCursor date_parse (encodeCursor iso_text c) = Inr c"
  using assms
  by (simp add: decodeCursor_def encodeCursor_def base64url_round_trip split_on_append split_on_no_sep)

section \<open>Pages\<close>

text \<open>The database's order: newest first, ties by id, as \<open>ORDER BY createdAt DESC, id DESC\<close>.\<close>

definition sort_order :: "('r \<Rightarrow> cursor) \<Rightarrow> 'r \<Rightarrow> int \<times> string" where
  "sort_order key r = (cu_createdAt (key r), cu_id (key r))"

definition newest_first :: "('r \<Rightarrow> cursor) \<Rightarrow> 'r list \<Rightarrow> 'r list" where
  "newest_first key rows = rev (sort_key (sort_order key) rows)"

lemma olderThan_iff: "olderThan (key a) (key b) \<longleftrightarrow> sort_order key b < sort_order key a"
  by (auto simp: olderThan_def sort_order_def less_prod_def')

text \<open>One request: the rows that pass the filter and are older than the cursor, one more than fits.\<close>

definition page_rows :: "('r \<Rightarrow> cursor) \<Rightarrow> ('r \<Rightarrow> bool) \<Rightarrow> cursor option \<Rightarrow> nat \<Rightarrow> 'r list \<Rightarrow> 'r list" where
  "page_rows key p after limit rows =
    take (limit + 1) (newest_first key
      (filter (\<lambda>r. p r \<and> (case after of None \<Rightarrow> True | Some c \<Rightarrow> olderThan c (key r))) rows))"

text \<open>A caller that follows \<open>nextCursor\<close> until there is none.\<close>

fun walk :: "nat \<Rightarrow> ('r \<Rightarrow> cursor) \<Rightarrow> ('r \<Rightarrow> bool) \<Rightarrow> nat \<Rightarrow> 'r list \<Rightarrow> cursor option \<Rightarrow> 'r list option" where
  "walk 0 key p limit rows after = None"
| "walk (Suc fuel) key p limit rows after =
    (let got = page_rows key p after limit rows in
     if has_more got limit
     then map_option ((@) (take limit got))
            (walk fuel key p limit rows (Some (key (take limit got ! (limit - 1)))))
     else Some got)"

lemma newest_first_filter: "newest_first key (filter p rows) = filter p (newest_first key rows)"
  by (simp only: newest_first_def filter_sort[symmetric] rev_filter)

lemma newest_first_sorted:
  assumes "distinct (map (sort_order key) rows)"
  shows "sorted_wrt (\<lambda>a b. sort_order key b < sort_order key a) (newest_first key rows)"
proof -
  have d: "distinct (map (sort_order key) (sort_key (sort_order key) rows))"
    using assms by (simp add: distinct_map)
  have "sorted_wrt (<) (map (sort_order key) (sort_key (sort_order key) rows))"
    using d sorted_sort_key by (simp only: strict_sorted_iff simp_thms)
  then show ?thesis
    unfolding newest_first_def by (simp add: sorted_wrt_map sorted_wrt_rev)
qed

lemma filter_below_nth:
  assumes "sorted_wrt (\<lambda>a b. f b < f a) xs" "k < length xs"
  shows "filter (\<lambda>x. f x < (f (xs ! k) :: 'b :: linorder)) xs = drop (Suc k) xs"
  using assms
proof (induction xs arbitrary: k)
  case (Cons x xs)
  show ?case
  proof (cases k)
    case 0
    then show ?thesis using Cons.prems(1) by (auto intro!: filter_True)
  next
    case (Suc j)
    then have j: "j < length xs" "f (xs ! j) < f x" "\<not> f x < f (xs ! j)"
      using Cons.prems nth_mem[of j xs] by (auto simp: not_less less_imp_le)
    then show ?thesis using Cons.IH[OF _ j(1)] Cons.prems(1) Suc j by auto
  qed
qed simp

lemma page_rows_after_nth:
  assumes "distinct (map (sort_order key) (filter p rows))" "k < length (newest_first key (filter p rows))"
  shows "page_rows key p (Some (key (newest_first key (filter p rows) ! k))) limit rows =
    take (limit + 1) (drop (Suc k) (newest_first key (filter p rows)))"
proof -
  let ?L = "newest_first key (filter p rows)"
  have "newest_first key (filter (\<lambda>r. p r \<and> olderThan (key (?L ! k)) (key r)) rows) =
      newest_first key (filter (\<lambda>r. olderThan (key (?L ! k)) (key r)) (filter p rows))"
    by (simp add: conj_commute)
  also have "\<dots> = filter (\<lambda>r. sort_order key r < sort_order key (?L ! k)) ?L"
    unfolding olderThan_iff by (rule newest_first_filter)
  also have "\<dots> = drop (Suc k) ?L"
    using filter_below_nth[OF newest_first_sorted[OF assms(1)] assms(2)] by simp
  finally show ?thesis by (simp add: page_rows_def)
qed

lemma walk_from:
  assumes d: "distinct (map (sort_order key) (filter p rows))"
    and got: "page_rows key p after limit rows = take (limit + 1) (drop n (newest_first key (filter p rows)))"
    and fuel: "length (filter p rows) < fuel + n" and l: "0 < limit"
  shows "walk fuel key p limit rows after = Some (drop n (newest_first key (filter p rows))) \<or> (fuel = 0)"
  using got fuel
proof (induction fuel arbitrary: after n)
  case (Suc fuel)
  let ?L = "newest_first key (filter p rows)"
  have len: "length ?L = length (filter p rows)" by (simp add: newest_first_def)
  note got = Suc.prems(1)
  show ?case
  proof (cases "limit < length (drop n ?L)")
    case False
    then show ?thesis by (simp add: got has_more_def)
  next
    case True
    then have k: "n + (limit - 1) < length ?L" and kl: "n + limit < length ?L" using l by auto
    have "take limit (drop n ?L) ! (limit - 1) = ?L ! (n + (limit - 1))"
      using True l by simp
    moreover have "page_rows key p (Some (key (?L ! (n + (limit - 1))))) limit rows = take (limit + 1) (drop (n + limit) ?L)"
      using page_rows_after_nth[OF d k, of limit] l by simp
    ultimately have "walk fuel key p limit rows (Some (key (take limit (drop n ?L) ! (limit - 1)))) =
        Some (drop (n + limit) ?L) \<or> fuel = 0"
      using Suc.IH[of "Some (key (?L ! (n + (limit - 1))))" "n + limit"] Suc.prems(2) l by simp
    moreover have "fuel \<noteq> 0" using kl Suc.prems(2) len l by simp
    moreover have "drop n ?L = take limit (drop n ?L) @ drop (n + limit) ?L"
      by (metis append_take_drop_id drop_drop add.commute)
    ultimately show ?thesis using True by (simp add: got has_more_def min_def take_take)
  qed
qed simp

lemma walk_complete:
  assumes "distinct (map (sort_order key) (filter p rows))" "0 < limit" "length (filter p rows) < fuel"
  shows "walk fuel key p limit rows None = Some (newest_first key (filter p rows))"
  using walk_from[OF assms(1), of None limit 0 fuel] assms(2,3) by (auto simp: page_rows_def)

end
