(* ===== verification/Delivery_Service.thy ===== *)
theory Delivery_Service
  imports Keyset Publish_Service Alerts
begin

text \<open>
  \<open>src/backend/src/api/services/delivery-service.js\<close>: listing, reading, replaying and counting
  the deliveries of a project.
\<close>

definition status_text :: "delivery_status \<Rightarrow> string" where
  "status_text st =
    (case st of PENDING \<Rightarrow> ''PENDING'' | IN_FLIGHT \<Rightarrow> ''IN_FLIGHT'' | RETRYING \<Rightarrow> ''RETRYING''
     | SUCCEEDED \<Rightarrow> ''SUCCEEDED'' | FAILED_PERMANENTLY \<Rightarrow> ''FAILED_PERMANENTLY'' | SKIPPED \<Rightarrow> ''SKIPPED'')"

definition REPLAYABLE_LIST :: string where
  "REPLAYABLE_LIST = join '', '' (sort (map status_text REPLAYABLE_STATUSES))"

section \<open>Views\<close>

record delivery_view =
  dv_id :: string
  dv_eventId :: string
  dv_endpointId :: string
  dv_status :: delivery_status
  dv_attemptCount :: int
  dv_nextAttemptAt :: "int option"
  dv_lastError :: "string option"
  dv_replayedFromId :: "string option"
  dv_completedAt :: "int option"
  dv_createdAt :: int
  dv_event :: "(string \<times> int) option"

definition deliveryView :: "delivery \<Rightarrow> webhook_event option \<Rightarrow> delivery_view" where
  "deliveryView d ev =
    \<lparr>dv_id = d_id d, dv_eventId = d_eventId d, dv_endpointId = d_endpointId d, dv_status = d_status d,
     dv_attemptCount = d_attemptCount d, dv_nextAttemptAt = d_nextAttemptAt d, dv_lastError = d_lastError d,
     dv_replayedFromId = d_replayedFromId d, dv_completedAt = d_completedAt d, dv_createdAt = d_createdAt d,
     dv_event = map_option (\<lambda>v. (v_eventType v, v_receivedAt v)) ev\<rparr>"

record delivery_list_view =
  lv_delivery :: delivery_view
  lv_lastResponseStatus :: "int option"
  lv_lastDurationMs :: "int option"

text \<open>The attempts of a delivery by number; a list view includes the one with the highest.\<close>

definition attempts_of :: "world \<Rightarrow> string \<Rightarrow> delivery_attempt list" where
  "attempts_of w i = sort_key a_attemptNumber (filter (\<lambda>a. a_deliveryId a = i) (attempts w))"

definition deliveryListView :: "delivery \<Rightarrow> webhook_event option \<Rightarrow> delivery_attempt list \<Rightarrow> delivery_list_view" where
  "deliveryListView d ev recent =
    \<lparr>lv_delivery = deliveryView d ev,
     lv_lastResponseStatus = (case recent of [] \<Rightarrow> None | a # _ \<Rightarrow> a_responseStatus a),
     lv_lastDurationMs = (case recent of [] \<Rightarrow> None | a # _ \<Rightarrow> a_durationMs a)\<rparr>"

text \<open>\<open>attemptView\<close> copies every field of the attempt but the delivery's id.\<close>

record attempt_view =
  av_id :: string
  av_attemptNumber :: int
  av_responseStatus :: "int option"
  av_responseHeaders :: "(string \<times> string) list option"
  av_responseBodySnippet :: "string option"
  av_durationMs :: "int option"
  av_errorCode :: "string option"
  av_errorMessage :: "string option"
  av_startedAt :: int

definition attemptView :: "delivery_attempt \<Rightarrow> attempt_view" where
  "attemptView a =
    \<lparr>av_id = a_id a, av_attemptNumber = a_attemptNumber a, av_responseStatus = a_responseStatus a,
     av_responseHeaders = a_responseHeaders a, av_responseBodySnippet = a_responseBodySnippet a,
     av_durationMs = a_durationMs a, av_errorCode = a_errorCode a, av_errorMessage = a_errorMessage a,
     av_startedAt = a_startedAt a\<rparr>"

section \<open>Filters\<close>

record delivery_filters =
  df_status :: "delivery_status option"
  df_endpointId :: "string option"
  df_eventType :: "string option"
  df_from :: "int option"
  df_to :: "int option"

definition truthy :: "string option \<Rightarrow> bool" where
  "truthy s \<longleftrightarrow> s \<noteq> None \<and> s \<noteq> Some []"

definition event_matches :: "string \<Rightarrow> delivery_filters \<Rightarrow> webhook_event \<Rightarrow> bool" where
  "event_matches projectId f v \<longleftrightarrow>
    v_projectId v = projectId \<and>
    (truthy (df_eventType f) \<longrightarrow> df_eventType f = Some (v_eventType v)) \<and>
    (case df_from f of None \<Rightarrow> True | Some t \<Rightarrow> t \<le> v_receivedAt v) \<and>
    (case df_to f of None \<Rightarrow> True | Some t \<Rightarrow> v_receivedAt v \<le> t)"

definition filterWhere :: "string \<Rightarrow> delivery_filters \<Rightarrow> world \<Rightarrow> delivery \<Rightarrow> bool" where
  "filterWhere projectId f w d \<longleftrightarrow>
    (case get_event w (d_eventId d) of None \<Rightarrow> False | Some v \<Rightarrow> event_matches projectId f v) \<and>
    (case df_status f of None \<Rightarrow> True | Some st \<Rightarrow> d_status d = st) \<and>
    (truthy (df_endpointId f) \<longrightarrow> df_endpointId f = Some (d_endpointId d))"

definition delivery_key :: "delivery \<Rightarrow> cursor" where
  "delivery_key d = \<lparr>cu_createdAt = d_createdAt d, cu_id = d_id d\<rparr>"

section \<open>Operations\<close>

record service_deps =
  sv_publisher :: publisher
  sv_config :: config
  sv_iso :: "int \<Rightarrow> string"
  sv_dateParse :: "string \<Rightarrow> int option"

definition loadForCaller :: "string \<Rightarrow> auth_membership list \<Rightarrow> (delivery \<times> webhook_event) act" where
  "loadForCaller deliveryId auth =
    io_bind (query (\<lambda>w. case get_delivery w deliveryId of
        None \<Rightarrow> None | Some d \<Rightarrow> map_option (Pair d) (get_event w (d_eventId d)))) (\<lambda>found.
      (case found of
         None \<Rightarrow> io_raise (App (NotFoundError ''No such delivery''))
       | Some (d, v) \<Rightarrow>
           io_seq (lift (assertMembership auth (v_projectId v) MEMBER)) (io_ret (d, v))))"

definition cursor_of :: "service_deps \<Rightarrow> string option \<Rightarrow> exn + cursor option" where
  "cursor_of sv c =
    (if truthy c then (case decodeCursor (sv_dateParse sv) (the c) of Inl e \<Rightarrow> Inl e | Inr k \<Rightarrow> Inr (Some k))
     else Inr None)"

definition list_deliveries ::
  "service_deps \<Rightarrow> string \<Rightarrow> delivery_filters \<Rightarrow> string option \<Rightarrow> nat \<Rightarrow> (delivery_list_view list \<times> string option) act" where
  "list_deliveries sv projectId f cursor limit =
    io_bind (lift (cursor_of sv cursor)) (\<lambda>after.
    io_bind (query (\<lambda>w. map (\<lambda>d. (d, get_event w (d_eventId d), take 1 (rev (attempts_of w (d_id d)))))
        (page_rows delivery_key (filterWhere projectId f w) after limit (deliveries w)))) (\<lambda>rows.
      (case paginate (sv_iso sv) (delivery_key \<circ> fst) rows limit of
         (page, nextCursor) \<Rightarrow>
           io_ret (map (\<lambda>(d, ev, recent). deliveryListView d ev recent) page, nextCursor))))"

definition get_delivery_view ::
  "string \<Rightarrow> auth_membership list \<Rightarrow> (delivery_view \<times> json \<times> attempt_view list) act" where
  "get_delivery_view deliveryId auth =
    io_bind (loadForCaller deliveryId auth) (\<lambda>(d, v).
    io_bind (io_get (\<lambda>w. attempts_of w (d_id d))) (\<lambda>as.
      io_ret (deliveryView d (Some v), v_payload v, map attemptView as)))"

definition replay_conflict :: "delivery_status \<Rightarrow> exn" where
  "replay_conflict st = App (ConflictError
    (''A delivery in '' @ status_text st @ '' is still on its way out, so replaying it would only queue a duplicate; replay accepts ''
     @ REPLAYABLE_LIST))"

definition replay :: "service_deps \<Rightarrow> string \<Rightarrow> auth_membership list \<Rightarrow> delivery_view act" where
  "replay sv deliveryId auth =
    io_bind (loadForCaller deliveryId auth) (\<lambda>(original, v).
    if \<not> replayable (d_status original) then io_raise (replay_conflict (d_status original))
    else
      io_bind (fresh_id ''delivery'') (\<lambda>i.
      io_bind (commit [\<lambda>w. create_deliveries [new_delivery i (d_eventId original) (d_endpointId original)
                  PENDING (Some (d_id original)) (clock w)] w]
                (\<lambda>w. new_delivery i (d_eventId original) (d_endpointId original) PENDING (Some (d_id original)) (clock w)))
        (\<lambda>row.
      io_seq (publishDelivery (sv_publisher sv) (d_id row) 1)
      (io_ret (deliveryView row None)))))"

record bulk_replay =
  br_matched :: nat
  br_replayed :: nat
  br_cappedAt :: int
  br_deliveries :: "(string \<times> string) list"

definition bulk_limit :: "service_deps \<Rightarrow> int option \<Rightarrow> int" where
  "bulk_limit sv limit =
    min (case limit of None \<Rightarrow> cf_BULK_REPLAY_LIMIT (sv_config sv) | Some l \<Rightarrow> l) (cf_BULK_REPLAY_LIMIT (sv_config sv))"

definition draft_replay :: "delivery \<Rightarrow> (string \<times> delivery) act" where
  "draft_replay original = io_bind (fresh_id ''delivery'') (\<lambda>i. io_ret (i, original))"

definition bulkReplay ::
  "service_deps \<Rightarrow> string \<Rightarrow> delivery_filters \<Rightarrow> int option \<Rightarrow> bulk_replay act" where
  "bulkReplay sv projectId f limit =
    (let cap = bulk_limit sv limit in
     io_bind (query (\<lambda>w. take (nat cap) (newest_first delivery_key (filter (filterWhere projectId f w) (deliveries w)))))
       (\<lambda>originals.
     io_bind (io_mapM draft_replay (filter (\<lambda>d. replayable (d_status d)) originals)) (\<lambda>replays.
     io_seq (if replays = [] then io_ret ()
             else commit [\<lambda>w. create_deliveries (map (\<lambda>(i, o').
                  new_delivery i (d_eventId o') (d_endpointId o') PENDING (Some (d_id o')) (clock w)) replays) w] (\<lambda>_. ()))
     (io_seq (io_each (\<lambda>(i, _). publishDelivery (sv_publisher sv) i 1) replays)
     (io_ret \<lparr>br_matched = length originals, br_replayed = length replays, br_cappedAt = cap,
              br_deliveries = map (\<lambda>(i, o'). (i, d_id o')) replays\<rparr>)))))"

record delivery_stats =
  ds_byStatus :: "(delivery_status \<times> nat) list"
  ds_total :: nat
  ds_attempts :: nat
  ds_averageMs :: "int option"
  ds_slowestMs :: "int option"

definition in_project :: "world \<Rightarrow> string \<Rightarrow> string \<Rightarrow> bool" where
  "in_project w projectId eventId \<longleftrightarrow>
    (case get_event w eventId of None \<Rightarrow> False | Some v \<Rightarrow> v_projectId v = projectId)"

definition group_statuses :: "delivery list \<Rightarrow> (delivery_status \<times> nat) list" where
  "group_statuses ds =
    map (\<lambda>st. (st, length (filter (\<lambda>d. d_status d = st) ds))) (remdups (map d_status ds))"

definition measured_attempts :: "world \<Rightarrow> string \<Rightarrow> int list" where
  "measured_attempts w projectId =
    List.map_filter (\<lambda>a. case get_delivery w (a_deliveryId a) of
        None \<Rightarrow> None | Some d \<Rightarrow> if in_project w projectId (d_eventId d) then a_durationMs a else None) (attempts w)"

definition average :: "int list \<Rightarrow> rat option" where
  "average xs = (if xs = [] then None else Some (of_int (sum_list xs) / of_nat (length xs)))"

definition stats :: "string \<Rightarrow> delivery_stats act" where
  "stats projectId =
    io_bind (query (\<lambda>w. group_statuses (filter (\<lambda>d. in_project w projectId (d_eventId d)) (deliveries w)))) (\<lambda>byStatus.
    io_bind (query (\<lambda>w. measured_attempts w projectId)) (\<lambda>latency.
      io_ret \<lparr>ds_byStatus = byStatus, ds_total = sum_list (map snd byStatus), ds_attempts = length latency,
              ds_averageMs = map_option js_round (average latency),
              ds_slowestMs = (if latency = [] then None else Some (Max (set latency)))\<rparr>))"

section \<open>Facts\<close>

lemma group_statuses_total: "sum_list (map snd (group_statuses ds)) = length ds"
proof -
  have "sum_list (map (\<lambda>st. length (filter (\<lambda>d. d_status d = st) ds)) xs) = length (filter (\<lambda>d. d_status d \<in> set xs) ds)"
    if "distinct xs" for xs
    using that
  proof (induction xs)
    case (Cons x xs)
    have "length (filter (\<lambda>d. d_status d = x) ds) + length (filter (\<lambda>d. d_status d \<in> set xs) ds) =
        length (filter (\<lambda>d. d_status d \<in> set (x # xs)) ds)"
      using Cons.prems by (induction ds) auto
    with Cons show ?case by simp
  qed simp
  from this[of "remdups (map d_status ds)"] show ?thesis
    by (simp add: group_statuses_def comp_def)
qed

lemma page_rows_pop [simp]: "page_rows key (filterWhere p f (pop_fault w)) = page_rows key (filterWhere p f w)"
proof -
  have "filterWhere p f (pop_fault w) = filterWhere p f w" by (rule ext) (simp add: filterWhere_def)
  then show ?thesis by simp
qed

text \<open>What a page contains belongs to the project and passes the filter.\<close>

lemma page_rows_sub:
  "set (page_rows key p after limit rows) \<subseteq> {r \<in> set rows. p r \<and> (case after of None \<Rightarrow> True | Some c \<Rightarrow> olderThan c (key r))}"
  using set_take_subset by (fastforce simp: page_rows_def newest_first_def)

lemma wp_loadForCaller:
  assumes "\<And>d v m. get_delivery w i = Some d \<Longrightarrow> get_event w (d_eventId d) = Some v \<Longrightarrow>
      assertMembership auth (v_projectId v) MEMBER = Inr m \<Longrightarrow> Q (d, v) (pop_fault w)"
    and "\<And>e. E e (pop_fault w)"
  shows "wp (loadForCaller i auth) Q E w"
  using assms by (auto simp: loadForCaller_def wp_simps split: fault.split option.split sum.split)

text \<open>A replay adds one row and, unless something rejects, one message; it never touches the original.\<close>

definition replayed :: "publisher \<Rightarrow> delivery \<Rightarrow> bool \<Rightarrow> world \<Rightarrow> world \<Rightarrow> bool" where
  "replayed pb original msg w w' \<longleftrightarrow>
    (\<exists>i t. deliveries w' = deliveries w @ [new_delivery i (d_eventId original) (d_endpointId original) PENDING (Some (d_id original)) t] \<and>
       get_delivery w i = None \<and>
       published w' = published w @ (if msg then [first_message pb i] else [])) \<and>
    attempts w' = attempts w \<and> events w' = events w \<and> endpoints w' = endpoints w"

lemma new_delivery_simps [simp]:
  "d_id (new_delivery i e k st r t) = i" "d_eventId (new_delivery i e k st r t) = e"
  "d_endpointId (new_delivery i e k st r t) = k" "d_status (new_delivery i e k st r t) = st"
  "d_attemptCount (new_delivery i e k st r t) = 0" "d_replayedFromId (new_delivery i e k st r t) = r"
  by (simp_all add: new_delivery_def)

lemma create_one:
  "transaction [\<lambda>w. create_deliveries [f w] w] w =
    (if get_delivery w (d_id (f w)) = None then Inr (w\<lparr>deliveries := deliveries w @ [f w]\<rparr>) else Inl unique_violation)"
  by (simp add: create_deliveries_def)

lemma replay_wp:
  "wp (replay sv i auth)
    (\<lambda>r w'. \<exists>d v m. get_delivery w i = Some d \<and> get_event w (d_eventId d) = Some v \<and>
       assertMembership auth (v_projectId v) MEMBER = Inr m \<and> replayable (d_status d) \<and>
       replayed (sv_publisher sv) d True w w' \<and> dv_replayedFromId r = Some i)
    (\<lambda>_ w'. same_rows w w' \<or>
       (\<exists>d msg. get_delivery w i = Some d \<and> replayable (d_status d) \<and> replayed (sv_publisher sv) d msg w w')) w"
  (is "wp _ ?Q ?E w")
  unfolding replay_def wp_bind
proof (rule wp_loadForCaller)
  fix d v m
  assume d: "get_delivery w i = Some d" "get_event w (d_eventId d) = Some v" "assertMembership auth (v_projectId v) MEMBER = Inr m"
  have i: "d_id d = i" using d(1) by (rule dlv.get_key)
  let ?pb = "sv_publisher sv"
  have new: "newId s ''delivery'' = Inr (''dlv_'' @ s)" for s
    by (simp add: newId_def prefixFor_def ID_PREFIXES_def)
  show "wp (case (d, v) of (original, v) \<Rightarrow>
      if \<not> replayable (d_status original) then io_raise (replay_conflict (d_status original))
      else io_bind (fresh_id ''delivery'') (\<lambda>i.
        io_bind (commit [\<lambda>w. create_deliveries [new_delivery i (d_eventId original) (d_endpointId original)
                  PENDING (Some (d_id original)) (clock w)] w]
                (\<lambda>w. new_delivery i (d_eventId original) (d_endpointId original) PENDING (Some (d_id original)) (clock w)))
        (\<lambda>row. io_seq (publishDelivery (sv_publisher sv) (d_id row) 1) (io_ret (deliveryView row None))))) ?Q ?E (pop_fault w)"
  proof (cases "replayable (d_status d)")
    case False
    then show ?thesis by (simp add: wp_raise same_rows_def)
  next
    case True
    let ?w1 = "(pop_fault w)\<lparr>fresh := Suc (fresh w)\<rparr>"
    let ?i = "''dlv_'' @ suffixes w (fresh w)"
    let ?row = "new_delivery ?i (d_eventId d) (d_endpointId d) PENDING (Some (d_id d)) (clock w)"
    let ?w2 = "(pop_fault ?w1)\<lparr>deliveries := deliveries w @ [?row]\<rparr>"
    have r: "replayed ?pb d msg w w'" if "get_delivery w ?i = None" "rows_same ?w2 w'"
      "published w' = published w @ (if msg then [first_message ?pb ?i] else [])" for msg and w' :: world
      using that unfolding replayed_def rows_same_def by auto
    have pub: "wp (publishDelivery ?pb (d_id ?row) 1) (\<lambda>_ w'. wp (io_ret (deliveryView ?row None)) ?Q ?E w') ?E ?w2"
      if nn: "get_delivery w ?i = None"
    proof (rule wp_publish_main)
      fix w' :: world
      assume p: "published w' = published ?w2 @ [main_message ?pb (d_id ?row) 1]" and s: "rows_same ?w2 w'"
      have "replayed ?pb d True w w'" by (rule r[OF nn s]) (use p in \<open>simp add: first_message_main\<close>)
      then show "wp (io_ret (deliveryView ?row None)) ?Q ?E w'"
        using d True by (auto simp: wp_ret deliveryView_def i)
    next
      fix e and w' :: world
      assume p: "published w' = published ?w2 \<or> (published w' = published ?w2 @ [main_message ?pb (d_id ?row) 1] \<and> (1::int) \<le> 1)"
        and s: "rows_same ?w2 w'"
      then have "replayed ?pb d False w w' \<or> replayed ?pb d True w w'"
        using r[OF nn s, of False] r[OF nn s, of True] by (auto simp: first_message_main)
      then show "?E e w'" using d(1) True by blast
    qed
    have committed: "replayed ?pb d False w ?w2" if "get_delivery w ?i = None"
      by (rule r[OF that]) (simp_all add: rows_same_def)
    have same: "same_rows w (pop_fault ?w1)" by (simp add: same_rows_def)
    have bad: "?E e (pop_fault ?w1)" for e using same by blast
    have comm: "?E e ?w2" if "get_delivery w ?i = None" for e using committed[OF that] d(1) True by blast
    show ?thesis
      using pub bad comm True
      by (simp add: wp_bind[of "fresh_id _"] wp_fresh_id new wp_bind[of "commit _ _"] wp_commit create_one wp_seq
          del: transaction.simps split: fault.split)
  qed
next
  show "?E e (pop_fault w)" for e by (simp add: same_rows_def)
qed

section \<open>Bulk replay\<close>

definition replay_rows :: "(string \<times> delivery) list \<Rightarrow> int \<Rightarrow> delivery list" where
  "replay_rows rs t = map (\<lambda>(i, d).
     new_delivery i (d_eventId d) (d_endpointId d) PENDING (Some (d_id d)) t) rs"

definition bulk_replayed :: "publisher \<Rightarrow> delivery list \<Rightarrow> (string \<times> delivery) list \<Rightarrow> nat \<Rightarrow> world \<Rightarrow> world \<Rightarrow> bool" where
  "bulk_replayed pb originals rs k w w' \<longleftrightarrow>
    map snd rs = filter (\<lambda>d. replayable (d_status d)) originals \<and>
    (\<exists>t. deliveries w' = deliveries w @ replay_rows rs t) \<and>
    distinct (map fst rs) \<and> list_all (\<lambda>r. get_delivery w (fst r) = None) rs \<and>
    published w' = published w @ take k (map (first_message pb \<circ> fst) rs) \<and>
    events w' = events w \<and> attempts w' = attempts w \<and> endpoints w' = endpoints w"

lemma wp_draft_replay:
  "wp (draft_replay d) Q E w = Q (''dlv_'' @ suffixes w (fresh w), d) (w\<lparr>fresh := Suc (fresh w)\<rparr>)"
  by (simp add: draft_replay_def wp_simps newId_def prefixFor_def ID_PREFIXES_def)

definition tables_eq :: "world \<Rightarrow> world \<Rightarrow> bool" where
  "tables_eq w w' \<longleftrightarrow> rows_same w w' \<and> published w' = published w"

lemma wp_draft_replays:
  assumes "\<And>rs w'. tables_eq w w' \<Longrightarrow> map snd rs = ds \<Longrightarrow> Q rs w'"
  shows "wp (io_mapM draft_replay ds) Q E w"
  using assms
proof (induction ds arbitrary: w Q)
  case Nil
  then show ?case by (simp add: wp_ret tables_eq_def rows_same_def)
next
  case (Cons d ds)
  show ?case
    unfolding io_mapM.simps wp_bind wp_ret wp_draft_replay
    by (rule Cons.IH, rule Cons.prems) (simp_all add: tables_eq_def rows_same_def)
qed

lemma bulk_replayed_frame:
  "bulk_replayed pb os rs k w v \<Longrightarrow> rows_same v v' \<Longrightarrow> published v' = published v \<Longrightarrow> bulk_replayed pb os rs k w v'"
  by (simp add: bulk_replayed_def rows_same_def)

lemma wp_bulk_publish:
  assumes "bulk_replayed pb os rs 0 w v"
  shows "wp (io_each (\<lambda>(i, _). publishDelivery pb i 1) rs)
    (\<lambda>_ w'. bulk_replayed pb os rs (length rs) w w') (\<lambda>_ w'. \<exists>k. bulk_replayed pb os rs k w w') v"
proof (rule wp_each_inv[where I = "\<lambda>pre w'. bulk_replayed pb os rs (length pre) w w'"])
  fix pre x rest and v :: world
  assume sp: "rs = pre @ x # rest" and f: "bulk_replayed pb os rs (length pre) w v"
  have nxt: "bulk_replayed pb os rs (Suc (length pre)) w v'"
    if "published v' = published v @ [first_message pb (fst x)]" "rows_same v v'" for v' :: world
    using f that by (simp add: bulk_replayed_def rows_same_def sp take_Suc_conv_app_nth)
  show "wp (case x of (i, uu_) \<Rightarrow> publishDelivery pb i 1) (\<lambda>_. bulk_replayed pb os rs (length (pre @ [x])) w)
      (\<lambda>_ w'. \<exists>k. bulk_replayed pb os rs k w w') v"
  proof (cases x)
    case (Pair i d)
    show ?thesis unfolding Pair prod.case
    proof (rule wp_publish_main)
      fix e and v' :: world
      assume "published v' = published v \<or> (published v' = published v @ [main_message pb i 1] \<and> (1::int) \<le> 1)" "rows_same v v'"
      then show "\<exists>k. bulk_replayed pb os rs k w v'"
        using nxt bulk_replayed_frame[OF f] by (auto simp: first_message_main Pair)
    qed (use nxt Pair in \<open>simp add: first_message_main\<close>)
  qed
qed (use assms in auto)

lemma bulkReplay_wp:
  "wp (bulkReplay sv projectId f limit)
    (\<lambda>r w'. \<exists>os rs. bulk_replayed (sv_publisher sv) os rs (length rs) w w' \<and>
       os = take (nat (bulk_limit sv limit)) (newest_first delivery_key (filter (filterWhere projectId f w) (deliveries w))) \<and>
       br_matched r = length os \<and> br_replayed r = length rs \<and> br_cappedAt r = bulk_limit sv limit)
    (\<lambda>_ w'. tables_eq w w' \<or> (\<exists>os rs k. bulk_replayed (sv_publisher sv) os rs k w w' \<and>
       os = take (nat (bulk_limit sv limit)) (newest_first delivery_key (filter (filterWhere projectId f w) (deliveries w))))) w"
  (is "wp _ ?Q ?E w")
proof -
  let ?cap = "bulk_limit sv limit" and ?pb = "sv_publisher sv"
  let ?os = "take (nat ?cap) (newest_first delivery_key (filter (filterWhere projectId f w) (deliveries w)))"
  have fw: "filterWhere projectId f (pop_fault w) = filterWhere projectId f w"
    by (rule ext) (simp add: filterWhere_def)
  have te: "tables_eq w (pop_fault w)" by (simp add: tables_eq_def rows_same_def)
  have ids: "get_delivery v i = get_delivery w i" if "tables_eq w v" for v i
    using that by (simp add: tables_eq_def rows_same_def get_delivery_def)
  have pubs: "wp (io_seq (io_each (\<lambda>(i, _). publishDelivery ?pb i 1) rs)
        (io_ret \<lparr>br_matched = length ?os, br_replayed = length rs, br_cappedAt = ?cap,
              br_deliveries = map (\<lambda>(i, o'). (i, d_id o')) rs\<rparr>)) ?Q ?E v"
    if "bulk_replayed ?pb ?os rs 0 w v" for rs v
    unfolding wp_seq wp_ret by (rule wp_mono[OF wp_bulk_publish[OF that]]) auto
  have drafted: "wp (io_seq (if rs = [] then io_ret ()
             else commit [\<lambda>w. create_deliveries (map (\<lambda>(i, o').
                  new_delivery i (d_eventId o') (d_endpointId o') PENDING (Some (d_id o')) (clock w)) rs) w] (\<lambda>_. ()))
     (io_seq (io_each (\<lambda>(i, _). publishDelivery ?pb i 1) rs)
     (io_ret \<lparr>br_matched = length ?os, br_replayed = length rs, br_cappedAt = ?cap,
              br_deliveries = map (\<lambda>(i, o'). (i, d_id o')) rs\<rparr>))) ?Q ?E v"
    if v: "tables_eq w v" and rs: "map snd rs = filter (\<lambda>d. replayable (d_status d)) ?os" for rs v
  proof (cases "rs = []")
    case True
    then have "bulk_replayed ?pb ?os rs 0 w v"
      using v rs by (simp add: bulk_replayed_def tables_eq_def rows_same_def replay_rows_def)
    from pubs[OF this] True show ?thesis by (simp add: wp_seq[of "io_ret ()"] wp_ret)
  next
    case False
    let ?new = "replay_rows rs (clock v)"
    have mids: "map d_id ?new = map fst rs" by (auto simp: replay_rows_def)
    have done': "bulk_replayed ?pb ?os rs 0 w v'"
      if "transaction [\<lambda>w. create_deliveries (replay_rows rs (clock w)) w] (pop_fault v) = Inr v'" for v'
    proof -
      have "distinct (map d_id ?new)" "\<forall>d \<in> set ?new. get_delivery v (d_id d) = None"
        "v' = (pop_fault v)\<lparr>deliveries := deliveries v @ ?new\<rparr>"
        using that by (auto simp: create_deliveries_def split: if_splits)
      moreover have "list_all (\<lambda>r. get_delivery w (fst r) = None) rs"
        using calculation(2) ids[OF v] by (force simp: list_all_iff replay_rows_def)
      ultimately show ?thesis
        using v rs mids by (auto simp: bulk_replayed_def tables_eq_def rows_same_def)
    qed
    have bad: "?E e (pop_fault v)" for e using v by (simp add: tables_eq_def rows_same_def)
    have bad2: "?E e v'" if "bulk_replayed ?pb ?os rs 0 w v'" for e v' using that by blast
    show ?thesis
      unfolding if_not_P[OF False] replay_rows_def[symmetric] wp_seq[of "commit _ _"] wp_commit
      using done' pubs bad bad2 by (simp del: transaction.simps split: fault.split sum.split)
  qed
  show ?thesis
    unfolding bulkReplay_def Let_def wp_bind wp_query fw pop_fault_fields
    using te wp_draft_replays[OF drafted]
    by (auto simp: tables_eq_def rows_same_def split: fault.split)
qed

end
