(* ===== verification/System.thy ===== *)
theory System
  imports Worker Delivery_Service Retention
begin

text \<open>
  The processes together: the API accepts events and replays, workers handle messages, the jobs
  sweep and delete.  A step is one operation of one process on the shared world, with whatever
  faults its awaited calls meet; a message the broker has taken may be handled any number of
  times and in any order.  The invariants are the integrity of the tables and the bound on attempts.
\<close>

section \<open>Integrity of the tables\<close>

definition keyed :: "world \<Rightarrow> bool" where
  "keyed w \<longleftrightarrow>
    distinct (map d_id (deliveries w)) \<and> distinct (map v_id (events w)) \<and>
    d_eventId ` set (deliveries w) \<subseteq> v_id ` set (events w) \<and>
    a_deliveryId ` set (attempts w) \<subseteq> d_id ` set (deliveries w)"

text \<open>The ladder: nobody is beyond the limit, and only a finished delivery is at it.\<close>

definition row_ok :: "int \<Rightarrow> delivery \<Rightarrow> bool" where
  "row_ok M d \<longleftrightarrow> 0 \<le> d_attemptCount d \<and> d_attemptCount d \<le> M \<and>
    (terminal (d_status d) \<or> d_attemptCount d < M)"

definition message_ok :: "int \<Rightarrow> publication \<Rightarrow> bool" where
  "message_ok M p \<longleftrightarrow> 1 \<le> mb_attempt (pub_body p) \<and> mb_attempt (pub_body p) \<le> M"

definition attempt_ok :: "int \<Rightarrow> delivery_attempt \<Rightarrow> bool" where
  "attempt_ok M a \<longleftrightarrow> 1 \<le> a_attemptNumber a \<and> a_attemptNumber a \<le> M"

definition on_ladder :: "int \<Rightarrow> world \<Rightarrow> bool" where
  "on_ladder M w \<longleftrightarrow>
    list_all (row_ok M) (deliveries w) \<and> list_all (message_ok M) (published w) \<and> list_all (attempt_ok M) (attempts w)"

definition sound :: "int \<Rightarrow> world \<Rightarrow> bool" where
  "sound M w \<longleftrightarrow> keyed w \<and> on_ladder M w"

lemmas sound_defs = sound_def keyed_def on_ladder_def

text \<open>Only four tables and the broker's log matter.\<close>

lemma sound_cong:
  assumes "deliveries w' = deliveries w" "events w' = events w" "attempts w' = attempts w" "published w' = published w"
  shows "sound M w' = sound M w"
  unfolding sound_defs assms ..

lemma sound_same_rows: "same_rows w w' \<Longrightarrow> sound M w' = sound M w"
  by (rule sound_cong) (simp_all add: same_rows_def)

lemma keeps_sound: "keeps same_rows m \<Longrightarrow> preserves (sound M) m"
  unfolding keeps_def preserves_def using sound_same_rows by blast

lemma sound_simps [simp]:
  "sound M (pop_fault w) = sound M w" "sound M (upd_endpoint k h w) = sound M w"
  "sound M (w\<lparr>fresh := x1\<rparr>) = sound M w" "sound M (w\<lparr>buckets := x2\<rparr>) = sound M w"
  by (rule sound_cong; simp)+

lemma sound_message:
  assumes "sound M w" "message_ok M p" "published w' = published w @ [p]"
    "deliveries w' = deliveries w" "events w' = events w" "attempts w' = attempts w"
  shows "sound M w'"
  using assms(1,2) unfolding sound_defs assms(3-6) by simp

section \<open>The delivery handler\<close>

lemma preserves_effect: "(\<And>w. I w \<Longrightarrow> I (f (pop_fault w))) \<Longrightarrow> I = sound M \<Longrightarrow> preserves I (effect f)"
  by (auto simp: preserves_def effect_def split: fault.split)

lemma preserves_publish:
  assumes "1 \<le> mb_attempt m" "mb_attempt m \<le> M"
  shows "preserves (sound M) (publish ex key m expiration)"
  unfolding publish_def
  by (rule preserves_effect[OF _ refl], rule sound_message) (use assms in \<open>auto simp: message_ok_def\<close>)

lemma preserves_lift [intro]: "preserves I (lift r)"
  by (cases r) (auto simp: lift_def)

lemma messageFor_InrD: "messageFor i n = Inr m \<Longrightarrow> mb_attempt m = n \<and> 1 \<le> n"
  by (auto simp: messageFor_def split: sum.splits if_splits)

lemma preserves_lift_bind:
  "(\<And>a. r = Inr a \<Longrightarrow> preserves I (f a)) \<Longrightarrow> preserves I (io_bind (lift r) f)"
  by (cases r) (auto simp: lift_def io_defs preserves_def)

lemma preserves_publishers:
  assumes "n \<le> M"
  shows "preserves (sound M) (publishDelivery pb i n)" "preserves (sound M) (publishRetry pb i n l)"
    "preserves (sound M) (publishThrottle pb i n)" "preserves (sound M) (publishDeadLetter pb i n)"
  unfolding publishDelivery_def publishRetry_def publishThrottle_def publishDeadLetter_def
  by (intro preserves_lift_bind preserves_publish; use assms in \<open>auto dest: messageFor_InrD\<close>)+

text \<open>Rewriting the rows of one delivery.\<close>

lemma sound_rewrite:
  assumes s: "sound M w" and f: "\<And>d. d_id (f d) = d_id d" "\<And>d. d_eventId (f d) = d_eventId d"
    and ok: "\<And>d. d \<in> set (deliveries w) \<Longrightarrow> p d \<Longrightarrow> row_ok M (f d)"
    and w': "deliveries w' = update_where p f (deliveries w)" "events w' = events w" "published w' = published w"
      "attempts w' = attempts w"
  shows "sound M w'"
proof -
  have ids: "map d_id (deliveries w') = map d_id (deliveries w)"
    "map d_eventId (deliveries w') = map d_eventId (deliveries w)"
    using f by (auto simp: w' update_where_def)
  then have "d_id ` set (deliveries w') = d_id ` set (deliveries w)"
    "d_eventId ` set (deliveries w') = d_eventId ` set (deliveries w)" by (metis set_map)+
  moreover have "list_all (row_ok M) (deliveries w')"
    using s ok by (auto simp: w' update_where_def sound_defs list_all_iff)
  ultimately show ?thesis using s ids(1) unfolding sound_defs w'(2-4) by simp
qed

lemma sound_attempt:
  assumes "sound M w" "a_deliveryId a \<in> d_id ` set (deliveries w)" "attempt_ok M a"
  shows "sound M (add_attempt a w)"
  using assms unfolding sound_defs by simp

lemma get_delivery_mem: "get_delivery w i = Some d \<Longrightarrow> d \<in> set (deliveries w) \<and> d_id d = i"
  by (auto simp: get_delivery_def dest: find_by_SomeD)

text \<open>The commits of the handler: an attempt and the new row, then perhaps the endpoint's counter.\<close>

definition finishes :: "int \<Rightarrow> int \<Rightarrow> (delivery \<Rightarrow> delivery) \<Rightarrow> bool" where
  "finishes M n f \<longleftrightarrow> 1 \<le> n \<and> n \<le> M \<and>
    (\<forall>d. d_id (f d) = d_id d \<and> d_eventId (f d) = d_eventId d \<and> d_attemptCount (f d) = n \<and>
      (terminal (d_status (f d)) \<or> n < M))"

lemma sound_attempt_commit:
  assumes s: "sound M w" and f: "finishes M n f"
    and t: "transaction ([create_attempt_row aid i n r, update_delivery i f] @ eps) w = Inr w'"
    and eps: "eps = [] \<or> (\<exists>k h. eps = [update_endpoint k h])"
  shows "sound M w'"
proof -
  let ?a = "attemptRow aid i n r (clock w)"
  obtain d where d: "get_delivery w i = Some d"
    using t by (cases "get_delivery w i") (auto simp: create_attempt_row_def create_attempt_def update_delivery_def)
  have w1: "sound M (add_attempt ?a w)"
    using s f get_delivery_mem[OF d]
    by (intro sound_attempt) (auto simp: attemptRow_def attempt_ok_def finishes_def)
  have w2: "sound M (upd_delivery i f (add_attempt ?a w))"
    by (rule sound_rewrite[OF w1, where p = "\<lambda>d. d_id d = i" and f = f])
       (use f in \<open>auto simp: finishes_def row_ok_def upd_delivery_def\<close>)
  show ?thesis
    using eps t w2
    by (auto simp: create_attempt_row_def create_attempt_def update_delivery_def update_endpoint_def d
        split: option.splits)
qed

lemma preserves_attempt_commit:
  assumes "finishes M n f" "eps = [] \<or> (\<exists>k h. eps = [update_endpoint k h])"
  shows "preserves (sound M) (commit ([create_attempt_row aid i n r, update_delivery i f] @ eps) g)"
proof (rule preservesI)
  fix w assume "sound M w"
  then have s: "sound M (pop_fault w)" by simp
  show "wp (commit ([create_attempt_row aid i n r, update_delivery i f] @ eps) g) (\<lambda>_. sound M) (\<lambda>_. sound M) w"
    unfolding wp_commit
    using s sound_attempt_commit[OF s assms(1) _ assms(2)]
    by (simp del: transaction.simps append_Cons split: fault.split sum.split)
qed

lemma preserves_fresh_id: "preserves (sound M) (fresh_id k)"
  by (simp add: preserves_def fresh_id_def)

lemmas sound_intros =
  preserves_bind preserves_seq preserves_catch preserves_pure preserves_lift preserves_fresh_id
  preserves_publishers keeps_sound[OF emit_side(1)] keeps_sound[OF notify_side(1)]
  keeps_sound[OF keeps_same_rows(1)] keeps_sound[OF keeps_same_rows(2)] keeps_sound[OF keeps_same_rows(3)]

lemma preserves_finaliseSuccess:
  assumes "1 \<le> n" "n \<le> M"
  shows "preserves (sound M) (finaliseSuccess dl ev n r t)"
proof -
  have "preserves (sound M) (commit ([create_attempt_row aid i n r, update_delivery i f] @ [update_endpoint k h]) g)"
    if "finishes M n f" for aid i f k h and g :: "world \<Rightarrow> unit"
    by (rule preserves_attempt_commit[OF that]) blast
  then show ?thesis
    unfolding finaliseSuccess_def append_Cons append_Nil
    by (intro sound_intros) (use assms in \<open>simp add: finishes_def\<close>)
qed

lemma preserves_finaliseRetry:
  assumes "1 \<le> n" "n < M"
  shows "preserves (sound M) (finaliseRetry hn dl ev n r l t)"
proof -
  have "preserves (sound M) (commit ([create_attempt_row aid i n r, update_delivery i f] @ []) g)"
    if "finishes M n f" for aid i f and g :: "world \<Rightarrow> unit"
    by (rule preserves_attempt_commit[OF that]) simp
  then show ?thesis
    unfolding finaliseRetry_def Let_def append_Cons append_Nil
    by (intro sound_intros) (use assms in \<open>auto simp: finishes_def\<close>)
qed

lemma preserves_disable: "preserves (sound M) (effect_ret (disable_if_over k th))"
proof -
  have "sound M (snd (disable_if_over k th w)) = sound M w" for w
    by (rule sound_cong) (simp_all add: disable_if_over_def Let_def)
  then show ?thesis by (auto simp: preserves_def effect_ret_def split: fault.split)
qed

lemma preserves_finaliseFailure:
  assumes "1 \<le> n" "n \<le> M"
  shows "preserves (sound M) (finaliseFailure hn dl ev ep n r reason t)"
proof -
  have "preserves (sound M) (commit ([create_attempt_row aid i n r, update_delivery i f] @ [update_endpoint k h]) g)"
    if "finishes M n f" for aid i f k h and g :: "world \<Rightarrow> int"
    by (rule preserves_attempt_commit[OF that]) blast
  moreover have "preserves (sound M) (announce_disable hn ev ep failures t count)" for failures count
    unfolding announce_disable_def by (auto intro!: sound_intros)
  ultimately show ?thesis
    unfolding finaliseFailure_def append_Cons append_Nil
    by (intro sound_intros preserves_disable) (use assms in \<open>auto simp: finishes_def\<close>)
qed

lemma preserves_attempt_delivery:
  assumes "1 \<le> n" "n \<le> cf_MAX_ATTEMPTS (hd_config hn)"
  shows "preserves (sound (cf_MAX_ATTEMPTS (hd_config hn))) (attempt_delivery hn dl ev ep n)"
proof -
  let ?M = "cf_MAX_ATTEMPTS (hd_config hn)"
  have lt: "nextRetryLevel hn c n ra = Some l \<Longrightarrow> n < ?M" for c ra l
    using nextRetryLevel_SomeD by blast
  have ra: "preserves (sound ?M) (retryAfterSeconds p hs)" for p hs
    unfolding retryAfterSeconds_def by (auto intro!: sound_intros split: option.split)
  have "preserves (sound ?M) (handle_rejected hn dl ev ep n e)" for e
    unfolding handle_rejected_def Let_def
    by (auto intro!: sound_intros preserves_finaliseRetry preserves_finaliseFailure assms dest: lt split: option.split)
  moreover have "preserves (sound ?M) (handle_response hn dl ev ep n r)" for r
    unfolding handle_response_def Let_def
    by (auto intro!: sound_intros ra preserves_finaliseRetry preserves_finaliseFailure preserves_finaliseSuccess assms
        dest: lt split: option.split)
  ultimately show ?thesis
    unfolding attempt_delivery_def Let_def by (auto intro!: sound_intros split: sum.split)
qed

lemma sound_unique:
  assumes "sound M w" "get_delivery w i = Some d" "d' \<in> set (deliveries w)" "d_id d' = i"
  shows "d' = d"
  using assms get_delivery_mem[OF assms(2)] by (auto simp: sound_defs distinct_map inj_on_def)

lemma sound_row: "sound M w \<Longrightarrow> d \<in> set (deliveries w) \<Longrightarrow> row_ok M d"
  by (auto simp: sound_defs list_all_iff)

lemma wp_commit_update:
  assumes s: "sound M w" and d: "get_delivery w i = Some d"
    and f: "\<And>d. d_id (f d) = d_id d" "\<And>d. d_eventId (f d) = d_eventId d" "row_ok M (f d)"
    and q: "\<And>a w'. sound M w' \<Longrightarrow> Q a w'"
  shows "wp (commit [update_delivery i f] g) Q (\<lambda>_. sound M) w"
proof -
  have "sound M (upd_delivery i f (pop_fault w))"
    by (rule sound_rewrite[of M "pop_fault w" f "\<lambda>d. d_id d = i"])
       (use s d f sound_unique[OF s d] in \<open>auto simp: upd_delivery_def\<close>)
  with s q d show ?thesis by (simp add: wp_commit update_delivery_def split: fault.split)
qed

lemma preserves_handleDelivery:
  assumes n: "1 \<le> n" "n \<le> cf_MAX_ATTEMPTS (hd_config hn)"
  shows "preserves (sound (cf_MAX_ATTEMPTS (hd_config hn))) (handleDelivery hn i n)"
proof (rule preservesI)
  let ?M = "cf_MAX_ATTEMPTS (hd_config hn)"
  fix w assume s: "sound ?M w"
  have main: "wp (handle_loaded hn dl ev ep n) (\<lambda>_. sound ?M) (\<lambda>_. sound ?M) (pop_fault w)"
    if l: "load_delivery i w = Some (dl, ev, ep)" for dl ev ep
  proof (cases "terminal (d_status dl)")
    case True
    then show ?thesis using s by (simp add: handle_loaded_def wp_ret)
  next
    case nt: False
    have d: "get_delivery w i = Some dl" and i: "d_id dl = i"
      using load_deliveryD[OF l] dlv.get_key by blast+
    have r: "row_ok ?M dl" using sound_row[OF s] get_delivery_mem[OF d] by blast
    have same: "sound ?M v \<and> get_delivery v i = Some dl" if "same_rows w v" for v
      using s d sound_same_rows[OF that] same_rows_get[OF that] by simp
    have sent: "wp m (\<lambda>_. sound ?M) (\<lambda>_. sound ?M) v" if "preserves (sound ?M) m" "sound ?M v" for m v
      by (rule preserves_wp[OF that])
    show ?thesis
    proof (cases "e_status ep")
      case DISABLED
      let ?t = "clock (pop_fault w) + (case drift (pop_fault w) of [] \<Rightarrow> 0 | d # _ \<Rightarrow> d)"
      let ?w1 = "(pop_fault w)\<lparr>clock := ?t, drift := tl (drift (pop_fault w))\<rparr>"
      have w1: "sound ?M ?w1" "get_delivery ?w1 i = Some dl" using same[of ?w1] by (simp_all add: same_rows_def)
      have "wp (commit [update_delivery i (\<lambda>d. d\<lparr>d_status := SKIPPED, d_completedAt := Some ?t,
              d_lastError := Some ''endpoint is disabled''\<rparr>)] (\<lambda>_. ()))
           (\<lambda>_. wp (io_ret SkippedDisabled) (\<lambda>_. sound ?M) (\<lambda>_. sound ?M)) (\<lambda>_. sound ?M) ?w1"
        by (rule wp_commit_update[OF w1]) (use r in \<open>auto simp: row_ok_def wp_ret\<close>)
      then show ?thesis
        unfolding handle_loaded_def using nt DISABLED
        by (simp add: wp_bind wp_now wp_seq Let_def i)
    next
      case ACTIVE
      have "wp (take_bucket (e_id ep) (e_rateLimitPerMinute ep))
        (\<lambda>a. wp (if \<not> a then io_seq (publishThrottle (hd_publisher hn) (d_id dl) n) (io_ret Throttled)
              else io_seq (commit [update_delivery (d_id dl) (\<lambda>d. d\<lparr>d_status := IN_FLIGHT\<rparr>)] (\<lambda>_. ()))
                (attempt_delivery hn dl ev ep n)) (\<lambda>_. sound ?M) (\<lambda>_. sound ?M)) (\<lambda>_. sound ?M) (pop_fault w)"
      proof (rule wp_take_bucket)
        fix a v assume "same_rows (pop_fault w) v"
        then have v: "sound ?M v" "get_delivery v i = Some dl" using same[of v] by (simp_all add: same_rows_def)
        show "wp (if \<not> a then io_seq (publishThrottle (hd_publisher hn) (d_id dl) n) (io_ret Throttled)
              else io_seq (commit [update_delivery (d_id dl) (\<lambda>d. d\<lparr>d_status := IN_FLIGHT\<rparr>)] (\<lambda>_. ()))
                (attempt_delivery hn dl ev ep n)) (\<lambda>_. sound ?M) (\<lambda>_. sound ?M) v"
        proof (cases a)
          case True
          have "wp (commit [update_delivery i (\<lambda>d. d\<lparr>d_status := IN_FLIGHT\<rparr>)] (\<lambda>_. ()))
             (\<lambda>_. wp (attempt_delivery hn dl ev ep n) (\<lambda>_. sound ?M) (\<lambda>_. sound ?M)) (\<lambda>_. sound ?M) v"
            by (rule wp_commit_update[OF v])
               (use r nt sent[OF preserves_attempt_delivery[OF n]] in \<open>auto simp: row_ok_def\<close>)
          then show ?thesis using True by (simp add: wp_seq i)
        next
          case False
          then show ?thesis
            using sent[OF preserves_seq[OF preserves_publishers(3)[OF n(2)] preserves_pure(1)] v(1)] by simp
        qed
      next
        fix e v assume "same_rows (pop_fault w) v"
        then show "sound ?M v" using same[of v] by (simp add: same_rows_def)
      qed
      then show ?thesis unfolding handle_loaded_def using nt ACTIVE by (simp add: wp_bind)
    qed
  qed
  show "wp (handleDelivery hn i n) (\<lambda>_. sound ?M) (\<lambda>_. sound ?M) w"
    unfolding handleDelivery_def wp_bind wp_query
    using s main by (auto simp: wp_ret split: fault.split option.split)
qed

section \<open>The API\<close>

lemma disjoint_image: "\<forall>x \<in> A. f x \<notin> S \<Longrightarrow> S \<inter> f ` A = {}"
  by auto

lemma sound_new_rows:
  assumes s: "sound M w" and M: "1 \<le> M"
    and e: "events w' = events w @ vs" "distinct (map v_id vs)" "list_all (\<lambda>v. get_event w (v_id v) = None) vs"
    and d: "deliveries w' = deliveries w @ ds" "distinct (map d_id ds)" "list_all (\<lambda>d. get_delivery w (d_id d) = None) ds"
    and r: "list_all (\<lambda>d. d_eventId d \<in> v_id ` set (events w') \<and> d_attemptCount d = 0) ds"
    and p: "published w' = published w @ ps" "list_all (\<lambda>p. mb_attempt (pub_body p) = 1) ps"
    and a: "attempts w' = attempts w"
  shows "sound M w'"
proof -
  have n: "get_delivery w i = None \<Longrightarrow> i \<notin> d_id ` set (deliveries w)"
    "get_event w k = None \<Longrightarrow> k \<notin> v_id ` set (events w)" for i k
    by (auto simp: get_delivery_def get_event_def find_by_def find_None_iff')
  have "\<forall>x \<in> set ds. d_id x \<notin> d_id ` set (deliveries w)" using d(3) n(1) unfolding list_all_iff by blast
  then have d1: "d_id ` set (deliveries w) \<inter> d_id ` set ds = {}" by (rule disjoint_image)
  have "\<forall>x \<in> set vs. v_id x \<notin> v_id ` set (events w)" using e(3) n(2) unfolding list_all_iff by blast
  then have d2: "v_id ` set (events w) \<inter> v_id ` set vs = {}" by (rule disjoint_image)
  have "on_ladder M w'"
    using s M r p unfolding sound_def on_ladder_def d(1) p(1) a
    by (auto simp: list_all_iff row_ok_def message_ok_def)
  moreover have "keyed w'"
    using s r d1 d2 d(2) e(2) unfolding sound_def keyed_def d(1) a e(1)
    by (simp add: list_all_iff) blast
  ultimately show ?thesis by (simp add: sound_def)
qed

lemma sound_untouched: "untouched w w' \<Longrightarrow> sound M w' = sound M w"
  by (rule sound_cong) (simp_all add: untouched_def rows_same_def)

lemma sound_fanned_out:
  assumes s: "sound M w" "1 \<le> M" and f: "fanned_out pb eps w r k w'"
  shows "sound M w'"
proof -
  obtain v ds where vd: "events w' = events w @ [v]" "deliveries w' = deliveries w @ ds"
    "list_all (\<lambda>d. d_eventId d = v_id v \<and> d_attemptCount d = 0) ds"
    "get_event w (v_id v) = None" "distinct (map d_id ds)" "list_all (\<lambda>d. get_delivery w (d_id d) = None) ds"
    "attempts w' = attempts w"
    using f unfolding fanned_out_def rows_created_def by blast
  show ?thesis
    by (rule sound_new_rows[OF s vd(1) _ _ vd(2) vd(5,6) _ _ _ vd(7),
          where ps = "take k (map (\<lambda>r. first_message pb (rd_id r)) (filter (\<lambda>r. rd_status r = PENDING) (rc_deliveries r)))"])
       (use vd f in \<open>auto simp: fanned_out_def list_all_iff first_message_def dest!: in_set_takeD\<close>)
qed

lemma preserves_publishEvent:
  assumes "1 \<le> M"
  shows "preserves (sound M) (publishEvent pb projectId eventType payload ids key)"
  by (rule preservesI, rule wp_mono[OF publishEvent_wp])
     (auto simp: sound_untouched intro: sound_fanned_out assms)

lemma sound_replayed:
  assumes s: "sound M w" "1 \<le> M" and r: "replayed pb d msg w w'" and d: "get_delivery w i = Some d"
  shows "sound M w'"
proof -
  obtain j t where j: "deliveries w' = deliveries w @ [new_delivery j (d_eventId d) (d_endpointId d) PENDING (Some (d_id d)) t]"
    "get_delivery w j = None" "published w' = published w @ (if msg then [first_message pb j] else [])"
    "attempts w' = attempts w" "events w' = events w"
    using r unfolding replayed_def by blast
  have "d_eventId d \<in> v_id ` set (events w)" using s(1) get_delivery_mem[OF d] by (auto simp: sound_defs)
  then show ?thesis
    by (intro sound_new_rows[OF s _ _ _ j(1) _ _ _ j(3) _ j(4), where vs = "[]"])
       (use j in \<open>auto simp: first_message_def\<close>)
qed

lemma preserves_replay:
  assumes "1 \<le> M"
  shows "preserves (sound M) (replay sv i auth)"
  by (rule preservesI, rule wp_mono[OF replay_wp]) (auto simp: sound_same_rows intro: sound_replayed assms)

lemma sound_bulk:
  assumes s: "sound M w" "1 \<le> M" and b: "bulk_replayed pb os rs k w w'" and os: "set os \<subseteq> set (deliveries w)"
  shows "sound M w'"
proof -
  obtain t where t: "deliveries w' = deliveries w @ replay_rows rs t" using b by (auto simp: bulk_replayed_def)
  have ev: "d_eventId d \<in> v_id ` set (events w)" if "(i, d) \<in> set rs" for i d
  proof -
    have ms: "map snd rs = filter (\<lambda>d. replayable (d_status d)) os" using b by (simp add: bulk_replayed_def)
    have "d \<in> set (map snd rs)" using that by force
    then have "d \<in> set (deliveries w)" using os unfolding ms by auto
    then show ?thesis using s(1) by (auto simp: sound_defs)
  qed
  have ids: "map d_id (replay_rows rs t) = map fst rs" by (auto simp: replay_rows_def)
  have dist: "distinct (map d_id (replay_rows rs t))" unfolding ids using b by (simp add: bulk_replayed_def)
  have mem: "list_all (\<lambda>d. get_delivery w (d_id d) = None) (replay_rows rs t)"
    "list_all (\<lambda>d. d_eventId d \<in> v_id ` set (events w) \<and> d_attemptCount d = 0) (replay_rows rs t)"
    using b ev by (auto simp: bulk_replayed_def replay_rows_def list_all_iff)
  have rest: "events w' = events w @ []" "events w' = events w" "attempts w' = attempts w"
    "published w' = published w @ take k (map (first_message pb \<circ> fst) rs)"
    using b by (simp_all add: bulk_replayed_def)
  have ps: "list_all (\<lambda>p. mb_attempt (pub_body p) = 1) (take k (map (first_message pb \<circ> fst) rs))"
    by (auto simp: list_all_iff first_message_def dest!: in_set_takeD)
  show ?thesis
    by (rule sound_new_rows[OF s rest(1) _ _ t dist mem(1) _ rest(4) ps rest(3)]) (use mem(2) rest(2) in simp_all)
qed

lemma preserves_bulkReplay:
  assumes "1 \<le> M"
  shows "preserves (sound M) (bulkReplay sv projectId f limit)"
proof (rule preservesI)
  fix w assume s: "sound M w"
  have sub: "set (take n (newest_first delivery_key (filter (filterWhere projectId f w) (deliveries w)))) \<subseteq> set (deliveries w)" for n
    using set_take_subset by (fastforce simp: newest_first_def)
  show "wp (bulkReplay sv projectId f limit) (\<lambda>_. sound M) (\<lambda>_. sound M) w"
    by (rule wp_mono[OF bulkReplay_wp])
       (use sound_bulk[OF s assms _ sub] sound_untouched[of w] s in \<open>auto simp: tables_eq_def untouched_def\<close>)
qed

section \<open>The jobs\<close>

lemma sound_swept_rows:
  assumes s: "sound M w" and f: "f \<in> {id, claimed_row, released_row}"
    and p: "\<And>d. d \<in> set (deliveries w) \<Longrightarrow> p d \<Longrightarrow> d_status d = IN_FLIGHT"
    and w': "deliveries w' = update_where p f (deliveries w)" "events w' = events w" "attempts w' = attempts w"
      "published w' = published w"
  shows "sound M w'"
proof (rule sound_rewrite[OF s _ _ _ w'(1,2,4,3)])
  fix d assume d: "d \<in> set (deliveries w)" "p d"
  then show "row_ok M (f d)" using sound_row[OF s d(1)] p[OF d] f by (auto simp: row_ok_def claimed_row_def released_row_def)
qed (use f in \<open>auto simp: claimed_row_def released_row_def\<close>)

lemma preserves_recover:
  assumes "0 \<le> d_attemptCount d" "d_attemptCount d < M"
  shows "preserves (sound M) (recover pb d)"
proof -
  have upd: "sound M w \<Longrightarrow> sound M (snd (update_many (\<lambda>d. d_id d = i \<and> d_status d = st) g w))"
    if "g = claimed_row \<or> g = (\<lambda>d. d\<lparr>d_status := IN_FLIGHT\<rparr>)" "\<not> terminal st" for i st g w
    by (rule sound_rewrite[where p = "\<lambda>d. d_id d = i \<and> d_status d = st" and f = g])
       (use that in \<open>auto simp: update_many_def claimed_row_def row_ok_def dest: sound_row\<close>)
  have claim: "preserves (sound M) (effect_ret (update_many (\<lambda>d. d_id d = i \<and> d_status d = IN_FLIGHT) claimed_row))"
    and rel: "preserves (sound M) (effect_ret (update_many (\<lambda>d. d_id d = i \<and> d_status d = RETRYING) (\<lambda>d. d\<lparr>d_status := IN_FLIGHT\<rparr>)))" for i
    using upd by (auto simp: preserves_def effect_ret_def split: fault.split)
  show ?thesis
    unfolding recover_def claim_stuck_def release_def
    using assms by (auto intro!: sound_intros claim rel)
qed

lemma preserves_sweep_rows:
  assumes "list_all (\<lambda>d. 0 \<le> d_attemptCount d \<and> d_attemptCount d < M) ds"
  shows "preserves (sound M) (sweep_rows pb n ds)"
  using assms by (induction ds arbitrary: n) (auto intro!: sound_intros preserves_recover)

lemma stuck_rows_ok:
  "sound M w \<Longrightarrow> list_all (\<lambda>d. 0 \<le> d_attemptCount d \<and> d_attemptCount d < M) (stuck_rows c b w)"
proof -
  assume s: "sound M w"
  then have "in_table (stuck_rows c b w) (deliveries w)" by (intro stuck_rows_in_table) (simp add: sound_defs)
  then have "row_ok M d \<and> d_status d = IN_FLIGHT" if "d \<in> set (stuck_rows c b w)" for d
    using that sound_row[OF s] by (simp add: in_table_def)
  then show ?thesis by (fastforce simp: row_ok_def list_all_iff)
qed

lemma preserves_runStuckSweep: "preserves (sound M) (runStuckSweep pb m b)"
proof (rule preservesI)
  fix w assume s: "sound M w"
  have q: "wp (query (stuck_rows c b)) (\<lambda>st. wp (io_bind (sweep_rows pb 0 st) (g st)) (\<lambda>_. sound M) (\<lambda>_. sound M)) (\<lambda>_. sound M) v"
    if v: "sound M v" and g: "\<And>st n. preserves (sound M) (g st n)" for c g v
  proof -
    have "preserves (sound M) (io_bind (sweep_rows pb 0 (stuck_rows c b (pop_fault v))) (g (stuck_rows c b (pop_fault v))))"
      by (rule preserves_bind[OF preserves_sweep_rows[OF stuck_rows_ok] g]) (simp add: v)
    from preserves_wp[OF this, of "pop_fault v"] v show ?thesis by (simp add: wp_query split: fault.split)
  qed
  have c: "sound M (w\<lparr>clock := t, drift := dr\<rparr>)" for t dr using s sound_cong[of "w\<lparr>clock := t, drift := dr\<rparr>" w M] by simp
  show "wp (runStuckSweep pb m b) (\<lambda>_. sound M) (\<lambda>_. sound M) w"
    unfolding runStuckSweep_def Let_def wp_bind[of now] wp_now wp_bind[of "query _"]
    by (rule q, rule c, rule preserves_pure)
qed

lemma sound_purged:
  assumes s: "sound M w" and p: "purged S w w'"
  shows "sound M w'"
proof -
  let ?G = "gone_deliveries S w"
  have ds: "deliveries w' = map (unlink ?G) (filter (\<lambda>d. d_eventId d \<notin> S) (deliveries w))"
    "events w' = filter (\<lambda>v. v_id v \<notin> S) (events w)" "attempts w' = filter (\<lambda>a. a_deliveryId a \<notin> ?G) (attempts w)"
    "published w' = published w"
    using p by (simp_all add: purged_def cascade_def Let_def)
  have ids: "map d_id (deliveries w') = map d_id (filter (\<lambda>d. d_eventId d \<notin> S) (deliveries w))" by (simp add: ds)
  have u: "row_ok M (unlink G d) = row_ok M d" for G d by (simp add: row_ok_def unlink_def split: option.split)
  have "distinct (map d_id (deliveries w'))" unfolding ids using s by (auto simp: sound_defs distinct_map intro: inj_on_subset)
  moreover have "d_id d \<in> d_id ` set (deliveries w')" if "d \<in> set (deliveries w)" "d_id d \<notin> ?G" for d
  proof -
    have "d_eventId d \<notin> S" using that by (auto simp: gone_deliveries_def)
    moreover have "d_id ` set (deliveries w') = d_id ` {d \<in> set (deliveries w). d_eventId d \<notin> S}"
      by (simp add: ds image_image)
    ultimately show ?thesis using that(1) by blast
  qed
  moreover have "a_deliveryId ` set (attempts w') \<subseteq> d_id ` set (deliveries w')"
  proof
    fix i assume "i \<in> a_deliveryId ` set (attempts w')"
    then obtain a where a: "a \<in> set (attempts w)" "a_deliveryId a \<notin> ?G" "i = a_deliveryId a" by (auto simp: ds(3))
    then obtain d where "d \<in> set (deliveries w)" "d_id d = i" using s by (auto simp: sound_defs)
    then show "i \<in> d_id ` set (deliveries w')" using calculation(2)[of d] a by simp
  qed
  moreover have "distinct (map v_id (events w'))" using s by (auto simp: ds sound_defs distinct_map intro: inj_on_subset)
  moreover have "d_eventId ` set (deliveries w') \<subseteq> v_id ` set (events w')"
  proof
    fix k assume "k \<in> d_eventId ` set (deliveries w')"
    then have "k \<notin> S" "k \<in> d_eventId ` set (deliveries w)" by (auto simp: ds)
    moreover from this(2) have "k \<in> v_id ` set (events w)" using s by (auto simp: sound_defs)
    ultimately show "k \<in> v_id ` set (events w')" by (auto simp: ds)
  qed
  moreover have "on_ladder M w'" using s by (auto simp: ds sound_defs list_all_iff u)
  ultimately show ?thesis by (simp add: sound_def keyed_def)
qed

lemma preserves_runRetention:
  assumes "0 < b"
  shows "preserves (sound M) (runRetention days b m)"
proof (rule preservesI)
  fix w assume s: "sound M w"
  then have u: "distinct (map v_id (events w))" by (simp add: sound_defs)
  show "wp (runRetention days b m) (\<lambda>_. sound M) (\<lambda>_. sound M) w"
    by (rule wp_mono[OF runRetention_wp[OF u assms]])
       (use sound_purged[OF s] in \<open>auto simp: retained_def partly_retained_def\<close>)
qed

section \<open>Steps and reachable states\<close>

text \<open>\<open>outside\<close> is everything that leaves these tables alone: the clock, Redis, the other services.\<close>

inductive work_step :: "handler_deps \<Rightarrow> service_deps \<Rightarrow> world \<Rightarrow> world \<Rightarrow> bool" for hn sv where
  accept: "work_step hn sv w (snd (publishEvent (sv_publisher sv) projectId eventType payload ids key w))"
| deliver: "p \<in> set (published w) \<Longrightarrow>
    work_step hn sv w (snd (handleDelivery hn (mb_deliveryId (pub_body p)) (mb_attempt (pub_body p)) w))"
| sweep: "work_step hn sv w (snd (runStuckSweep (sv_publisher sv) minutes batch w))"
| replays: "work_step hn sv w (snd (replay sv i auth w))"
| bulk_replays: "work_step hn sv w (snd (bulkReplay sv projectId f limit w))"
| outside: "deliveries w' = deliveries w \<Longrightarrow> events w' = events w \<Longrightarrow> attempts w' = attempts w \<Longrightarrow>
    published w' = published w \<Longrightarrow> work_step hn sv w w'"

inductive system_step :: "handler_deps \<Rightarrow> service_deps \<Rightarrow> world \<Rightarrow> world \<Rightarrow> bool" for hn sv where
  work: "work_step hn sv w w' \<Longrightarrow> system_step hn sv w w'"
| retire: "0 < batch \<Longrightarrow> system_step hn sv w (snd (runRetention days batch batches w))"

inductive reachable :: "handler_deps \<Rightarrow> service_deps \<Rightarrow> world \<Rightarrow> world \<Rightarrow> bool" for hn sv w0 where
  start: "reachable hn sv w0 w0"
| step: "reachable hn sv w0 w \<Longrightarrow> system_step hn sv w w' \<Longrightarrow> reachable hn sv w0 w'"

inductive_cases work_stepE: "work_step hn sv w w'"
inductive_cases system_stepE: "system_step hn sv w w'"

lemma preservesD: "preserves I m \<Longrightarrow> I w \<Longrightarrow> I (snd (m w))"
  by (simp add: preserves_def)

definition max_attempts :: "handler_deps \<Rightarrow> int" where
  "max_attempts hn = cf_MAX_ATTEMPTS (hd_config hn)"

lemma work_step_sound:
  assumes "work_step hn sv w w'" "sound (max_attempts hn) w" "1 \<le> max_attempts hn"
  shows "sound (max_attempts hn) w'"
  using assms(1)
proof (cases rule: work_step.cases)
  case (deliver p)
  then have "message_ok (max_attempts hn) p" using assms(2) by (auto simp: sound_defs list_all_iff)
  then show ?thesis
    using deliver(1) preservesD[OF preserves_handleDelivery] assms(2) by (simp add: message_ok_def max_attempts_def)
next
  case outside
  then show ?thesis using sound_cong[of w' w] assms(2) by simp
qed (use assms(2,3) in \<open>auto intro: preservesD[OF preserves_publishEvent] preservesD[OF preserves_runStuckSweep]
       preservesD[OF preserves_replay] preservesD[OF preserves_bulkReplay]\<close>)

lemma system_step_sound:
  "system_step hn sv w w' \<Longrightarrow> sound (max_attempts hn) w \<Longrightarrow> 1 \<le> max_attempts hn \<Longrightarrow> sound (max_attempts hn) w'"
  by (elim system_stepE) (auto intro: work_step_sound preservesD[OF preserves_runRetention])

lemma reachable_sound:
  "reachable hn sv w0 w \<Longrightarrow> sound (max_attempts hn) w0 \<Longrightarrow> 1 \<le> max_attempts hn \<Longrightarrow> sound (max_attempts hn) w"
  by (induction rule: reachable.induct) (auto intro: system_step_sound)

section \<open>A finished delivery stays as it is\<close>

lemma get_delivery_append:
  "get_delivery w i = Some d \<Longrightarrow> deliveries w' = deliveries w @ ds \<Longrightarrow> get_delivery w' i = Some d"
  by (auto simp: get_delivery_def find_by_def find_Some_iff nth_append)

lemma get_delivery_unchanged:
  assumes "get_delivery w i = Some d" "deliveries w' = map f (deliveries w)"
    "\<And>r. d_id (f r) = d_id r" "f d = d"
  shows "get_delivery w' i = Some d"
  using assms find_map_key[of d_id f] by (simp add: get_delivery_def find_by_def)

lemma claim_all_other: "claim_all ds rows = map (\<lambda>r. if d_id r \<in> set (map d_id ds) then claimed_row r else r) rows"
  by (simp add: claim_all_def update_where_def)

lemma swept_keeps:
  assumes k: "sound M w" "get_delivery w i = Some d" "terminal (d_status d)"
    and s: "swept pb (stuck_rows c b w) w w' \<or> sweep_stopped pb (stuck_rows c b w) w w'"
  shows "get_delivery w' i = Some d"
proof -
  let ?ds = "stuck_rows c b w"
  have t: "in_table ?ds (deliveries w)" using k(1) by (intro stuck_rows_in_table) (simp add: sound_defs)
  have i: "d_id d = i" using k(2) by (rule dlv.get_key)
  have no: "i \<notin> set (map d_id ?ds)"
  proof
    assume "i \<in> set (map d_id ?ds)"
    then obtain r where r: "r \<in> set ?ds" "d_id r = i" by auto
    then have "r \<in> set (deliveries w)" "d_status r = IN_FLIGHT" using t by (auto simp: in_table_def)
    with sound_unique[OF k(1,2)] r(2) k(3) show False by auto
  qed
  show ?thesis using s
  proof
    assume "swept pb ?ds w w'"
    then show ?thesis
      by (intro get_delivery_unchanged[OF k(2), of w' "\<lambda>r. if d_id r \<in> set (map d_id ?ds) then claimed_row r else r"])
         (use no i in \<open>auto simp: swept_def claim_all_other\<close>)
  next
    assume "sweep_stopped pb ?ds w w'"
    then obtain n f where n: "n < length ?ds" "f \<in> {id, claimed_row, released_row}"
      "deliveries w' = mark (d_id (?ds ! n)) f (claim_all (take n ?ds) (deliveries w))"
      unfolding sweep_stopped_def by blast
    let ?g = "\<lambda>r. if d_id r \<in> set (map d_id (take n ?ds)) then claimed_row r else r"
    let ?h = "\<lambda>r. if d_id r = d_id (?ds ! n) then f r else r"
    have fid: "d_id (f r) = d_id r" for r using n(2) by auto
    have "?ds ! n \<in> set ?ds" using n(1) by simp
    then have "i \<noteq> d_id (?ds ! n)" "i \<notin> set (map d_id (take n ?ds))" using no in_set_takeD by force+
    then show ?thesis
      by (intro get_delivery_unchanged[OF k(2), of w' "?h \<circ> ?g"])
         (use n(3) i fid in \<open>auto simp: mark_def update_where_def claim_all_other\<close>)
  qed
qed

lemma work_step_terminal:
  assumes st: "work_step hn sv w w'" and k: "sound M w" "get_delivery w i = Some d" "terminal (d_status d)"
  shows "get_delivery w' i = Some d"
  using st
proof (cases rule: work_step.cases)
  case (accept p t pl ids key)
  have "wp (publishEvent (sv_publisher sv) p t pl ids key) (\<lambda>_ w'. get_delivery w' i = Some d) (\<lambda>_ w'. get_delivery w' i = Some d) w"
    by (rule wp_mono[OF publishEvent_wp])
       (use k(2) get_delivery_append[OF k(2)] in \<open>auto simp: fanned_out_def rows_created_def untouched_def rows_same_def get_delivery_def\<close>)
  from wp_sndD[OF this] show ?thesis using accept by simp
next
  case (deliver p)
  let ?j = "mb_deliveryId (pub_body p)"
  show ?thesis
  proof (cases "?j = i")
    case True
    then show ?thesis using deliver(1) handleDelivery_terminal[of w i d] k(2,3) same_rows_get(1) by metis
  next
    case False
    then show ?thesis using deliver(1) handleDelivery_only[of ?j w hn] k(2) unfolding only_delivery_def by metis
  qed
next
  case (sweep minutes batch)
  have u: "distinct (map d_id (deliveries w))" using k(1) by (simp add: sound_defs)
  have "wp (runStuckSweep (sv_publisher sv) minutes batch) (\<lambda>_ w'. get_delivery w' i = Some d) (\<lambda>_ w'. get_delivery w' i = Some d) w"
    by (rule wp_mono[OF runStuckSweep_wp[OF u]])
       (use swept_keeps[OF k] k(2) same_rows_get(1) in \<open>auto simp: Let_def\<close>)
  from wp_sndD[OF this] show ?thesis using sweep by simp
next
  case (replays j auth)
  have "wp (replay sv j auth) (\<lambda>_ w'. get_delivery w' i = Some d) (\<lambda>_ w'. get_delivery w' i = Some d) w"
    by (rule wp_mono[OF replay_wp])
       (use k(2) get_delivery_append[OF k(2)] same_rows_get(1) in \<open>auto simp: replayed_def\<close>)
  from wp_sndD[OF this] show ?thesis using replays by simp
next
  case (bulk_replays p f limit)
  have "wp (bulkReplay sv p f limit) (\<lambda>_ w'. get_delivery w' i = Some d) (\<lambda>_ w'. get_delivery w' i = Some d) w"
    by (rule wp_mono[OF bulkReplay_wp])
       (use k(2) get_delivery_append[OF k(2)] in \<open>auto simp: bulk_replayed_def tables_eq_def rows_same_def get_delivery_def\<close>)
  from wp_sndD[OF this] show ?thesis using bulk_replays by simp
next
  case outside
  then show ?thesis using k(2) by (simp add: get_delivery_def)
qed

lemma work_run_terminal:
  assumes "(work_step hn sv)\<^sup>*\<^sup>* w w'" "sound (max_attempts hn) w" "1 \<le> max_attempts hn"
    "get_delivery w i = Some d" "terminal (d_status d)"
  shows "get_delivery w' i = Some d \<and> sound (max_attempts hn) w'"
  using assms(1)
proof (induction rule: rtranclp_induct)
  case (step v v')
  then show ?case using work_step_terminal[OF step(2)] work_step_sound[OF step(2) _ assms(3)] assms(5) by blast
qed (use assms in blast)

end
