(* ===== verification/Auth_Service.thy ===== *)
theory Auth_Service
  imports World Crypto Env_Schema
begin

text \<open>
  \<open>src/backend/src/api/services/auth-service.js\<close>: accounts and sessions.  A refresh token is used
  once: its revocation is a conditional update, so of any number of requests that present it,
  interleaved in any way, one gets a session.  Argon2, SHA-256, the JWT and the random bytes belong
  to the platform; random text comes from the supply of the world.
\<close>

definition AUTH_DAY_MS :: int where "AUTH_DAY_MS = 86400000"

definition CREDENTIALS_REJECTED :: string where
  "CREDENTIALS_REJECTED = ''The email or the password is wrong''"

definition REFRESH_REJECTED :: string where
  "REFRESH_REJECTED = ''The refresh token is unknown, revoked or expired''"

definition unauthorized :: "string \<Rightarrow> exn" where
  "unauthorized m = App (UnauthorizedError m)"

text \<open>\<open>randomBytes\<close>: the next entry of the supply of random text.\<close>

definition random_text :: "string act" where
  "random_text = (\<lambda>w. (Inr (suffixes w (fresh w)), w\<lparr>fresh := Suc (fresh w)\<rparr>))"

section \<open>Slugs\<close>

definition to_lower :: "char \<Rightarrow> char" where
  "to_lower c = (let n = (of_char c :: nat) in if 65 \<le> n \<and> n \<le> 90 then char_of (n + 32) else c)"

text \<open>\<open>replace(/[^a-z0-9]+/g, '-')\<close>: every run of other characters becomes one hyphen.\<close>

fun dash_runs :: "bool \<Rightarrow> string \<Rightarrow> string" where
  "dash_runs inRun [] = []"
| "dash_runs inRun (c # cs) =
    (if is_alnum c then c # dash_runs False cs
     else if inRun then dash_runs True cs else CHR ''-'' # dash_runs True cs)"

definition trim_dashes :: "string \<Rightarrow> string" where
  "trim_dashes s = rev (dropWhile ((=) (CHR ''-'')) (rev (dropWhile ((=) (CHR ''-'')) s)))"

definition slug_base :: "string \<Rightarrow> string" where
  "slug_base v = take 32 (trim_dashes (dash_runs False (map to_lower v)))"

definition slugify :: "string \<Rightarrow> string \<Rightarrow> string" where
  "slugify v random = (if slug_base v = [] then ''project'' else slug_base v) @ ''-'' @ random"

section \<open>Tables\<close>

definition create_user :: "user \<Rightarrow> statement" where
  "create_user u w =
    (if \<exists>x \<in> set (users w). u_id x = u_id u \<or> u_email x = u_email u then Inl (JsError (Some ''P2002'') None ''unique constraint failed'')
     else Inr (w\<lparr>users := users w @ [u]\<rparr>))"

definition create_project :: "project \<Rightarrow> statement" where
  "create_project p w =
    (if \<exists>x \<in> set (projects w). p_id x = p_id p \<or> p_slug x = p_slug p then Inl (JsError (Some ''P2002'') None ''unique constraint failed'')
     else Inr (w\<lparr>projects := projects w @ [p]\<rparr>))"

definition create_membership :: "membership \<Rightarrow> statement" where
  "create_membership m w =
    (if \<exists>x \<in> set (memberships w). m_userId x = m_userId m \<and> m_projectId x = m_projectId m
     then Inl (JsError (Some ''P2002'') None ''unique constraint failed'')
     else Inr (w\<lparr>memberships := memberships w @ [m]\<rparr>))"

definition create_token :: "refresh_token \<Rightarrow> statement" where
  "create_token t w =
    (if \<exists>x \<in> set (refreshTokens w). t_id x = t_id t \<or> t_tokenHash x = t_tokenHash t
     then Inl (JsError (Some ''P2002'') None ''unique constraint failed'')
     else Inr (w\<lparr>refreshTokens := refreshTokens w @ [t]\<rparr>))"

definition update_tokens :: "(refresh_token \<Rightarrow> bool) \<Rightarrow> int \<Rightarrow> world \<Rightarrow> nat \<times> world" where
  "update_tokens p stamp w =
    (let live = (\<lambda>t. p t \<and> t_revokedAt t = None) in
     (length (filter live (refreshTokens w)),
      w\<lparr>refreshTokens := update_where live (\<lambda>t. t\<lparr>t_revokedAt := Some stamp\<rparr>) (refreshTokens w)\<rparr>))"

section \<open>The service\<close>

record auth_deps =
  au_config :: config
  au_sha256Hex :: "string \<Rightarrow> string"
  au_hashPassword :: "string \<Rightarrow> string \<Rightarrow> string"
  au_argonVerify :: "string \<Rightarrow> string \<Rightarrow> exn + bool"
  au_jwtSign :: "string \<Rightarrow> int \<Rightarrow> string"

record session =
  ss_accessToken :: string
  ss_refreshToken :: string
  ss_expiresAt :: int

definition issueRefreshToken :: "auth_deps \<Rightarrow> string \<Rightarrow> (string \<times> int) act" where
  "issueRefreshToken au userId =
    io_bind random_text (\<lambda>random.
    (let plaintext = base64url_encode random in
     io_bind now (\<lambda>t.
     (let expiresAt = t + cf_REFRESH_TOKEN_TTL_DAYS (au_config au) * AUTH_DAY_MS in
      io_bind (fresh_id ''refreshToken'') (\<lambda>i.
      io_seq (commit [\<lambda>w. create_token \<lparr>t_id = i, t_userId = userId, t_tokenHash = au_sha256Hex au plaintext,
                t_expiresAt = expiresAt, t_revokedAt = None, t_createdAt = clock w\<rparr> w] (\<lambda>_. ()))
      (io_ret (plaintext, expiresAt)))))))"

definition session_for :: "auth_deps \<Rightarrow> string \<Rightarrow> session act" where
  "session_for au userId =
    io_bind (io_get (\<lambda>w. au_jwtSign au userId (clock w))) (\<lambda>access.
    io_bind (issueRefreshToken au userId) (\<lambda>(token, expiresAt).
      io_ret \<lparr>ss_accessToken = access, ss_refreshToken = token, ss_expiresAt = expiresAt\<rparr>))"

definition revokeFamily :: "string \<Rightarrow> nat act" where
  "revokeFamily userId =
    io_bind now (\<lambda>t. effect_ret (update_tokens (\<lambda>x. t_userId x = userId) t))"

definition usableToken :: "auth_deps \<Rightarrow> string option \<Rightarrow> refresh_token act" where
  "usableToken au token =
    (case token of
       None \<Rightarrow> io_raise (unauthorized ''No refresh token was presented'')
     | Some tok \<Rightarrow>
       if tok = [] then io_raise (unauthorized ''No refresh token was presented'')
       else
         io_bind (query (\<lambda>w. find_by t_tokenHash (au_sha256Hex au tok) (refreshTokens w))) (\<lambda>found.
         (case found of
            None \<Rightarrow> io_raise (unauthorized REFRESH_REJECTED)
          | Some r \<Rightarrow>
              io_bind now (\<lambda>t.
              if t_expiresAt r \<le> t then io_raise (unauthorized REFRESH_REJECTED)
              else if t_revokedAt r \<noteq> None then
                io_bind (revokeFamily (t_userId r)) (\<lambda>_. io_raise (unauthorized REFRESH_REJECTED))
              else io_ret r))))"

definition rotate :: "refresh_token \<Rightarrow> nat act" where
  "rotate r = io_bind now (\<lambda>t. effect_ret (update_tokens (\<lambda>x. t_id x = t_id r) t))"

definition refresh :: "auth_deps \<Rightarrow> string option \<Rightarrow> session act" where
  "refresh au token =
    io_bind (usableToken au token) (\<lambda>r.
    io_bind (rotate r) (\<lambda>count.
    if count \<noteq> 1 then io_raise (unauthorized REFRESH_REJECTED)
    else session_for au (t_userId r)))"

definition logout :: "auth_deps \<Rightarrow> string option \<Rightarrow> unit act" where
  "logout au token =
    (case token of
       None \<Rightarrow> io_ret ()
     | Some tok \<Rightarrow>
       if tok = [] then io_ret ()
       else io_bind now (\<lambda>t.
         io_bind (effect_ret (update_tokens (\<lambda>x. t_tokenHash x = au_sha256Hex au tok) t)) (\<lambda>_. io_ret ())))"

record user_view =
  uv_id :: string
  uv_email :: string
  uv_name :: string

definition login :: "auth_deps \<Rightarrow> string \<Rightarrow> string \<Rightarrow> (user_view \<times> session) act" where
  "login au email password =
    io_bind (query (\<lambda>w. find_by u_email email (users w))) (\<lambda>found.
    (case found of
       None \<Rightarrow> io_raise (unauthorized CREDENTIALS_REJECTED)
     | Some u \<Rightarrow>
       if \<not> verifyPassword (au_argonVerify au) (u_passwordHash u) password
       then io_raise (unauthorized CREDENTIALS_REJECTED)
       else io_bind (session_for au (u_id u)) (\<lambda>s.
         io_ret (\<lparr>uv_id = u_id u, uv_email = u_email u, uv_name = u_name u\<rparr>, s))))"

definition register :: "auth_deps \<Rightarrow> string \<Rightarrow> string \<Rightarrow> string \<Rightarrow> string \<Rightarrow> (user_view \<times> string \<times> session) act" where
  "register au email password name projectName =
    io_bind (query (\<lambda>w. find_by u_email email (users w))) (\<lambda>existing.
    if existing \<noteq> None then io_raise (App (ConflictError ''An account with this email already exists''))
    else
      io_bind (fresh_id ''user'') (\<lambda>userId.
      io_bind (fresh_id ''project'') (\<lambda>projectId.
      io_bind random_text (\<lambda>salt.
      io_bind random_text (\<lambda>random.
      io_seq (commit
        [\<lambda>w. create_user \<lparr>u_id = userId, u_email = email, u_passwordHash = au_hashPassword au salt password,
               u_name = name, u_createdAt = clock w\<rparr> w,
         \<lambda>w. create_project \<lparr>p_id = projectId, p_name = projectName, p_slug = slugify projectName random,
               p_alertWebhookUrl = None, p_createdAt = clock w\<rparr> w,
         \<lambda>w. create_membership \<lparr>m_userId = userId, m_projectId = projectId, m_role = OWNER, m_createdAt = clock w\<rparr> w]
        (\<lambda>_. ()))
      (io_bind (session_for au userId) (\<lambda>s.
        io_ret (\<lparr>uv_id = userId, uv_email = email, uv_name = name\<rparr>, projectId, s))))))))"

definition me :: "string \<Rightarrow> (user_view \<times> (role \<times> project) list) act" where
  "me userId =
    io_bind (query (\<lambda>w. map_option (\<lambda>u. (u, List.map_filter (\<lambda>m.
        if m_userId m = userId then map_option (Pair (m_role m)) (find_by p_id (m_projectId m) (projects w)) else None)
        (memberships w))) (find_by u_id userId (users w)))) (\<lambda>found.
    (case found of
       None \<Rightarrow> io_raise (unauthorized ''The account no longer exists'')
     | Some (u, ms) \<Rightarrow> io_ret (\<lparr>uv_id = u_id u, uv_email = u_email u, uv_name = u_name u\<rparr>, ms)))"

section \<open>A token is used once\<close>

text \<open>What requests do to the token table, one database call at a time, in any interleaving: a
  rotation of a record read earlier, a revocation of a family, a logout, the creation of a token.\<close>

datatype token_op =
  Rotate string int | RevokeUser string int | Logout string int | Create refresh_token

fun token_ops :: "token_op list \<Rightarrow> world \<Rightarrow> (string \<times> nat) list \<times> world" where
  "token_ops [] w = ([], w)"
| "token_ops (Rotate i stamp # ops) w =
    (case update_tokens (\<lambda>x. t_id x = i) stamp w of
       (c, w1) \<Rightarrow> (case token_ops ops w1 of (cs, w2) \<Rightarrow> ((i, c) # cs, w2)))"
| "token_ops (RevokeUser u stamp # ops) w = token_ops ops (snd (update_tokens (\<lambda>x. t_userId x = u) stamp w))"
| "token_ops (Logout h stamp # ops) w = token_ops ops (snd (update_tokens (\<lambda>x. t_tokenHash x = h) stamp w))"
| "token_ops (Create t # ops) w =
    (case create_token t w of Inl _ \<Rightarrow> token_ops ops w | Inr w' \<Rightarrow> token_ops ops w')"

definition live_tokens :: "string \<Rightarrow> world \<Rightarrow> nat" where
  "live_tokens i w = length (filter (\<lambda>t. t_id t = i \<and> t_revokedAt t = None) (refreshTokens w))"

definition rotations :: "string \<Rightarrow> (string \<times> nat) list \<Rightarrow> nat" where
  "rotations i cs = sum_list (map snd (filter (\<lambda>c. fst c = i) cs))"

lemma live_tokens_le_1:
  assumes "distinct (map t_id (refreshTokens w))"
  shows "live_tokens i w \<le> 1"
proof -
  have "length (filter (\<lambda>t. t_id t = i \<and> t_revokedAt t = None) ts) \<le> 1" if "distinct (map t_id ts)" for ts
    using that by (induction ts) (auto simp: filter_empty_conv image_iff)
  then show ?thesis using assms by (simp add: live_tokens_def)
qed

lemma update_tokens_live:
  assumes "update_tokens p stamp w = (c, w')"
  shows "live_tokens i w' \<le> live_tokens i w" "(\<And>x. p x \<longleftrightarrow> t_id x = i) \<Longrightarrow> c + live_tokens i w' = live_tokens i w"
proof -
  have c: "c = length (filter (\<lambda>t. p t \<and> t_revokedAt t = None) (refreshTokens w))"
    and w': "refreshTokens w' = map (\<lambda>t. if p t \<and> t_revokedAt t = None then t\<lparr>t_revokedAt := Some stamp\<rparr> else t) (refreshTokens w)"
    using assms by (auto simp: update_tokens_def update_where_def Let_def)
  have "length (filter (\<lambda>t. t_id t = i \<and> t_revokedAt t = None)
      (map (\<lambda>t. if p t \<and> t_revokedAt t = None then t\<lparr>t_revokedAt := Some stamp\<rparr> else t) ts)) \<le>
      length (filter (\<lambda>t. t_id t = i \<and> t_revokedAt t = None) ts)" for ts
    by (induction ts) auto
  then show "live_tokens i w' \<le> live_tokens i w" by (simp add: live_tokens_def w')
  assume p: "\<And>x. p x \<longleftrightarrow> t_id x = i"
  have p': "p = (\<lambda>x. t_id x = i)" by (rule ext, rule p)
  have g: "filter (\<lambda>t. t_id t = i \<and> t_revokedAt t = None) (refreshTokens w') = []"
    unfolding w' p' filter_empty_conv set_map ball_simps by simp
  show "c + live_tokens i w' = live_tokens i w"
    unfolding live_tokens_def g unfolding c p' by simp
qed

lemma create_token_live:
  assumes "create_token t w = Inr w'" "i \<in> t_id ` set (refreshTokens w)"
  shows "live_tokens i w' = live_tokens i w" "i \<in> t_id ` set (refreshTokens w')"
  using assms by (auto simp: create_token_def live_tokens_def split: if_splits)

lemma update_tokens_ids:
  assumes "update_tokens p stamp w = (c, w')"
  shows "t_id ` set (refreshTokens w') = t_id ` set (refreshTokens w)"
proof -
  have "map t_id (refreshTokens w') = map t_id (refreshTokens w)"
    using assms by (auto simp: update_tokens_def update_where_def Let_def)
  then show ?thesis by (metis set_map)
qed

lemma token_ops_once:
  "token_ops ops w = (cs, w') \<Longrightarrow> i \<in> t_id ` set (refreshTokens w) \<Longrightarrow>
   rotations i cs + live_tokens i w' \<le> live_tokens i w"
proof (induction ops w arbitrary: cs w' rule: token_ops.induct)
  case (2 j stamp ops w)
  obtain c w1 where u: "update_tokens (\<lambda>x. t_id x = j) stamp w = (c, w1)" by fastforce
  obtain cs2 w2 where o2: "token_ops ops w1 = (cs2, w2)" by fastforce
  have ih: "rotations i cs2 + live_tokens i w2 \<le> live_tokens i w1"
    using "2.IH"[OF u[symmetric] o2] "2.prems"(2) update_tokens_ids[OF u] by simp
  have cs: "cs = (j, c) # cs2" "w' = w2" using "2.prems"(1) u o2 by simp_all
  show ?case
  proof (cases "j = i")
    case True
    then have "c + live_tokens i w1 = live_tokens i w" using update_tokens_live(2)[OF u, of i] by simp
    then show ?thesis using ih cs True by (simp add: rotations_def)
  next
    case False
    then show ?thesis using ih cs update_tokens_live(1)[OF u, of i] by (simp add: rotations_def)
  qed
next
  case (3 u stamp ops w)
  obtain c w1 where p: "update_tokens (\<lambda>x. t_userId x = u) stamp w = (c, w1)" by fastforce
  show ?case using 3 p update_tokens_live(1)[OF p, of i] update_tokens_ids[OF p] by (simp add: order_trans)
next
  case (4 h stamp ops w)
  obtain c w1 where p: "update_tokens (\<lambda>x. t_tokenHash x = h) stamp w = (c, w1)" by fastforce
  show ?case using 4 p update_tokens_live(1)[OF p, of i] update_tokens_ids[OF p] by (simp add: order_trans)
next
  case (5 t ops w)
  then show ?case using create_token_live[of t w _ i] by (auto split: sum.splits)
qed (simp add: rotations_def)

section \<open>What refresh does\<close>

text \<open>Every live token of the account is revoked when a revoked one comes back.\<close>

definition all_revoked :: "string \<Rightarrow> world \<Rightarrow> bool" where
  "all_revoked userId w \<longleftrightarrow> list_all (\<lambda>t. t_userId t = userId \<longrightarrow> t_revokedAt t \<noteq> None) (refreshTokens w)"

lemma update_tokens_revokes: "all_revoked u (snd (update_tokens (\<lambda>x. t_userId x = u) stamp w))"
  unfolding all_revoked_def update_tokens_def update_where_def Let_def
  by (simp add: list.pred_map comp_def list.pred_True split: if_split)

lemma slug_base_alnum:
  "c \<in> set (slug_base v) \<Longrightarrow> is_alnum c \<or> c = CHR ''-''" "length (slug_base v) \<le> 32"
proof -
  have d: "c \<in> set (dash_runs b s) \<Longrightarrow> is_alnum c \<or> c = CHR ''-''" for b s c
    by (induction b s rule: dash_runs.induct) (auto split: if_splits)
  have t: "set (trim_dashes s) \<subseteq> set s" for s
  proof -
    have m: "set (dropWhile P xs) \<subseteq> set xs" for P and xs :: string by (auto dest: set_dropWhileD)
    show ?thesis unfolding trim_dashes_def set_rev by (rule order_trans[OF m]) (simp add: m)
  qed
  show "c \<in> set (slug_base v) \<Longrightarrow> is_alnum c \<or> c = CHR ''-''"
    unfolding slug_base_def using d t in_set_takeD by fast
  show "length (slug_base v) \<le> 32" by (simp add: slug_base_def)
qed

end
