(* ===== verification/Project_Service.thy ===== *)
theory Project_Service
  imports Auth_Service Http_Client
begin

text \<open>
  \<open>src/backend/src/api/services/project-service.js\<close> and \<open>api-key-service.js\<close>: projects, their
  members and their API keys.  Removing a member is a check and a deletion, two calls apart.
\<close>

record project_view =
  pv_id :: string
  pv_name :: string
  pv_slug :: string
  pv_alertWebhookUrl :: "string option"
  pv_createdAt :: int

definition projectView :: "project \<Rightarrow> project_view" where
  "projectView p =
    \<lparr>pv_id = p_id p, pv_name = p_name p, pv_slug = p_slug p, pv_alertWebhookUrl = p_alertWebhookUrl p,
     pv_createdAt = p_createdAt p\<rparr>"

definition assertAlertTarget :: "resolver \<Rightarrow> string \<Rightarrow> unit act" where
  "assertAlertTarget resolve u =
    io_bind (io_get (resolve u)) (\<lambda>r. (case r of
       Inl e \<Rightarrow> io_raise (App (UnprocessableError (''The URL is not an allowed alert target: '' @ te_message e)))
     | Inr _ \<Rightarrow> io_ret ()))"

definition list_projects :: "auth_membership list \<Rightarrow> (project_view \<times> role) list act" where
  "list_projects ms =
    io_bind (query (\<lambda>w. sort_key p_createdAt (filter (\<lambda>p. p_id p \<in> set (map am_projectId ms)) (projects w)))) (\<lambda>ps.
      io_ret (List.map_filter (\<lambda>p. map_option (\<lambda>m. (projectView p, am_role m))
        (find (\<lambda>m. am_projectId m = p_id p) (rev ms))) ps))"

definition create_owned_project :: "string \<Rightarrow> string \<Rightarrow> (project_view \<times> role) act" where
  "create_owned_project userId name =
    io_bind (fresh_id ''project'') (\<lambda>projectId.
    io_bind random_text (\<lambda>random.
    io_bind (commit
      [\<lambda>w. create_project \<lparr>p_id = projectId, p_name = name, p_slug = slugify name random,
             p_alertWebhookUrl = None, p_createdAt = clock w\<rparr> w,
       \<lambda>w. create_membership \<lparr>m_userId = userId, m_projectId = projectId, m_role = OWNER, m_createdAt = clock w\<rparr> w]
      (\<lambda>w. \<lparr>p_id = projectId, p_name = name, p_slug = slugify name random,
             p_alertWebhookUrl = None, p_createdAt = clock w\<rparr>)) (\<lambda>p.
    io_ret (projectView p, OWNER))))"

definition upd_project :: "string \<Rightarrow> (project \<Rightarrow> project) \<Rightarrow> statement" where
  "upd_project i f w =
    (case find_by p_id i (projects w) of None \<Rightarrow> Inl record_not_found
     | Some _ \<Rightarrow> Inr (w\<lparr>projects := update_where (\<lambda>p. p_id p = i) f (projects w)\<rparr>))"

text \<open>A patch: an absent field is \<open>None\<close>; \<open>alertWebhookUrl\<close> may be present and \<open>null\<close>.\<close>

definition update_project ::
  "resolver \<Rightarrow> string \<Rightarrow> string option \<Rightarrow> string option option \<Rightarrow> project_view act" where
  "update_project resolve projectId name alertUrl =
    io_seq (case alertUrl of Some (Some u) \<Rightarrow> assertAlertTarget resolve u | _ \<Rightarrow> io_ret ())
    (io_bind (commit
       [upd_project projectId (\<lambda>p. p\<lparr>p_name := (case name of None \<Rightarrow> p_name p | Some n \<Rightarrow> n),
          p_alertWebhookUrl := (case alertUrl of None \<Rightarrow> p_alertWebhookUrl p | Some u \<Rightarrow> u)\<rparr>)]
       (\<lambda>w. find_by p_id projectId (projects w)))
     (\<lambda>r. (case r of None \<Rightarrow> io_raise record_not_found | Some p \<Rightarrow> io_ret (projectView p))))"

record member_view =
  mv_userId :: string
  mv_email :: string
  mv_name :: string
  mv_role :: role
  mv_joinedAt :: int

definition members :: "string \<Rightarrow> member_view list act" where
  "members projectId =
    query (\<lambda>w. List.map_filter (\<lambda>m. map_option (\<lambda>u. \<lparr>mv_userId = m_userId m, mv_email = u_email u,
          mv_name = u_name u, mv_role = m_role m, mv_joinedAt = m_createdAt m\<rparr>) (find_by u_id (m_userId m) (users w)))
      (sort_key m_createdAt (filter (\<lambda>m. m_projectId m = projectId) (memberships w))))"

definition find_membership :: "string \<Rightarrow> string \<Rightarrow> world \<Rightarrow> membership option" where
  "find_membership userId projectId w =
    find (\<lambda>m. m_userId m = userId \<and> m_projectId m = projectId) (memberships w)"

definition addMember :: "string \<Rightarrow> string \<Rightarrow> role \<Rightarrow> (user_view \<times> role) act" where
  "addMember projectId email r =
    io_bind (query (\<lambda>w. find_by u_email email (users w))) (\<lambda>found.
    (case found of
       None \<Rightarrow> io_raise (App (UnprocessableError ''No account with this email exists yet''))
     | Some u \<Rightarrow>
       io_bind (query (find_membership (u_id u) projectId)) (\<lambda>existing.
       if existing \<noteq> None then io_raise (App (ConflictError ''This user is already a member of the project''))
       else
         io_seq (commit [\<lambda>w. create_membership
             \<lparr>m_userId = u_id u, m_projectId = projectId, m_role = r, m_createdAt = clock w\<rparr> w] (\<lambda>_. ()))
         (io_ret (\<lparr>uv_id = u_id u, uv_email = u_email u, uv_name = u_name u\<rparr>, r)))))"

definition owners :: "string \<Rightarrow> world \<Rightarrow> nat" where
  "owners projectId w = length (filter (\<lambda>m. m_projectId m = projectId \<and> m_role m = OWNER) (memberships w))"

definition removal_allowed :: "string \<Rightarrow> string \<Rightarrow> unit act" where
  "removal_allowed projectId userId =
    io_bind (query (find_membership userId projectId)) (\<lambda>m.
    (case m of
       None \<Rightarrow> io_raise (App (NotFoundError ''No such member''))
     | Some m \<Rightarrow>
       if m_role m = OWNER then
         io_bind (query (owners projectId)) (\<lambda>n.
           if n = 1 then io_raise (App (ConflictError
             ''The last owner cannot be removed; promote another member to owner first''))
           else io_ret ())
       else io_ret ()))"

definition delete_membership :: "string \<Rightarrow> string \<Rightarrow> statement" where
  "delete_membership projectId userId w =
    (if find_membership userId projectId w = None then Inl record_not_found
     else Inr (w\<lparr>memberships := filter (\<lambda>m. \<not> (m_userId m = userId \<and> m_projectId m = projectId)) (memberships w)\<rparr>))"

definition removeMember :: "string \<Rightarrow> string \<Rightarrow> unit act" where
  "removeMember projectId userId =
    io_seq (removal_allowed projectId userId)
      (commit [delete_membership projectId userId] (\<lambda>_. ()))"

section \<open>API keys\<close>

record key_view =
  kv_id :: string
  kv_name :: string
  kv_keyPrefix :: string
  kv_lastUsedAt :: "int option"
  kv_revokedAt :: "int option"
  kv_createdAt :: int

definition keyView :: "api_key \<Rightarrow> key_view" where
  "keyView k = \<lparr>kv_id = k_id k, kv_name = k_name k, kv_keyPrefix = k_keyPrefix k, kv_lastUsedAt = k_lastUsedAt k,
     kv_revokedAt = k_revokedAt k, kv_createdAt = k_createdAt k\<rparr>"

definition list_keys :: "string \<Rightarrow> key_view list act" where
  "list_keys projectId =
    query (\<lambda>w. map keyView (rev (sort_key k_createdAt (filter (\<lambda>k. k_projectId k = projectId) (apiKeys w)))))"

definition create_key_row :: "api_key \<Rightarrow> statement" where
  "create_key_row k w =
    (if \<exists>x \<in> set (apiKeys w). k_id x = k_id k \<or> k_keyPrefix x = k_keyPrefix k
     then Inl (JsError (Some ''P2002'') None ''unique constraint failed'')
     else Inr (w\<lparr>apiKeys := apiKeys w @ [k]\<rparr>))"

definition create_key :: "(string \<Rightarrow> string) \<Rightarrow> string \<Rightarrow> string \<Rightarrow> (key_view \<times> string) act" where
  "create_key sha256Hex projectId name =
    io_bind random_text (\<lambda>random.
    io_bind (lift (generateApiKey sha256Hex random)) (\<lambda>g.
    io_bind (fresh_id ''apiKey'') (\<lambda>i.
    io_bind (commit [\<lambda>w. create_key_row \<lparr>k_id = i, k_projectId = projectId, k_name = name,
                k_keyPrefix = gk_keyPrefix g, k_keyHash = gk_keyHash g, k_lastUsedAt = None, k_revokedAt = None,
                k_createdAt = clock w\<rparr> w]
       (\<lambda>w. \<lparr>k_id = i, k_projectId = projectId, k_name = name, k_keyPrefix = gk_keyPrefix g, k_keyHash = gk_keyHash g,
             k_lastUsedAt = None, k_revokedAt = None, k_createdAt = clock w\<rparr>)) (\<lambda>k.
    io_ret (keyView k, gk_plaintext g)))))"

definition upd_key :: "string \<Rightarrow> (api_key \<Rightarrow> api_key) \<Rightarrow> statement" where
  "upd_key i f w =
    (case find_by k_id i (apiKeys w) of None \<Rightarrow> Inl record_not_found
     | Some _ \<Rightarrow> Inr (w\<lparr>apiKeys := update_where (\<lambda>k. k_id k = i) f (apiKeys w)\<rparr>))"

definition revoke_key :: "string \<Rightarrow> string \<Rightarrow> key_view act" where
  "revoke_key projectId keyId =
    io_bind (query (\<lambda>w. find_by k_id keyId (apiKeys w))) (\<lambda>found.
    (case found of
       None \<Rightarrow> io_raise (App (NotFoundError ''No such API key''))
     | Some k \<Rightarrow>
       if k_projectId k \<noteq> projectId then io_raise (App (NotFoundError ''No such API key''))
       else
         io_bind now (\<lambda>t.
         (let stamp = (case k_revokedAt k of Some s \<Rightarrow> s | None \<Rightarrow> t) in
          io_bind (commit [upd_key keyId (\<lambda>k. k\<lparr>k_revokedAt := Some stamp\<rparr>)] (\<lambda>_. ())) (\<lambda>_.
          io_ret (keyView (k\<lparr>k_revokedAt := Some stamp\<rparr>)))))))"

section \<open>Owners\<close>

text \<open>One removal at a time keeps an owner; the deletion alone does not look.\<close>

lemma owners_delete:
  assumes "delete_membership p u w = Inr w'"
  shows "owners q w' \<le> owners q w" "p \<noteq> q \<Longrightarrow> owners q w' = owners q w"
    "owners q w \<le> owners q w' + length (filter (\<lambda>m. m_userId m = u \<and> m_projectId m = p \<and> m_role m = OWNER) (memberships w))"
proof -
  have w': "memberships w' = filter (\<lambda>m. \<not> (m_userId m = u \<and> m_projectId m = p)) (memberships w)"
    using assms by (auto simp: delete_membership_def split: if_splits)
  have "length (filter P (filter Q xs)) \<le> length (filter P xs)" for P Q and xs :: "membership list"
    by (induction xs) auto
  then show "owners q w' \<le> owners q w" unfolding owners_def w' .
  show "p \<noteq> q \<Longrightarrow> owners q w' = owners q w"
    unfolding owners_def w' filter_filter by (auto intro!: arg_cong[where f = length] filter_cong)
  have "length (filter (\<lambda>m. m_projectId m = q \<and> m_role m = OWNER) xs) \<le>
      length (filter (\<lambda>m. m_projectId m = q \<and> m_role m = OWNER) (filter (\<lambda>m. \<not> (m_userId m = u \<and> m_projectId m = p)) xs)) +
      length (filter (\<lambda>m. m_userId m = u \<and> m_projectId m = p \<and> m_role m = OWNER) xs)" for xs
    by (induction xs) auto
  then show "owners q w \<le> owners q w' + length (filter (\<lambda>m. m_userId m = u \<and> m_projectId m = p \<and> m_role m = OWNER) (memberships w))"
    unfolding owners_def w' .
qed

definition member_keys_unique :: "world \<Rightarrow> bool" where
  "member_keys_unique w \<longleftrightarrow> distinct (map (\<lambda>m. (m_userId m, m_projectId m)) (memberships w))"

lemma membership_once:
  assumes "distinct (map (\<lambda>m. (m_userId m, m_projectId m)) ms)"
  shows "length (filter (\<lambda>m. m_userId m = u \<and> m_projectId m = p \<and> R m) ms) \<le> 1"
  using assms by (induction ms) (auto simp: filter_empty_conv image_iff)

lemma removeMember_wp:
  assumes "member_keys_unique w"
  shows "wp (removeMember p u)
    (\<lambda>_ w'. (\<forall>q. 0 < owners q w \<longrightarrow> 0 < owners q w') \<and> find_membership u p w' = None)
    (\<lambda>e w'. \<forall>q. 0 < owners q w \<longrightarrow> 0 < owners q w') w"
proof -
  have fm: "find_membership u p (pop_fault v) = find_membership u p v" "owners q (pop_fault v) = owners q v" for v q
    by (simp_all add: find_membership_def owners_def)
  have gone: "find_membership u p w' = None" if "delete_membership p u v = Inr w'" for v w'
    using that by (auto simp: delete_membership_def find_membership_def find_None_iff' split: if_splits)
  have keep: "0 < owners q w'" if d: "delete_membership p u v = Inr w'" and v: "memberships v = memberships w"
    and m: "find_membership u p w = Some m" and ok: "m_role m = OWNER \<longrightarrow> owners p w \<noteq> 1" and q: "0 < owners q w" for v w' q m
  proof (cases "p = q")
    case False
    then show ?thesis using owners_delete(2)[OF d False] q v by (simp add: owners_def)
  next
    case True
    have b: "owners q w \<le> owners q w' + length (filter (\<lambda>m. m_userId m = u \<and> m_projectId m = p \<and> m_role m = OWNER) (memberships w))"
      using owners_delete(3)[OF d, of q] v by (simp add: owners_def)
    have one: "length (filter (\<lambda>m. m_userId m = u \<and> m_projectId m = p \<and> m_role m = OWNER) (memberships w)) \<le> 1"
      using membership_once assms by (simp add: member_keys_unique_def)
    show ?thesis
    proof (cases "m_role m = OWNER")
      case own: True
      then show ?thesis using ok b one q True by simp
    next
      case False
      have m': "m \<in> set (memberships w)" "m_userId m = u" "m_projectId m = p"
        using m find_SomeD unfolding find_membership_def by fastforce+
      have "x = m" if "x \<in> set (memberships w)" "m_userId x = u" "m_projectId x = p" for x
        using assms that m' by (auto simp: member_keys_unique_def distinct_map inj_on_def)
      then have "filter (\<lambda>m. m_userId m = u \<and> m_projectId m = p \<and> m_role m = OWNER) (memberships w) = []"
        using False by (auto simp: filter_empty_conv)
      then show ?thesis using b q by simp
    qed
  qed
  show ?thesis
    unfolding removeMember_def removal_allowed_def wp_seq wp_bind wp_query
    using keep gone
    by (auto simp: wp_commit wp_query wp_bind wp_ret wp_raise fm owners_def split: fault.split option.split sum.split)
qed

end
