(* ===== verification/Endpoint_Service.thy ===== *)
theory Endpoint_Service
  imports Publish_Service Project_Service Signing
begin

text \<open>
  \<open>src/backend/src/api/services/endpoint-service.js\<close>: the endpoints of a project.  Every operation
  on one endpoint loads it first and checks the caller's role in the endpoint's own project.
\<close>

definition FOREIGN_KEY_VIOLATION :: string where "FOREIGN_KEY_VIOLATION = ''P2003''"
definition TEST_EVENT_TYPE :: string where "TEST_EVENT_TYPE = ''ping''"

record endpoint_view =
  ew_id :: string
  ew_projectId :: string
  ew_url :: string
  ew_description :: "string option"
  ew_status :: endpoint_status
  ew_eventTypes :: "string list"
  ew_rateLimitPerMinute :: int
  ew_consecutiveFailures :: int
  ew_secretRotatedAt :: "int option"
  ew_createdAt :: int

definition endpointView :: "endpoint \<Rightarrow> endpoint_view" where
  "endpointView e =
    \<lparr>ew_id = e_id e, ew_projectId = e_projectId e, ew_url = e_url e, ew_description = e_description e,
     ew_status = e_status e, ew_eventTypes = e_eventTypes e, ew_rateLimitPerMinute = e_rateLimitPerMinute e,
     ew_consecutiveFailures = e_consecutiveFailures e, ew_secretRotatedAt = e_secretRotatedAt e,
     ew_createdAt = e_createdAt e\<rparr>"

record endpoint_deps =
  es_config :: config
  es_resolve :: resolver
  es_publisher :: publisher
  es_seal :: "string \<Rightarrow> string \<Rightarrow> string \<times> string"
  es_iso :: "int \<Rightarrow> string"

definition assertReachable :: "endpoint_deps \<Rightarrow> string \<Rightarrow> unit act" where
  "assertReachable es u =
    io_bind (io_get (es_resolve es u)) (\<lambda>r. (case r of
       Inl e \<Rightarrow> io_raise (App (UnprocessableError (''The URL is not an allowed delivery target: '' @ te_message e)))
     | Inr _ \<Rightarrow> io_ret ()))"

definition load_endpoint :: "string \<Rightarrow> auth_membership list \<Rightarrow> role \<Rightarrow> endpoint act" where
  "load_endpoint endpointId auth r =
    io_bind (query (\<lambda>w. get_endpoint w endpointId)) (\<lambda>found.
    (case found of
       None \<Rightarrow> io_raise (App (NotFoundError ''No such endpoint''))
     | Some e \<Rightarrow> io_seq (lift (assertMembership auth (e_projectId e) r)) (io_ret e)))"

definition list_endpoints :: "string \<Rightarrow> endpoint_view list act" where
  "list_endpoints projectId =
    query (\<lambda>w. map endpointView (rev (sort_key e_createdAt (filter (\<lambda>e. e_projectId e = projectId) (endpoints w)))))"

definition create_endpoint_row :: "endpoint \<Rightarrow> statement" where
  "create_endpoint_row e w =
    (if get_endpoint w (e_id e) \<noteq> None then Inl unique_violation else Inr (w\<lparr>endpoints := endpoints w @ [e]\<rparr>))"

text \<open>A fresh secret and its stored form: 32 random bytes for the secret, 12 for the cipher.\<close>

definition new_secret :: "endpoint_deps \<Rightarrow> (string \<times> string) act" where
  "new_secret es =
    io_bind random_text (\<lambda>random.
    (let secret = generateEndpointSecret random in
     io_bind random_text (\<lambda>iv. io_ret (secret, encryptSecret (es_seal es) iv secret))))"

definition DEFAULT_RATE_LIMIT :: int where "DEFAULT_RATE_LIMIT = 600"

definition new_endpoint ::
  "string \<Rightarrow> string \<Rightarrow> string \<Rightarrow> string option \<Rightarrow> string list \<Rightarrow> int option \<Rightarrow> string \<Rightarrow> int \<Rightarrow> endpoint" where
  "new_endpoint i projectId u description eventTypes rateLimit stored createdAt =
    \<lparr>e_id = i, e_projectId = projectId, e_url = u, e_description = description, e_status = ACTIVE,
     e_secret = stored, e_previousSecret = None, e_secretRotatedAt = None, e_eventTypes = eventTypes,
     e_rateLimitPerMinute = (case rateLimit of None \<Rightarrow> DEFAULT_RATE_LIMIT
        | Some r \<Rightarrow> if r = 0 then DEFAULT_RATE_LIMIT else r),
     e_consecutiveFailures = 0, e_createdAt = createdAt\<rparr>"

definition create_endpoint ::
  "endpoint_deps \<Rightarrow> string \<Rightarrow> string \<Rightarrow> string option \<Rightarrow> string list \<Rightarrow> int option \<Rightarrow> (endpoint_view \<times> string) act" where
  "create_endpoint es projectId u description eventTypes rateLimit =
    io_seq (assertReachable es u)
    (io_bind (new_secret es) (\<lambda>(secret, stored).
     io_bind (fresh_id ''endpoint'') (\<lambda>i.
     io_bind (commit [\<lambda>w. create_endpoint_row (new_endpoint i projectId u description eventTypes rateLimit stored (clock w)) w]
        (\<lambda>w. new_endpoint i projectId u description eventTypes rateLimit stored (clock w))) (\<lambda>e.
     io_ret (endpointView e, secret)))))"

record endpoint_patch =
  ep_url :: "string option"
  ep_description :: "string option"
  ep_eventTypes :: "string list option"
  ep_rateLimitPerMinute :: "int option"

definition patched :: "endpoint_patch \<Rightarrow> endpoint \<Rightarrow> endpoint" where
  "patched p e = e\<lparr>
    e_url := (case ep_url p of None \<Rightarrow> e_url e | Some u \<Rightarrow> u),
    e_description := (case ep_description p of None \<Rightarrow> e_description e | Some d \<Rightarrow> Some d),
    e_eventTypes := (case ep_eventTypes p of None \<Rightarrow> e_eventTypes e | Some ts \<Rightarrow> ts),
    e_rateLimitPerMinute := (case ep_rateLimitPerMinute p of None \<Rightarrow> e_rateLimitPerMinute e | Some r \<Rightarrow> r)\<rparr>"

text \<open>\<open>endpoint.update\<close> and the row it returns.\<close>

definition save_endpoint :: "string \<Rightarrow> (endpoint \<Rightarrow> endpoint) \<Rightarrow> endpoint act" where
  "save_endpoint i f =
    io_bind (commit [update_endpoint i f] (\<lambda>w. get_endpoint w i)) (\<lambda>r.
      (case r of None \<Rightarrow> io_raise record_not_found | Some e \<Rightarrow> io_ret e))"

definition update_endpoint_row :: "endpoint_deps \<Rightarrow> string \<Rightarrow> auth_membership list \<Rightarrow> endpoint_patch \<Rightarrow> endpoint_view act" where
  "update_endpoint_row es endpointId auth p =
    io_bind (load_endpoint endpointId auth OWNER) (\<lambda>e.
    io_seq (case ep_url p of
              None \<Rightarrow> io_ret ()
            | Some u \<Rightarrow> if u \<noteq> [] \<and> u \<noteq> e_url e then assertReachable es u else io_ret ())
    (io_bind (save_endpoint (e_id e) (patched p)) (\<lambda>updated. io_ret (endpointView updated))))"

definition rotateSecret :: "endpoint_deps \<Rightarrow> string \<Rightarrow> auth_membership list \<Rightarrow> (endpoint_view \<times> string \<times> int) act" where
  "rotateSecret es endpointId auth =
    io_bind (load_endpoint endpointId auth OWNER) (\<lambda>e.
    io_bind (new_secret es) (\<lambda>(secret, stored).
    io_bind now (\<lambda>rotatedAt.
    io_bind (save_endpoint (e_id e) (\<lambda>r. r\<lparr>e_secret := stored, e_previousSecret := Some (e_secret e),
        e_secretRotatedAt := Some rotatedAt\<rparr>)) (\<lambda>updated.
    io_ret (endpointView updated, secret,
            previousSecretExpiresAt rotatedAt (cf_SECRET_ROTATION_GRACE_HOURS (es_config es)))))))"

definition enable :: "string \<Rightarrow> auth_membership list \<Rightarrow> endpoint_view act" where
  "enable endpointId auth =
    io_bind (load_endpoint endpointId auth OWNER) (\<lambda>e.
    io_bind (save_endpoint (e_id e) (\<lambda>r. r\<lparr>e_status := ACTIVE, e_consecutiveFailures := 0\<rparr>)) (\<lambda>updated.
    io_ret (endpointView updated)))"

definition disable :: "string \<Rightarrow> auth_membership list \<Rightarrow> endpoint_view act" where
  "disable endpointId auth =
    io_bind (load_endpoint endpointId auth OWNER) (\<lambda>e.
    io_bind (save_endpoint (e_id e) (\<lambda>r. r\<lparr>e_status := DISABLED\<rparr>)) (\<lambda>updated.
    io_ret (endpointView updated)))"

text \<open>\<open>endpoint.delete\<close>: the schema restricts it while deliveries refer to the endpoint.\<close>

definition delete_endpoint_row :: "string \<Rightarrow> statement" where
  "delete_endpoint_row i w =
    (if get_endpoint w i = None then Inl record_not_found
     else if \<exists>d \<in> set (deliveries w). d_endpointId d = i
     then Inl (JsError (Some FOREIGN_KEY_VIOLATION) None ''foreign key constraint failed'')
     else Inr (w\<lparr>endpoints := filter (\<lambda>e. e_id e \<noteq> i) (endpoints w)\<rparr>))"

definition history_conflict :: exn where
  "history_conflict =
    App (ConflictError ''This endpoint has delivery history and cannot be deleted; disable it instead'')"

definition remove_endpoint :: "string \<Rightarrow> auth_membership list \<Rightarrow> unit act" where
  "remove_endpoint endpointId auth =
    io_bind (load_endpoint endpointId auth OWNER) (\<lambda>e.
    io_catch (commit [delete_endpoint_row (e_id e)] (\<lambda>_. ())) (\<lambda>err.
      (case err of
         JsError code _ _ \<Rightarrow> if code = Some FOREIGN_KEY_VIOLATION then io_raise history_conflict else io_raise err
       | App _ \<Rightarrow> io_raise err)))"

definition sendTest :: "endpoint_deps \<Rightarrow> string \<Rightarrow> auth_membership list \<Rightarrow> receipt act" where
  "sendTest es endpointId auth =
    io_bind (load_endpoint endpointId auth MEMBER) (\<lambda>e.
    io_bind now (\<lambda>t.
    io_bind (fresh_id ''event'') (\<lambda>key.
      publishEvent (es_publisher es) (e_projectId e) TEST_EVENT_TYPE
        (JObj [(''message'', JStr ''This is a test delivery from hook-tracker''), (''at'', JStr (es_iso es t))])
        [e_id e] key)))"

section \<open>Facts\<close>

text \<open>What an operation may reach: endpoints of projects in which the caller has the role.\<close>

definition entitled :: "auth_membership list \<Rightarrow> role \<Rightarrow> endpoint \<Rightarrow> bool" where
  "entitled auth r e \<longleftrightarrow> (\<exists>m. assertMembership auth (e_projectId e) r = Inr m)"

lemma wp_load_endpoint:
  assumes "\<And>e. get_endpoint w i = Some e \<Longrightarrow> entitled auth r e \<Longrightarrow> Q e (pop_fault w)"
    and "\<And>x. \<forall>d. x \<noteq> App (ConflictError d) \<Longrightarrow> E x (pop_fault w)"
  shows "wp (load_endpoint i auth r) Q E w"
proof -
  have u: "E unavailable (pop_fault w)" by (rule assms(2)) (simp add: unavailable_def)
  have n: "E (App (NotFoundError m)) (pop_fault w)" for m by (rule assms(2)) (simp add: app_error_defs)
  have a: "E x (pop_fault w)" if "assertMembership auth p r = Inl x" for x p
    by (rule assms(2)) (use that in \<open>auto simp: assertMembership_def app_error_defs split: option.splits if_splits\<close>)
  show ?thesis
    using assms(1) u n a by (auto simp: load_endpoint_def wp_simps entitled_def split: fault.split option.split sum.split)
qed

lemma wp_save_endpoint:
  assumes id: "\<And>e. e_id (f e) = e_id e"
    and ok: "\<And>e w'. get_endpoint w i = Some e \<Longrightarrow> endpoints w' = update_where (\<lambda>x. e_id x = i) f (endpoints w) \<Longrightarrow>
       deliveries w' = deliveries w \<Longrightarrow> Q (f e) w'"
    and bad: "\<And>x w'. endpoints w' \<in> {endpoints w, update_where (\<lambda>x. e_id x = i) f (endpoints w)} \<Longrightarrow>
       deliveries w' = deliveries w \<Longrightarrow> E x w'"
  shows "wp (save_endpoint i f) Q E w"
proof (cases "get_endpoint w i")
  case None
  then show ?thesis
    using bad[of "pop_fault w"] by (simp add: save_endpoint_def wp_bind wp_commit update_endpoint_def split: fault.split)
next
  case (Some e)
  let ?w = "upd_endpoint i f (pop_fault w)"
  have "get_endpoint ?w i = Some (f e)" using ept.get_upd_same[OF id, of "pop_fault w" i e] Some by simp
  then show ?thesis
    using Some ok[OF Some, of ?w] bad[of ?w] bad[of "pop_fault w"]
    by (simp add: save_endpoint_def wp_bind wp_commit update_endpoint_def wp_ret upd_endpoint_def split: fault.split)
qed

text \<open>Rotation: the secret that was current becomes the previous one.\<close>

lemma wp_random_text: "wp random_text Q E w = Q (suffixes w (fresh w)) (w\<lparr>fresh := Suc (fresh w)\<rparr>)"
  by (simp add: wp_def random_text_def)

lemma rotateSecret_wp:
  "wp (rotateSecret es i auth)
    (\<lambda>(v, secret, expires) w'. \<exists>e iv t. get_endpoint w i = Some e \<and> entitled auth OWNER e \<and>
       get_endpoint w' i = Some (e\<lparr>e_secret := encryptSecret (es_seal es) iv secret,
         e_previousSecret := Some (e_secret e), e_secretRotatedAt := Some t\<rparr>) \<and>
       expires = t + cf_SECRET_ROTATION_GRACE_HOURS (es_config es) * HMAC_HOUR_MS \<and>
       deliveries w' = deliveries w)
    (\<lambda>_ w'. deliveries w' = deliveries w) w"
  unfolding rotateSecret_def wp_bind
proof (rule wp_load_endpoint)
  fix e assume e: "get_endpoint w i = Some e" "entitled auth OWNER e"
  have i: "e_id e = i" using e(1) by (rule ept.get_key)
  let ?f = "\<lambda>s t r. r\<lparr>e_secret := s, e_previousSecret := Some (e_secret e), e_secretRotatedAt := Some t\<rparr>"
  have g: "get_endpoint w' i = Some (?f s t e)"
    if "endpoints w' = update_where (\<lambda>x. e_id x = i) (?f s t) (endpoints w)" for s t w'
    using that e(1) update_where_key[of e_id "?f s t" i i "endpoints w"] by (simp add: get_endpoint_def)
  have ge: "get_endpoint v i = Some e'" "e' = e" if "get_endpoint v i = Some e'" "endpoints v = endpoints w" for v e'
    using that e(1) by (simp_all add: get_endpoint_def)
  show "wp (new_secret es) (\<lambda>a. wp (case a of (secret, stored) \<Rightarrow> io_bind now (\<lambda>rotatedAt.
      io_bind (save_endpoint (e_id e) (\<lambda>r. r\<lparr>e_secret := stored, e_previousSecret := Some (e_secret e),
        e_secretRotatedAt := Some rotatedAt\<rparr>)) (\<lambda>updated.
      io_ret (endpointView updated, secret,
            previousSecretExpiresAt rotatedAt (cf_SECRET_ROTATION_GRACE_HOURS (es_config es))))))
      (\<lambda>(v, secret, expires) w'. \<exists>e iv t. get_endpoint w i = Some e \<and> entitled auth OWNER e \<and>
       get_endpoint w' i = Some (e\<lparr>e_secret := encryptSecret (es_seal es) iv secret,
         e_previousSecret := Some (e_secret e), e_secretRotatedAt := Some t\<rparr>) \<and>
       expires = t + cf_SECRET_ROTATION_GRACE_HOURS (es_config es) * HMAC_HOUR_MS \<and>
       deliveries w' = deliveries w)
      (\<lambda>_ w'. deliveries w' = deliveries w)) (\<lambda>_ w'. deliveries w' = deliveries w) (pop_fault w)"
    unfolding new_secret_def Let_def wp_bind wp_random_text wp_ret prod.case wp_now
  proof (rule wp_save_endpoint, goal_cases)
    case (2 e' w')
    then show ?case
      using e g[of w'] ge(2) i by (auto simp: wp_ret previousSecretExpiresAt_def get_endpoint_def)
  qed (simp_all add: i)
qed simp

text \<open>Deleting an endpoint never takes a delivery with it: one that has any stays.\<close>

lemma remove_endpoint_wp:
  "wp (remove_endpoint i auth)
    (\<lambda>_ w'. deliveries w' = deliveries w \<and> get_endpoint w' i = None \<and> list_all (\<lambda>d. d_endpointId d \<noteq> i) (deliveries w))
    (\<lambda>e w'. deliveries w' = deliveries w \<and>
      (endpoints w' = endpoints w \<or> list_all (\<lambda>d. d_endpointId d \<noteq> i) (deliveries w)) \<and>
      (e = history_conflict \<longrightarrow> list_ex (\<lambda>d. d_endpointId d = i) (deliveries w))) w"
  unfolding remove_endpoint_def wp_bind
proof (rule wp_load_endpoint)
  fix e assume e: "get_endpoint w i = Some e"
  have i: "e_id e = i" using e by (rule ept.get_key)
  have ne: "unavailable \<noteq> history_conflict" "record_not_found \<noteq> history_conflict"
    by (simp_all add: unavailable_def record_not_found_def history_conflict_def)
  have gone: "get_endpoint (w'\<lparr>endpoints := filter (\<lambda>e. e_id e \<noteq> i) es\<rparr>) i = None" for w' :: world and es
    by (auto simp: get_endpoint_def find_by_def find_None_iff')
  show "wp (io_catch (commit [delete_endpoint_row (e_id e)] (\<lambda>_. ())) (\<lambda>err.
      (case err of
         JsError code _ _ \<Rightarrow> if code = Some FOREIGN_KEY_VIOLATION then io_raise history_conflict else io_raise err
       | App _ \<Rightarrow> io_raise err)))
    (\<lambda>_ w'. deliveries w' = deliveries w \<and> get_endpoint w' i = None \<and> list_all (\<lambda>d. d_endpointId d \<noteq> i) (deliveries w))
    (\<lambda>e w'. deliveries w' = deliveries w \<and>
      (endpoints w' = endpoints w \<or> list_all (\<lambda>d. d_endpointId d \<noteq> i) (deliveries w)) \<and>
      (e = history_conflict \<longrightarrow> list_ex (\<lambda>d. d_endpointId d = i) (deliveries w))) (pop_fault w)"
    using e ne gone
    by (simp add: wp_catch wp_commit wp_raise i delete_endpoint_row_def unavailable_def record_not_found_def
        FOREIGN_KEY_VIOLATION_def list_all_iff list_ex_iff split: fault.split)
qed (auto simp: history_conflict_def)

end
