(* ===== verification/Event_Service.thy ===== *)
theory Event_Service
  imports Delivery_Service Js_Number
begin

text \<open>
  \<open>src/backend/src/api/services/event-service.js\<close>: searching and reading events.  The containment
  operator of PostgreSQL, \<open>payload @> candidate\<close>, is a parameter \<open>contains\<close>.
\<close>

definition PATH_SEPARATOR :: char where "PATH_SEPARATOR = CHR ''.''"

definition nest :: "string list \<Rightarrow> json \<Rightarrow> json" where
  "nest segments leaf = foldr (\<lambda>segment carried. JObj [(segment, carried)]) segments leaf"

text \<open>\<open>nest(Number(value))\<close> as it is serialised: an infinite number becomes \<open>null\<close>.\<close>

definition number_leaf :: "jsnum \<Rightarrow> json option" where
  "number_leaf n = (case n of Fin x \<Rightarrow> Some (JNum x) | NaN \<Rightarrow> None | _ \<Rightarrow> Some JNull)"

definition containmentCandidates :: "string \<Rightarrow> string \<Rightarrow> json list" where
  "containmentCandidates path v =
    (let segments = filter (\<lambda>s. s \<noteq> []) (split_on PATH_SEPARATOR path) in
     if segments = [] then []
     else [nest segments (JStr v)]
       @ (if v \<noteq> [] then (case number_leaf (jsNumber v) of None \<Rightarrow> [] | Some l \<Rightarrow> [nest segments l]) else [])
       @ (if v = ''true'' \<or> v = ''false'' then [nest segments (JBool (v = ''true''))] else []))"

record event_filters =
  ef_eventType :: "string option"
  ef_from :: "int option"
  ef_to :: "int option"
  ef_payloadPath :: "string option"
  ef_payloadValue :: "string option"

text \<open>The raw statement's condition; it reads the first two candidates.\<close>

definition payload_matches :: "(json \<Rightarrow> json \<Rightarrow> bool) \<Rightarrow> json list \<Rightarrow> json \<Rightarrow> bool" where
  "payload_matches contains candidates payload \<longleftrightarrow>
    (case candidates of
       [] \<Rightarrow> True
     | c0 # cs \<Rightarrow> contains payload c0 \<or> (case cs of [] \<Rightarrow> False | c1 # _ \<Rightarrow> contains payload c1))"

definition event_selected :: "(json \<Rightarrow> json \<Rightarrow> bool) \<Rightarrow> string \<Rightarrow> event_filters \<Rightarrow> json list \<Rightarrow> webhook_event \<Rightarrow> bool" where
  "event_selected contains projectId f candidates v \<longleftrightarrow>
    v_projectId v = projectId \<and>
    (case ef_eventType f of None \<Rightarrow> True | Some t \<Rightarrow> v_eventType v = t) \<and>
    (case ef_from f of None \<Rightarrow> True | Some t \<Rightarrow> t \<le> v_receivedAt v) \<and>
    (case ef_to f of None \<Rightarrow> True | Some t \<Rightarrow> v_receivedAt v \<le> t) \<and>
    payload_matches contains candidates (v_payload v)"

definition event_key :: "webhook_event \<Rightarrow> cursor" where
  "event_key v = \<lparr>cu_createdAt = v_receivedAt v, cu_id = v_id v\<rparr>"

text \<open>The counts of an event's deliveries by status.\<close>

definition deliverySummary :: "string list \<Rightarrow> (string \<Rightarrow> (delivery_status \<times> nat) list) act" where
  "deliverySummary eventIds =
    (if eventIds = [] then io_ret (\<lambda>_. [])
     else query (\<lambda>w i. if i \<in> set eventIds
                       then group_statuses (filter (\<lambda>d. d_eventId d = i) (deliveries w)) else []))"

record event_list_view =
  el_id :: string
  el_eventType :: string
  el_receivedAt :: int
  el_deliveryCount :: nat
  el_byStatus :: "(delivery_status \<times> nat) list"

definition eventListView :: "webhook_event \<Rightarrow> (string \<Rightarrow> (delivery_status \<times> nat) list) \<Rightarrow> event_list_view" where
  "eventListView v byStatus =
    (let ds = byStatus (v_id v) in
     \<lparr>el_id = v_id v, el_eventType = v_eventType v, el_receivedAt = v_receivedAt v,
      el_deliveryCount = sum_list (map snd ds), el_byStatus = ds\<rparr>)"

definition list_events ::
  "service_deps \<Rightarrow> (json \<Rightarrow> json \<Rightarrow> bool) \<Rightarrow> string \<Rightarrow> event_filters \<Rightarrow> string option \<Rightarrow> nat
    \<Rightarrow> (event_list_view list \<times> string option) act" where
  "list_events sv contains projectId f cursor limit =
    io_bind (lift (cursor_of sv cursor)) (\<lambda>after.
    (let candidates = (if truthy (ef_payloadPath f)
           then containmentCandidates (the (ef_payloadPath f)) (case ef_payloadValue f of None \<Rightarrow> [] | Some v \<Rightarrow> v) else []) in
     io_bind (query (\<lambda>w. page_rows event_key (event_selected contains projectId f candidates) after limit (events w))) (\<lambda>rows.
     (let hasMore = has_more rows limit; page = (if hasMore then take limit rows else rows) in
      io_bind (deliverySummary (map v_id page)) (\<lambda>byStatus.
      io_ret (map (\<lambda>v. eventListView v byStatus) page,
              if hasMore then Some (encodeCursor (sv_iso sv) (event_key (last page))) else None))))))"

record event_delivery_view =
  vd_id :: string
  vd_endpointId :: string
  vd_status :: delivery_status
  vd_attemptCount :: int
  vd_createdAt :: int
  vd_completedAt :: "int option"

definition get_event_view ::
  "string \<Rightarrow> auth_membership list \<Rightarrow> (webhook_event \<times> event_delivery_view list) act" where
  "get_event_view eventId auth =
    io_bind (query (\<lambda>w. map_option (\<lambda>v. (v, sort_key d_createdAt (filter (\<lambda>d. d_eventId d = eventId) (deliveries w))))
      (get_event w eventId))) (\<lambda>found.
    (case found of
       None \<Rightarrow> io_raise (App (NotFoundError ''No such event''))
     | Some (v, ds) \<Rightarrow>
         io_seq (lift (assertMembership auth (v_projectId v) MEMBER))
         (io_ret (v, map (\<lambda>d. \<lparr>vd_id = d_id d, vd_endpointId = d_endpointId d, vd_status = d_status d,
            vd_attemptCount = d_attemptCount d, vd_createdAt = d_createdAt d, vd_completedAt = d_completedAt d\<rparr>) ds))))"

section \<open>Facts\<close>

lemma words_not_numbers: "jsNumber ''true'' = NaN" "jsNumber ''false'' = NaN"
  by (simp_all add: jsNumber_def trim_def is_space_def radix_literal_def magnitude_def unsigned_decimal_def
      Let_def is_digit_def)

text \<open>Two candidates at most, so the statement's two tests cover the list.\<close>

lemma candidates_at_most_two: "length (containmentCandidates path v) \<le> 2"
  using words_not_numbers
  by (auto simp: containmentCandidates_def Let_def number_leaf_def split: option.split jsnum.split)

lemma payload_matches_iff:
  "length cs \<le> 2 \<Longrightarrow> payload_matches contains cs p \<longleftrightarrow> cs = [] \<or> list_ex (contains p) cs"
  by (auto simp: payload_matches_def split: list.split)

text \<open>A search for a value finds the document that has it at the path, as a string or as a number.\<close>

fun at_path :: "string list \<Rightarrow> json \<Rightarrow> json option" where
  "at_path [] v = Some v"
| "at_path (s # ss) (JObj kvs) = (case map_of kvs s of None \<Rightarrow> None | Some v \<Rightarrow> at_path ss v)"
| "at_path (s # ss) _ = None"

lemma at_path_nest: "at_path ss (nest ss l) = Some l"
  by (induction ss) (simp_all add: nest_def)

lemma candidates_include:
  assumes "filter (\<lambda>s. s \<noteq> []) (split_on PATH_SEPARATOR path) = segments" "segments \<noteq> []"
  shows "nest segments (JStr v) \<in> set (containmentCandidates path v)"
    and "jsNumber v = Fin x \<Longrightarrow> v \<noteq> [] \<Longrightarrow> nest segments (JNum x) \<in> set (containmentCandidates path v)"
    and "v = ''true'' \<or> v = ''false'' \<Longrightarrow> nest segments (JBool (v = ''true'')) \<in> set (containmentCandidates path v)"
  unfolding containmentCandidates_def Let_def assms(1) number_leaf_def if_not_P[OF assms(2)] set_append
  by (simp_all only: Un_iff list.set insert_iff simp_thms jsnum.case option.case if_True if_False not_False_eq_True)

end
