(* ===== verification/Middleware.thy ===== *)
theory Middleware
  imports Project_Service Js_Number
begin

text \<open>
  What stands before the services: \<open>src/backend/src/api/bearer.js\<close>, \<open>api/auth-rate-limit.js\<close>,
  \<open>api/middleware/request-id.js\<close>, \<open>jwt-auth.js\<close> and \<open>api-key-auth.js\<close>.  A middleware either
  raises, and the error handler answers, or returns what it leaves on the request for the next
  one.  The JWT library, SHA-256 and \<open>randomUUID\<close> are parameters.
\<close>

section \<open>Headers\<close>

text \<open>\<open>/^Bearer\s+(\S+)$/i\<close>.\<close>

definition BEARER :: "string \<Rightarrow> string option" where
  "BEARER v =
    (let token = dropWhile is_space (drop 6 v) in
     if map to_lower (take 6 v) = ''bearer'' \<and> takeWhile is_space (drop 6 v) \<noteq> []
        \<and> token \<noteq> [] \<and> list_all (\<lambda>c. \<not> is_space c) token
     then Some token else None)"

definition bearerToken :: "string option \<Rightarrow> string option" where
  "bearerToken header = BEARER (case header of None \<Rightarrow> [] | Some v \<Rightarrow> v)"

definition safe_id_char :: "char \<Rightarrow> bool" where
  "safe_id_char c \<longleftrightarrow> is_alnum (to_lower c) \<or> c = CHR ''.'' \<or> c = CHR ''_'' \<or> c = CHR ''-''"

definition SAFE_ID :: "string \<Rightarrow> bool" where
  "SAFE_ID v \<longleftrightarrow> 1 \<le> length v \<and> length v \<le> 128 \<and> list_all safe_id_char v"

definition requestId :: "string \<Rightarrow> string option \<Rightarrow> string" where
  "requestId randomUUID incoming =
    (case incoming of None \<Rightarrow> randomUUID | Some v \<Rightarrow> if SAFE_ID v then v else randomUUID)"

section \<open>Sessions\<close>

record jwt_payload =
  jp_sub :: string
  jp_exp :: int

record auth =
  au_userId :: string
  au_expiresAt :: int
  au_memberships :: "auth_membership list"

definition verifyAccessToken ::
  "(string \<Rightarrow> exn + jwt_payload) \<Rightarrow> string \<Rightarrow> exn + jwt_payload" where
  "verifyAccessToken verify token =
    (case verify token of
       Inl _ \<Rightarrow> Inl (unauthorized ''The access token is missing, malformed or expired'')
     | Inr p \<Rightarrow> Inr p)"

definition memberships_of :: "string \<Rightarrow> world \<Rightarrow> auth_membership list" where
  "memberships_of userId w =
    map (\<lambda>m. \<lparr>am_projectId = m_projectId m, am_role = m_role m\<rparr>)
      (filter (\<lambda>m. m_userId m = userId) (memberships w))"

definition jwtAuth :: "(int \<Rightarrow> string \<Rightarrow> exn + jwt_payload) \<Rightarrow> string option \<Rightarrow> auth act" where
  "jwtAuth verify header =
    (case bearerToken header of
       None \<Rightarrow> io_raise (unauthorized ''An access token is required: Authorization: Bearer <jwt>'')
     | Some token \<Rightarrow>
        io_bind now (\<lambda>t.
        io_bind (lift (verifyAccessToken (verify t) token)) (\<lambda>payload.
        io_bind (query (memberships_of (jp_sub payload))) (\<lambda>ms.
          io_ret \<lparr>au_userId = jp_sub payload, au_expiresAt = jp_exp payload, au_memberships = ms\<rparr>))))"

section \<open>API keys\<close>

definition ABSENT_KEY_HASH :: string where "ABSENT_KEY_HASH = replicate 64 (CHR ''0'')"
definition LAST_USED_THRESHOLD_MS :: int where "LAST_USED_THRESHOLD_MS = 60000"

record key_auth =
  ka_apiKeyId :: string
  ka_projectId :: string

definition presentedKey :: "string option \<Rightarrow> exn + string \<times> string" where
  "presentedKey header =
    (case bearerToken header of
       None \<Rightarrow> Inl (unauthorized ''An API key is required: Authorization: Bearer ht_<key>'')
     | Some plaintext \<Rightarrow>
        (case apiKeyPrefix plaintext of
           Inl _ \<Rightarrow> Inl (unauthorized ''The API key is malformed'')
         | Inr prefix \<Rightarrow> Inr (plaintext, prefix)))"

text \<open>\<open>touch\<close>: the update is not awaited and its failure is swallowed.\<close>

definition touch :: "int \<Rightarrow> api_key \<Rightarrow> unit act" where
  "touch threshold r =
    io_bind now (\<lambda>t.
    (let recent = (case k_lastUsedAt r of None \<Rightarrow> False | Some used \<Rightarrow> t - used < threshold) in
     if recent then io_ret ()
     else io_bind now (\<lambda>stamp.
       io_catch (commit [upd_key (k_id r) (\<lambda>k. k\<lparr>k_lastUsedAt := Some stamp\<rparr>)] (\<lambda>_. ())) (\<lambda>_. io_ret ()))))"

definition apiKeyAuth :: "(string \<Rightarrow> string) \<Rightarrow> int \<Rightarrow> string option \<Rightarrow> key_auth act" where
  "apiKeyAuth hashApiKey threshold header =
    io_bind (lift (presentedKey header)) (\<lambda>(plaintext, prefix).
    io_bind (query (\<lambda>w. find_by k_keyPrefix prefix (apiKeys w))) (\<lambda>found.
    (let stored = (case found of None \<Rightarrow> ABSENT_KEY_HASH | Some r \<Rightarrow> k_keyHash r);
         matches = constantTimeEquals (Some stored) (Some (hashApiKey plaintext))
     in case found of
          None \<Rightarrow> io_raise (unauthorized ''The API key is unknown, revoked or incorrect'')
        | Some r \<Rightarrow>
            if \<not> matches \<or> k_revokedAt r \<noteq> None
            then io_raise (unauthorized ''The API key is unknown, revoked or incorrect'')
            else io_seq (touch threshold r)
                   (io_ret \<lparr>ka_apiKeyId = k_id r, ka_projectId = k_projectId r\<rparr>))))"

section \<open>The identity of a login attempt\<close>

definition MAX_EMAIL_LENGTH :: nat where "MAX_EMAIL_LENGTH = 254"

text \<open>\<open>None\<close> stands for an email that is absent or not a string.\<close>

definition presentedEmail :: "string option \<Rightarrow> string option" where
  "presentedEmail v =
    (case v of
       None \<Rightarrow> None
     | Some s \<Rightarrow> (let email = take MAX_EMAIL_LENGTH (map to_lower (trim s)) in
                  if email = [] then None else Some email))"

definition authRateLimitKey :: "string \<Rightarrow> string option \<Rightarrow> string" where
  "authRateLimitKey ip email =
    ip @ '':'' @ (case presentedEmail email of None \<Rightarrow> ''-'' | Some e \<Rightarrow> e)"

section \<open>Who passes\<close>

definition bearer_header :: "string \<Rightarrow> string \<Rightarrow> string \<Rightarrow> bool" where
  "bearer_header scheme sp token \<longleftrightarrow>
    length scheme = 6 \<and> map to_lower scheme = ''bearer'' \<and> sp \<noteq> [] \<and> list_all is_space sp
    \<and> token \<noteq> [] \<and> list_all (\<lambda>c. \<not> is_space c) token"

lemma BEARER_accepts:
  assumes "bearer_header scheme sp token"
  shows "BEARER (scheme @ sp @ token) = Some token"
proof -
  have sp: "\<And>c. c \<in> set sp \<Longrightarrow> is_space c" and tok: "token \<noteq> []" "\<not> is_space (List.hd token)"
    using assms by (auto simp: bearer_header_def list_all_iff)
  have "takeWhile is_space (sp @ token) = sp" "dropWhile is_space (sp @ token) = token"
    using sp tok by (cases token; simp add: takeWhile_append2 dropWhile_append2)+
  then show ?thesis using assms by (simp add: BEARER_def bearer_header_def)
qed

lemma if_SomeD: "(if c then Some x else None) = Some y \<Longrightarrow> c \<and> x = y"
  by (simp split: if_splits)

lemma BEARER_SomeD:
  assumes "BEARER v = Some t"
  shows "bearer_header (take 6 v) (takeWhile is_space (drop 6 v)) t"
    "take 6 v @ takeWhile is_space (drop 6 v) @ t = v"
proof -
  note c = if_SomeD[OF assms[unfolded BEARER_def Let_def]]
  have t: "t = dropWhile is_space (drop 6 v)" using c by (rule conjunct2[THEN sym])
  have h: "map to_lower (take 6 v) = ''bearer''" "takeWhile is_space (drop 6 v) \<noteq> []"
    "t \<noteq> []" "list_all (\<lambda>c. \<not> is_space c) t"
    unfolding t using c by (blast+)
  have l: "length (take 6 v) = 6" using arg_cong[OF h(1), of length] by simp
  have "list_all is_space (takeWhile is_space (drop 6 v))" by (auto simp: list_all_iff dest: set_takeWhileD)
  then show "bearer_header (take 6 v) (takeWhile is_space (drop 6 v)) t"
    unfolding bearer_header_def using h l by blast
  show "take 6 v @ takeWhile is_space (drop 6 v) @ t = v" by (simp add: t)
qed

definition same_credentials :: "world \<Rightarrow> world \<Rightarrow> bool" where
  "same_credentials w w' \<longleftrightarrow>
    map k_keyHash (apiKeys w') = map k_keyHash (apiKeys w) \<and> map k_revokedAt (apiKeys w') = map k_revokedAt (apiKeys w)"

lemma touch_wp: "wp (touch threshold r) (\<lambda>_. same_credentials w) (\<lambda>_ _. False) w"
  unfolding touch_def upd_key_def same_credentials_def update_where_def Let_def
  by (simp add: wp_simps split: fault.split option.split if_split)

lemma presentedKey_InrD:
  "presentedKey header = Inr (plaintext, prefix) \<Longrightarrow>
   bearerToken header = Some plaintext \<and> starts_with plaintext API_KEY_MARKER"
  by (auto simp: presentedKey_def apiKeyPrefix_def split: option.splits sum.splits if_splits)

lemma presentedKey_InlD: "presentedKey header = Inl e \<Longrightarrow> \<exists>m. e = unauthorized m"
  by (auto simp: presentedKey_def split: option.splits sum.splits)

lemma apiKeyAuth_wp:
  "wp (apiKeyAuth h threshold header)
     (\<lambda>a w'. \<exists>plaintext r. bearerToken header = Some plaintext \<and> r \<in> set (apiKeys w)
        \<and> starts_with plaintext API_KEY_MARKER \<and> k_keyHash r = h plaintext \<and> k_revokedAt r = None
        \<and> a = \<lparr>ka_apiKeyId = k_id r, ka_projectId = k_projectId r\<rparr> \<and> same_credentials w w')
     (\<lambda>e w'. apiKeys w' = apiKeys w \<and> (e = unavailable \<or> (\<exists>m. e = unauthorized m))) w"
proof (cases "presentedKey header")
  case (Inl e)
  then show ?thesis using presentedKey_InlD[OF Inl] by (simp add: apiKeyAuth_def wp_simps)
next
  case (Inr pp)
  obtain plaintext prefix where pp: "pp = (plaintext, prefix)" by fastforce
  note key = presentedKey_InrD[OF Inr[unfolded pp]]
  have "wp (touch threshold r)
      (\<lambda>_ w'. \<exists>pt x. bearerToken header = Some pt \<and> x \<in> set (apiKeys w)
        \<and> starts_with pt API_KEY_MARKER \<and> k_keyHash x = h pt \<and> k_revokedAt x = None
        \<and> \<lparr>ka_apiKeyId = k_id r, ka_projectId = k_projectId r\<rparr> = \<lparr>ka_apiKeyId = k_id x, ka_projectId = k_projectId x\<rparr>
        \<and> same_credentials w w') E (pop_fault w)"
    if "find_by k_keyPrefix prefix (apiKeys w) = Some r" "k_keyHash r = h plaintext" "k_revokedAt r = None" for r E
  proof (rule wp_mono[OF touch_wp])
    fix u :: unit and w' :: world
    assume "same_credentials (pop_fault w) w'"
    then show "\<exists>pt x. bearerToken header = Some pt \<and> x \<in> set (apiKeys w)
        \<and> starts_with pt API_KEY_MARKER \<and> k_keyHash x = h pt \<and> k_revokedAt x = None
        \<and> \<lparr>ka_apiKeyId = k_id r, ka_projectId = k_projectId r\<rparr> = \<lparr>ka_apiKeyId = k_id x, ka_projectId = k_projectId x\<rparr>
        \<and> same_credentials w w'"
      using key that find_by_SomeD[OF that(1)] by (auto simp: same_credentials_def)
  qed simp
  note touched = this
  show ?thesis
    unfolding apiKeyAuth_def
    apply (simp add: Inr pp wp_simps wp_ret_fun constantTimeEquals_def Let_def split: fault.split option.split del: ex_simps)
    using touched by (auto simp del: ex_simps)
qed

lemma jwtAuth_wp:
  "wp (jwtAuth verify header)
     (\<lambda>a w'. \<exists>token p t. bearerToken header = Some token \<and> verify t token = Inr p
        \<and> au_userId a = jp_sub p \<and> au_memberships a = memberships_of (jp_sub p) w \<and> memberships w' = memberships w)
     (\<lambda>e w'. e = unavailable \<or> (\<exists>m. e = unauthorized m)) w"
  unfolding jwtAuth_def
  by (auto simp: wp_simps verifyAccessToken_def memberships_of_def Let_def
      split: fault.splits option.splits sum.splits)

text \<open>What the JWT middleware leaves on the request entitles to exactly the rows of the caller.\<close>

lemma memberships_of_entitles:
  "assertMembership (memberships_of u w) p r = Inr m \<Longrightarrow>
   \<exists>row \<in> set (memberships w). m_userId row = u \<and> m_projectId row = p \<and> (r = OWNER \<longrightarrow> m_role row = OWNER)"
  using assertMembership_InrD[of "memberships_of u w" p r m] by (auto simp: memberships_of_def)

lemma requestId_safe: "SAFE_ID uuid \<Longrightarrow> SAFE_ID (requestId uuid incoming)"
  by (simp add: requestId_def split: option.splits)

end
