(* ===== verification/Redis_Store.thy ===== *)
theory Redis_Store
  imports World
begin

text \<open>
  The part of Redis the middlewares of the API use: sorted sets for the rate limiters, string keys
  for the idempotency window, each with its time of expiry.  A command, or a \<open>MULTI\<close> block, is one
  awaited call that can fail before or after it took effect; time passes at every call.  One clock
  serves the callers and Redis.
\<close>

record zset =
  z_entries :: "(int \<times> string) list"
  z_expires :: int

text \<open>What \<open>idempotency.js\<close> stores under a key: the marker of a reservation, or the text of
  \<open>{ status, body }\<close>, kept here as its two parts.\<close>

datatype stored = Reserved | Answer int json

record redis =
  zsets :: "string \<rightharpoonup> zset"
  rd_strings :: "string \<rightharpoonup> stored \<times> int"
  rd_clock :: int
  rd_drift :: "int list"
  rd_faults :: "fault list"
  rd_fresh :: nat
  rd_uuids :: "nat \<Rightarrow> string"

type_synonym 'a redis_act = "(redis, exn, 'a) io"

definition rd_step :: "redis \<Rightarrow> redis" where
  "rd_step s = s\<lparr>rd_faults := tl (rd_faults s), rd_drift := tl (rd_drift s),
     rd_clock := rd_clock s + (case rd_drift s of [] \<Rightarrow> 0 | d # _ \<Rightarrow> d)\<rparr>"

definition rd_fault :: "redis \<Rightarrow> fault" where
  "rd_fault s = (case rd_faults s of [] \<Rightarrow> NoFault | x # _ \<Rightarrow> x)"

definition redis_call :: "(redis \<Rightarrow> 'a \<times> redis) \<Rightarrow> 'a redis_act" where
  "redis_call f = (\<lambda>s.
    (case rd_fault s of
       NoFault \<Rightarrow> (Inr (fst (f (rd_step s))), snd (f (rd_step s)))
     | FaultBefore \<Rightarrow> (Inl unavailable, rd_step s)
     | FaultAfter \<Rightarrow> (Inl unavailable, snd (f (rd_step s)))))"

definition redis_now :: "int redis_act" where
  "redis_now = io_get rd_clock"

definition redis_uuid :: "string redis_act" where
  "redis_uuid = (\<lambda>s. (Inr (rd_uuids s (rd_fresh s)), s\<lparr>rd_fresh := Suc (rd_fresh s)\<rparr>))"

lemma wp_redis_call [wp_simps]:
  "wp (redis_call f) Q E s =
    (case rd_fault s of
       NoFault \<Rightarrow> Q (fst (f (rd_step s))) (snd (f (rd_step s)))
     | FaultBefore \<Rightarrow> E unavailable (rd_step s)
     | FaultAfter \<Rightarrow> E unavailable (snd (f (rd_step s))))"
  by (simp add: wp_def redis_call_def split: fault.splits)

lemma wp_redis_now [wp_simps]: "wp redis_now Q E s = Q (rd_clock s) s"
  by (simp add: redis_now_def wp_simps)

lemma wp_redis_uuid [wp_simps]:
  "wp redis_uuid Q E s = Q (rd_uuids s (rd_fresh s)) (s\<lparr>rd_fresh := Suc (rd_fresh s)\<rparr>)"
  by (simp add: wp_def redis_uuid_def)

lemma rd_step_fields [simp]:
  "zsets (rd_step s) = zsets s" "rd_strings (rd_step s) = rd_strings s"
  "rd_fresh (rd_step s) = rd_fresh s" "rd_uuids (rd_step s) = rd_uuids s"
  by (simp_all add: rd_step_def)

end
