(* ===== verification/Rate_Limit.thy ===== *)
theory Rate_Limit
  imports Middleware Redis_Store
begin

text \<open>
  \<open>src/backend/src/api/middleware/rate-limit.js\<close>: the sliding window of request timestamps kept
  as sorted sets in Redis, one per identity.  The state is the part of Redis the middleware sees:
  a key holds the entries in score order and the time at which the key expires.  A \<open>MULTI\<close> block
  is one step.  The second half states the limit over every interleaving of the steps of
  concurrent requests: the entry, and for a refused one the later removal.
\<close>

definition WINDOW_MS :: int where "WINDOW_MS = 60000"

text \<open>The entries of a key that has not expired.\<close>

definition live_entries :: "int \<Rightarrow> zset option \<Rightarrow> (int \<times> string) list" where
  "live_entries t z = (case z of None \<Rightarrow> [] | Some v \<Rightarrow> if z_expires v \<le> t then [] else z_entries v)"

definition zadd :: "int \<Rightarrow> string \<Rightarrow> (int \<times> string) list \<Rightarrow> (int \<times> string) list" where
  "zadd score member es = insort_key fst (score, member) (filter (\<lambda>e. snd e \<noteq> member) es)"

text \<open>\<open>zremrangebyscore\<close>, \<open>zadd\<close>, \<open>zcard\<close> and \<open>pexpire\<close> on one key; the result is the cardinality.\<close>

definition enter :: "int \<Rightarrow> int \<Rightarrow> string \<Rightarrow> zset option \<Rightarrow> int \<times> zset" where
  "enter windowMs t member z =
    (let kept = filter (\<lambda>e. \<not> (0 \<le> fst e \<and> fst e \<le> t - windowMs)) (live_entries t z);
         es = zadd t member kept
     in (int (length es), \<lparr>z_entries = es, z_expires = t + windowMs\<rparr>))"

definition zrem :: "string \<Rightarrow> zset option \<Rightarrow> zset option" where
  "zrem member z =
    (case z of None \<Rightarrow> None
     | Some v \<Rightarrow> (let es = filter (\<lambda>e. snd e \<noteq> member) (z_entries v)
                 in if es = [] then None else Some (v\<lparr>z_entries := es\<rparr>)))"

fun enter_all :: "int \<Rightarrow> int \<Rightarrow> string \<Rightarrow> string list \<Rightarrow> (string \<rightharpoonup> zset) \<Rightarrow> int list \<times> (string \<rightharpoonup> zset)" where
  "enter_all windowMs t member [] zs = ([], zs)"
| "enter_all windowMs t member (k # ks) zs =
    (case enter windowMs t member (zs k) of (used, z) \<Rightarrow>
       (case enter_all windowMs t member ks (zs(k \<mapsto> z)) of (rest, zs') \<Rightarrow> (used # rest, zs')))"

fun rem_all :: "string \<Rightarrow> string list \<Rightarrow> (string \<rightharpoonup> zset) \<Rightarrow> (string \<rightharpoonup> zset)" where
  "rem_all member [] zs = zs"
| "rem_all member (k # ks) zs = rem_all member ks (zs(k := zrem member (zs k)))"

section \<open>The middleware\<close>

record identity =
  id_value :: string
  id_limit :: int
  id_subject :: string

definition ceil_div :: "int \<Rightarrow> int \<Rightarrow> int" where
  "ceil_div a b = - ((- a) div b)"

definition reset_of :: "int \<Rightarrow> int \<Rightarrow> int option \<Rightarrow> int" where
  "reset_of windowMs t oldest =
    (case oldest of None \<Rightarrow> ceil_div windowMs 1000
     | Some score \<Rightarrow> max 1 (ceil_div (score + windowMs - t) 1000))"

definition resetSeconds :: "int \<Rightarrow> string \<Rightarrow> int \<Rightarrow> int redis_act" where
  "resetSeconds windowMs key t =
    io_bind (redis_call (\<lambda>s. (map_option fst (case live_entries t (zsets s key) of [] \<Rightarrow> None | e # _ \<Rightarrow> Some e), s)))
      (\<lambda>oldest. io_ret (reset_of windowMs t oldest))"

text \<open>\<open>xs.indexOf(Math.min(...xs))\<close> for a non-empty list.\<close>

definition limiting_index :: "int list \<Rightarrow> nat" where
  "limiting_index xs = length (takeWhile (\<lambda>x. x \<noteq> Min (set xs)) xs)"

definition limit_headers :: "int \<Rightarrow> int \<Rightarrow> int \<Rightarrow> (string \<times> string) list" where
  "limit_headers limit remaining reset =
    [(''RateLimit-Limit'', int_str limit), (''RateLimit-Remaining'', int_str remaining),
     (''RateLimit-Reset'', int_str reset)]"

definition refusal :: "identity \<Rightarrow> int \<Rightarrow> exn" where
  "refusal ident reset =
    App (RateLimitedError (int_str (id_limit ident) @ '' requests per minute allowed for '' @ id_subject ident)
      ((''Retry-After'', int_str reset) # limit_headers (id_limit ident) 0 reset))"

definition rateLimit :: "int \<Rightarrow> string \<Rightarrow> identity list \<Rightarrow> (string \<times> string) list redis_act" where
  "rateLimit windowMs keyPrefix identities =
    (let keys = map (\<lambda>i. keyPrefix @ '':'' @ id_value i) identities in
     io_bind redis_now (\<lambda>t.
     io_bind redis_uuid (\<lambda>uuid.
     (let member = int_str t @ ''-'' @ uuid in
      io_bind (redis_call (\<lambda>s. (case enter_all windowMs t member keys (zsets s) of
          (used, zs) \<Rightarrow> (used, s\<lparr>zsets := zs\<rparr>)))) (\<lambda>usedByKey.
      io_bind (io_mapM (\<lambda>k. resetSeconds windowMs k t) keys) (\<lambda>resets.
      (let remainingByKey = map2 (\<lambda>i used. id_limit i - used) identities usedByKey;
           n = limiting_index remainingByKey;
           headers = limit_headers (id_limit (identities ! n)) (max 0 (remainingByKey ! n)) (resets ! n)
       in if list_all (\<lambda>r. 0 \<le> r) remainingByKey then io_ret headers
          else io_seq (redis_call (\<lambda>s. ((), s\<lparr>zsets := rem_all member keys (zsets s)\<rparr>)))
                 (io_raise (refusal (identities ! n) (resets ! n))))))))))"

text \<open>The two limiters of \<open>app.js\<close>.\<close>

definition AUTH_ATTEMPTS_PER_MINUTE :: int where "AUTH_ATTEMPTS_PER_MINUTE = 20"

definition publish_identities :: "int \<Rightarrow> int \<Rightarrow> key_auth \<Rightarrow> identity list" where
  "publish_identities perKey perProject a =
    [\<lparr>id_value = ka_apiKeyId a, id_limit = perKey, id_subject = ''this API key''\<rparr>,
     \<lparr>id_value = ''project:'' @ ka_projectId a, id_limit = perProject, id_subject = ''this project''\<rparr>]"

definition auth_identities :: "string \<Rightarrow> string option \<Rightarrow> identity list" where
  "auth_identities ip email =
    [\<lparr>id_value = authRateLimitKey ip email, id_limit = AUTH_ATTEMPTS_PER_MINUTE,
      id_subject = ''this address or account''\<rparr>]"

section \<open>The limit, over every interleaving\<close>

text \<open>
  One key, as concurrent requests use it.  \<open>ls_admitted\<close> lists the requests let through and
  \<open>ls_refused\<close> the entries that are still to be removed.  \<open>Call\<close> is the \<open>MULTI\<close> block of one request,
  whose verdict also depends on its other keys; \<open>Undo\<close> is the removal, which a failing Redis may
  leave out.
\<close>

record limiter =
  ls_key :: "zset option"
  ls_time :: int
  ls_admitted :: "(int \<times> string) list"
  ls_refused :: "string list"

inductive limiter_step :: "int \<Rightarrow> int \<Rightarrow> limiter \<Rightarrow> limiter \<Rightarrow> bool" for windowMs limit where
  Admit: "\<lbrakk>ls_time s \<le> t; m \<notin> snd ` set (ls_admitted s); m \<notin> set (ls_refused s);
     enter windowMs t m (ls_key s) = (used, z); 0 \<le> limit - used\<rbrakk> \<Longrightarrow>
   limiter_step windowMs limit s (s\<lparr>ls_key := Some z, ls_time := t, ls_admitted := (t, m) # ls_admitted s\<rparr>)"
| Refuse: "\<lbrakk>ls_time s \<le> t; m \<notin> snd ` set (ls_admitted s); m \<notin> set (ls_refused s);
     enter windowMs t m (ls_key s) = (used, z)\<rbrakk> \<Longrightarrow>
   limiter_step windowMs limit s (s\<lparr>ls_key := Some z, ls_time := t, ls_refused := m # ls_refused s\<rparr>)"
| Undo: "m \<in> set (ls_refused s) \<Longrightarrow>
   limiter_step windowMs limit s (s\<lparr>ls_key := zrem m (ls_key s)\<rparr>)"

inductive_cases limiter_stepE: "limiter_step windowMs limit s s'"

inductive limiter_reachable :: "int \<Rightarrow> int \<Rightarrow> limiter \<Rightarrow> bool" for windowMs limit where
  Start: "0 \<le> t \<Longrightarrow> limiter_reachable windowMs limit \<lparr>ls_key = None, ls_time = t, ls_admitted = [], ls_refused = []\<rparr>"
| Step: "limiter_reachable windowMs limit s \<Longrightarrow> limiter_step windowMs limit s s' \<Longrightarrow> limiter_reachable windowMs limit s'"

definition admitted_within :: "int \<Rightarrow> int \<Rightarrow> limiter \<Rightarrow> int" where
  "admitted_within windowMs t s = int (length (filter (\<lambda>e. t - windowMs < fst e \<and> fst e \<le> t) (ls_admitted s)))"

definition limiter_ok :: "int \<Rightarrow> int \<Rightarrow> limiter \<Rightarrow> bool" where
  "limiter_ok windowMs limit s \<longleftrightarrow>
     0 \<le> ls_time s
   \<and> (\<forall>e \<in> set (ls_admitted s). 0 \<le> fst e \<and> fst e \<le> ls_time s \<and> snd e \<notin> set (ls_refused s)
        \<and> (ls_time s - windowMs < fst e \<longrightarrow> (\<exists>z. ls_key s = Some z \<and> e \<in> set (z_entries z))))
   \<and> (\<forall>z. ls_key s = Some z \<longrightarrow> z_expires z = ls_time s + windowMs)
   \<and> distinct (map snd (ls_admitted s))
   \<and> (\<forall>t. admitted_within windowMs t s \<le> limit)"

lemma set_insort_fst [simp]: "set (zadd t m es) = insert (t, m) {e \<in> set es. snd e \<noteq> m}"
  by (auto simp: zadd_def set_insort_key)

lemma zrem_keeps: "zrem m z = Some v \<Longrightarrow> \<exists>u. z = Some u \<and> z_expires v = z_expires u"
  by (auto simp: zrem_def Let_def split: option.splits if_splits)

lemma zrem_entry: "e \<in> set (z_entries u) \<Longrightarrow> snd e \<noteq> m \<Longrightarrow> \<exists>v. zrem m (Some u) = Some v \<and> e \<in> set (z_entries v)"
  by (auto simp: zrem_def Let_def filter_empty_conv)

text \<open>The entry made at \<open>t\<close> keeps every admitted request that is still inside the window.\<close>

lemma enter_keeps:
  assumes "limiter_ok windowMs limit s" "ls_time s \<le> t" "m \<notin> snd ` set (ls_admitted s)" "0 < windowMs"
    and "enter windowMs t m (ls_key s) = (used, z)" "e \<in> set (ls_admitted s)" "t - windowMs < fst e"
  shows "e \<in> set (z_entries z)"
proof -
  have e: "0 \<le> fst e" "ls_time s - windowMs < fst e" "fst e \<le> ls_time s"
    using assms(1,2,6,7) by (auto simp: limiter_ok_def)
  then obtain u where u: "ls_key s = Some u" "e \<in> set (z_entries u)" "z_expires u = ls_time s + windowMs"
    using assms(1,6) by (auto simp: limiter_ok_def)
  have "snd e \<noteq> m" using assms(3,6) by auto
  then show ?thesis using assms(5,7) u e by (auto simp: enter_def live_entries_def Let_def)
qed

lemma enter_fields:
  assumes "enter windowMs t m z = (used, z')"
  shows "used = int (length (z_entries z'))" "z_expires z' = t + windowMs" "(t, m) \<in> set (z_entries z')"
  using assms by (auto simp: enter_def Let_def)
lemma admitted_count:
  assumes "distinct (map snd es)" "\<And>e. e \<in> set es \<Longrightarrow> P e \<Longrightarrow> e \<in> set zs"
  shows "length (filter P es) \<le> length zs"
proof -
  have "distinct (filter P es)" using assms(1) by (simp add: distinct_map)
  then have "length (filter P es) = card (set (filter P es))" by (simp only: distinct_card)
  also have "\<dots> \<le> card (set zs)" by (rule card_mono) (use assms(2) in auto)
  also have "\<dots> \<le> length zs" by (rule card_length)
  finally show ?thesis .
qed

lemma admit_within:
  assumes ok: "limiter_ok windowMs limit s" and w: "0 < windowMs" and t: "ls_time s \<le> t"
    and m: "m \<notin> snd ` set (ls_admitted s)"
    and z: "enter windowMs t m (ls_key s) = (used, z)" and l: "0 \<le> limit - used"
  shows "admitted_within windowMs t' (s\<lparr>ls_key := Some z, ls_time := t, ls_admitted := (t, m) # ls_admitted s\<rparr>) \<le> limit"
proof (cases "t' < t")
  case True
  then show ?thesis using ok by (simp add: limiter_ok_def admitted_within_def)
next
  case False
  have "length (filter (\<lambda>e. t' - windowMs < fst e \<and> fst e \<le> t') ((t, m) # ls_admitted s)) \<le> length (z_entries z)"
  proof (rule admitted_count)
    show "distinct (map snd ((t, m) # ls_admitted s))" using ok m by (auto simp: limiter_ok_def)
    fix e
    assume "e \<in> set ((t, m) # ls_admitted s)" "t' - windowMs < fst e \<and> fst e \<le> t'"
    then show "e \<in> set (z_entries z)"
      using enter_keeps[OF ok t m w z, of e] enter_fields(3)[OF z] False by (cases "e = (t, m)") simp_all
  qed
  then show ?thesis using l enter_fields(1)[OF z] by (simp add: admitted_within_def)
qed

lemma limiter_step_ok:
  assumes "limiter_step windowMs limit s s'" and ok: "limiter_ok windowMs limit s" and w: "0 < windowMs"
  shows "limiter_ok windowMs limit s'"
  using assms(1)
proof (cases rule: limiter_step.cases)
  case (Admit t m used z)
  have "admitted_within windowMs t' s' \<le> limit" for t'
    unfolding Admit(1) by (rule admit_within[OF ok w Admit(2,3,5,6)])
  then show ?thesis
    using ok Admit enter_fields[OF Admit(5)] enter_keeps[OF ok Admit(2,3) w Admit(5)]
    by (auto simp: limiter_ok_def)
next
  case (Refuse t m used z)
  have "admitted_within windowMs t' s' \<le> limit" for t'
    using ok by (simp add: Refuse(1) limiter_ok_def admitted_within_def)
  then show ?thesis
    using ok Refuse enter_fields[OF Refuse(5)] enter_keeps[OF ok Refuse(2,3) w Refuse(5)]
    by (auto simp: limiter_ok_def image_iff)
next
  case (Undo m)
  have "admitted_within windowMs t' s' \<le> limit" for t'
    using ok by (simp add: Undo(1) limiter_ok_def admitted_within_def)
  moreover have "\<exists>z. zrem m (ls_key s) = Some z \<and> e \<in> set (z_entries z)"
    if e: "e \<in> set (ls_admitted s)" "ls_time s - windowMs < fst e" for e
  proof -
    obtain u where "ls_key s = Some u" "e \<in> set (z_entries u)" "snd e \<notin> set (ls_refused s)"
      using ok e unfolding limiter_ok_def by blast
    then show ?thesis using zrem_entry[of e u m] Undo(2) by auto
  qed
  moreover have "z_expires z = ls_time s + windowMs" if "zrem m (ls_key s) = Some z" for z
    using ok zrem_keeps[OF that] by (auto simp: limiter_ok_def)
  ultimately show ?thesis using ok by (simp add: Undo limiter_ok_def)
qed

lemma limiter_reachable_ok:
  assumes "limiter_reachable windowMs limit s" "0 < windowMs" "0 \<le> limit"
  shows "limiter_ok windowMs limit s"
  using assms
proof (induction rule: limiter_reachable.induct)
  case (Start t)
  then show ?case by (simp add: limiter_ok_def admitted_within_def)
next
  case (Step s s')
  then show ?case using limiter_step_ok by blast
qed

section \<open>What one call does\<close>

lemma limiting_index_least:
  assumes "xs \<noteq> []"
  shows "limiting_index xs < length xs" "xs ! limiting_index xs = Min (set xs)"
proof -
  have "Min (set xs) \<in> set xs" using assms by (intro Min_in) simp_all
  then have ex: "\<exists>x \<in> set xs. \<not> x \<noteq> Min (set xs)" unfolding not_not by (rule rev_bexI) (rule refl)
  have "length (takeWhile P ys) < length ys" if "\<exists>x \<in> set ys. \<not> P x" for P and ys :: "int list"
    using that by (induction ys) auto
  from this[OF ex] show l: "limiting_index xs < length xs" unfolding limiting_index_def .
  show "xs ! limiting_index xs = Min (set xs)"
    using nth_length_takeWhile[of "\<lambda>x. x \<noteq> Min (set xs)" xs] l unfolding limiting_index_def by blast
qed

text \<open>A refusal tells the client to wait at least a second, and never longer than the window.\<close>

lemma reset_of_bounds:
  assumes "0 < windowMs" "\<And>score. oldest = Some score \<Longrightarrow> score \<le> t"
  shows "1 \<le> reset_of windowMs t oldest" "reset_of windowMs t oldest \<le> ceil_div windowMs 1000"
proof -
  have "(- windowMs) div 1000 < 0" using assms(1) by (intro div_neg_pos_less0) simp_all
  then have c: "1 \<le> ceil_div windowMs 1000" unfolding ceil_div_def by linarith
  have m: "ceil_div (score + windowMs - t) 1000 \<le> ceil_div windowMs 1000" if "score \<le> t" for score
    using that zdiv_mono1[of "- windowMs" "- (score + windowMs - t)" 1000] by (simp add: ceil_div_def)
  show "1 \<le> reset_of windowMs t oldest" using c by (simp add: reset_of_def split: option.split)
  show "reset_of windowMs t oldest \<le> ceil_div windowMs 1000"
    using c m assms(2) by (auto simp: reset_of_def split: option.split)
qed

end
