(* ===== verification/Idempotency.thy ===== *)
theory Idempotency
  imports Redis_Store Event_Types
begin

text \<open>
  \<open>src/backend/src/api/middleware/idempotency.js\<close>: the key of a publish request and the window in
  Redis in which it is answered once.  The first half shows that the derived key separates requests
  exactly; the second what a key does over every sequence of the commands of concurrent requests.
  SHA-256 is a parameter.
\<close>

section \<open>The key\<close>

text \<open>The text that is hashed; an absent \<open>endpointIds\<close> is the empty list.\<close>

definition target_text :: "(rat \<Rightarrow> string) \<Rightarrow> string list \<Rightarrow> string" where
  "target_text num endpointIds =
    (if endpointIds \<noteq> [] then canonicalJson num (JArr (map JStr (sort (remdups endpointIds)))) else [])"

definition key_material :: "(rat \<Rightarrow> string) \<Rightarrow> string \<Rightarrow> json \<Rightarrow> string list \<Rightarrow> string" where
  "key_material num eventType payload endpointIds =
    eventType @ canonicalJson num payload @ target_text num endpointIds"

definition defaultIdempotencyKey ::
  "(rat \<Rightarrow> string) \<Rightarrow> (string \<Rightarrow> string) \<Rightarrow> string \<Rightarrow> json \<Rightarrow> string list \<Rightarrow> string" where
  "defaultIdempotencyKey num sha256Hex eventType payload endpointIds =
    sha256Hex (key_material num eventType payload endpointIds)"

section \<open>The middleware\<close>

definition in_flight :: exn where
  "in_flight = App (ConflictError
     ''A request with this Idempotency-Key is still in flight; retry once it completes'')"

definition unexpired :: "int \<Rightarrow> (stored \<times> int) option \<Rightarrow> stored option" where
  "unexpired t v = (case v of None \<Rightarrow> None | Some (x, e) \<Rightarrow> if e \<le> t then None else Some x)"

text \<open>\<open>SET key reserved EX ttl NX\<close>; the result says whether the key was set.\<close>

definition reserve :: "int \<Rightarrow> int \<Rightarrow> (stored \<times> int) option \<Rightarrow> bool \<times> (stored \<times> int) option" where
  "reserve ttlSeconds t v =
    (if unexpired t v = None then (True, Some (Reserved, t + 1000 * ttlSeconds)) else (False, v))"

definition keep_answer :: "int \<Rightarrow> int \<Rightarrow> int \<Rightarrow> json \<Rightarrow> (stored \<times> int) option" where
  "keep_answer ttlSeconds t status body = Some (Answer status body, t + 1000 * ttlSeconds)"

datatype admission = Proceed | Replay int json

definition idem_key :: "(string \<Rightarrow> string) \<Rightarrow> string \<Rightarrow> string \<Rightarrow> string" where
  "idem_key sha256Hex projectId key = ''idem:'' @ projectId @ '':'' @ sha256Hex key"

definition idempotency :: "int \<Rightarrow> string \<Rightarrow> admission redis_act" where
  "idempotency ttlSeconds redisKey =
    io_bind (redis_call (\<lambda>s. (case reserve ttlSeconds (rd_clock s) (rd_strings s redisKey) of
        (ok, v) \<Rightarrow> (ok, s\<lparr>rd_strings := (rd_strings s)(redisKey := v)\<rparr>)))) (\<lambda>reserved.
    if reserved then io_ret Proceed
    else
      io_bind (redis_call (\<lambda>s. (unexpired (rd_clock s) (rd_strings s redisKey), s))) (\<lambda>found.
      (case found of
         Some (Answer status body) \<Rightarrow> io_ret (Replay status body)
       | _ \<Rightarrow> io_raise in_flight)))"

text \<open>\<open>req.idempotency.store\<close>, and what runs when the response is finished.  \<open>stored\<close> is set before
  the call to Redis, so \<open>marked\<close> is true once \<open>store\<close> was called, whatever became of the call.\<close>

definition store_answer :: "int \<Rightarrow> string \<Rightarrow> int \<Rightarrow> json \<Rightarrow> unit redis_act" where
  "store_answer ttlSeconds redisKey status body =
    redis_call (\<lambda>s. ((), s\<lparr>rd_strings := (rd_strings s)(redisKey := keep_answer ttlSeconds (rd_clock s) status body)\<rparr>))"

definition release :: "string \<Rightarrow> unit redis_act" where
  "release redisKey = redis_call (\<lambda>s. ((), s\<lparr>rd_strings := (rd_strings s)(redisKey := None)\<rparr>))"

definition on_finish :: "string \<Rightarrow> bool \<Rightarrow> int \<Rightarrow> unit redis_act" where
  "on_finish redisKey marked statusCode =
    (if marked \<or> statusCode < 400 then io_ret () else io_catch (release redisKey) (\<lambda>_. io_ret ()))"

section \<open>Equal keys are equal requests\<close>

lemma stringify_object_cancel:
  assumes "num_ok num" "no_undef (JObj kvs)" "no_undef (JObj ys)"
    and eq: "stringify num (JObj kvs) @ r = stringify num (JObj ys) @ r'"
  shows "kvs = ys \<and> r = r'"
proof (rule list_cancel[where c = "CHR ''}''" and enc = "entry_text num" and A = "set kvs" and B = "{kv. no_undef (snd kv)}"])
  show "cancels (entry_text num) delim (set kvs) {kv. no_undef (snd kv)}"
    using assms(1,2) by (intro entry_cancels) (auto simp: list_all_iff dest: stringify_cancel)
  show "join '','' (map (entry_text num) kvs) @ CHR ''}'' # r = join '','' (map (entry_text num) ys) @ CHR ''}'' # r'"
    using eq stringify_JObj[OF assms(2), of num] stringify_JObj[OF assms(3), of num] by simp
qed (use assms(3) in \<open>auto simp: list_all_iff entry_text_def json_quote_def\<close>)

lemma target_text_iff:
  assumes "num_ok num"
  shows "target_text num xs = target_text num ys \<longleftrightarrow> set xs = set ys"
proof -
  define c where "c zs = canonicalJson num (JArr (map JStr (sort (remdups zs))))" for zs :: "string list"
  have ne: "c zs \<noteq> []" for zs by (simp add: c_def)
  have nm: "norm_json (JArr (map JStr ss)) = JArr (map JStr ss)" for ss by (simp add: comp_def)
  have "c xs = c ys \<longleftrightarrow> map JStr (sort (remdups xs)) = map JStr (sort (remdups ys))"
    unfolding c_def canonicalJson_eq_iff[OF assms] nm by (rule json.inject)
  also have "\<dots> \<longleftrightarrow> sort (remdups xs) = sort (remdups ys)" by (rule inj_map_eq_map) (simp add: inj_def)
  also have "\<dots> \<longleftrightarrow> set xs = set ys"
    by (metis set_remdups set_sort sorted_list_of_set_sort_remdups)
  finally have "c xs = c ys \<longleftrightarrow> set xs = set ys" .
  moreover have "target_text num zs = (if zs \<noteq> [] then c zs else [])" for zs by (simp only: target_text_def c_def)
  ultimately show ?thesis using ne[of xs] ne[of ys] by (cases xs; cases ys) simp_all
qed

lemma event_chars: "event_word st s \<Longrightarrow> c \<in> set s \<Longrightarrow> is_alnum c \<or> is_separator c"
  by (induction st s rule: event_word.induct) (auto split: if_splits)

lemma event_no_brace: "EVENT_TYPE_PATTERN s \<Longrightarrow> CHR ''{'' \<notin> set s"
  using event_chars[of True s "CHR ''{''"]
  by (auto simp: EVENT_TYPE_PATTERN_def is_separator_def is_alnum_def is_lower_def is_digit_def)

lemma canonical_object: "\<exists>q. canonicalJson num (JObj kvs) = CHR ''{'' # q"
  by simp

lemma brace_split:
  assumes "CHR ''{'' \<notin> set a" "CHR ''{'' \<notin> set b" "a @ CHR ''{'' # p = b @ CHR ''{'' # q"
  shows "a = b \<and> p = q"
  using assms
proof (induction a arbitrary: b)
  case Nil
  then show ?case by (cases b) auto
next
  case (Cons x a)
  then show ?case by (cases b) auto
qed

lemma key_material_iff:
  assumes num: "num_ok num" and t: "EVENT_TYPE_PATTERN t" "EVENT_TYPE_PATTERN t'"
  shows "key_material num t (JObj p) es = key_material num t' (JObj p') es' \<longleftrightarrow>
    t = t' \<and> norm_json (JObj p) = norm_json (JObj p') \<and> set es = set es'"
proof
  assume eq: "key_material num t (JObj p) es = key_material num t' (JObj p') es'"
  obtain q q' where q: "canonicalJson num (JObj p) = CHR ''{'' # q" "canonicalJson num (JObj p') = CHR ''{'' # q'"
    using canonical_object by metis
  have "t @ CHR ''{'' # (q @ target_text num es) = t' @ CHR ''{'' # (q' @ target_text num es')"
    using eq unfolding key_material_def q by simp
  then have tt: "t = t'" "q @ target_text num es = q' @ target_text num es'"
    using brace_split event_no_brace t by blast+
  have eq2: "canonicalJson num (JObj p) @ target_text num es = canonicalJson num (JObj p') @ target_text num es'"
    unfolding q using tt(2) by simp
  obtain n n' where n: "norm_json (JObj p) = JObj n" "norm_json (JObj p') = JObj n'" by simp
  have "n = n' \<and> target_text num es = target_text num es'"
  proof (rule stringify_object_cancel[OF num])
    show "stringify num (JObj n) @ target_text num es = stringify num (JObj n') @ target_text num es'"
      using eq2 unfolding canonicalJson_norm n .
    show "no_undef (JObj n)" "no_undef (JObj n')" using no_undef_norm n by metis+
  qed
  then show "t = t' \<and> norm_json (JObj p) = norm_json (JObj p') \<and> set es = set es'"
    using tt(1) n target_text_iff[OF num] by simp
next
  assume h: "t = t' \<and> norm_json (JObj p) = norm_json (JObj p') \<and> set es = set es'"
  then have "target_text num es = target_text num es'" "canonicalJson num (JObj p) = canonicalJson num (JObj p')"
    using target_text_iff[OF num] canonicalJson_eq_iff[OF num] by blast+
  then show "key_material num t (JObj p) es = key_material num t' (JObj p') es'"
    using h by (simp only: key_material_def)
qed

section \<open>One key over time\<close>

text \<open>The commands concurrent requests send for one key, with the time each is executed.\<close>

datatype idem_op = Arrive int | Keep int int json | Release int

fun op_time :: "idem_op \<Rightarrow> int" where
  "op_time (Arrive t) = t" | "op_time (Keep t status body) = t" | "op_time (Release t) = t"

text \<open>The times at which a request was let through to publish.\<close>

fun proceeds :: "int \<Rightarrow> idem_op list \<Rightarrow> (stored \<times> int) option \<Rightarrow> int list" where
  "proceeds ttl [] v = []"
| "proceeds ttl (Arrive t # ops) v =
    (case reserve ttl t v of (ok, v') \<Rightarrow> (if ok then t # proceeds ttl ops v' else proceeds ttl ops v'))"
| "proceeds ttl (Keep t status body # ops) v = proceeds ttl ops (keep_answer ttl t status body)"
| "proceeds ttl (Release t # ops) v = proceeds ttl ops None"

definition is_release :: "idem_op \<Rightarrow> bool" where
  "is_release op \<longleftrightarrow> (case op of Release _ \<Rightarrow> True | _ \<Rightarrow> False)"

lemma proceeds_spaced:
  assumes "0 < ttl" "sorted (map op_time ops)" "list_all (\<lambda>op. \<not> is_release op) ops"
    and "list_all (\<lambda>op. lo \<le> op_time op + 1000 * ttl) ops"
    and "\<And>x e. v = Some (x, e) \<Longrightarrow> lo \<le> e" "v = None \<Longrightarrow> list_all (\<lambda>op. lo \<le> op_time op) ops"
  shows "sorted_wrt (\<lambda>a b. a + 1000 * ttl \<le> b) (proceeds ttl ops v) \<and> list_all (\<lambda>t. lo \<le> t) (proceeds ttl ops v)"
  using assms
proof (induction ops arbitrary: v lo)
  case (Cons op ops)
  note prems = Cons.prems
  show ?case
  proof (cases op)
    case (Arrive t)
    show ?thesis
    proof (cases "unexpired t v = None")
      case True
      then have r: "reserve ttl t v = (True, Some (Reserved, t + 1000 * ttl))" by (simp add: reserve_def)
      have ih: "sorted_wrt (\<lambda>a b. a + 1000 * ttl \<le> b) (proceeds ttl ops (Some (Reserved, t + 1000 * ttl))) \<and>
          list_all (\<lambda>u. t + 1000 * ttl \<le> u) (proceeds ttl ops (Some (Reserved, t + 1000 * ttl)))"
        by (rule Cons.IH) (use prems Arrive in \<open>auto simp: list_all_iff\<close>)
      have lo: "lo \<le> t"
        using True prems(5,6) Arrive by (cases v) (auto simp: unexpired_def split: prod.splits if_splits)
      have "list_all (\<lambda>u. lo \<le> u) (proceeds ttl ops (Some (Reserved, t + 1000 * ttl)))"
        using ih lo prems(1) by (auto simp: list_all_iff)
      then show ?thesis using ih lo r Arrive by (simp add: list_all_iff)
    next
      case False
      then have r: "reserve ttl t v = (False, v)" and v: "v \<noteq> None"
        by (simp add: reserve_def) (use False in \<open>cases v; simp add: unexpired_def\<close>)
      have "sorted_wrt (\<lambda>a b. a + 1000 * ttl \<le> b) (proceeds ttl ops v) \<and> list_all (\<lambda>t. lo \<le> t) (proceeds ttl ops v)"
        by (rule Cons.IH) (use prems v in auto)
      then show ?thesis using r Arrive by simp
    qed
  next
    case (Keep t status body)
    have "sorted_wrt (\<lambda>a b. a + 1000 * ttl \<le> b) (proceeds ttl ops (keep_answer ttl t status body))
        \<and> list_all (\<lambda>t. lo \<le> t) (proceeds ttl ops (keep_answer ttl t status body))"
      by (rule Cons.IH) (use prems Keep in \<open>auto simp: keep_answer_def\<close>)
    then show ?thesis using Keep by simp
  next
    case (Release t)
    then show ?thesis using prems by (simp add: is_release_def)
  qed
qed simp

lemma proceeds_once:
  assumes "0 < ttl" "sorted (map op_time ops)" "list_all (\<lambda>op. \<not> is_release op) ops"
  shows "sorted_wrt (\<lambda>a b. a + 1000 * ttl \<le> b) (proceeds ttl ops None)"
proof (cases ops)
  case (Cons op rest)
  have "sorted_wrt (\<lambda>a b. a + 1000 * ttl \<le> b) (proceeds ttl ops None) \<and> list_all (\<lambda>t. op_time op \<le> t) (proceeds ttl ops None)"
    by (rule proceeds_spaced[OF assms]) (use Cons assms(1,2) in \<open>force simp: list_all_iff\<close>)+
  then show ?thesis ..
qed simp

text \<open>Once an answer is kept, every request with the key replays it until it expires.\<close>

lemma idempotency_replays:
  assumes "rd_strings s k = Some (Answer status body, e)" "rd_faults s = []"
    and "rd_clock (rd_step s) < e" "rd_clock (rd_step (rd_step s)) < e"
  shows "wp (idempotency ttl k) (\<lambda>a _. a = Replay status body) (\<lambda>_ _. False) s"
  using assms
  by (simp add: idempotency_def wp_simps rd_fault_def reserve_def unexpired_def rd_step_def fun_upd_idem split: list.splits)

end
