(* ===== verification/Schemas.thy ===== *)
theory Schemas
  imports Event_Types Json Errors
begin

text \<open>
  \<open>src/backend/src/api/schemas/publish.js\<close> and \<open>schemas/dashboard.js\<close>: the rules the program adds to
  the request bodies and queries.  Shapes, coercions, email, URL and date checks are the zod package's:
  a schema is a parser given as a parameter, and the predicates below say what the code demands of
  a value the parser lets through, on the parsed value.
\<close>

section \<open>Parsed values\<close>

record publish_body =
  xb_eventType :: string
  xb_payload :: "(string \<times> json) list"
  xb_endpointIds :: "string list option"

definition publishSchema :: "publish_body \<Rightarrow> bool" where
  "publishSchema b \<longleftrightarrow>
    1 \<le> length (xb_eventType b) \<and> length (xb_eventType b) \<le> MAX_EVENT_TYPE_LENGTH
    \<and> EVENT_TYPE_PATTERN (xb_eventType b)
    \<and> (case xb_endpointIds b of None \<Rightarrow> True | Some ids \<Rightarrow> 1 \<le> length ids \<and> list_all (\<lambda>i. 1 \<le> length i) ids)"

definition MIN_PASSWORD_LENGTH :: nat where "MIN_PASSWORD_LENGTH = 12"

definition name_schema :: "string \<Rightarrow> bool" where
  "name_schema v \<longleftrightarrow> 1 \<le> length v \<and> length v \<le> 120"

text \<open>\<open>/^[a-z0-9]+([._-][a-z0-9]+)*\.\*$/\<close>: an event type followed by \<open>.*\<close>.\<close>

definition wildcard_pattern :: "string \<Rightarrow> bool" where
  "wildcard_pattern v \<longleftrightarrow> ends_with v ''.*'' \<and> EVENT_TYPE_PATTERN (take (length v - 2) v)"

definition eventTypePattern :: "string \<Rightarrow> bool" where
  "eventTypePattern v \<longleftrightarrow>
    length v \<le> MAX_EVENT_TYPE_LENGTH + 2 \<and> (EVENT_TYPE_PATTERN v \<or> wildcard_pattern v) \<and> v \<noteq> ''*''"

definition eventTypes_schema :: "string list \<Rightarrow> bool" where
  "eventTypes_schema ts \<longleftrightarrow> length ts \<le> 50 \<and> list_all eventTypePattern ts"

record register_body =
  rb_email :: string
  rb_password :: string
  rb_name :: string
  rb_projectName :: string

definition registerSchema :: "register_body \<Rightarrow> bool" where
  "registerSchema b \<longleftrightarrow>
    length (rb_email b) \<le> 254 \<and> MIN_PASSWORD_LENGTH \<le> length (rb_password b) \<and> length (rb_password b) \<le> 200
    \<and> name_schema (rb_name b) \<and> name_schema (rb_projectName b)"

record login_body =
  lb_email :: string
  lb_password :: string

definition loginSchema :: "login_body \<Rightarrow> bool" where
  "loginSchema b \<longleftrightarrow>
    length (lb_email b) \<le> 254 \<and> 1 \<le> length (lb_password b) \<and> length (lb_password b) \<le> 200"

record project_update_body =
  ub_name :: "string option"
  ub_alertWebhookUrl :: "string option option"

definition projectUpdateSchema :: "project_update_body \<Rightarrow> bool" where
  "projectUpdateSchema b \<longleftrightarrow>
    (case ub_name b of None \<Rightarrow> True | Some n \<Rightarrow> name_schema n)
    \<and> (case ub_alertWebhookUrl b of Some (Some u) \<Rightarrow> length u \<le> 2048 | _ \<Rightarrow> True)
    \<and> (ub_name b \<noteq> None \<or> ub_alertWebhookUrl b \<noteq> None)"

record member_body =
  mb_email :: string
  mb_role :: role

definition default_role :: "role option \<Rightarrow> role" where
  "default_role r = (case r of None \<Rightarrow> MEMBER | Some x \<Rightarrow> x)"

record endpoint_create_body =
  nb_url :: string
  nb_description :: "string option"
  nb_eventTypes :: "string list"
  nb_rateLimitPerMinute :: "int option"

definition rate_schema :: "int option \<Rightarrow> bool" where
  "rate_schema r \<longleftrightarrow> (case r of None \<Rightarrow> True | Some n \<Rightarrow> 1 \<le> n \<and> n \<le> 60000)"

definition endpointCreateSchema :: "endpoint_create_body \<Rightarrow> bool" where
  "endpointCreateSchema b \<longleftrightarrow>
    length (nb_url b) \<le> 2048
    \<and> (case nb_description b of None \<Rightarrow> True | Some d \<Rightarrow> length d \<le> 500)
    \<and> eventTypes_schema (nb_eventTypes b) \<and> rate_schema (nb_rateLimitPerMinute b)"

definition default_event_types :: "string list option \<Rightarrow> string list" where
  "default_event_types ts = (case ts of None \<Rightarrow> [] | Some v \<Rightarrow> v)"

definition default_limit :: "int option \<Rightarrow> int" where
  "default_limit n = (case n of None \<Rightarrow> 50 | Some v \<Rightarrow> v)"

definition limit_schema :: "int \<Rightarrow> bool" where
  "limit_schema n \<longleftrightarrow> 1 \<le> n \<and> n \<le> 200"

definition payloadPath_char :: "char \<Rightarrow> bool" where
  "payloadPath_char c \<longleftrightarrow>
    is_alnum c \<or> (65 \<le> (of_char c :: nat) \<and> (of_char c :: nat) \<le> 90)
    \<or> c = CHR ''_'' \<or> c = CHR ''.'' \<or> c = CHR ''-''"

definition search_schema :: "string option \<Rightarrow> string option \<Rightarrow> bool" where
  "search_schema path v \<longleftrightarrow>
    (case path of None \<Rightarrow> True | Some p \<Rightarrow> 1 \<le> length p \<and> length p \<le> 200 \<and> list_all payloadPath_char p)
    \<and> (case v of None \<Rightarrow> True | Some x \<Rightarrow> length x \<le> 500)
    \<and> (path = None \<or> v \<noteq> None)"

section \<open>Which subscriptions can ever match\<close>

lemma ends_with_star: "ends_with v ''.*'' \<longleftrightarrow> (\<exists>p. v = p @ ''.*'')"
  by (simp add: ends_with_iff)

lemma event_word_dot_word:
  "event_word st p \<Longrightarrow> event_word st (p @ ''.x'')"
  by (induction st p rule: event_word.induct) (auto simp: is_separator_def is_alnum_def is_lower_def is_digit_def split: if_splits)

lemma event_word_no_star: "event_word st s \<Longrightarrow> CHR ''*'' \<notin> set s"
  by (induction st s rule: event_word.induct)
     (auto simp: is_separator_def is_alnum_def is_lower_def is_digit_def split: if_splits)

text \<open>An accepted pattern of at most the length of an event type matches one that can be published.\<close>

lemma pattern_live:
  assumes "eventTypePattern v" "length v \<le> MAX_EVENT_TYPE_LENGTH"
  shows "\<exists>t. isValidEventType t \<and> patternMatches v t"
proof (cases "EVENT_TYPE_PATTERN v")
  case True
  then have "CHR ''*'' \<notin> set v" using event_word_no_star by (simp add: EVENT_TYPE_PATTERN_def)
  then have "\<not> ends_with v ''.*''" "v \<noteq> ''*''" by (auto simp: ends_with_star)
  then show ?thesis using True assms(2) by (intro exI[of _ v]) (simp add: isValidEventType_def patternMatches_def)
next
  case False
  then obtain p where v: "v = p @ ''.*''" and p: "EVENT_TYPE_PATTERN p"
    using assms(1) by (auto simp: eventTypePattern_def wildcard_pattern_def ends_with_star)
  have "patternMatches v (p @ ''.x'')"
    using v by (simp add: patternMatches_def ends_with_star starts_with_def)
  moreover have "isValidEventType (p @ ''.x'')"
    using p assms(2) v event_word_dot_word by (simp add: isValidEventType_def EVENT_TYPE_PATTERN_def)
  ultimately show ?thesis by blast
qed

text \<open>The two characters the schema allows beyond that length buy nothing: such a pattern is dead.\<close>

lemma matches_length:
  assumes "patternMatches v t"
  shows "length v \<le> length t"
proof (cases "ends_with v ''.*''")
  case True
  then obtain p where v: "v = p @ ''.*''" by (auto simp: ends_with_star)
  have "p @ ''.*'' \<noteq> ''*''" by (cases p) auto
  then have "0 < length (drop (length p + 1) t)"
    using assms True v by (simp add: patternMatches_def Let_def split: if_splits)
  then show ?thesis using v by simp
next
  case False
  then show ?thesis using assms by (simp add: patternMatches_def split: if_splits)
qed

lemma pattern_dead: "isValidEventType t \<Longrightarrow> MAX_EVENT_TYPE_LENGTH < length v \<Longrightarrow> \<not> patternMatches v t"
  using matches_length[of v t] by (auto simp: isValidEventType_def)

end
