(* ===== verification/Metrics.thy ===== *)
theory Metrics
  imports Delivery_Service Js_Number "HOL-Library.AList"
begin

text \<open>
  \<open>src/backend/src/api/metrics/\<close>: the labels, the histogram, the Prometheus text format, the publish
  counter and the collection of the families from the database and the broker.  A JavaScript \<open>Map\<close>
  is an association list in insertion order, \<open>set\<close> is \<open>AList.update\<close>.  Number formatting is the
  parameter \<open>num\<close>; a source that runs into its timeout is a source one of whose calls rejects.
\<close>

section \<open>Labels\<close>

definition PUBLISH_RESULTS :: "string list" where
  "PUBLISH_RESULTS = [''accepted'', ''rejected'', ''error'']"

definition NO_RESPONSE_CLASS :: string where "NO_RESPONSE_CLASS = ''none''"
definition UNKNOWN_RESPONSE_CLASS :: string where "UNKNOWN_RESPONSE_CLASS = ''other''"

definition responseClass :: "int option \<Rightarrow> string" where
  "responseClass responseStatus =
    (case responseStatus of
       None \<Rightarrow> NO_RESPONSE_CLASS
     | Some st \<Rightarrow>
        (let hundreds = st div 100 in
         if hundreds < 1 \<or> hundreds > 5 then UNKNOWN_RESPONSE_CLASS else nat_str (nat hundreds) @ ''xx''))"

definition attemptOutcome :: "int option \<Rightarrow> string" where
  "attemptOutcome responseStatus =
    (let succeeded = (case responseStatus of None \<Rightarrow> False | Some st \<Rightarrow> 200 \<le> st \<and> st < 300)
     in if succeeded then ''success'' else ''failure'')"

definition publishResult :: "int \<Rightarrow> string" where
  "publishResult statusCode =
    (if 200 \<le> statusCode \<and> statusCode < 300 then ''accepted''
     else if 400 \<le> statusCode \<and> statusCode < 500 then ''rejected'' else ''error'')"

section \<open>The publish counter\<close>

definition createPublishCounter :: "(string \<times> nat) list" where
  "createPublishCounter = map (\<lambda>r. (r, 0)) PUBLISH_RESULTS"

definition count_in :: "(string \<times> nat) list \<Rightarrow> string \<Rightarrow> nat" where
  "count_in counts k = (case map_of counts k of None \<Rightarrow> 0 | Some n \<Rightarrow> n)"

definition record_result :: "string \<Rightarrow> (string \<times> nat) list \<Rightarrow> (string \<times> nat) list" where
  "record_result r counts = AList.update r (count_in counts r + 1) counts"

text \<open>\<open>publishRequestMetrics\<close>: what the \<open>finish\<close> event of a response does.\<close>

definition publishRequestMetrics :: "int \<Rightarrow> (string \<times> nat) list \<Rightarrow> (string \<times> nat) list" where
  "publishRequestMetrics statusCode = record_result (publishResult statusCode)"

section \<open>Histograms\<close>

record histogram =
  hg_bounds :: "rat list"
  hg_cumulative :: "nat list"
  hg_sum :: rat
  hg_count :: nat

definition summariseObservations :: "rat list \<Rightarrow> (rat \<times> nat) list \<Rightarrow> histogram" where
  "summariseObservations bounds observations =
    \<lparr>hg_bounds = bounds,
     hg_cumulative = map (\<lambda>b. foldl (\<lambda>total e. if fst e \<le> b then total + snd e else total) 0 observations) bounds,
     hg_sum = foldl (\<lambda>total e. total + fst e * of_nat (snd e)) 0 observations,
     hg_count = foldl (\<lambda>total e. total + snd e) 0 observations\<rparr>"

section \<open>The text format\<close>

definition escapeHelp :: "string \<Rightarrow> string" where
  "escapeHelp s = concat (map (\<lambda>c. if c = CHR 0x5C then [CHR 0x5C, CHR 0x5C]
     else if c = CHR 0x0A then [CHR 0x5C, CHR ''n''] else [c]) s)"

definition escapeLabelValue :: "string \<Rightarrow> string" where
  "escapeLabelValue s = concat (map (\<lambda>c. if c = CHR 0x5C then [CHR 0x5C, CHR 0x5C]
     else if c = CHR 0x22 then [CHR 0x5C, CHR 0x22]
     else if c = CHR 0x0A then [CHR 0x5C, CHR ''n''] else [c]) s)"

definition formatValue :: "(rat \<Rightarrow> string) \<Rightarrow> jsnum \<Rightarrow> string" where
  "formatValue num v =
    (case v of NaN \<Rightarrow> ''NaN'' | Infinity True \<Rightarrow> ''+Inf'' | Infinity False \<Rightarrow> ''-Inf'' | Fin q \<Rightarrow> num q)"

definition formatLabels :: "(string \<times> string option) list \<Rightarrow> string" where
  "formatLabels labels =
    (let pairs = List.map_filter (\<lambda>(name, v). map_option (Pair name) v) labels in
     if pairs = [] then []
     else ''{'' @ join '','' (map (\<lambda>(name, v). name @ ''='' @ [CHR 0x22] @ escapeLabelValue v @ [CHR 0x22]) pairs) @ ''}'')"

definition sampleLine :: "(rat \<Rightarrow> string) \<Rightarrow> string \<Rightarrow> (string \<times> string option) list \<Rightarrow> jsnum \<Rightarrow> string" where
  "sampleLine num name labels v = name @ formatLabels labels @ '' '' @ formatValue num v"

record sample =
  sm_labels :: "(string \<times> string option) list"
  sm_value :: jsnum

datatype family_kind = Samples string "sample list" | Histogram histogram

record family =
  fm_name :: string
  fm_help :: string
  fm_kind :: family_kind

definition BUCKET_SUFFIX :: string where "BUCKET_SUFFIX = ''_bucket''"

definition histogramLines :: "(rat \<Rightarrow> string) \<Rightarrow> string \<Rightarrow> histogram \<Rightarrow> string list" where
  "histogramLines num name h =
    map2 (\<lambda>b c. sampleLine num (name @ BUCKET_SUFFIX) [(''le'', Some (formatValue num (Fin b)))] (Fin (of_nat c)))
      (hg_bounds h) (hg_cumulative h)
    @ [sampleLine num (name @ BUCKET_SUFFIX) [(''le'', Some ''+Inf'')] (Fin (of_nat (hg_count h))),
       sampleLine num (name @ ''_sum'') [] (Fin (hg_sum h)),
       sampleLine num (name @ ''_count'') [] (Fin (of_nat (hg_count h)))]"

definition familyLines :: "(rat \<Rightarrow> string) \<Rightarrow> family \<Rightarrow> string list" where
  "familyLines num f =
    (case fm_kind f of
       Histogram h \<Rightarrow> histogramLines num (fm_name f) h
     | Samples _ ss \<Rightarrow> map (\<lambda>s. sampleLine num (fm_name f) (sm_labels s) (sm_value s)) ss)"

definition family_type :: "family \<Rightarrow> string" where
  "family_type f = (case fm_kind f of Histogram _ \<Rightarrow> ''histogram'' | Samples t _ \<Rightarrow> t)"

definition family_block :: "(rat \<Rightarrow> string) \<Rightarrow> family \<Rightarrow> string list" where
  "family_block num f =
    [''# HELP '' @ fm_name f @ '' '' @ escapeHelp (fm_help f), ''# TYPE '' @ fm_name f @ '' '' @ family_type f]
    @ familyLines num f"

definition renderMetrics :: "(rat \<Rightarrow> string) \<Rightarrow> family list \<Rightarrow> string" where
  "renderMetrics num families =
    join [CHR 0x0A, CHR 0x0A] (map (\<lambda>f. join [CHR 0x0A] (family_block num f)) families) @ [CHR 0x0A]"

section \<open>Collection\<close>

definition SEEDED_ATTEMPT_LABELS :: "(string \<times> string) list" where
  "SEEDED_ATTEMPT_LABELS =
    [(''success'', ''2xx''), (''failure'', ''4xx''), (''failure'', ''5xx''), (''failure'', ''none'')]"

definition DURATION_BUCKET_SECONDS :: "rat list" where
  "DURATION_BUCKET_SECONDS = [1/20, 1/10, 1/4, 1/2, 1, 5/2, 5, 10, 30]"

definition SOURCE_TIMEOUT_MS :: int where "SOURCE_TIMEOUT_MS = 2000"

text \<open>\<open>safely\<close>: a failed source counts as no families.\<close>

definition safely :: "family list act \<Rightarrow> family list act" where
  "safely m = io_catch m (\<lambda>_. io_ret [])"

definition labelled :: "(string \<times> string) list \<Rightarrow> nat \<Rightarrow> sample" where
  "labelled labels n = \<lparr>sm_labels = map (\<lambda>(k, v). (k, Some v)) labels, sm_value = Fin (of_nat n)\<rparr>"

definition publishFamily :: "(string \<times> nat) list \<Rightarrow> family" where
  "publishFamily counter =
    \<lparr>fm_name = ''hooktracker_publish_requests_total'',
     fm_help = ''Publish requests answered by this API instance, by outcome.'',
     fm_kind = Samples ''counter'' (map (\<lambda>(r, n). labelled [(''result'', r)] n) counter)\<rparr>"

text \<open>\<open>groupBy\<close> with \<open>_count\<close>.\<close>

definition group_counts :: "('r \<Rightarrow> 'k) \<Rightarrow> 'r list \<Rightarrow> ('k \<times> nat) list" where
  "group_counts key rows = map (\<lambda>k. (k, length (filter (\<lambda>r. key r = k) rows))) (remdups (map key rows))"

definition status_counts :: "(delivery_status \<times> nat) list \<Rightarrow> (delivery_status \<times> nat) list" where
  "status_counts grouped =
    foldl (\<lambda>counts (st, n). AList.update st n counts) (map (\<lambda>st. (st, 0)) DELIVERY_STATUS_VALUES) grouped"

definition deliveriesFamily :: "family list act" where
  "deliveriesFamily =
    io_bind (query (\<lambda>w. group_counts d_status (deliveries w))) (\<lambda>grouped.
      io_ret [\<lparr>fm_name = ''hooktracker_deliveries_total'', fm_help = ''Delivery rows currently in each status.'',
        fm_kind = Samples ''gauge'' (map (\<lambda>(st, n). labelled [(''status'', status_text st)] n) (status_counts grouped))\<rparr>])"

definition attempt_key :: "int option \<Rightarrow> string \<times> string" where
  "attempt_key st = (attemptOutcome st, responseClass st)"

definition attempt_counts :: "(int option \<times> nat) list \<Rightarrow> ((string \<times> string) \<times> nat) list" where
  "attempt_counts grouped =
    foldl (\<lambda>counts (st, n). AList.update (attempt_key st)
        ((case map_of counts (attempt_key st) of None \<Rightarrow> 0 | Some m \<Rightarrow> m) + n) counts)
      (map (\<lambda>k. (k, 0)) SEEDED_ATTEMPT_LABELS) grouped"

definition attemptsFamily :: "family list act" where
  "attemptsFamily =
    io_bind (query (\<lambda>w. group_counts a_responseStatus (attempts w))) (\<lambda>grouped.
      io_ret [\<lparr>fm_name = ''hooktracker_delivery_attempts_total'',
        fm_help = ''Delivery attempts recorded, by outcome and response class.'',
        fm_kind = Samples ''counter'' (map (\<lambda>((o1, c1), n). labelled [(''outcome'', o1), (''response_class'', c1)] n)
          (attempt_counts grouped))\<rparr>])"

text \<open>The raw statement: one count per bound, over the attempts with a duration.\<close>

definition duration_histogram :: "int list \<Rightarrow> histogram" where
  "duration_histogram ms =
    \<lparr>hg_bounds = DURATION_BUCKET_SECONDS,
     hg_cumulative = map (\<lambda>b. length (filter (\<lambda>d. d \<le> js_round (b * 1000)) ms)) DURATION_BUCKET_SECONDS,
     hg_sum = of_int (sum_list ms) / 1000,
     hg_count = length ms\<rparr>"

definition durationFamily :: "family list act" where
  "durationFamily =
    io_bind (query (\<lambda>w. List.map_filter a_durationMs (attempts w))) (\<lambda>ms.
      io_ret [\<lparr>fm_name = ''hooktracker_delivery_duration_seconds'',
        fm_help = ''Wall-clock duration of recorded delivery attempts.'',
        fm_kind = Histogram (duration_histogram ms)\<rparr>])"

definition attempt_bounds :: "nat \<Rightarrow> rat list" where
  "attempt_bounds maxAttempts = map (\<lambda>i. of_nat (i + 1)) [0..<maxAttempts]"

definition attemptNumberFamily :: "nat \<Rightarrow> family list act" where
  "attemptNumberFamily maxAttempts =
    io_bind (query (\<lambda>w. group_counts a_attemptNumber (attempts w))) (\<lambda>grouped.
      io_ret [\<lparr>fm_name = ''hooktracker_delivery_attempt_number'',
        fm_help = ''Which attempt of the ladder a delivery attempt was.'',
        fm_kind = Histogram (summariseObservations (attempt_bounds maxAttempts)
          (map (\<lambda>(v, n). (of_int v, n)) grouped))\<rparr>])"

definition endpointsDisabledFamily :: "family list act" where
  "endpointsDisabledFamily =
    io_bind (query (\<lambda>w. length (filter (\<lambda>e. e_status e = DISABLED) (endpoints w)))) (\<lambda>n.
      io_ret [\<lparr>fm_name = ''hooktracker_endpoints_disabled_total'',
        fm_help = ''Endpoints currently disabled, by auto-disable or by an operator.'',
        fm_kind = Samples ''gauge'' [labelled [] n]\<rparr>])"

text \<open>\<open>depth\<close> is the broker's answer to \<open>checkQueue\<close>; opening and closing the channel are calls too,
  and the channel is closed whether or not the checks succeed.\<close>

definition queueFamilies :: "(string \<Rightarrow> world \<Rightarrow> nat) \<Rightarrow> topology \<Rightarrow> family list act" where
  "queueFamilies depth t =
    io_seq (query (\<lambda>_. ()))
    (io_bind (io_mapM (\<lambda>q. io_bind (query (depth q)) (\<lambda>n. io_ret (q, n))) (allQueueNames t)) (\<lambda>depths.
      io_ret
        [\<lparr>fm_name = ''hooktracker_queue_depth'', fm_help = ''Messages waiting on each queue of the delivery topology.'',
          fm_kind = Samples ''gauge'' (map (\<lambda>(q, n). labelled [(''queue'', q)] n) depths)\<rparr>,
         \<lparr>fm_name = ''hooktracker_dlq_size'', fm_help = ''Messages waiting on the dead-letter queue.'',
          fm_kind = Samples ''gauge'' [labelled [] (count_in depths (tp_deadLetterQueue t))]\<rparr>]))"

definition sources :: "(string \<Rightarrow> world \<Rightarrow> nat) \<Rightarrow> topology \<Rightarrow> nat \<Rightarrow> family list act list" where
  "sources depth t maxAttempts =
    [deliveriesFamily, attemptsFamily, durationFamily, attemptNumberFamily maxAttempts,
     endpointsDisabledFamily, queueFamilies depth t]"

definition collectMetrics ::
  "(string \<Rightarrow> world \<Rightarrow> nat) \<Rightarrow> topology \<Rightarrow> (string \<times> nat) list \<Rightarrow> nat \<Rightarrow> family list act" where
  "collectMetrics depth t counter maxAttempts =
    io_bind (io_mapM safely (sources depth t maxAttempts)) (\<lambda>collected.
      io_ret (publishFamily counter # concat collected))"

section \<open>Grouping loses nothing\<close>

lemma sum_counts_distinct:
  "distinct ks \<Longrightarrow>
   sum_list (map (\<lambda>k. if P k then length (filter (\<lambda>r. key r = k) rows) else 0) ks)
     = length (filter (\<lambda>r. key r \<in> set ks \<and> P (key r)) rows)"
proof (induction ks)
  case (Cons k ks)
  have "length (filter (\<lambda>r. key r \<in> set (k # ks) \<and> P (key r)) rows) =
    (if P k then length (filter (\<lambda>r. key r = k) rows) else 0) + length (filter (\<lambda>r. key r \<in> set ks \<and> P (key r)) rows)"
    using Cons.prems by (induction rows) auto
  then show ?case using Cons by simp
qed simp

lemma group_counts_sum:
  fixes key :: "'r \<Rightarrow> 'k"
  shows "sum_list (map snd (filter (P \<circ> fst) (group_counts key rows))) = length (filter (\<lambda>r. P (key r)) rows)"
proof -
  have "sum_list (map snd (filter (P \<circ> fst) (map (\<lambda>k. (k, c k)) ks))) = sum_list (map (\<lambda>k. if P k then c k else 0) ks)"
    for c :: "'k \<Rightarrow> nat" and ks by (induction ks) auto
  then have "sum_list (map snd (filter (P \<circ> fst) (group_counts key rows)))
      = length (filter (\<lambda>r. key r \<in> set (remdups (map key rows)) \<and> P (key r)) rows)"
    unfolding group_counts_def by (simp add: sum_counts_distinct del: set_remdups)
  also have "filter (\<lambda>r. key r \<in> set (remdups (map key rows)) \<and> P (key r)) rows = filter (\<lambda>r. P (key r)) rows"
    by (rule filter_cong) auto
  finally show ?thesis .
qed

lemma group_counts_map_of:
  "map_of (group_counts key rows) k = (if k \<in> key ` set rows then Some (length (filter (\<lambda>r. key r = k) rows)) else None)"
  by (auto simp: group_counts_def map_of_map_restrict restrict_map_def)

lemma group_counts_distinct: "distinct (map fst (group_counts key rows))"
  by (simp add: group_counts_def comp_def)

text \<open>A grouped histogram counts what counting row by row would.\<close>

lemma foldl_count:
  "foldl (\<lambda>total e. if P e then total + snd e else total) n es = n + sum_list (map snd (filter P es))" for n :: nat
  by (induction es arbitrary: n) auto

lemma foldl_total: "foldl (\<lambda>total e. total + snd e) n es = n + sum_list (map snd es)" for n :: nat
  by (induction es arbitrary: n) auto

lemma summarise_cumulative:
  "hg_cumulative (summariseObservations bounds es) = map (\<lambda>b. sum_list (map snd (filter (\<lambda>e. fst e \<le> b) es))) bounds"
  by (simp add: summariseObservations_def foldl_count)

lemma summarise_count: "hg_count (summariseObservations bounds es) = sum_list (map snd es)"
  by (simp add: summariseObservations_def foldl_total)

lemma attempt_histogram:
  fixes key :: "'r \<Rightarrow> int" and rows :: "'r list" and bounds :: "rat list"
  defines "h \<equiv> summariseObservations bounds (map (\<lambda>(v, n). (of_int v, n)) (group_counts key rows))"
  shows "hg_cumulative h = map (\<lambda>b. length (filter (\<lambda>r. of_int (key r) \<le> b) rows)) bounds"
    "hg_count h = length rows"
proof -
  have "sum_list (map snd (filter (\<lambda>e. fst e \<le> b) (map (\<lambda>(v, n). (of_int v, n)) es)))
      = sum_list (map snd (filter ((\<lambda>v. of_int v \<le> b) \<circ> fst) es))" for b :: rat and es :: "(int \<times> nat) list"
    by (induction es) auto
  then show "hg_cumulative h = map (\<lambda>b. length (filter (\<lambda>r. of_int (key r) \<le> b) rows)) bounds"
    unfolding h_def summarise_cumulative by (simp add: group_counts_sum)
  have "sum_list (map snd (map (\<lambda>(v, n). (of_int v :: rat, n)) es)) = sum_list (map snd es)" for es :: "(int \<times> nat) list"
    by (induction es) auto
  then show "hg_count h = length rows"
    unfolding h_def summarise_count using group_counts_sum[of "\<lambda>_. True" key rows] by (simp add: comp_def)
qed

lemma cumulative_mono:
  assumes "sorted bounds"
  shows "sorted (hg_cumulative (summariseObservations bounds es))"
    "list_all (\<lambda>c. c \<le> hg_count (summariseObservations bounds es)) (hg_cumulative (summariseObservations bounds es))"
proof -
  have mono: "sum_list (map snd (filter (\<lambda>e. fst e \<le> b) es)) \<le> sum_list (map snd (filter (\<lambda>e. fst e \<le> b') es))"
    if "b \<le> b'" for b b' and es :: "(rat \<times> nat) list" using that by (induction es) auto
  show "sorted (hg_cumulative (summariseObservations bounds es))"
    unfolding summarise_cumulative sorted_map using assms by (rule sorted_wrt_mono_rel[rotated]) (simp add: mono)
  have "sum_list (map snd (filter (\<lambda>e. fst e \<le> b) es)) \<le> sum_list (map snd es)" for b
    by (induction es) auto
  then show "list_all (\<lambda>c. c \<le> hg_count (summariseObservations bounds es)) (hg_cumulative (summariseObservations bounds es))"
    unfolding summarise_cumulative summarise_count by (simp add: list_all_iff)
qed

section \<open>The gauges are exact\<close>

lemma update_all_map_of:
  "map_of (foldl (\<lambda>counts (k, n). AList.update k n counts) cs es) k =
    (case map_of (rev es) k of Some n \<Rightarrow> Some n | None \<Rightarrow> map_of cs k)"
proof (induction es arbitrary: cs)
  case (Cons e es)
  show ?case unfolding foldl_Cons Cons.IH
    by (cases e) (auto simp: map_of_append update_Some_unfold update_conv' map_add_def split: option.split)
qed simp

lemma status_counts_exact:
  "map_of (status_counts (group_counts d_status rows)) st = Some (length (filter (\<lambda>d. d_status d = st) rows))"
proof -
  have rev: "map_of (rev (group_counts d_status rows)) = map_of (group_counts d_status rows)"
    by (subst map_of_inject_set) (simp_all add: rev_map[symmetric] group_counts_distinct)
  have "length (filter (\<lambda>d. d_status d = st) rows) = 0" if "st \<notin> d_status ` set rows"
    using that by (auto simp: filter_empty_conv)
  moreover have "map_of (map (\<lambda>st. (st, 0 :: nat)) DELIVERY_STATUS_VALUES) st = Some 0"
    by (simp add: map_of_map_restrict DELIVERY_STATUS_VALUES_complete)
  ultimately show ?thesis
    unfolding status_counts_def update_all_map_of rev group_counts_map_of by auto
qed

text \<open>\<open>attempt_counts\<close> folds the groups of a status into those of its class: no attempt is dropped.\<close>

definition total :: "('k \<times> nat) list \<Rightarrow> nat" where
  "total cs = sum_list (map snd cs)"

lemma total_update:
  "total (AList.update k ((case map_of cs k of None \<Rightarrow> 0 | Some m \<Rightarrow> m) + n) cs) = total cs + n"
  by (induction cs) (auto simp: total_def)

lemma attempt_counts_total: "total (attempt_counts grouped) = total grouped"
proof -
  have "total (foldl (\<lambda>counts (st, n). AList.update (attempt_key st)
        ((case map_of counts (attempt_key st) of None \<Rightarrow> 0 | Some m \<Rightarrow> m) + n) counts) cs grouped) = total cs + total grouped" for cs
  proof (induction grouped arbitrary: cs)
    case (Cons g gs)
    then show ?case by (cases g) (simp add: total_update, simp add: total_def)
  qed (simp add: total_def)
  then show ?thesis by (simp add: attempt_counts_def total_def SEEDED_ATTEMPT_LABELS_def)
qed

lemma attempts_counted: "total (attempt_counts (group_counts a_responseStatus rows)) = length rows"
  unfolding attempt_counts_total using group_counts_sum[of "\<lambda>_. True" a_responseStatus rows]
  by (simp add: total_def comp_def)

section \<open>Labels are few and a sample is one line\<close>

lemma responseClass_values:
  "responseClass st \<in> {''none'', ''other'', ''1xx'', ''2xx'', ''3xx'', ''4xx'', ''5xx''}"
proof (cases st)
  case (Some s)
  show ?thesis
  proof (cases "s div 100 < 1 \<or> 5 < s div 100")
    case False
    have five: "d = 1 \<or> d = 2 \<or> d = 3 \<or> d = 4 \<or> d = 5" if "1 \<le> d" "d \<le> 5" for d :: int using that by presburger
    from five[of "s div 100"] False
    have "s div 100 = 1 \<or> s div 100 = 2 \<or> s div 100 = 3 \<or> s div 100 = 4 \<or> s div 100 = 5" by linarith
    moreover have "nat_str 1 = ''1''" "nat_str 2 = ''2''" "nat_str 3 = ''3''" "nat_str 4 = ''4''" "nat_str 5 = ''5''"
      by code_simp+
    ultimately show ?thesis using Some by (elim disjE) (simp_all add: responseClass_def)
  qed (simp add: Some responseClass_def UNKNOWN_RESPONSE_CLASS_def)
qed (simp add: responseClass_def NO_RESPONSE_CLASS_def)

lemma escapeLabelValue_line: "CHR 0x0A \<notin> set (escapeLabelValue s)"
  by (induction s) (auto simp: escapeLabelValue_def)

lemma escapeHelp_line: "CHR 0x0A \<notin> set (escapeHelp s)"
  by (induction s) (auto simp: escapeHelp_def)

lemma join_chars: "c \<in> set (join sep xs) \<Longrightarrow> c \<in> set sep \<or> (\<exists>x \<in> set xs. c \<in> set x)"
  by (induction sep xs rule: join.induct) auto

lemma sampleLine_line:
  assumes "CHR 0x0A \<notin> set name" "\<And>n v. (n, v) \<in> set labels \<Longrightarrow> CHR 0x0A \<notin> set n"
    and "CHR 0x0A \<notin> set (formatValue num v)"
  shows "CHR 0x0A \<notin> set (sampleLine num name labels v)"
proof -
  have "CHR 0x0A \<notin> set (formatLabels labels)"
    using assms(2) escapeLabelValue_line
    by (auto simp: formatLabels_def Let_def map_filter_def split: option.splits dest!: join_chars)
  then show ?thesis using assms(1,3) by (simp add: sampleLine_def)
qed

section \<open>A scrape does not fail\<close>

definition tables_kept :: "world \<Rightarrow> world \<Rightarrow> bool" where
  "tables_kept w w' \<longleftrightarrow> deliveries w' = deliveries w \<and> attempts w' = attempts w \<and> endpoints w' = endpoints w
     \<and> events w' = events w \<and> published w' = published w"

interpretation tk: frame_order tables_kept
  by unfold_locales (auto simp: tables_kept_def)

lemma query_kept: "keeps tables_kept (query g)"
  by (auto simp: keeps_def query_def tables_kept_def split: fault.split)

lemma mapM_kept: "(\<And>x. x \<in> set xs \<Longrightarrow> keeps tables_kept (body x)) \<Longrightarrow> keeps tables_kept (io_mapM body xs)"
  by (induction xs) (auto intro!: tk.keeps_intros)

lemma sources_kept: "m \<in> set (sources depth t n) \<Longrightarrow> keeps tables_kept m"
  unfolding sources_def
  by (auto simp: deliveriesFamily_def attemptsFamily_def durationFamily_def attemptNumberFamily_def
      endpointsDisabledFamily_def queueFamilies_def intro!: tk.keeps_intros query_kept mapM_kept)

lemma collect_kept: "keeps tables_kept (collectMetrics depth t counter n)"
  unfolding collectMetrics_def safely_def
  by (intro tk.keeps_intros mapM_kept sources_kept) auto

lemma safely_total: "\<exists>fs w'. safely m w = (Inr fs, w')"
  by (cases "m w") (auto simp: safely_def io_catch_def io_ret_def split: sum.split)

lemma mapM_safely: "\<exists>fs w'. io_mapM safely ms w = (Inr fs, w')"
proof (induction ms arbitrary: w)
  case (Cons m ms)
  obtain f w1 where "safely m w = (Inr f, w1)" using safely_total by blast
  moreover obtain fs w2 where "io_mapM safely ms w1 = (Inr fs, w2)" using Cons by blast
  ultimately show ?case by (simp add: io_defs)
qed (simp add: io_ret_def)

lemma collect_wp:
  "wp (collectMetrics depth t counter n) (\<lambda>fs w'. publishFamily counter \<in> set fs \<and> tables_kept w w') (\<lambda>_ _. False) w"
proof -
  have "wp (collectMetrics depth t counter n) (\<lambda>fs _. publishFamily counter \<in> set fs) (\<lambda>_ _. False) w"
    using mapM_safely[of "sources depth t n" w]
    by (auto simp: collectMetrics_def wp_simps wp_def io_defs)
  from tk.keeps_wp[OF collect_kept this] show ?thesis by simp
qed

lemma counter_total: "total (record_result r cs) = Suc (total cs)"
  using total_update[of r cs 1] by (simp add: record_result_def count_in_def)

end
