(* ===== verification/Realtime_Socket.thy ===== *)
theory Realtime_Socket
  imports Middleware Alerts "HOL-Library.Word"
begin

text \<open>
  \<open>src/backend/src/api/realtime/socket.js\<close>: the handshake of a dashboard socket, the timer that ends
  it, the budget of messages per project and second, and the bridge from Redis to the rooms.
  Socket.IO is the library's; what is modelled is which sockets join which rooms, and which message is
  emitted to which room.
\<close>

definition MILLISECOND :: int where "MILLISECOND = 1000"
definition MAX_TIMEOUT_MS :: int where "MAX_TIMEOUT_MS = 2147483647"

definition socketExpiryDelay :: "int \<Rightarrow> int \<Rightarrow> int" where
  "socketExpiryDelay expiresAtSeconds nowMs = min (expiresAtSeconds * MILLISECOND - nowMs) MAX_TIMEOUT_MS"

definition roomFor :: "string \<Rightarrow> string" where
  "roomFor projectId = ''project:'' @ projectId"

section \<open>The budget\<close>

record throttle_window =
  tw_second :: int
  tw_count :: int

definition allow :: "int \<Rightarrow> string \<Rightarrow> int \<Rightarrow> (string \<rightharpoonup> throttle_window) \<Rightarrow> bool \<times> (string \<rightharpoonup> throttle_window)" where
  "allow limitPerSecond projectId nowMs windows =
    (let second = nowMs div MILLISECOND;
         fresh_window = (True, windows(projectId \<mapsto> \<lparr>tw_second = second, tw_count = 1\<rparr>))
     in (case windows projectId of
           None \<Rightarrow> fresh_window
         | Some current \<Rightarrow>
             if tw_second current \<noteq> second then fresh_window
             else if limitPerSecond \<le> tw_count current then (False, windows)
             else (True, windows(projectId \<mapsto> current\<lparr>tw_count := tw_count current + 1\<rparr>))))"

section \<open>The handshake\<close>

record socket_data =
  sd_userId :: string
  sd_projectIds :: "string list"
  sd_expiresAt :: int

definition handshake_refused :: exn where
  "handshake_refused = JsError None None ''unauthorized''"

definition handshake :: "(int \<Rightarrow> string \<Rightarrow> exn + jwt_payload) \<Rightarrow> string option \<Rightarrow> socket_data act" where
  "handshake verify token =
    io_catch
      (case token of
         None \<Rightarrow> io_raise handshake_refused
       | Some tok \<Rightarrow>
           if tok = [] then io_raise handshake_refused
           else
             io_bind now (\<lambda>t.
             io_bind (lift (verifyAccessToken (verify t) tok)) (\<lambda>payload.
             io_bind (query (memberships_of (jp_sub payload))) (\<lambda>ms.
               io_ret \<lparr>sd_userId = jp_sub payload, sd_projectIds = map am_projectId ms,
                       sd_expiresAt = jp_exp payload\<rparr>))))
      (\<lambda>_. io_raise handshake_refused)"

text \<open>What the \<open>connection\<close> listener does: the rooms the socket joins, then either its disconnection
  or the delay of the timer that disconnects it.\<close>

datatype lifetime = Disconnected | Ends_After int

definition connection :: "socket_data \<Rightarrow> int \<Rightarrow> string list \<times> lifetime" where
  "connection d nowMs =
    (let msUntilExpiry = socketExpiryDelay (sd_expiresAt d) nowMs
     in (map roomFor (sd_projectIds d), if msUntilExpiry \<le> 0 then Disconnected else Ends_After msUntilExpiry))"

section \<open>The bridge\<close>

definition REALTIME_CHANNEL_PREFIX :: string where "REALTIME_CHANNEL_PREFIX = ''realtime''"

text \<open>\<open>pmessage\<close>: the project is what follows the prefix of the channel; \<open>parse\<close> is \<open>JSON.parse\<close>
  with the two fields read.  The result is the emission, if any: room, event and payload.\<close>

definition on_message ::
  "(string \<Rightarrow> exn + string \<times> json) \<Rightarrow> int \<Rightarrow> int \<Rightarrow> string \<Rightarrow> string \<Rightarrow> (string \<rightharpoonup> throttle_window)
    \<Rightarrow> (string \<times> string \<times> json) option \<times> (string \<rightharpoonup> throttle_window)" where
  "on_message parse limitPerSecond nowMs channel raw windows =
    (let projectId = drop (length REALTIME_CHANNEL_PREFIX + 1) channel in
     (case allow limitPerSecond projectId nowMs windows of
        (False, windows') \<Rightarrow> (None, windows')
      | (True, windows') \<Rightarrow>
          (case parse raw of
             Inl _ \<Rightarrow> (None, windows')
           | Inr (event, payload) \<Rightarrow> (Some (roomFor projectId, event, payload), windows'))))"

section \<open>Facts\<close>

text \<open>A delay fits the signed 32 bits of a timer and never reaches past the token's expiry.\<close>

lemma socketExpiryDelay_fits:
  assumes "0 < socketExpiryDelay e t"
  shows "sint (word_of_int (socketExpiryDelay e t) :: 32 word) = socketExpiryDelay e t"
    "t + socketExpiryDelay e t \<le> e * MILLISECOND"
proof -
  have "socketExpiryDelay e t \<le> 2147483647" by (simp add: socketExpiryDelay_def MAX_TIMEOUT_MS_def)
  then show "sint (word_of_int (socketExpiryDelay e t) :: 32 word) = socketExpiryDelay e t"
    using assms by (simp add: signed_of_int signed_take_bit_int_eq_self)
  show "t + socketExpiryDelay e t \<le> e * MILLISECOND" by (simp add: socketExpiryDelay_def)
qed

text \<open>The messages of a run: project and time of each, and which of them were let through.\<close>

fun allowed_run :: "int \<Rightarrow> (string \<times> int) list \<Rightarrow> (string \<rightharpoonup> throttle_window) \<Rightarrow> (string \<times> int) list" where
  "allowed_run limit [] ws = []"
| "allowed_run limit ((p, t) # ms) ws =
    (case allow limit p t ws of
       (ok, ws') \<Rightarrow> (if ok then (p, t) # allowed_run limit ms ws' else allowed_run limit ms ws'))"

definition emitted_in :: "string \<Rightarrow> int \<Rightarrow> (string \<times> int) list \<Rightarrow> int" where
  "emitted_in p s ms = int (length (filter (\<lambda>m. fst m = p \<and> snd m div MILLISECOND = s) ms))"

definition used_in :: "string \<Rightarrow> int \<Rightarrow> (string \<rightharpoonup> throttle_window) \<Rightarrow> int" where
  "used_in p s ws = (case ws p of None \<Rightarrow> 0 | Some v \<Rightarrow> if tw_second v = s then tw_count v else 0)"

definition windows_ok :: "int \<Rightarrow> (string \<rightharpoonup> throttle_window) \<Rightarrow> bool" where
  "windows_ok limit ws \<longleftrightarrow> (\<forall>p v. ws p = Some v \<longrightarrow> tw_count v \<le> limit)"

lemma allowed_run_sub: "set (allowed_run limit ms ws) \<subseteq> set ms"
proof (induction ms arbitrary: ws)
  case (Cons m ms)
  obtain p t where m: "m = (p, t)" by fastforce
  obtain ok ws' where "allow limit p t ws = (ok, ws')" by fastforce
  then show ?case using Cons[of ws'] m by auto
qed simp

lemma emitted_none:
  assumes "list_all (\<lambda>m. s < snd m div MILLISECOND) ms"
  shows "emitted_in p s (allowed_run limit ms ws) = 0"
  using assms allowed_run_sub[of limit ms ws] by (force simp: emitted_in_def filter_empty_conv list_all_iff)

lemma allow_windows:
  assumes "allow limit q t ws = (ok, ws')"
  shows "windows_ok limit ws \<Longrightarrow> 1 \<le> limit \<Longrightarrow> windows_ok limit ws'"
    "p \<noteq> q \<Longrightarrow> ws' p = ws p" "ws' q \<noteq> None" "ws' q = Some v \<Longrightarrow> tw_second v = t div MILLISECOND"
    "used_in q (t div MILLISECOND) ws' = used_in q (t div MILLISECOND) ws + (if ok then 1 else 0)"
  using assms by (auto simp: allow_def windows_ok_def used_in_def Let_def split: option.splits if_splits)

lemma throttle_bound:
  assumes "1 \<le> limit" "windows_ok limit ws" "sorted (map snd ms)"
    and "\<And>v. ws p = Some v \<Longrightarrow> list_all (\<lambda>m. tw_second v \<le> snd m div MILLISECOND) ms"
  shows "emitted_in p s (allowed_run limit ms ws) + used_in p s ws \<le> limit"
  using assms
proof (induction ms arbitrary: ws)
  case Nil
  then show ?case by (auto simp: emitted_in_def used_in_def windows_ok_def split: option.split)
next
  case (Cons m ms)
  obtain q t where m: "m = (q, t)" by fastforce
  obtain ok ws' where a: "allow limit q t ws = (ok, ws')" by fastforce
  have later: "list_all (\<lambda>m. t div MILLISECOND \<le> snd m div MILLISECOND) ms"
    using Cons.prems(3) m by (auto simp: list_all_iff MILLISECOND_def intro: zdiv_mono1)
  have side: "list_all (\<lambda>m. tw_second v \<le> snd m div MILLISECOND) ms" if "ws' p = Some v" for v
    using that later Cons.prems(4) allow_windows(2,4)[OF a] by (cases "q = p") auto
  have ih: "emitted_in p s (allowed_run limit ms ws') + used_in p s ws' \<le> limit"
    using Cons.IH[OF Cons.prems(1) allow_windows(1)[OF a Cons.prems(2,1)] _ side] Cons.prems(3) by simp
  have run: "emitted_in p s (allowed_run limit (m # ms) ws) =
      (if ok \<and> q = p \<and> t div MILLISECOND = s then 1 else 0) + emitted_in p s (allowed_run limit ms ws')"
    using a m by (simp add: emitted_in_def)
  have used: "used_in p s ws \<le> limit"
    using Cons.prems(1,2) by (auto simp: used_in_def windows_ok_def split: option.split)
  consider "q \<noteq> p" | "q = p" "t div MILLISECOND = s" | "q = p" "s < t div MILLISECOND" | "q = p" "t div MILLISECOND < s"
    by linarith
  then show ?case
  proof cases
    case 1
    then show ?thesis using ih run allow_windows(2)[OF a, of p] by (simp add: used_in_def)
  next
    case 2
    then show ?thesis using ih run allow_windows(5)[OF a] by auto
  next
    case 3
    then have "list_all (\<lambda>m. s < snd m div MILLISECOND) ms" using later by (auto simp: list_all_iff)
    then show ?thesis using 3 run used emitted_none by simp
  next
    case 4
    then have "used_in p s ws = 0"
      using Cons.prems(4) m by (auto simp: used_in_def split: option.split)
    moreover have "used_in p s ws' = 0"
      using 4 allow_windows(4)[OF a] by (auto simp: used_in_def split: option.split)
    ultimately show ?thesis using 4 ih run by simp
  qed
qed

lemma throttle_budget:
  assumes "1 \<le> limit" "sorted (map snd ms)"
  shows "emitted_in p s (allowed_run limit ms Map.empty) \<le> limit"
  using throttle_bound[OF assms(1) _ assms(2), of Map.empty p s] by (simp add: windows_ok_def used_in_def)

text \<open>A message goes to the room of the project whose channel it was published on, and a socket is in
  the rooms of the projects its user belonged to at the handshake.\<close>

lemma on_message_room:
  "fst (on_message parse limit t (realtimeChannel p) raw ws) = Some (room, e, b) \<Longrightarrow> room = roomFor p"
  by (auto simp: on_message_def realtimeChannel_def REALTIME_CHANNEL_PREFIX_def Let_def
      split: prod.splits bool.splits sum.splits)

lemma handshake_wp:
  "wp (handshake verify token)
     (\<lambda>d w'. \<forall>p \<in> set (sd_projectIds d). \<exists>m \<in> set (memberships w). m_userId m = sd_userId d \<and> m_projectId m = p)
     (\<lambda>e w'. e = handshake_refused) w"
  unfolding handshake_def
  by (auto simp: wp_simps verifyAccessToken_def memberships_of_def Let_def
      split: fault.splits option.splits sum.splits)

end
