(* ===== verification/Routes.thy ===== *)
theory Routes
  imports Rate_Limit Idempotency Schemas Metrics Endpoint_Service Event_Service
begin

text \<open>
  \<open>src/backend/src/api/app.js\<close> and \<open>src/backend/src/api/routes/\<close>: from a request to a response.
  Express is the library's: a request arrives with its path split into decoded segments and its body as
  the body parser left it, a router answers a request or passes it on, a thrown error goes to the error
  handler.  What is modelled is the order of the middlewares in front of each handler, what each
  handler calls, and what it answers.
\<close>

section \<open>Requests and responses\<close>

record request =
  rq_method :: string
  rq_path :: "string list"
  rq_url :: string
  rq_authorization :: "string option"
  rq_idempotencyKey :: "string option"
  rq_requestId :: "string option"
  rq_refreshCookie :: "string option"
  rq_ip :: string
  rq_body :: "exn + json"
  rq_query :: "(string \<times> string) list"

record cookie_options =
  co_httpOnly :: bool
  co_sameSite :: string
  co_path :: string
  co_secure :: bool
  co_expires :: "int option"

datatype cookie_op = SetCookie string string cookie_options | ClearCookie string cookie_options

datatype body =
  NoBody
| Kept json
| Accepted receipt
| SessionBody "user_view option" "(string \<times> string) option" string
| MeBody user_view "(role \<times> project) list"
| ProjectsBody "(project_view \<times> role) list"
| ProjectBody project_view "role option"
| MembersBody "member_view list"
| MemberBody user_view role
| KeysBody "key_view list"
| NewKeyBody key_view string
| KeyBody key_view
| EndpointsBody "endpoint_view list"
| EndpointBody endpoint_view
| SecretBody endpoint_view string "int option"
| EventsBody "event_list_view list" "string option"
| EventBody webhook_event "event_delivery_view list"
| DeliveriesBody "delivery_list_view list" "string option"
| DeliveryBody delivery_view json "attempt_view list"
| ReplayBody delivery_view
| BulkReplayBody bulk_replay
| StatsBody delivery_stats
| HealthBody
| ReadyBody bool "(string \<times> bool) list"
| MetricsBody string
| ProblemBody problem

record response =
  rs_status :: int
  rs_headers :: "(string \<times> string) list"
  rs_cookie :: "cookie_op option"
  rs_body :: body

definition answer :: "int \<Rightarrow> body \<Rightarrow> response" where
  "answer st b = \<lparr>rs_status = st, rs_headers = [], rs_cookie = None, rs_body = b\<rparr>"

section \<open>The application's state and dependencies\<close>

record app_state =
  st_world :: world
  st_redis :: redis
  st_counter :: "(string \<times> nat) list"

type_synonym 'a app_act = "(app_state, exn, 'a) io"

definition on_world :: "'a act \<Rightarrow> 'a app_act" where
  "on_world m = (\<lambda>s. (case m (st_world s) of (r, w) \<Rightarrow> (r, s\<lparr>st_world := w\<rparr>)))"

definition on_redis :: "'a redis_act \<Rightarrow> 'a app_act" where
  "on_redis m = (\<lambda>s. (case m (st_redis s) of (r, d) \<Rightarrow> (r, s\<lparr>st_redis := d\<rparr>)))"

definition pure_result :: "exn + 'a \<Rightarrow> 'a app_act" where
  "pure_result r = (case r of Inl e \<Rightarrow> io_raise e | Inr a \<Rightarrow> io_ret a)"

type_synonym issues = "(string list \<times> string) list"

record schemas =
  sc_publish :: "json \<Rightarrow> issues + publish_body"
  sc_register :: "json \<Rightarrow> issues + register_body"
  sc_login :: "json \<Rightarrow> issues + login_body"
  sc_project :: "json \<Rightarrow> issues + string"
  sc_projectUpdate :: "json \<Rightarrow> issues + project_update_body"
  sc_member :: "json \<Rightarrow> issues + member_body"
  sc_apiKey :: "json \<Rightarrow> issues + string"
  sc_endpointCreate :: "json \<Rightarrow> issues + endpoint_create_body"
  sc_endpointUpdate :: "json \<Rightarrow> issues + endpoint_patch"
  sc_eventFilter :: "(string \<times> string) list \<Rightarrow> issues + event_filters \<times> string option \<times> nat"
  sc_deliveryFilter :: "(string \<times> string) list \<Rightarrow> issues + delivery_filters \<times> string option \<times> nat"
  sc_bulkReplay :: "json \<Rightarrow> issues + delivery_filters \<times> int option"

record app_deps =
  ad_auth :: auth_deps
  ad_endpoint :: endpoint_deps
  ad_service :: service_deps
  ad_schemas :: schemas
  ad_verify :: "int \<Rightarrow> string \<Rightarrow> exn + jwt_payload"
  ad_contains :: "json \<Rightarrow> json \<Rightarrow> bool"
  ad_num :: "rat \<Rightarrow> string"
  ad_depth :: "string \<Rightarrow> world \<Rightarrow> nat"
  ad_randomUUID :: string

abbreviation app_config :: "app_deps \<Rightarrow> config" where
  "app_config ad \<equiv> au_config (ad_auth ad)"

abbreviation app_sha256Hex :: "app_deps \<Rightarrow> string \<Rightarrow> string" where
  "app_sha256Hex ad \<equiv> au_sha256Hex (ad_auth ad)"

abbreviation app_publisher :: "app_deps \<Rightarrow> publisher" where
  "app_publisher ad \<equiv> es_publisher (ad_endpoint ad)"

definition validateBody :: "(json \<Rightarrow> issues + 'd) \<Rightarrow> json \<Rightarrow> 'd app_act" where
  "validateBody parse b = pure_result (parse_request parse b ''body'')"

definition validateQuery :: "((string \<times> string) list \<Rightarrow> issues + 'd) \<Rightarrow> (string \<times> string) list \<Rightarrow> 'd app_act" where
  "validateQuery parse q = pure_result (parse_request parse q ''query string'')"

section \<open>Publish\<close>

definition ACCEPTED :: int where "ACCEPTED = 202"

definition receipt_json :: "receipt \<Rightarrow> json" where
  "receipt_json r =
    JObj [(''eventId'', JStr (rc_eventId r)),
          (''deliveries'', JArr (map (\<lambda>d. JObj [(''id'', JStr (rd_id d)), (''endpointId'', JStr (rd_endpointId d)),
             (''status'', JStr (status_text (rd_status d)))]) (rc_deliveries r)))]"

definition status_of :: "exn \<Rightarrow> int" where
  "status_of e = hr_status (errorHandler e [] [])"

text \<open>The handler behind the middlewares, with what the \<open>finish\<close> listener of the idempotency
  middleware does once the response, or the error's, is sent.\<close>

definition publish_handler :: "app_deps \<Rightarrow> key_auth \<Rightarrow> publish_body \<Rightarrow> string \<Rightarrow> string \<Rightarrow> response app_act" where
  "publish_handler ad a b key redisKey =
    io_bind (io_catch
        (on_world (publishEvent (app_publisher ad) (ka_projectId a) (xb_eventType b) (JObj (xb_payload b))
           (case xb_endpointIds b of None \<Rightarrow> [] | Some ids \<Rightarrow> ids) key))
        (\<lambda>e. io_seq (on_redis (on_finish redisKey False (status_of e))) (io_raise e))) (\<lambda>r.
    io_seq (io_catch
        (on_redis (store_answer (cf_IDEMPOTENCY_TTL_SECONDS (app_config ad)) redisKey ACCEPTED (receipt_json r)))
        (\<lambda>e. io_seq (on_redis (on_finish redisKey True (status_of e))) (io_raise e)))
    (io_seq (on_redis (on_finish redisKey True ACCEPTED))
    (io_ret (answer ACCEPTED (Accepted r)))))"

definition publish_key :: "app_deps \<Rightarrow> request \<Rightarrow> publish_body \<Rightarrow> string" where
  "publish_key ad rq b =
    (case rq_idempotencyKey rq of
       Some k \<Rightarrow> k
     | None \<Rightarrow> defaultIdempotencyKey (ad_num ad) (app_sha256Hex ad) (xb_eventType b) (JObj (xb_payload b))
                (case xb_endpointIds b of None \<Rightarrow> [] | Some ids \<Rightarrow> ids))"

definition publish_route :: "app_deps \<Rightarrow> request \<Rightarrow> json \<Rightarrow> response app_act" where
  "publish_route ad rq body =
    io_bind (on_world (apiKeyAuth (app_sha256Hex ad) LAST_USED_THRESHOLD_MS (rq_authorization rq))) (\<lambda>a.
    io_bind (on_redis (rateLimit WINDOW_MS ''ratelimit:publish''
        (publish_identities (cf_RATE_LIMIT_PUBLISH_PER_MINUTE (app_config ad))
           (cf_RATE_LIMIT_PUBLISH_PROJECT_PER_MINUTE (app_config ad)) a))) (\<lambda>headers.
    io_bind (validateBody (sc_publish (ad_schemas ad)) body) (\<lambda>b.
    (let key = publish_key ad rq b; redisKey = idem_key (app_sha256Hex ad) (ka_projectId a) key in
     io_bind (on_redis (idempotency (cf_IDEMPOTENCY_TTL_SECONDS (app_config ad)) redisKey)) (\<lambda>admission.
     (case admission of
        Replay st kept \<Rightarrow>
          io_ret \<lparr>rs_status = st, rs_headers = headers @ [(''Idempotency-Replayed'', ''true'')], rs_cookie = None,
                  rs_body = Kept kept\<rparr>
      | Proceed \<Rightarrow>
          io_bind (publish_handler ad a b key redisKey) (\<lambda>r.
            io_ret (r\<lparr>rs_headers := headers\<rparr>))))))))"

definition publish_router :: "app_deps \<Rightarrow> request \<Rightarrow> json \<Rightarrow> response option app_act" where
  "publish_router ad rq body =
    (if rq_method rq = ''POST'' \<and> rq_path rq = [''publish'']
     then io_bind (publish_route ad rq body) (\<lambda>r. io_ret (Some r)) else io_ret None)"

section \<open>Sessions\<close>

definition REFRESH_COOKIE :: string where "REFRESH_COOKIE = ''ht_refresh''"
definition REFRESH_PATH :: string where "REFRESH_PATH = ''/v1/auth''"

definition refreshCookieOptions :: "config \<Rightarrow> int option \<Rightarrow> cookie_options" where
  "refreshCookieOptions config expires =
    \<lparr>co_httpOnly = True, co_sameSite = ''strict'', co_path = REFRESH_PATH,
     co_secure = (cf_NODE_ENV config = Production), co_expires = expires\<rparr>"

definition respondWithSession ::
  "config \<Rightarrow> int \<Rightarrow> user_view option \<Rightarrow> (string \<times> string) option \<Rightarrow> session \<Rightarrow> response" where
  "respondWithSession config status u project s =
    \<lparr>rs_status = status, rs_headers = [],
     rs_cookie = Some (SetCookie REFRESH_COOKIE (ss_refreshToken s) (refreshCookieOptions config (Some (ss_expiresAt s)))),
     rs_body = SessionBody u project (ss_accessToken s)\<rparr>"

definition body_email :: "json \<Rightarrow> string option" where
  "body_email body =
    (case body of JObj kvs \<Rightarrow> (case map_of kvs ''email'' of Some (JStr s) \<Rightarrow> Some s | _ \<Rightarrow> None) | _ \<Rightarrow> None)"

definition authRateLimit :: "request \<Rightarrow> json \<Rightarrow> (string \<times> string) list app_act" where
  "authRateLimit rq body =
    on_redis (rateLimit WINDOW_MS ''ratelimit:auth'' (auth_identities (rq_ip rq) (body_email body)))"

definition register_route :: "app_deps \<Rightarrow> request \<Rightarrow> json \<Rightarrow> response app_act" where
  "register_route ad rq body =
    io_bind (authRateLimit rq body) (\<lambda>headers.
    io_bind (validateBody (sc_register (ad_schemas ad)) body) (\<lambda>b.
    io_bind (on_world (register (ad_auth ad) (rb_email b) (rb_password b) (rb_name b) (rb_projectName b)))
      (\<lambda>(u, projectId, s).
      io_ret ((respondWithSession (app_config ad) 201 (Some u) (Some (projectId, rb_projectName b)) s)\<lparr>rs_headers := headers\<rparr>))))"

definition login_route :: "app_deps \<Rightarrow> request \<Rightarrow> json \<Rightarrow> response app_act" where
  "login_route ad rq body =
    io_bind (authRateLimit rq body) (\<lambda>headers.
    io_bind (validateBody (sc_login (ad_schemas ad)) body) (\<lambda>b.
    io_bind (on_world (login (ad_auth ad) (lb_email b) (lb_password b))) (\<lambda>(u, s).
      io_ret ((respondWithSession (app_config ad) 200 (Some u) None s)\<lparr>rs_headers := headers\<rparr>))))"

definition refresh_route :: "app_deps \<Rightarrow> request \<Rightarrow> json \<Rightarrow> response app_act" where
  "refresh_route ad rq body =
    io_bind (authRateLimit rq body) (\<lambda>headers.
    io_bind (on_world (refresh (ad_auth ad) (rq_refreshCookie rq))) (\<lambda>s.
      io_ret ((respondWithSession (app_config ad) 200 None None s)\<lparr>rs_headers := headers\<rparr>)))"

definition logout_route :: "app_deps \<Rightarrow> request \<Rightarrow> response app_act" where
  "logout_route ad rq =
    io_seq (on_world (logout (ad_auth ad) (rq_refreshCookie rq)))
      (io_ret \<lparr>rs_status = 204, rs_headers = [],
        rs_cookie = Some (ClearCookie REFRESH_COOKIE (refreshCookieOptions (app_config ad) None)), rs_body = NoBody\<rparr>)"

definition authenticated :: "app_deps \<Rightarrow> request \<Rightarrow> auth app_act" where
  "authenticated ad rq = on_world (jwtAuth (ad_verify ad) (rq_authorization rq))"

definition me_route :: "app_deps \<Rightarrow> request \<Rightarrow> response app_act" where
  "me_route ad rq =
    io_bind (authenticated ad rq) (\<lambda>a.
    io_bind (on_world (me (au_userId a))) (\<lambda>(u, ms).
      io_ret (answer 200 (MeBody u ms))))"

definition auth_router :: "app_deps \<Rightarrow> request \<Rightarrow> json \<Rightarrow> response option app_act" where
  "auth_router ad rq body =
    (let m = rq_method rq; p = rq_path rq; answered = (\<lambda>r. io_bind r (\<lambda>x. io_ret (Some x))) in
     if m = ''POST'' \<and> p = [''auth'', ''register''] then answered (register_route ad rq body)
     else if m = ''POST'' \<and> p = [''auth'', ''login''] then answered (login_route ad rq body)
     else if m = ''POST'' \<and> p = [''auth'', ''refresh''] then answered (refresh_route ad rq body)
     else if m = ''POST'' \<and> p = [''auth'', ''logout''] then answered (logout_route ad rq)
     else if m = ''GET'' \<and> p = [''auth'', ''me''] then answered (me_route ad rq)
     else io_ret None)"

section \<open>Projects\<close>

datatype project_route =
  ListProjects
| CreateProject
| UpdateProject string
| ListMembers string
| AddMember string
| RemoveMember string string
| ListKeys string
| CreateKey string
| RevokeKey string string
| ListEndpoints string
| CreateEndpoint string
| ListEvents string
| ListDeliveries string
| BulkReplay string
| ProjectStats string

definition project_route_of :: "string \<Rightarrow> string list \<Rightarrow> project_route option" where
  "project_route_of m path =
    (case path of
       [c] \<Rightarrow>
         if c \<noteq> ''projects'' then None
         else if m = ''GET'' then Some ListProjects else if m = ''POST'' then Some CreateProject else None
     | [c, p] \<Rightarrow> if c = ''projects'' \<and> m = ''PATCH'' then Some (UpdateProject p) else None
     | [c, p, r] \<Rightarrow>
         if c \<noteq> ''projects'' then None
         else if r = ''members'' \<and> m = ''GET'' then Some (ListMembers p)
         else if r = ''members'' \<and> m = ''POST'' then Some (AddMember p)
         else if r = ''api-keys'' \<and> m = ''GET'' then Some (ListKeys p)
         else if r = ''api-keys'' \<and> m = ''POST'' then Some (CreateKey p)
         else if r = ''endpoints'' \<and> m = ''GET'' then Some (ListEndpoints p)
         else if r = ''endpoints'' \<and> m = ''POST'' then Some (CreateEndpoint p)
         else if r = ''events'' \<and> m = ''GET'' then Some (ListEvents p)
         else if r = ''deliveries'' \<and> m = ''GET'' then Some (ListDeliveries p)
         else if r = ''stats'' \<and> m = ''GET'' then Some (ProjectStats p)
         else None
     | [c, p, r, x] \<Rightarrow>
         if c \<noteq> ''projects'' then None
         else if r = ''members'' \<and> m = ''DELETE'' then Some (RemoveMember p x)
         else if r = ''api-keys'' \<and> m = ''DELETE'' then Some (RevokeKey p x)
         else if r = ''deliveries'' \<and> x = ''bulk-replay'' \<and> m = ''POST'' then Some (BulkReplay p)
         else None
     | _ \<Rightarrow> None)"

text \<open>The project a route is about and the role \<open>requireProjectRole\<close> demands there.\<close>

fun route_guard :: "project_route \<Rightarrow> (string \<times> role) option" where
  "route_guard ListProjects = None"
| "route_guard CreateProject = None"
| "route_guard (UpdateProject p) = Some (p, OWNER)"
| "route_guard (ListMembers p) = Some (p, MEMBER)"
| "route_guard (AddMember p) = Some (p, OWNER)"
| "route_guard (RemoveMember p u) = Some (p, OWNER)"
| "route_guard (ListKeys p) = Some (p, MEMBER)"
| "route_guard (CreateKey p) = Some (p, OWNER)"
| "route_guard (RevokeKey p k) = Some (p, OWNER)"
| "route_guard (ListEndpoints p) = Some (p, MEMBER)"
| "route_guard (CreateEndpoint p) = Some (p, OWNER)"
| "route_guard (ListEvents p) = Some (p, MEMBER)"
| "route_guard (ListDeliveries p) = Some (p, MEMBER)"
| "route_guard (BulkReplay p) = Some (p, MEMBER)"
| "route_guard (ProjectStats p) = Some (p, MEMBER)"

definition authorize :: "auth \<Rightarrow> project_route \<Rightarrow> unit app_act" where
  "authorize a r =
    (case route_guard r of
       None \<Rightarrow> io_ret ()
     | Some (p, demanded) \<Rightarrow> pure_result (requireProjectRole demanded (au_memberships a) p))"

fun project_handler :: "app_deps \<Rightarrow> request \<Rightarrow> json \<Rightarrow> auth \<Rightarrow> project_route \<Rightarrow> response app_act" where
  "project_handler ad rq body a ListProjects =
    io_bind (on_world (list_projects (au_memberships a))) (\<lambda>ps. io_ret (answer 200 (ProjectsBody ps)))"
| "project_handler ad rq body a CreateProject =
    io_bind (validateBody (sc_project (ad_schemas ad)) body) (\<lambda>name.
    io_bind (on_world (create_owned_project (au_userId a) name)) (\<lambda>(p, r). io_ret (answer 201 (ProjectBody p (Some r)))))"
| "project_handler ad rq body a (UpdateProject p) =
    io_bind (validateBody (sc_projectUpdate (ad_schemas ad)) body) (\<lambda>b.
    io_bind (on_world (update_project (es_resolve (ad_endpoint ad)) p (ub_name b) (ub_alertWebhookUrl b))) (\<lambda>v.
      io_ret (answer 200 (ProjectBody v None))))"
| "project_handler ad rq body a (ListMembers p) =
    io_bind (on_world (members p)) (\<lambda>ms. io_ret (answer 200 (MembersBody ms)))"
| "project_handler ad rq body a (AddMember p) =
    io_bind (validateBody (sc_member (ad_schemas ad)) body) (\<lambda>b.
    io_bind (on_world (addMember p (mb_email b) (mb_role b))) (\<lambda>(u, r). io_ret (answer 201 (MemberBody u r))))"
| "project_handler ad rq body a (RemoveMember p u) =
    io_seq (on_world (removeMember p u)) (io_ret (answer 204 NoBody))"
| "project_handler ad rq body a (ListKeys p) =
    io_bind (on_world (list_keys p)) (\<lambda>ks. io_ret (answer 200 (KeysBody ks)))"
| "project_handler ad rq body a (CreateKey p) =
    io_bind (validateBody (sc_apiKey (ad_schemas ad)) body) (\<lambda>name.
    io_bind (on_world (create_key (app_sha256Hex ad) p name)) (\<lambda>(k, plaintext). io_ret (answer 201 (NewKeyBody k plaintext))))"
| "project_handler ad rq body a (RevokeKey p k) =
    io_bind (on_world (revoke_key p k)) (\<lambda>v. io_ret (answer 200 (KeyBody v)))"
| "project_handler ad rq body a (ListEndpoints p) =
    io_bind (on_world (list_endpoints p)) (\<lambda>es. io_ret (answer 200 (EndpointsBody es)))"
| "project_handler ad rq body a (CreateEndpoint p) =
    io_bind (validateBody (sc_endpointCreate (ad_schemas ad)) body) (\<lambda>b.
    io_bind (on_world (create_endpoint (ad_endpoint ad) p (nb_url b) (nb_description b) (nb_eventTypes b)
        (nb_rateLimitPerMinute b))) (\<lambda>(e, secret).
      io_ret (answer 201 (SecretBody e secret None))))"
| "project_handler ad rq body a (ListEvents p) =
    io_bind (validateQuery (sc_eventFilter (ad_schemas ad)) (rq_query rq)) (\<lambda>(f, cursor, limit).
    io_bind (on_world (list_events (ad_service ad) (ad_contains ad) p f cursor limit)) (\<lambda>(vs, next).
      io_ret (answer 200 (EventsBody vs next))))"
| "project_handler ad rq body a (ListDeliveries p) =
    io_bind (validateQuery (sc_deliveryFilter (ad_schemas ad)) (rq_query rq)) (\<lambda>(f, cursor, limit).
    io_bind (on_world (list_deliveries (ad_service ad) p f cursor limit)) (\<lambda>(ds, next).
      io_ret (answer 200 (DeliveriesBody ds next))))"
| "project_handler ad rq body a (BulkReplay p) =
    io_bind (validateBody (sc_bulkReplay (ad_schemas ad)) body) (\<lambda>(f, limit).
    io_bind (on_world (bulkReplay (ad_service ad) p f limit)) (\<lambda>r. io_ret (answer 202 (BulkReplayBody r))))"
| "project_handler ad rq body a (ProjectStats p) =
    io_bind (on_world (stats p)) (\<lambda>st. io_ret (answer 200 (StatsBody st)))"

text \<open>\<open>router.use(jwtAuth)\<close>: every request that reaches the router is authenticated, matched or not.\<close>

definition project_router :: "app_deps \<Rightarrow> request \<Rightarrow> json \<Rightarrow> response option app_act" where
  "project_router ad rq body =
    io_bind (authenticated ad rq) (\<lambda>a.
    (case project_route_of (rq_method rq) (rq_path rq) of
       None \<Rightarrow> io_ret None
     | Some r \<Rightarrow>
         io_seq (authorize a r)
         (io_bind (project_handler ad rq body a r) (\<lambda>x. io_ret (Some x)))))"

section \<open>Endpoints, deliveries and events\<close>

definition endpoint_router :: "app_deps \<Rightarrow> request \<Rightarrow> json \<Rightarrow> response option app_act" where
  "endpoint_router ad rq body =
    io_bind (authenticated ad rq) (\<lambda>a.
    (let m = rq_method rq; ms = au_memberships a; answered = (\<lambda>r. io_bind r (\<lambda>x. io_ret (Some x))) in
     (case rq_path rq of
        [c, i] \<Rightarrow>
          if c = ''endpoints'' \<and> m = ''PATCH'' then
            answered (io_bind (validateBody (sc_endpointUpdate (ad_schemas ad)) body) (\<lambda>patch.
              io_bind (on_world (update_endpoint_row (ad_endpoint ad) i ms patch)) (\<lambda>e. io_ret (answer 200 (EndpointBody e)))))
          else if c = ''endpoints'' \<and> m = ''DELETE'' then
            answered (io_seq (on_world (remove_endpoint i ms)) (io_ret (answer 204 NoBody)))
          else io_ret None
      | [c, i, r] \<Rightarrow>
          if c \<noteq> ''endpoints'' \<or> m \<noteq> ''POST'' then io_ret None
          else if r = ''rotate-secret'' then
            answered (io_bind (on_world (rotateSecret (ad_endpoint ad) i ms)) (\<lambda>(e, secret, until).
              io_ret (answer 200 (SecretBody e secret (Some until)))))
          else if r = ''enable'' then
            answered (io_bind (on_world (enable i ms)) (\<lambda>e. io_ret (answer 200 (EndpointBody e))))
          else if r = ''disable'' then
            answered (io_bind (on_world (disable i ms)) (\<lambda>e. io_ret (answer 200 (EndpointBody e))))
          else if r = ''test'' then
            answered (io_bind (on_world (sendTest (ad_endpoint ad) i ms)) (\<lambda>x. io_ret (answer 202 (Accepted x))))
          else io_ret None
      | _ \<Rightarrow> io_ret None)))"

definition delivery_router :: "app_deps \<Rightarrow> request \<Rightarrow> response option app_act" where
  "delivery_router ad rq =
    io_bind (authenticated ad rq) (\<lambda>a.
    (case rq_path rq of
       [c, i] \<Rightarrow>
         if c = ''deliveries'' \<and> rq_method rq = ''GET'' then
           io_bind (on_world (get_delivery_view i (au_memberships a))) (\<lambda>(d, payload, as).
             io_ret (Some (answer 200 (DeliveryBody d payload as))))
         else io_ret None
     | [c, i, r] \<Rightarrow>
         if c = ''deliveries'' \<and> r = ''replay'' \<and> rq_method rq = ''POST'' then
           io_bind (on_world (replay (ad_service ad) i (au_memberships a))) (\<lambda>d. io_ret (Some (answer 202 (ReplayBody d))))
         else io_ret None
     | _ \<Rightarrow> io_ret None))"

definition event_router :: "app_deps \<Rightarrow> request \<Rightarrow> response option app_act" where
  "event_router ad rq =
    io_bind (authenticated ad rq) (\<lambda>a.
    (case rq_path rq of
       [c, i] \<Rightarrow>
         if c = ''events'' \<and> rq_method rq = ''GET'' then
           io_bind (on_world (get_event_view i (au_memberships a))) (\<lambda>(v, ds). io_ret (Some (answer 200 (EventBody v ds))))
         else io_ret None
     | _ \<Rightarrow> io_ret None))"

section \<open>Health and metrics\<close>

text \<open>\<open>probe\<close>: a ping is a call that may reject; the broker's is the opening and closing of a channel.\<close>

definition probe :: "string \<Rightarrow> unit act \<Rightarrow> (string \<times> bool) act" where
  "probe name run = io_catch (io_seq run (io_ret (name, True))) (\<lambda>_. io_ret (name, False))"

definition ping :: "unit act" where "ping = query (\<lambda>_. ())"

definition ready_route :: "response act" where
  "ready_route =
    io_bind (probe ''postgres'' ping) (\<lambda>a.
    io_bind (probe ''redis'' ping) (\<lambda>b.
    io_bind (probe ''rabbitmq'' (io_seq ping ping)) (\<lambda>c.
    (let ready = list_all snd [a, b, c]
     in io_ret (answer (if ready then 200 else 503) (ReadyBody ready [a, b, c]))))))"

definition health_router :: "request \<Rightarrow> response option app_act" where
  "health_router rq =
    (if rq_method rq = ''GET'' \<and> rq_path rq = [''health''] then io_ret (Some (answer 200 HealthBody))
     else if rq_method rq = ''GET'' \<and> rq_path rq = [''ready''] then
       io_bind (on_world ready_route) (\<lambda>r. io_ret (Some r))
     else io_ret None)"

definition metrics_router :: "app_deps \<Rightarrow> request \<Rightarrow> response option app_act" where
  "metrics_router ad rq =
    (if rq_method rq = ''GET'' \<and> rq_path rq = [''metrics''] then
       io_bind (io_get st_counter) (\<lambda>counter.
       io_bind (on_world (collectMetrics (ad_depth ad) (pb_topology (app_publisher ad)) counter
           (nat (cf_MAX_ATTEMPTS (app_config ad))))) (\<lambda>families.
         io_ret (Some (answer 200 (MetricsBody (renderMetrics (ad_num ad) families))))))
     else io_ret None)"

section \<open>The application\<close>

definition or_else :: "response option app_act \<Rightarrow> response option app_act \<Rightarrow> response option app_act" where
  "or_else m n = io_bind m (\<lambda>r. case r of Some x \<Rightarrow> io_ret (Some x) | None \<Rightarrow> n)"

text \<open>What is mounted under \<open>/v1\<close>: the body parser, then the routers in order.\<close>

definition v1_routers :: "app_deps \<Rightarrow> request \<Rightarrow> response option app_act" where
  "v1_routers ad rq =
    io_bind (pure_result (rq_body rq)) (\<lambda>body.
      or_else (publish_router ad rq body)
     (or_else (auth_router ad rq body)
     (or_else (project_router ad rq body)
     (or_else (endpoint_router ad rq body)
     (or_else (delivery_router ad rq) (event_router ad rq))))))"

definition routed :: "app_deps \<Rightarrow> request \<Rightarrow> response option app_act" where
  "routed ad rq =
    or_else (health_router rq)
   (or_else (metrics_router ad rq)
      (case rq_path rq of
         c # rest \<Rightarrow> if c = ''v1'' then v1_routers ad (rq\<lparr>rq_path := rest\<rparr>) else io_ret None
       | [] \<Rightarrow> io_ret None))"

definition error_response :: "exn \<Rightarrow> request \<Rightarrow> string \<Rightarrow> response" where
  "error_response e rq reqId =
    (let h = errorHandler e (rq_url rq) reqId
     in \<lparr>rs_status = hr_status h, rs_headers = http_response.hr_headers h, rs_cookie = None, rs_body = ProblemBody (hr_problem h)\<rparr>)"

text \<open>One request: its id, its answer, and the publish counter's listener.\<close>

definition app :: "app_deps \<Rightarrow> request \<Rightarrow> app_state \<Rightarrow> string \<times> response \<times> app_state" where
  "app ad rq s =
    (let reqId = requestId (ad_randomUUID ad) (rq_requestId rq) in
     (case routed ad rq s of
        (outcome, s1) \<Rightarrow>
          (let resp = (case outcome of
                 Inr (Some r) \<Rightarrow> r
               | Inr None \<Rightarrow> error_response (notFoundHandler (rq_method rq) (rq_url rq)) rq reqId
               | Inl e \<Rightarrow> error_response e rq reqId);
               counted = rq_method rq = ''POST'' \<and> rq_path rq = [''v1'', ''publish'']
           in (reqId, resp,
               if counted then s1\<lparr>st_counter := publishRequestMetrics (rs_status resp) (st_counter s1)\<rparr> else s1))))"

section \<open>Laws\<close>

lemma wp_on_world [wp_simps]:
  "wp (on_world m) Q E s = wp m (\<lambda>a w. Q a (s\<lparr>st_world := w\<rparr>)) (\<lambda>e w. E e (s\<lparr>st_world := w\<rparr>)) (st_world s)"
  by (simp add: wp_def on_world_def split: prod.split sum.split)

lemma wp_on_redis [wp_simps]:
  "wp (on_redis m) Q E s = wp m (\<lambda>a d. Q a (s\<lparr>st_redis := d\<rparr>)) (\<lambda>e d. E e (s\<lparr>st_redis := d\<rparr>)) (st_redis s)"
  by (simp add: wp_def on_redis_def split: prod.split sum.split)

lemma wp_pure_result [wp_simps]: "wp (pure_result r) Q E s = (case r of Inl e \<Rightarrow> E e s | Inr a \<Rightarrow> Q a s)"
  by (simp add: pure_result_def wp_simps split: sum.split)

section \<open>Who reaches a handler\<close>

definition same_tables :: "world \<Rightarrow> world \<Rightarrow> bool" where
  "same_tables w w' \<longleftrightarrow>
    users w' = users w \<and> projects w' = projects w \<and> memberships w' = memberships w \<and> apiKeys w' = apiKeys w
    \<and> endpoints w' = endpoints w \<and> events w' = events w \<and> deliveries w' = deliveries w \<and> attempts w' = attempts w
    \<and> refreshTokens w' = refreshTokens w \<and> published w' = published w"

text \<open>The caller's token is good and a membership of its user carries the role.\<close>

definition caller_holds :: "app_deps \<Rightarrow> request \<Rightarrow> string \<Rightarrow> role \<Rightarrow> world \<Rightarrow> bool" where
  "caller_holds ad rq p demanded w \<longleftrightarrow>
    (\<exists>token payload t. bearerToken (rq_authorization rq) = Some token \<and> ad_verify ad t token = Inr payload
       \<and> (\<exists>row \<in> set (memberships w). m_userId row = jp_sub payload \<and> m_projectId row = p
            \<and> (demanded = OWNER \<longrightarrow> m_role row = OWNER)))"

lemma authenticated_wp:
  "wp (authenticated ad rq)
     (\<lambda>a s'. same_tables (st_world s) (st_world s') \<and>
        (\<forall>p r. requireProjectRole r (au_memberships a) p = Inr () \<longrightarrow> caller_holds ad rq p r (st_world s)))
     (\<lambda>e s'. same_tables (st_world s) (st_world s')) s"
proof -
  have "wp (jwtAuth (ad_verify ad) (rq_authorization rq))
      (\<lambda>a w'. same_tables (st_world s) w' \<and>
        (\<exists>token payload t. bearerToken (rq_authorization rq) = Some token \<and> ad_verify ad t token = Inr payload
           \<and> au_memberships a = memberships_of (jp_sub payload) (st_world s)))
      (\<lambda>e w'. same_tables (st_world s) w') (st_world s)"
    unfolding jwtAuth_def
    by (auto simp: wp_simps verifyAccessToken_def memberships_of_def Let_def same_tables_def
        split: fault.splits option.splits sum.splits)
  then show ?thesis
    unfolding authenticated_def wp_on_world
  proof (rule wp_mono)
    fix a :: auth and w' :: world
    assume h: "same_tables (st_world s) w' \<and>
        (\<exists>token payload t. bearerToken (rq_authorization rq) = Some token \<and> ad_verify ad t token = Inr payload
           \<and> au_memberships a = memberships_of (jp_sub payload) (st_world s))"
    have "caller_holds ad rq p r (st_world s)" if "requireProjectRole r (au_memberships a) p = Inr ()" for p r
      using that h memberships_of_entitles
      by (fastforce simp: requireProjectRole_def caller_holds_def split: sum.splits)
    then show "same_tables (st_world s) (st_world (s\<lparr>st_world := w'\<rparr>)) \<and>
        (\<forall>p r. requireProjectRole r (au_memberships a) p = Inr () \<longrightarrow> caller_holds ad rq p r (st_world s))"
      using h by simp
  qed simp
qed

text \<open>A project route: without the demanded membership nothing is answered and nothing changes.\<close>

lemma project_router_guarded:
  assumes "project_route_of (rq_method rq) (rq_path rq) = Some r" "route_guard r = Some (p, demanded)"
  shows "caller_holds ad rq p demanded (st_world s)
    \<or> wp (project_router ad rq body) (\<lambda>_ _. False) (\<lambda>_ s'. same_tables (st_world s) (st_world s')) s"
proof (cases "caller_holds ad rq p demanded (st_world s)")
  case False
  have "wp (project_router ad rq body) (\<lambda>_ _. False) (\<lambda>_ s'. same_tables (st_world s) (st_world s')) s"
    unfolding project_router_def wp_bind
  proof (rule wp_mono[OF authenticated_wp])
    fix a :: auth and s' :: app_state
    assume h: "same_tables (st_world s) (st_world s') \<and>
        (\<forall>p r. requireProjectRole r (au_memberships a) p = Inr () \<longrightarrow> caller_holds ad rq p r (st_world s))"
    then obtain e where "requireProjectRole demanded (au_memberships a) p = Inl e"
      using False by (cases "requireProjectRole demanded (au_memberships a) p") auto
    then show "wp (case project_route_of (rq_method rq) (rq_path rq) of None \<Rightarrow> io_ret None
          | Some r \<Rightarrow> io_seq (authorize a r) (io_bind (project_handler ad rq body a r) (\<lambda>x. io_ret (Some x))))
        (\<lambda>_ _. False) (\<lambda>_ s'. same_tables (st_world s) (st_world s')) s'"
      using h assms by (simp add: wp_simps authorize_def)
  qed simp
  then show ?thesis ..
qed simp

section \<open>A kept answer\<close>

lemma same_tables_refl [simp]: "same_tables w w"
  by (simp add: same_tables_def)

lemma ready_wp: "wp ready_route (\<lambda>r w'. same_tables w w' \<and> (rs_status r = 200 \<longleftrightarrow> (\<exists>cs. rs_body r = ReadyBody True cs))
     \<and> (faults w = [] \<longrightarrow> rs_status r = 200)) (\<lambda>_ _. False) w"
  unfolding ready_route_def probe_def ping_def
  by (simp add: wp_simps answer_def same_tables_def next_fault_def pop_fault_def split: fault.split list.split)

end
