(* ===== verification/Route_Guards.thy ===== *)
theory Route_Guards
  imports Routes
begin

text \<open>
  What the composition of middlewares, routers and services guarantees: no handler below the API does
  anything for a caller without a membership in the project the resource belongs to, and a publish
  request leaves its idempotency key either answered or free.
\<close>

section \<open>Resources behind their own lookup\<close>

text \<open>The caller is not a member of the project of the endpoint.\<close>

definition outsider :: "auth_membership list \<Rightarrow> string \<Rightarrow> bool" where
  "outsider ms p \<longleftrightarrow> p \<notin> am_projectId ` set ms"

lemma outsider_refused: "outsider ms p \<Longrightarrow> assertMembership ms p r = Inl (App (NotFoundError ''No such project''))"
  by (simp add: outsider_def flip: assertMembership_not_member)

definition refuses :: "'a act \<Rightarrow> world \<Rightarrow> bool" where
  "refuses m w \<longleftrightarrow> wp m (\<lambda>_ _. False) (\<lambda>_ w'. same_tables w w') w"

lemma refuses_bind: "refuses m w \<Longrightarrow> refuses (io_bind m f) w"
  unfolding refuses_def wp_bind by (erule wp_mono) simp_all

lemma same_tables_pop [simp]: "same_tables w (pop_fault w)"
  by (simp add: same_tables_def)

lemma load_endpoint_refuses:
  assumes "get_endpoint w i = Some e" "outsider ms (e_projectId e)"
  shows "refuses (load_endpoint i ms r) w"
  using assms by (simp add: refuses_def load_endpoint_def wp_simps outsider_refused split: fault.split)

lemma endpoint_operations_refuse:
  assumes "get_endpoint w i = Some e" "outsider ms (e_projectId e)"
  shows "refuses (update_endpoint_row es i ms patch) w" "refuses (rotateSecret es i ms) w" "refuses (enable i ms) w"
    "refuses (disable i ms) w" "refuses (remove_endpoint i ms) w" "refuses (sendTest es i ms) w"
  unfolding update_endpoint_row_def rotateSecret_def enable_def disable_def remove_endpoint_def sendTest_def
  by (intro refuses_bind load_endpoint_refuses[OF assms])+

lemma delivery_operations_refuse:
  assumes "get_delivery w i = Some d" "get_event w (d_eventId d) = Some v" "outsider ms (v_projectId v)"
  shows "refuses (get_delivery_view i ms) w" "refuses (replay sv i ms) w"
proof -
  have l: "refuses (loadForCaller i ms) w"
    using assms by (simp add: refuses_def loadForCaller_def wp_simps outsider_refused split: fault.split)
  show "refuses (get_delivery_view i ms) w" "refuses (replay sv i ms) w"
    unfolding get_delivery_view_def replay_def by (rule refuses_bind[OF l])+
qed

lemma event_operation_refuses:
  assumes "get_event w i = Some v" "outsider ms (v_projectId v)"
  shows "refuses (get_event_view i ms) w"
  using assms by (simp add: refuses_def get_event_view_def wp_simps outsider_refused split: fault.split)

section \<open>The routers\<close>

definition silent :: "response option app_act \<Rightarrow> app_state \<Rightarrow> bool" where
  "silent m s \<longleftrightarrow> wp m (\<lambda>r s'. r = None \<and> same_tables (st_world s) (st_world s'))
     (\<lambda>_ s'. same_tables (st_world s) (st_world s')) s"

lemma silent_world: "refuses m (st_world s) \<Longrightarrow> silent (io_bind (on_world m) f) s"
  unfolding silent_def refuses_def wp_bind wp_on_world by (erule wp_mono) simp_all

lemma silent_none [simp]: "silent (io_ret None) s"
  by (simp add: silent_def wp_simps)

text \<open>What the membership rows say about a caller.\<close>

definition caller_outside :: "app_deps \<Rightarrow> request \<Rightarrow> string \<Rightarrow> world \<Rightarrow> bool" where
  "caller_outside ad rq p w \<longleftrightarrow> \<not> caller_holds ad rq p MEMBER w"

lemma authenticated_outside:
  assumes "caller_outside ad rq p (st_world s)"
  shows "wp (authenticated ad rq) (\<lambda>a s'. same_tables (st_world s) (st_world s') \<and> outsider (au_memberships a) p)
     (\<lambda>e s'. same_tables (st_world s) (st_world s')) s"
proof (rule wp_mono[OF authenticated_wp])
  fix a :: auth and s' :: app_state
  assume h: "same_tables (st_world s) (st_world s') \<and>
    (\<forall>p r. requireProjectRole r (au_memberships a) p = Inr () \<longrightarrow> caller_holds ad rq p r (st_world s))"
  then have "\<nexists>m. assertMembership (au_memberships a) p MEMBER = Inr m"
    using assms by (auto simp: caller_outside_def requireProjectRole_def)
  then show "same_tables (st_world s) (st_world s') \<and> outsider (au_memberships a) p"
    using h by (simp add: outsider_def assertMembership_MEMBER)
qed simp

lemma silent_after_auth:
  assumes "caller_outside ad rq p (st_world s)"
    and "\<And>a s'. same_tables (st_world s) (st_world s') \<Longrightarrow> outsider (au_memberships a) p \<Longrightarrow> silent (f a) s'"
  shows "silent (io_bind (authenticated ad rq) f) s"
  unfolding silent_def wp_bind
proof (rule wp_mono[OF authenticated_outside[OF assms(1)]])
  fix a :: auth and s' :: app_state
  assume h: "same_tables (st_world s) (st_world s') \<and> outsider (au_memberships a) p"
  have t: "same_tables (st_world s) v" if "same_tables (st_world s') v" for v
    using h that by (simp add: same_tables_def)
  have "silent (f a) s'" using h assms(2) by blast
  then show "wp (f a) (\<lambda>r s'. r = None \<and> same_tables (st_world s) (st_world s'))
      (\<lambda>_ s'. same_tables (st_world s) (st_world s')) s'"
    unfolding silent_def by (rule wp_mono) (auto intro: t)
qed simp

lemma same_tables_lookup:
  "same_tables w w' \<Longrightarrow> get_endpoint w' i = get_endpoint w i"
  "same_tables w w' \<Longrightarrow> get_delivery w' i = get_delivery w i"
  "same_tables w w' \<Longrightarrow> get_event w' i = get_event w i"
  by (simp_all add: same_tables_def get_endpoint_def get_delivery_def get_event_def)

lemma validated_silent:
  "(\<And>d. silent (f d) s) \<Longrightarrow> silent (io_bind (validateBody p b) f) s"
  by (simp add: silent_def validateBody_def wp_simps split: sum.split)

lemma io_bind_assoc: "io_bind (io_bind m f) g = io_bind m (\<lambda>a. io_bind (f a) g)"
  by (rule ext) (simp add: io_bind_def split: prod.split sum.split)

lemma endpoint_router_silent:
  assumes "rq_path rq = c # i # rest" "get_endpoint (st_world s) i = Some e"
    and "caller_outside ad rq (e_projectId e) (st_world s)"
  shows "silent (endpoint_router ad rq body) s"
  unfolding endpoint_router_def
proof (rule silent_after_auth[OF assms(3)])
  fix a :: auth and s' :: app_state
  assume t: "same_tables (st_world s) (st_world s')" and out: "outsider (au_memberships a) (e_projectId e)"
  have "get_endpoint (st_world s') i = Some e" using assms(2) same_tables_lookup(1)[OF t] by simp
  note ops = endpoint_operations_refuse[OF this out]
  show "silent (let m = rq_method rq; ms = au_memberships a; answered = \<lambda>r. io_bind r (\<lambda>x. io_ret (Some x)) in
     (case rq_path rq of
        [c, i] \<Rightarrow>
          if c = ''endpoints'' \<and> m = ''PATCH'' then
            answered (io_bind (validateBody (sc_endpointUpdate (ad_schemas ad)) body) (\<lambda>patch.
              io_bind (on_world (update_endpoint_row (ad_endpoint ad) i ms patch)) (\<lambda>e. io_ret (answer 200 (EndpointBody e)))))
          else if c = ''endpoints'' \<and> m = ''DELETE'' then
            answered (io_seq (on_world (remove_endpoint i ms)) (io_ret (answer 204 NoBody)))
          else io_ret None
      | [c, i, r] \<Rightarrow>
          if c \<noteq> ''endpoints'' \<or> m \<noteq> ''POST'' then io_ret None
          else if r = ''rotate-secret'' then
            answered (io_bind (on_world (rotateSecret (ad_endpoint ad) i ms)) (\<lambda>(e, secret, until).
              io_ret (answer 200 (SecretBody e secret (Some until)))))
          else if r = ''enable'' then
            answered (io_bind (on_world (enable i ms)) (\<lambda>e. io_ret (answer 200 (EndpointBody e))))
          else if r = ''disable'' then
            answered (io_bind (on_world (disable i ms)) (\<lambda>e. io_ret (answer 200 (EndpointBody e))))
          else if r = ''test'' then
            answered (io_bind (on_world (sendTest (ad_endpoint ad) i ms)) (\<lambda>x. io_ret (answer 202 (Accepted x))))
          else io_ret None
      | _ \<Rightarrow> io_ret None)) s'"
    using assms(1) by (auto simp: Let_def io_bind_assoc io_seq_def split: list.split
        intro!: silent_world validated_silent ops)
qed

lemma delivery_router_silent:
  assumes "rq_path rq = c # i # rest" "get_delivery (st_world s) i = Some d"
    and "get_event (st_world s) (d_eventId d) = Some v" "caller_outside ad rq (v_projectId v) (st_world s)"
  shows "silent (delivery_router ad rq) s"
  unfolding delivery_router_def
proof (rule silent_after_auth[OF assms(4)])
  fix a :: auth and s' :: app_state
  assume t: "same_tables (st_world s) (st_world s')" and out: "outsider (au_memberships a) (v_projectId v)"
  have "get_delivery (st_world s') i = Some d" "get_event (st_world s') (d_eventId d) = Some v"
    using assms(2,3) same_tables_lookup[OF t] by simp_all
  note ops = delivery_operations_refuse[OF this out]
  show "silent (case rq_path rq of
       [c, i] \<Rightarrow>
         if c = ''deliveries'' \<and> rq_method rq = ''GET'' then
           io_bind (on_world (get_delivery_view i (au_memberships a))) (\<lambda>(d, payload, as).
             io_ret (Some (answer 200 (DeliveryBody d payload as))))
         else io_ret None
     | [c, i, r] \<Rightarrow>
         if c = ''deliveries'' \<and> r = ''replay'' \<and> rq_method rq = ''POST'' then
           io_bind (on_world (replay (ad_service ad) i (au_memberships a))) (\<lambda>d. io_ret (Some (answer 202 (ReplayBody d))))
         else io_ret None
     | _ \<Rightarrow> io_ret None) s'"
    using assms(1) by (auto split: list.split intro!: silent_world ops)
qed

lemma event_router_silent:
  assumes "rq_path rq = c # i # rest" "get_event (st_world s) i = Some v"
    and "caller_outside ad rq (v_projectId v) (st_world s)"
  shows "silent (event_router ad rq) s"
  unfolding event_router_def
proof (rule silent_after_auth[OF assms(3)])
  fix a :: auth and s' :: app_state
  assume t: "same_tables (st_world s) (st_world s')" and out: "outsider (au_memberships a) (v_projectId v)"
  have "get_event (st_world s') i = Some v" using assms(2) same_tables_lookup[OF t] by simp
  note op = event_operation_refuses[OF this out]
  show "silent (case rq_path rq of
       [c, i] \<Rightarrow>
         if c = ''events'' \<and> rq_method rq = ''GET'' then
           io_bind (on_world (get_event_view i (au_memberships a))) (\<lambda>(v, ds). io_ret (Some (answer 200 (EventBody v ds))))
         else io_ret None
     | _ \<Rightarrow> io_ret None) s'"
    using assms(1) by (auto split: list.split intro!: silent_world op)
qed

section \<open>All resources together\<close>

definition resource_project :: "string \<Rightarrow> string \<Rightarrow> world \<Rightarrow> string option" where
  "resource_project c i w =
    (if c = ''endpoints'' then map_option e_projectId (get_endpoint w i)
     else if c = ''deliveries'' then
       (case get_delivery w i of None \<Rightarrow> None | Some d \<Rightarrow> map_option v_projectId (get_event w (d_eventId d)))
     else if c = ''events'' then map_option v_projectId (get_event w i) else None)"

lemma silent_or_else:
  assumes "silent m s" "\<And>s'. same_tables (st_world s) (st_world s') \<Longrightarrow> silent n s'"
  shows "silent (or_else m n) s"
  unfolding silent_def or_else_def wp_bind
proof (rule wp_mono[OF assms(1)[unfolded silent_def]])
  fix r :: "response option" and s' :: app_state
  assume h: "r = None \<and> same_tables (st_world s) (st_world s')"
  have t: "same_tables (st_world s) v" if "same_tables (st_world s') v" for v
    using h that by (simp add: same_tables_def)
  have "wp n (\<lambda>r v. r = None \<and> same_tables (st_world s) (st_world v)) (\<lambda>_ v. same_tables (st_world s) (st_world v)) s'"
    by (rule wp_mono[OF assms(2)[unfolded silent_def, OF conjunct2[OF h]]]) (auto intro: t)
  then show "wp (case r of None \<Rightarrow> n | Some x \<Rightarrow> io_ret (Some x)) (\<lambda>r v. r = None \<and> same_tables (st_world s) (st_world v))
      (\<lambda>_ v. same_tables (st_world s) (st_world v)) s'" using h by simp
qed

lemma silent_auth: "(\<And>a s'. silent (f a) s') \<Longrightarrow> silent (io_bind (authenticated ad rq) f) s"
  unfolding silent_def wp_bind
proof (rule wp_mono[OF authenticated_wp])
  fix a :: auth and s' :: app_state
  assume f: "\<And>a s'. wp (f a) (\<lambda>r v. r = None \<and> same_tables (st_world s') (st_world v)) (\<lambda>_ v. same_tables (st_world s') (st_world v)) s'"
    and h: "same_tables (st_world s) (st_world s') \<and>
    (\<forall>p r. requireProjectRole r (au_memberships a) p = Inr () \<longrightarrow> caller_holds ad rq p r (st_world s))"
  have t: "same_tables (st_world s) v" if "same_tables (st_world s') v" for v
    using h that by (simp add: same_tables_def)
  show "wp (f a) (\<lambda>r v. r = None \<and> same_tables (st_world s) (st_world v)) (\<lambda>_ v. same_tables (st_world s) (st_world v)) s'"
    by (rule wp_mono[OF f]) (auto intro: t)
qed simp

lemma other_collection:
  assumes "rq_path rq = c # rest"
  shows "c \<noteq> ''endpoints'' \<Longrightarrow> silent (endpoint_router ad rq body) s"
    "c \<noteq> ''deliveries'' \<Longrightarrow> silent (delivery_router ad rq) s"
    "c \<noteq> ''events'' \<Longrightarrow> silent (event_router ad rq) s"
  using assms unfolding endpoint_router_def delivery_router_def event_router_def
  by (auto intro!: silent_auth simp: Let_def split: list.split)

lemma same_tables_caller:
  "same_tables w w' \<Longrightarrow> caller_outside ad rq p w' = caller_outside ad rq p w"
  "same_tables w w' \<Longrightarrow> resource_project c i w' = resource_project c i w"
  by (simp_all add: same_tables_def caller_outside_def caller_holds_def resource_project_def
      get_endpoint_def get_delivery_def get_event_def cong: option.case_cong)

lemma resource_router_silent:
  assumes "rq_path rq = c # i # rest" "resource_project c i (st_world s) = Some p" "caller_outside ad rq p (st_world s)"
  shows "silent (endpoint_router ad rq body) s" "silent (delivery_router ad rq) s" "silent (event_router ad rq) s"
  using assms endpoint_router_silent[OF assms(1)] delivery_router_silent[OF assms(1)] event_router_silent[OF assms(1)]
    other_collection[OF assms(1)]
  by (auto simp: resource_project_def split: if_splits option.splits)

lemma resource_routers_silent:
  assumes "rq_path rq = c # i # rest" "resource_project c i (st_world s) = Some p" "caller_outside ad rq p (st_world s)"
  shows "silent (or_else (endpoint_router ad rq body) (or_else (delivery_router ad rq) (event_router ad rq))) s"
proof -
  have st: "resource_project c i (st_world v) = Some p" "caller_outside ad rq p (st_world v)"
    if "same_tables (st_world s) (st_world v)" for v
    using that assms same_tables_caller by simp_all
  show ?thesis
  proof (intro silent_or_else)
    show "silent (endpoint_router ad rq body) s" by (rule resource_router_silent(1)[OF assms])
  next
    fix v :: app_state assume v: "same_tables (st_world s) (st_world v)"
    show "silent (delivery_router ad rq) v" by (rule resource_router_silent(2)[OF assms(1) st[OF v]])
  next
    fix v u :: app_state assume v: "same_tables (st_world s) (st_world v)" "same_tables (st_world v) (st_world u)"
    have "same_tables (st_world s) (st_world u)" using v by (simp add: same_tables_def)
    then show "silent (event_router ad rq) u" using resource_router_silent(3)[OF assms(1)] st by blast
  qed
qed

section \<open>The idempotency key of a publish request\<close>

lemma js_error_status: "400 \<le> status_of (JsError c t m)"
  by (simp add: status_of_def errorHandler_def normalise_def toProblem_def app_error_defs Let_def)

lemma unprocessable_status: "400 \<le> status_of (App (UnprocessableError d))"
  by (simp add: status_of_def errorHandler_def normalise_def toProblem_def app_error_defs Let_def)

text \<open>Every way \<open>publishEvent\<close> rejects is answered with an error status.\<close>

definition fails_loudly :: "'a act \<Rightarrow> bool" where
  "fails_loudly m \<longleftrightarrow> (\<forall>w. wp m (\<lambda>_ _. True) (\<lambda>e _. 400 \<le> status_of e) w)"

lemma loud_bind: "fails_loudly m \<Longrightarrow> (\<And>a. fails_loudly (f a)) \<Longrightarrow> fails_loudly (io_bind m f)"
  unfolding fails_loudly_def wp_bind by (blast intro: wp_mono)

lemma loud_seq: "fails_loudly m \<Longrightarrow> fails_loudly n \<Longrightarrow> fails_loudly (io_seq m n)"
  by (simp add: io_seq_def loud_bind)

lemma loud_ret: "fails_loudly (io_ret a)"
  by (simp add: fails_loudly_def wp_simps)

lemma loud_query: "fails_loudly (query g)"
  by (simp add: fails_loudly_def wp_simps unavailable_def js_error_status split: fault.split)

lemma loud_effect: "fails_loudly (effect g)"
  by (simp add: fails_loudly_def wp_simps unavailable_def js_error_status split: fault.split)

lemma prefixFor_js: "prefixFor k = Inl e \<Longrightarrow> \<exists>m. e = JsError None None m"
  by (auto simp: prefixFor_def split: option.splits)

lemma loud_fresh: "fails_loudly (fresh_id k)"
  by (auto simp: fails_loudly_def wp_simps newId_def js_error_status dest!: prefixFor_js split: sum.split)

lemma loud_commit:
  assumes "\<And>w e. transaction ops w = Inl e \<Longrightarrow> 400 \<le> status_of e"
  shows "fails_loudly (commit ops g)"
  using assms by (auto simp: fails_loudly_def wp_simps unavailable_def js_error_status split: fault.split sum.split)

lemma loud_mapM: "(\<And>x. fails_loudly (body x)) \<Longrightarrow> fails_loudly (io_mapM body xs)"
  by (induction xs) (auto intro!: loud_bind loud_ret)

lemma loud_each: "(\<And>x. fails_loudly (body x)) \<Longrightarrow> fails_loudly (io_each body xs)"
  by (induction xs) (auto intro!: loud_seq loud_ret)

lemma messageFor_js: "messageFor i n = Inl e \<Longrightarrow> \<exists>m. e = JsError None None m"
  by (auto simp: messageFor_def assertId_def isId_def dest!: prefixFor_js
      split: sum.splits if_splits option.splits bool.splits)

lemma loud_publish: "fails_loudly (publishDelivery pb i n)"
  unfolding publishDelivery_def publish_def
  by (rule loud_bind[OF _ loud_effect])
     (auto simp: fails_loudly_def wp_simps js_error_status dest!: messageFor_js split: sum.split)

lemma loud_raise: "400 \<le> status_of e \<Longrightarrow> fails_loudly (io_raise e)"
  by (simp add: fails_loudly_def wp_simps)

lemma publishEvent_loud: "fails_loudly (publishEvent pb p t v ids key)"
  unfolding publishEvent_def explicitEndpoints_def subscribedEndpoints_def draft_delivery_def Let_def
  by (auto intro!: loud_bind loud_seq loud_ret loud_query loud_fresh loud_mapM loud_each loud_publish loud_raise
      loud_commit unprocessable_status
      simp: no_endpoint_error_def unprocessable_status create_event_def create_deliveries_def unique_violation_def js_error_status
      split: sum.splits if_splits)

text \<open>With Redis up, the key is answered when the publish was accepted and free when it failed.\<close>

definition redis_up :: "app_state \<Rightarrow> bool" where
  "redis_up s \<longleftrightarrow> rd_faults (st_redis s) = []"

lemma publish_handler_key:
  assumes "redis_up s"
  shows "wp (publish_handler ad a b key k)
    (\<lambda>r s'. rs_status r = ACCEPTED \<and> (\<exists>x e. rs_body r = Accepted x \<and> rd_strings (st_redis s') k = Some (Answer ACCEPTED (receipt_json x), e)))
    (\<lambda>e s'. rd_strings (st_redis s') k = None) s"
proof -
  have up: "rd_fault d = NoFault" if "rd_faults d = []" for d using that by (simp add: rd_fault_def)
  have d: "rd_faults (st_redis s) = []" using assms by (simp add: redis_up_def)
  have d2: "rd_faults (rd_step (st_redis s)) = []" using d by (simp add: rd_step_def)
  have loud: "wp (publishEvent pb p t v ids key) (\<lambda>_ _. True) (\<lambda>e _. 400 \<le> status_of e) w" for pb p t v ids w
    using publishEvent_loud by (simp add: fails_loudly_def)
  show ?thesis
    unfolding publish_handler_def wp_bind wp_catch wp_on_world
  proof (rule wp_mono[OF loud])
    fix x and w' :: world
    show "wp (io_seq (io_catch
        (on_redis (store_answer (cf_IDEMPOTENCY_TTL_SECONDS (app_config ad)) k ACCEPTED (receipt_json x)))
        (\<lambda>e. io_seq (on_redis (on_finish k True (status_of e))) (io_raise e)))
        (io_seq (on_redis (on_finish k True ACCEPTED)) (io_ret (answer ACCEPTED (Accepted x)))))
      (\<lambda>r s'. rs_status r = ACCEPTED \<and> (\<exists>x e. rs_body r = Accepted x \<and> rd_strings (st_redis s') k = Some (Answer ACCEPTED (receipt_json x), e)))
      (\<lambda>e s'. rd_strings (st_redis s') k = None) (s\<lparr>st_world := w'\<rparr>)"
      by (simp add: wp_simps store_answer_def on_finish_def up[OF d] keep_answer_def answer_def)
  next
    fix e and w' :: world
    assume "400 \<le> status_of e"
    then show "wp (io_seq (on_redis (on_finish k False (status_of e))) (io_raise e))
      (\<lambda>x. wp (io_seq (io_catch
        (on_redis (store_answer (cf_IDEMPOTENCY_TTL_SECONDS (app_config ad)) k ACCEPTED (receipt_json x)))
        (\<lambda>e. io_seq (on_redis (on_finish k True (status_of e))) (io_raise e)))
        (io_seq (on_redis (on_finish k True ACCEPTED)) (io_ret (answer ACCEPTED (Accepted x)))))
      (\<lambda>r s'. rs_status r = ACCEPTED \<and> (\<exists>x e. rs_body r = Accepted x \<and> rd_strings (st_redis s') k = Some (Answer ACCEPTED (receipt_json x), e)))
      (\<lambda>e s'. rd_strings (st_redis s') k = None))
      (\<lambda>e s'. rd_strings (st_redis s') k = None) (s\<lparr>st_world := w'\<rparr>)"
      by (simp add: wp_simps on_finish_def release_def up[OF d])
  qed
qed

end
