(* ===== verification/Samples_Api.thy ===== *)
theory Samples_Api
  imports Samples Route_Guards System Realtime_Socket
begin

text \<open>
  Concrete inputs for the properties of the API: the sample world with an owner and a member, and
  an application whose tokens are the ids of the users they were issued to.
\<close>

definition sample_service :: service_deps where
  "sample_service =
    \<lparr>sv_publisher = sample_publisher, sv_config = sample_config, sv_iso = (\<lambda>_. []), sv_dateParse = (\<lambda>_. None)\<rparr>"

definition sample_members :: "membership list" where
  "sample_members =
    [\<lparr>m_userId = ''usr_1'', m_projectId = ''prj_1'', m_role = OWNER, m_createdAt = 0\<rparr>,
     \<lparr>m_userId = ''usr_2'', m_projectId = ''prj_1'', m_role = MEMBER, m_createdAt = 0\<rparr>]"

definition sample_api_world :: world where
  "sample_api_world = (sample_world PENDING [])\<lparr>memberships := sample_members\<rparr>"

definition sample_auth_deps :: auth_deps where
  "sample_auth_deps =
    \<lparr>au_config = sample_config, au_sha256Hex = (\<lambda>s. s), au_hashPassword = (\<lambda>_ p. p),
     au_argonVerify = (\<lambda>h p. Inr (h = p)), au_jwtSign = (\<lambda>u _. u)\<rparr>"

definition sample_endpoint_deps :: endpoint_deps where
  "sample_endpoint_deps =
    \<lparr>es_config = sample_config, es_resolve = (\<lambda>_ _. Inr sample_target), es_publisher = sample_publisher,
     es_seal = (\<lambda>_ s. (s, s)), es_iso = (\<lambda>_. [])\<rparr>"

definition sample_schemas :: schemas where
  "sample_schemas =
    \<lparr>sc_publish = (\<lambda>_. Inl []), sc_register = (\<lambda>_. Inl []), sc_login = (\<lambda>_. Inl []), sc_project = (\<lambda>_. Inl []),
     sc_projectUpdate = (\<lambda>_. Inl []), sc_member = (\<lambda>_. Inl []), sc_apiKey = (\<lambda>_. Inl []),
     sc_endpointCreate = (\<lambda>_. Inl []), sc_endpointUpdate = (\<lambda>_. Inl []), sc_eventFilter = (\<lambda>_. Inl []),
     sc_deliveryFilter = (\<lambda>_. Inl []), sc_bulkReplay = (\<lambda>_. Inl [])\<rparr>"

definition sample_app :: app_deps where
  "sample_app =
    \<lparr>ad_auth = sample_auth_deps, ad_endpoint = sample_endpoint_deps, ad_service = sample_service,
     ad_schemas = sample_schemas, ad_verify = (\<lambda>_ token. Inr \<lparr>jp_sub = token, jp_exp = 0\<rparr>),
     ad_contains = (\<lambda>_ _. True), ad_num = (\<lambda>_. []), ad_depth = (\<lambda>_ _. 0), ad_randomUUID = ''uuid''\<rparr>"

definition sample_redis :: redis where
  "sample_redis =
    \<lparr>zsets = (\<lambda>_. None), rd_strings = (\<lambda>_. None), rd_clock = 0, rd_drift = [], rd_faults = [], rd_fresh = 0,
     rd_uuids = (\<lambda>_. ''uuid'')\<rparr>"

definition sample_state :: app_state where
  "sample_state = \<lparr>st_world = sample_api_world, st_redis = sample_redis, st_counter = createPublishCounter\<rparr>"

definition sample_request :: "string \<Rightarrow> string \<Rightarrow> string list \<Rightarrow> request" where
  "sample_request user m path =
    \<lparr>rq_method = m, rq_path = path, rq_url = [], rq_authorization = Some (''Bearer '' @ user),
     rq_idempotencyKey = None, rq_requestId = None, rq_refreshCookie = None, rq_ip = ''127.0.0.1'',
     rq_body = Inr (JObj []), rq_query = []\<rparr>"

lemmas sample_api_defs =
  sample_service_def sample_members_def sample_api_world_def sample_auth_deps_def sample_endpoint_deps_def
  sample_schemas_def sample_app_def sample_redis_def sample_state_def sample_request_def

end
