(* ===== verification/Ui_Lib.thy ===== *)
theory Ui_Lib
  imports Errors Js_Number Retry "HOL-Library.AList"
begin

text \<open>
  The dashboard's small modules: \<open>lib/problem.js\<close>, \<open>api-error-message.js\<close>, \<open>field-errors.js\<close>,
  \<open>endpoint-url.js\<close>, \<open>landing.js\<close>, \<open>theme.js\<close>, and \<open>components/ui/status.js\<close> and \<open>time.js\<close>, under
  \<open>src/dashboard/src\<close>.  An object used as a dictionary is an association list in insertion order.
  URL and date parsing and the text of a date are the language's, given as functions.
\<close>

section \<open>Problems\<close>

definition PROBLEM_TYPE_PREFIX :: string where
  "PROBLEM_TYPE_PREFIX = ''urn:hook-tracker:error:''"

text \<open>The body of a failed response; a field that is absent or null is \<open>None\<close>.\<close>

record problem_body =
  pb_type :: "string option"
  pb_title :: "string option"
  pb_detail :: "string option"
  pb_errors :: "field_error list option"
  pb_requestId :: "string option"

definition no_problem :: problem_body where
  "no_problem = \<lparr>pb_type = None, pb_title = None, pb_detail = None, pb_errors = None, pb_requestId = None\<rparr>"

record api_error =
  x_message :: string
  x_status :: int
  x_type :: string
  x_title :: string
  x_detail :: string
  x_errors :: "field_error list"
  x_requestId :: string

text \<open>\<open>a ?? b\<close> and \<open>a || b\<close> on strings.\<close>

definition coalesce :: "'a option \<Rightarrow> 'a \<Rightarrow> 'a" where
  "coalesce a b = (case a of None \<Rightarrow> b | Some x \<Rightarrow> x)"

definition or_string :: "string \<Rightarrow> string \<Rightarrow> string" where
  "or_string a b = (if a = [] then b else a)"

definition ApiError :: "int \<Rightarrow> problem_body \<Rightarrow> string option \<Rightarrow> api_error" where
  "ApiError st p requestId =
    \<lparr>x_message = or_string (coalesce (pb_detail p) [])
        (or_string (coalesce (pb_title p) []) (''Request failed with '' @ int_str st)),
     x_status = st, x_type = coalesce (pb_type p) [], x_title = coalesce (pb_title p) [],
     x_detail = coalesce (pb_detail p) [], x_errors = coalesce (pb_errors p) [],
     x_requestId = coalesce (pb_requestId p) (coalesce requestId [])\<rparr>"

definition error_kind :: "api_error \<Rightarrow> string" where
  "error_kind e =
    (if starts_with (x_type e) PROBLEM_TYPE_PREFIX then drop (length PROBLEM_TYPE_PREFIX) (x_type e) else [])"

text \<open>The first non-empty message of a path counts.\<close>

definition strip_body :: "string \<Rightarrow> string" where
  "strip_body path = (if starts_with path ''body.'' then drop 5 path else path)"

definition note_issue :: "(string \<times> string) list \<Rightarrow> field_error \<Rightarrow> (string \<times> string) list" where
  "note_issue m issue =
    (let key = strip_body (fe_path issue) in
     case map_of m key of
       None \<Rightarrow> m @ [(key, fe_message issue)]
     | Some t \<Rightarrow> if t = [] then AList.update key (fe_message issue) m else m)"

definition fieldErrors :: "api_error \<Rightarrow> (string \<times> string) list" where
  "fieldErrors e = foldl note_issue [] (x_errors e)"

text \<open>What a request rejects with: an \<open>ApiError\<close>, or the error of \<open>fetch\<close>.\<close>

datatype ui_exn = ApiFailure api_error | NetworkFailure string

definition is_api :: "ui_exn \<Rightarrow> bool" where
  "is_api e \<longleftrightarrow> (case e of ApiFailure _ \<Rightarrow> True | NetworkFailure _ \<Rightarrow> False)"

definition isUnauthorized :: "ui_exn \<Rightarrow> bool" where
  "isUnauthorized e \<longleftrightarrow> (case e of ApiFailure x \<Rightarrow> x_status x = 401 | NetworkFailure _ \<Rightarrow> False)"

section \<open>Messages\<close>

definition FALLBACK :: string where
  "FALLBACK = ''The request failed. Try again, or check the API logs.''"

definition firstField :: "api_error \<Rightarrow> string" where
  "firstField e = (case fieldErrors e of [] \<Rightarrow> [] | (_, m) # _ \<Rightarrow> m)"

definition describeApiError :: "(int \<times> string) list \<Rightarrow> ui_exn option \<Rightarrow> string" where
  "describeApiError byStatus err =
    (case err of
       None \<Rightarrow> []
     | Some (NetworkFailure m) \<Rightarrow> or_string m FALLBACK
     | Some (ApiFailure e) \<Rightarrow>
         or_string (coalesce (map_of byStatus (x_status e)) [])
           (or_string (firstField e) (or_string (x_detail e) (or_string (x_message e) FALLBACK))))"

text \<open>\<open>useFieldErrors(fields).applyFieldErrors\<close>: whether any was known, and the new \<open>fieldErrors\<close>.\<close>

definition applyFieldErrors :: "string list \<Rightarrow> api_error \<Rightarrow> bool \<times> (string \<times> string) list" where
  "applyFieldErrors names e =
    (let known = filter (\<lambda>(field, _). field \<in> set names) (fieldErrors e) in (known \<noteq> [], known))"

section \<open>URLs\<close>

record parsed_url =
  ul_protocol :: string
  ul_host :: string
  ul_pathname :: string
  ul_search :: string

definition displayName :: "(string \<Rightarrow> parsed_url option) \<Rightarrow> string \<Rightarrow> string" where
  "displayName parse rawUrl =
    (case parse rawUrl of
       None \<Rightarrow> rawUrl
     | Some u \<Rightarrow> ul_host u @ (if ul_pathname u = ''/'' then [] else ul_pathname u))"

definition splitUrl :: "(string \<Rightarrow> parsed_url option) \<Rightarrow> string \<Rightarrow> string \<times> string" where
  "splitUrl parse rawUrl =
    (case parse rawUrl of
       None \<Rightarrow> (rawUrl, [])
     | Some u \<Rightarrow> (ul_host u, (if ul_pathname u = ''/'' then [] else ul_pathname u) @ ul_search u))"

section \<open>Theme\<close>

definition MODES :: "string list" where "MODES = [''system'', ''light'', ''dark'']"

text \<open>The page's attribute, what is stored, and the mode shown.\<close>

record theme_state =
  th_mode :: string
  th_stored :: "string option"
  th_attribute :: "string option"

definition readStored :: "string option \<Rightarrow> string" where
  "readStored v = (case v of None \<Rightarrow> ''system'' | Some m \<Rightarrow> if m \<in> set MODES then m else ''system'')"

definition apply_theme :: "string \<Rightarrow> theme_state \<Rightarrow> theme_state" where
  "apply_theme mode s = s\<lparr>th_attribute := (if mode = ''system'' then None else Some mode)\<rparr>"

definition setThemeMode :: "string \<Rightarrow> theme_state \<Rightarrow> theme_state" where
  "setThemeMode mode s =
    (let next_mode = (if mode \<in> set MODES then mode else ''system'') in
     apply_theme next_mode (s\<lparr>th_mode := next_mode,
       th_stored := (if next_mode = ''system'' then None else Some next_mode)\<rparr>))"

text \<open>\<open>indexOf\<close> is \<open>-1\<close> for an unknown mode, which the increment makes 0.\<close>

definition mode_index :: "string \<Rightarrow> int" where
  "mode_index m = (if m \<in> set MODES then int (length (takeWhile (\<lambda>x. x \<noteq> m) MODES)) else - 1)"

definition cycleThemeMode :: "theme_state \<Rightarrow> theme_state" where
  "cycleThemeMode s = setThemeMode (MODES ! nat ((mode_index (th_mode s) + 1) mod 3)) s"

definition initTheme :: "string option \<Rightarrow> theme_state" where
  "initTheme stored =
    apply_theme (readStored stored) \<lparr>th_mode = readStored stored, th_stored = stored, th_attribute = None\<rparr>"

definition theme_ok :: "theme_state \<Rightarrow> bool" where
  "theme_ok s \<longleftrightarrow> th_mode s \<in> set MODES \<and> th_mode s = readStored (th_stored s)
     \<and> th_attribute s = (if th_mode s = ''system'' then None else Some (th_mode s))"

lemma theme_ok_init: "theme_ok (initTheme stored)"
  by (auto simp: theme_ok_def initTheme_def apply_theme_def readStored_def MODES_def split: option.split)

lemma theme_ok_set: "theme_ok (setThemeMode mode s)"
  by (auto simp: theme_ok_def setThemeMode_def apply_theme_def readStored_def MODES_def Let_def)

lemma theme_ok_cycle: "theme_ok (cycleThemeMode s)"
  by (simp add: cycleThemeMode_def theme_ok_set)

lemma cycle_mode:
  "th_mode s = ''system'' \<Longrightarrow> th_mode (cycleThemeMode s) = ''light''"
  "th_mode s = ''light'' \<Longrightarrow> th_mode (cycleThemeMode s) = ''dark''"
  "th_mode s = ''dark'' \<Longrightarrow> th_mode (cycleThemeMode s) = ''system''"
  by (simp_all add: cycleThemeMode_def setThemeMode_def apply_theme_def mode_index_def MODES_def Let_def)

lemma theme_cycles: "theme_ok s \<Longrightarrow> th_mode (cycleThemeMode (cycleThemeMode (cycleThemeMode s))) = th_mode s"
  using cycle_mode by (auto simp: theme_ok_def MODES_def)

section \<open>Statuses\<close>

record status_meta =
  sm_label :: string
  sm_textClass :: string
  sm_softClass :: string
  sm_glyph :: string

definition STATUS_META :: "(string \<times> status_meta) list" where
  "STATUS_META =
    [(''PENDING'', \<lparr>sm_label = ''Queued'', sm_textClass = ''text-pending'', sm_softClass = ''bg-pending-soft'', sm_glyph = ''clock''\<rparr>),
     (''IN_FLIGHT'', \<lparr>sm_label = ''In flight'', sm_textClass = ''text-flight'', sm_softClass = ''bg-flight-soft'', sm_glyph = ''triangle''\<rparr>),
     (''RETRYING'', \<lparr>sm_label = ''Retrying'', sm_textClass = ''text-retry'', sm_softClass = ''bg-retry-soft'', sm_glyph = ''circular-arrow''\<rparr>),
     (''SUCCEEDED'', \<lparr>sm_label = ''Delivered'', sm_textClass = ''text-ok'', sm_softClass = ''bg-ok-soft'', sm_glyph = ''check''\<rparr>),
     (''FAILED_PERMANENTLY'', \<lparr>sm_label = ''Failed'', sm_textClass = ''text-fail'', sm_softClass = ''bg-fail-soft'', sm_glyph = ''cross''\<rparr>),
     (''SKIPPED'', \<lparr>sm_label = ''Skipped'', sm_textClass = ''text-skip'', sm_softClass = ''bg-skip-soft'', sm_glyph = ''slashed-circle''\<rparr>)]"

definition resolveStatusMeta :: "string option \<Rightarrow> status_meta" where
  "resolveStatusMeta st =
    (case Option.bind st (map_of STATUS_META) of
       Some known \<Rightarrow> known
     | None \<Rightarrow> \<lparr>sm_label = coalesce st ''Unknown'', sm_textClass = ''text-skip'', sm_softClass = ''bg-skip-soft'',
                 sm_glyph = ''slashed-circle''\<rparr>)"

definition statusLabel :: "string option \<Rightarrow> string" where
  "statusLabel st = sm_label (resolveStatusMeta st)"

section \<open>Times\<close>

definition SECOND :: int where "SECOND = 1000"
definition MINUTE :: int where "MINUTE = 60 * SECOND"
definition HOUR :: int where "HOUR = 60 * MINUTE"
definition DAY :: int where "DAY = 24 * HOUR"

definition EM_DASH :: string where "EM_DASH = [CHR 0xE2, CHR 0x80, CHR 0x94]"

definition toTimestamp :: "(string \<Rightarrow> int option) \<Rightarrow> string option \<Rightarrow> int option" where
  "toTimestamp dateParse v = Option.bind v dateParse"

definition formatRelativeTime :: "(string \<Rightarrow> int option) \<Rightarrow> string option \<Rightarrow> int \<Rightarrow> string" where
  "formatRelativeTime dateParse v t =
    (case toTimestamp dateParse v of
       None \<Rightarrow> EM_DASH
     | Some timestamp \<Rightarrow>
        (let elapsed = \<bar>t - timestamp\<bar> in
         if elapsed < 5 * SECOND then ''now''
         else if elapsed < MINUTE then int_str (elapsed div SECOND) @ ''s''
         else if elapsed < HOUR then int_str (elapsed div MINUTE) @ ''m''
         else if elapsed < DAY then int_str (elapsed div HOUR) @ ''h''
         else int_str (elapsed div DAY) @ ''d''))"

text \<open>\<open>isoText\<close> is \<open>toISOString\<close> of a timestamp and \<open>offset\<close> the time zone's, in minutes.\<close>

definition toDateTimeInput ::
  "(string \<Rightarrow> int option) \<Rightarrow> (int \<Rightarrow> string) \<Rightarrow> (int \<Rightarrow> int) \<Rightarrow> string option \<Rightarrow> string" where
  "toDateTimeInput dateParse isoText offset v =
    (case toTimestamp dateParse v of
       None \<Rightarrow> []
     | Some timestamp \<Rightarrow> take 16 (isoText (timestamp - offset timestamp * MINUTE)))"

definition fromDateTimeInput :: "(string \<Rightarrow> int option) \<Rightarrow> (int \<Rightarrow> string) \<Rightarrow> string \<Rightarrow> string option" where
  "fromDateTimeInput dateParse isoText v = map_option isoText (dateParse v)"

definition formatAbsoluteUtc :: "(string \<Rightarrow> int option) \<Rightarrow> (int \<Rightarrow> string) \<Rightarrow> string option \<Rightarrow> string" where
  "formatAbsoluteUtc dateParse isoText v =
    (case toTimestamp dateParse v of
       None \<Rightarrow> []
     | Some timestamp \<Rightarrow> (let s = isoText timestamp in take 10 s @ '' '' @ take 8 (drop 11 s) @ '' UTC''))"

text \<open>What is sent after a date was typed is a text the API's parser reads, whatever was typed.\<close>

lemma fromDateTimeInput_parses:
  assumes "\<And>t. dateParse (isoText t) = Some t" "fromDateTimeInput dateParse isoText v = Some s"
  shows "dateParse s = dateParse v"
  using assms by (auto simp: fromDateTimeInput_def)

section \<open>Facts about errors\<close>

lemma note_issue_first:
  "map_of (note_issue m i) k =
    (if k = strip_body (fe_path i) \<and> (map_of m k = None \<or> map_of m k = Some []) then Some (fe_message i) else map_of m k)"
  by (auto simp: note_issue_def Let_def update_conv' map_add_def split: option.splits)

text \<open>The message of a field is the first non-empty one reported for it.\<close>

lemma fieldErrors_first:
  assumes "filter (\<lambda>i. strip_body (fe_path i) = k) (x_errors e) = i # rest" "fe_message i \<noteq> []"
  shows "map_of (fieldErrors e) k = Some (fe_message i)"
proof -
  have stay: "map_of (foldl note_issue m ys) k = Some t" if "map_of m k = Some t" "t \<noteq> []" for m t ys
    using that by (induction ys arbitrary: m) (auto simp: note_issue_first)
  have "map_of (foldl note_issue m ys) k = Some (fe_message i)"
    if "filter (\<lambda>i. strip_body (fe_path i) = k) ys = i # rest" "map_of m k = None" for m ys
    using that
  proof (induction ys arbitrary: m)
    case (Cons j js)
    show ?case
    proof (cases "strip_body (fe_path j) = k")
      case True
      then have "j = i" using Cons.prems(1) by simp
      then have "map_of (note_issue m j) k = Some (fe_message i)"
        using True Cons.prems(2) by (simp add: note_issue_first)
      then show ?thesis using stay assms(2) by simp
    next
      case False
      then show ?thesis using Cons by (simp add: note_issue_first)
    qed
  qed simp
  then show ?thesis using assms(1) by (simp add: fieldErrors_def)
qed

lemma describe_never_empty: "describeApiError byStatus (Some e) \<noteq> []"
  by (auto simp: describeApiError_def or_string_def FALLBACK_def split: ui_exn.split)

end
