(* ===== verification/Ui_Curl.thy ===== *)
theory Ui_Curl
  imports Prelude
begin

text \<open>
  \<open>src/dashboard/src/lib/curl.js\<close>: the command a page offers for copying.  The second half reads the
  command back as a POSIX shell would, which is what its user does with it: the words must be the
  URL, the headers and the body, whatever characters they contain.
\<close>

definition ORIGIN_FALLBACK :: string where "ORIGIN_FALLBACK = ''https://your-hook-tracker-host''"

text \<open>\<open>typeof window\<close>: the origin of the page, if there is one.\<close>

definition apiOrigin :: "string option \<Rightarrow> string" where
  "apiOrigin window = (case window of None \<Rightarrow> ORIGIN_FALLBACK | Some origin \<Rightarrow> origin)"

abbreviation QUOTE :: char where "QUOTE \<equiv> CHR 0x27"
abbreviation BACKSLASH :: char where "BACKSLASH \<equiv> CHR 0x5C"
abbreviation NEWLINE :: char where "NEWLINE \<equiv> CHR 0x0A"

definition quote_char :: "char \<Rightarrow> string" where
  "quote_char c = (if c = QUOTE then [QUOTE, BACKSLASH, QUOTE, QUOTE] else [c])"

definition shellQuote :: "string \<Rightarrow> string" where
  "shellQuote v = [QUOTE] @ concat (map quote_char v) @ [QUOTE]"

definition buildCurl :: "string \<Rightarrow> (string \<times> string) list \<Rightarrow> string option \<Rightarrow> string" where
  "buildCurl url headers body =
    join [CHR '' '', BACKSLASH, NEWLINE]
      ([''curl -X POST '' @ shellQuote url]
       @ map (\<lambda>(name, v). ''  -H '' @ shellQuote (name @ '': '' @ v)) headers
       @ (case body of None \<Rightarrow> [] | Some b \<Rightarrow> [''  -d '' @ shellQuote b]))"

section \<open>A shell reading it\<close>

text \<open>
  The words of one command by the POSIX rules for single quotes, backslashes and line continuations.
  Characters with another meaning to the shell are not read: the result is \<open>None\<close>, as it is at the
  end of a line and inside an unfinished quote.
\<close>

definition shell_special :: "char \<Rightarrow> bool" where
  "shell_special c \<longleftrightarrow> c \<in> set ''|&;<>()$`*?[]#~=%!{}^'' \<or> c = CHR 0x22 \<or> c = NEWLINE"

definition end_word :: "string option \<Rightarrow> string list" where
  "end_word w = (case w of None \<Rightarrow> [] | Some v \<Rightarrow> [v])"

definition add_char :: "string option \<Rightarrow> char \<Rightarrow> string option" where
  "add_char w c = Some ((case w of None \<Rightarrow> [] | Some v \<Rightarrow> v) @ [c])"

fun shell_words :: "bool \<Rightarrow> string option \<Rightarrow> string \<Rightarrow> string list option" where
  "shell_words False w [] = Some (end_word w)"
| "shell_words True w [] = None"
| "shell_words True w (c # s) =
    (if c = QUOTE then shell_words False w s else shell_words True (add_char w c) s)"
| "shell_words False w [c] =
    (if c = QUOTE \<or> c = BACKSLASH \<or> shell_special c then None
     else if c = CHR '' '' then Some (end_word w) else Some (end_word (add_char w c)))"
| "shell_words False w (c # d # s) =
    (if c = QUOTE then shell_words True (Some (case w of None \<Rightarrow> [] | Some v \<Rightarrow> v)) (d # s)
     else if c = BACKSLASH then
       (if d = NEWLINE then shell_words False w s else shell_words False (add_char w d) s)
     else if shell_special c then None
     else if c = CHR '' '' then map_option ((@) (end_word w)) (shell_words False None (d # s))
     else shell_words False (add_char w c) (d # s))"

lemma words_open:
  "s \<noteq> [] \<Longrightarrow> shell_words False w (QUOTE # s) = shell_words True (Some (case w of None \<Rightarrow> [] | Some v \<Rightarrow> v)) s"
  by (cases s) simp_all

text \<open>The text of a quoted word, read from inside its quotes.\<close>

lemma words_quoted:
  "shell_words True (Some u) (concat (map quote_char v) @ QUOTE # r) = shell_words False (Some (u @ v)) r"
proof (induction v arbitrary: u)
  case (Cons c v)
  show ?case
  proof (cases "c = QUOTE")
    case True
    have "shell_words True (Some u) (concat (map quote_char (c # v)) @ QUOTE # r)
        = shell_words False (Some (u @ [QUOTE])) (QUOTE # concat (map quote_char v) @ QUOTE # r)"
      by (simp add: True quote_char_def[of QUOTE] add_char_def)
    also have "\<dots> = shell_words False (Some (u @ c # v)) r"
      using Cons[of "u @ [QUOTE]"] True by (simp add: words_open)
    finally show ?thesis .
  next
    case False
    then show ?thesis using Cons[of "u @ [c]"] by (simp add: quote_char_def add_char_def)
  qed
qed simp

lemma words_shellQuote: "shell_words False None (shellQuote v @ r) = shell_words False (Some v) r"
proof -
  obtain d s where d: "concat (map quote_char v) @ QUOTE # r = d # s"
    by (cases "concat (map quote_char v) @ QUOTE # r") auto
  have "shell_words False None (shellQuote v @ r) = shell_words True (Some []) (concat (map quote_char v) @ QUOTE # r)"
    by (simp add: shellQuote_def d)
  then show ?thesis using words_quoted[of "[]" v r] by simp
qed

text \<open>A line of options after a continuation.\<close>

lemma words_line:
  assumes "shell_words False (Some v) r = Some ws" "opt = CHR ''H'' \<or> opt = CHR ''d''"
  shows "shell_words False (Some u) ([CHR '' '', BACKSLASH, NEWLINE] @ '' '' @ '' '' @ CHR ''-'' # opt # '' '' @ shellQuote v @ r)
      = Some (u # [CHR ''-'', opt] # ws)"
proof -
  obtain d s where d: "shellQuote v @ r = d # s" by (simp add: shellQuote_def)
  have w: "shell_words False None (d # s) = Some ws" using assms(1) words_shellQuote[of v r] d by simp
  show ?thesis
    using assms(2) by (auto simp: d w end_word_def add_char_def shell_special_def)
qed

lemma join_cons: "join sep (x # xs) = x @ concat (map ((@) sep) xs)"
  by (induction xs arbitrary: x) auto

text \<open>The command is one command, and its words are what was meant.\<close>

definition option_words :: "(string \<times> string) list \<Rightarrow> string option \<Rightarrow> string list" where
  "option_words headers body =
    concat (map (\<lambda>(name, v). [''-H'', name @ '': '' @ v]) headers)
    @ (case body of None \<Rightarrow> [] | Some b \<Rightarrow> [''-d'', b])"

lemma words_options:
  "shell_words False (Some u) (concat (map ((@) [CHR '' '', BACKSLASH, NEWLINE])
      (map (\<lambda>(name, v). ''  -H '' @ shellQuote (name @ '': '' @ v)) headers
       @ (case body of None \<Rightarrow> [] | Some b \<Rightarrow> [''  -d '' @ shellQuote b]))))
   = Some (u # option_words headers body)"
proof (induction headers arbitrary: u)
  case Nil
  show ?case
  proof (cases body)
    case (Some b)
    have "shell_words False (Some b) [] = Some [b]" by (simp add: end_word_def)
    from words_line[OF this, where u = u and opt = "CHR ''d''"] show ?thesis by (simp add: Some option_words_def)
  qed (simp add: option_words_def end_word_def)
next
  case (Cons h headers)
  obtain n v where h: "h = (n, v)" by fastforce
  show ?case
    using words_line[OF Cons.IH[of "n @ '': '' @ v"], where u = u and opt = "CHR ''H''"] by (simp add: h option_words_def)
qed

lemma shell_reads_buildCurl:
  "shell_words False None (buildCurl url headers body)
    = Some ([''curl'', ''-X'', ''POST'', url] @ option_words headers body)"
proof -
  define rest where "rest = concat (map ((@) [CHR '' '', BACKSLASH, NEWLINE])
      (map (\<lambda>(name, v). ''  -H '' @ shellQuote (name @ '': '' @ v)) headers
       @ (case body of None \<Rightarrow> [] | Some b \<Rightarrow> [''  -d '' @ shellQuote b])))"
  obtain d s where d: "shellQuote url @ rest = d # s" by (simp add: shellQuote_def)
  have "shell_words False None (d # s) = Some (url # option_words headers body)"
    using words_shellQuote[of url rest] words_options[of url headers body] d by (simp add: rest_def)
  moreover have "buildCurl url headers body = ''curl -X POST '' @ d # s"
    using d by (simp add: buildCurl_def join_cons rest_def)
  ultimately show ?thesis by (simp add: end_word_def add_char_def shell_special_def)
qed

end
