(* ===== verification/Ui_Requests.thy ===== *)
theory Ui_Requests
  imports Ui_Lib Keyset
begin

text \<open>
  \<open>src/dashboard/src/composables/use-sequenced-request.js\<close>, and the paged lists that the deliveries and
  events stores build on it.  JavaScript runs to completion between two awaits, so a run is two steps:
  its start, and later its settling with an answer; any number of runs can be in flight and they
  settle in any order.
\<close>

section \<open>Sequenced requests\<close>

text \<open>The refs of one request object with its \<open>ownSeq\<close>; \<open>gate.latest\<close> is shared and kept apart.\<close>

record channel =
  ch_own :: nat
  ch_loading :: bool
  ch_error :: "ui_exn option"

definition createRequest :: channel where
  "createRequest = \<lparr>ch_own = 0, ch_loading = False, ch_error = None\<rparr>"

record ticket =
  tk_mine :: nat
  tk_seq :: nat

definition start_run :: "bool \<Rightarrow> nat \<Rightarrow> channel \<Rightarrow> ticket \<times> nat \<times> channel" where
  "start_run claimsSequence gate ch =
    (let mine = ch_own ch + 1; gate' = (if claimsSequence then gate + 1 else gate) in
     (\<lparr>tk_mine = mine, tk_seq = gate'\<rparr>, gate', ch\<lparr>ch_own := mine, ch_loading := True, ch_error := None\<rparr>))"

definition is_current :: "nat \<Rightarrow> ticket \<Rightarrow> bool" where
  "is_current gate tk \<longleftrightarrow> tk_seq tk = gate"

definition settle_run :: "nat \<Rightarrow> ticket \<Rightarrow> ui_exn + 'a \<Rightarrow> channel \<Rightarrow> channel" where
  "settle_run gate tk answer ch =
    (let ch' = (case answer of Inl e \<Rightarrow> if is_current gate tk then ch\<lparr>ch_error := Some e\<rparr> else ch | Inr _ \<Rightarrow> ch)
     in if tk_mine tk = ch_own ch' then ch'\<lparr>ch_loading := False\<rparr> else ch')"

text \<open>What \<open>run\<close> returns: the result of a current run, \<open>undefined\<close>, or a rejection.\<close>

definition run_result :: "nat \<Rightarrow> ticket \<Rightarrow> bool \<Rightarrow> ui_exn + 'a \<Rightarrow> ui_exn + 'a option" where
  "run_result gate tk rethrow answer =
    (case answer of
       Inr a \<Rightarrow> Inr (if is_current gate tk then Some a else None)
     | Inl e \<Rightarrow> if rethrow then Inl e else Inr None)"

section \<open>A paged list\<close>

record ('q, 'r) pager =
  pg_gate :: nat
  pg_list :: channel
  pg_more :: channel
  pg_items :: "'r list"
  pg_cursor :: "string option"
  pg_query :: 'q

datatype fetch_kind = Load | More

record 'q fetch =
  ft_kind :: fetch_kind
  ft_query :: 'q
  ft_cursor :: "string option"
  ft_ticket :: ticket

type_synonym 'r page = "'r list \<times> string option"

definition pager_init :: "'q \<Rightarrow> ('q, 'r) pager" where
  "pager_init q = \<lparr>pg_gate = 0, pg_list = createRequest, pg_more = createRequest, pg_items = [], pg_cursor = None, pg_query = q\<rparr>"

definition hasMore :: "('q, 'r) pager \<Rightarrow> bool" where
  "hasMore p \<longleftrightarrow> pg_cursor p \<noteq> None"

definition pager_load :: "'q \<Rightarrow> ('q, 'r) pager \<Rightarrow> 'q fetch \<times> ('q, 'r) pager" where
  "pager_load q p =
    (case start_run True (pg_gate p) (pg_list p) of (tk, gate, ch) \<Rightarrow>
       (\<lparr>ft_kind = Load, ft_query = q, ft_cursor = None, ft_ticket = tk\<rparr>,
        p\<lparr>pg_gate := gate, pg_list := ch, pg_more := (pg_more p)\<lparr>ch_error := None\<rparr>, pg_query := q\<rparr>))"

definition pager_more :: "('q, 'r) pager \<Rightarrow> ('q fetch \<times> ('q, 'r) pager) option" where
  "pager_more p =
    (case pg_cursor p of
       None \<Rightarrow> None
     | Some cursor \<Rightarrow>
         if cursor = [] \<or> ch_loading (pg_more p) then None
         else (case start_run False (pg_gate p) (pg_more p) of (tk, gate, ch) \<Rightarrow>
           Some (\<lparr>ft_kind = More, ft_query = pg_query p, ft_cursor = Some cursor, ft_ticket = tk\<rparr>,
                 p\<lparr>pg_more := ch\<rparr>)))"

text \<open>\<open>onSuccess\<close> and \<open>onError\<close> of the two requests, with the bookkeeping around them.\<close>

definition list_answered :: "ui_exn + 'r page \<Rightarrow> ('q, 'r) pager \<Rightarrow> ('q, 'r) pager" where
  "list_answered answer p =
    (case answer of
       Inr (rows, next_cursor) \<Rightarrow> p\<lparr>pg_items := rows, pg_cursor := next_cursor\<rparr>
     | Inl _ \<Rightarrow> p\<lparr>pg_items := [], pg_cursor := None\<rparr>)"

definition more_answered :: "ui_exn + 'r page \<Rightarrow> ('q, 'r) pager \<Rightarrow> ('q, 'r) pager" where
  "more_answered answer p =
    (case answer of
       Inr (rows, next_cursor) \<Rightarrow> p\<lparr>pg_items := pg_items p @ rows, pg_cursor := next_cursor\<rparr>
     | Inl _ \<Rightarrow> p)"

definition pager_settle :: "'q fetch \<Rightarrow> ui_exn + 'r page \<Rightarrow> ('q, 'r) pager \<Rightarrow> ('q, 'r) pager" where
  "pager_settle f answer p =
    (let tk = ft_ticket f; cur = is_current (pg_gate p) tk in
     (case ft_kind f of
        Load \<Rightarrow> (if cur then list_answered answer p else p)\<lparr>pg_list := settle_run (pg_gate p) tk answer (pg_list p)\<rparr>
      | More \<Rightarrow> (if cur then more_answered answer p else p)\<lparr>pg_more := settle_run (pg_gate p) tk answer (pg_more p)\<rparr>))"

text \<open>\<open>reset\<close> of the stores: the requests in flight are left alone.\<close>

definition pager_reset :: "('q, 'r) pager \<Rightarrow> ('q, 'r) pager" where
  "pager_reset p =
    p\<lparr>pg_items := [], pg_cursor := None, pg_list := (pg_list p)\<lparr>ch_error := None\<rparr>,
      pg_more := (pg_more p)\<lparr>ch_error := None\<rparr>\<rparr>"

section \<open>The screen and the server\<close>

text \<open>
  The list with the requests in flight.  The server answers a request as \<open>serve\<close> says, or the
  request fails.  \<open>Older\<close> is a click on the button; \<open>Older_Idle\<close> one while the list is not being reloaded.
\<close>

record ('q, 'r) screen =
  sc_pager :: "('q, 'r) pager"
  sc_flying :: "'q fetch list"

datatype 'q screen_op = Reload 'q | Older | Older_Idle | Answered nat | Failed nat ui_exn | Reset

definition take_off :: "('q fetch \<times> ('q, 'r) pager) option \<Rightarrow> ('q, 'r) screen \<Rightarrow> ('q, 'r) screen" where
  "take_off m s = (case m of None \<Rightarrow> s | Some (f, p) \<Rightarrow> \<lparr>sc_pager = p, sc_flying = sc_flying s @ [f]\<rparr>)"

definition land :: "nat \<Rightarrow> ('q fetch \<Rightarrow> ui_exn + 'r page) \<Rightarrow> ('q, 'r) screen \<Rightarrow> ('q, 'r) screen" where
  "land i answer s =
    (if i < length (sc_flying s)
     then \<lparr>sc_pager = pager_settle (sc_flying s ! i) (answer (sc_flying s ! i)) (sc_pager s),
           sc_flying = take i (sc_flying s) @ drop (Suc i) (sc_flying s)\<rparr>
     else s)"

fun screen_step :: "('q \<Rightarrow> string option \<Rightarrow> 'r page) \<Rightarrow> ('q, 'r) screen \<Rightarrow> 'q screen_op \<Rightarrow> ('q, 'r) screen" where
  "screen_step serve s (Reload q) = take_off (Some (pager_load q (sc_pager s))) s"
| "screen_step serve s Older = take_off (pager_more (sc_pager s)) s"
| "screen_step serve s Older_Idle =
    (if ch_loading (pg_list (sc_pager s)) then s else take_off (pager_more (sc_pager s)) s)"
| "screen_step serve s (Answered i) = land i (\<lambda>f. Inr (serve (ft_query f) (ft_cursor f))) s"
| "screen_step serve s (Failed i e) = land i (\<lambda>_. Inl e) s"
| "screen_step serve s Reset = s\<lparr>sc_pager := pager_reset (sc_pager s)\<rparr>"

definition screen_init :: "'q \<Rightarrow> ('q, 'r) screen" where
  "screen_init q = \<lparr>sc_pager = pager_init q, sc_flying = []\<rparr>"

definition screen_run :: "('q \<Rightarrow> string option \<Rightarrow> 'r page) \<Rightarrow> 'q screen_op list \<Rightarrow> ('q, 'r) screen \<Rightarrow> ('q, 'r) screen" where
  "screen_run serve ops s = foldl (screen_step serve) s ops"

text \<open>The first pages of a query, and the cursor after them.\<close>

inductive chain :: "('q \<Rightarrow> string option \<Rightarrow> 'r page) \<Rightarrow> 'q \<Rightarrow> 'r list \<Rightarrow> string option \<Rightarrow> bool" for serve q where
  First: "serve q None = (rows, c) \<Longrightarrow> chain serve q rows c"
| Next: "chain serve q rows (Some c) \<Longrightarrow> serve q (Some c) = (rows', c') \<Longrightarrow> chain serve q (rows @ rows') c'"

section \<open>Bookkeeping, over any run\<close>

definition current_fetches :: "('q, 'r) screen \<Rightarrow> 'q fetch list" where
  "current_fetches s = filter (\<lambda>f. is_current (pg_gate (sc_pager s)) (ft_ticket f)) (sc_flying s)"

definition next_pages :: "('q, 'r) screen \<Rightarrow> 'q fetch list" where
  "next_pages s = filter (\<lambda>f. ft_kind f = More) (sc_flying s)"

text \<open>
  The list's own counter is the gate, since only the list claims the gate; the follower's guard lets
  one next page be in flight, and it is the one the follower's counter names.
\<close>

definition tickets_ok :: "('q, 'r) screen \<Rightarrow> bool" where
  "tickets_ok s \<longleftrightarrow>
    (let p = sc_pager s in
     ch_own (pg_list p) = pg_gate p \<and>
     (\<forall>f \<in> set (sc_flying s). tk_seq (ft_ticket f) \<le> pg_gate p
        \<and> (ft_kind f = Load \<longrightarrow> tk_mine (ft_ticket f) = tk_seq (ft_ticket f))) \<and>
     (if ch_loading (pg_more p) then \<exists>f. next_pages s = [f] \<and> tk_mine (ft_ticket f) = ch_own (pg_more p)
      else next_pages s = []))"

definition without :: "nat \<Rightarrow> 'a list \<Rightarrow> 'a list" where
  "without i xs = take i xs @ drop (Suc i) xs"

lemma set_without: "set (without i xs) \<subseteq> set xs"
  by (auto simp: without_def dest: in_set_takeD in_set_dropD)

lemma filter_without:
  assumes "i < length xs"
  shows "\<not> P (xs ! i) \<Longrightarrow> filter P (without i xs) = filter P xs"
    and "P (xs ! i) \<Longrightarrow> filter P xs = [f] \<Longrightarrow> xs ! i = f \<and> filter P (without i xs) = []"
proof -
  have xs: "xs = take i xs @ xs ! i # drop (Suc i) xs" using assms by (rule id_take_nth_drop)
  have f: "filter P xs = filter P (take i xs) @ filter P [xs ! i] @ filter P (drop (Suc i) xs)"
    by (subst xs) simp
  then show "\<not> P (xs ! i) \<Longrightarrow> filter P (without i xs) = filter P xs" by (simp add: without_def)
  show "P (xs ! i) \<Longrightarrow> filter P xs = [f] \<Longrightarrow> xs ! i = f \<and> filter P (without i xs) = []"
    using f by (auto simp: without_def append_eq_Cons_conv)
qed

lemma filter_without_Nil: "filter P xs = [] \<Longrightarrow> filter P (without i xs) = []"
  using set_without[of i xs] by (auto simp: filter_empty_conv)

lemmas pager_defs = pager_settle_def list_answered_def more_answered_def settle_run_def is_current_def

lemma settle_fields:
  "pg_gate (pager_settle f a p) = pg_gate p" "pg_query (pager_settle f a p) = pg_query p"
  "ch_own (pg_list (pager_settle f a p)) = ch_own (pg_list p)" "ch_own (pg_more (pager_settle f a p)) = ch_own (pg_more p)"
  "ft_kind f = Load \<Longrightarrow> pg_more (pager_settle f a p) = pg_more p"
  "ft_kind f = More \<Longrightarrow> pg_list (pager_settle f a p) = pg_list p"
  by (auto simp: pager_defs Let_def split: fetch_kind.splits sum.splits)

lemma settle_loading:
  "ft_kind f = More \<Longrightarrow> ch_loading (pg_more (pager_settle f a p)) =
     (ch_loading (pg_more p) \<and> tk_mine (ft_ticket f) \<noteq> ch_own (pg_more p))"
  "ft_kind f = Load \<Longrightarrow> ch_loading (pg_list (pager_settle f a p)) =
     (ch_loading (pg_list p) \<and> tk_mine (ft_ticket f) \<noteq> ch_own (pg_list p))"
  by (auto simp: pager_defs Let_def split: sum.splits)

lemma settle_current_load:
  assumes "ft_kind f = Load" "is_current (pg_gate p) (ft_ticket f)" "tk_mine (ft_ticket f) = ch_own (pg_list p)"
  shows "pager_settle f (Inr (rows, c)) p =
      p\<lparr>pg_items := rows, pg_cursor := c, pg_list := (pg_list p)\<lparr>ch_loading := False\<rparr>\<rparr>"
    "pager_settle f (Inl e) p =
      p\<lparr>pg_items := [], pg_cursor := None, pg_list := (pg_list p)\<lparr>ch_error := Some e, ch_loading := False\<rparr>\<rparr>"
  using assms by (simp_all add: pager_defs Let_def)

lemma settle_stale:
  assumes "\<not> is_current (pg_gate p) (ft_ticket f)"
  shows "pg_items (pager_settle f a p) = pg_items p" "pg_cursor (pager_settle f a p) = pg_cursor p"
    "ch_error (pg_list (pager_settle f a p)) = ch_error (pg_list p)"
  using assms by (auto simp: pager_defs Let_def split: fetch_kind.splits sum.splits)

lemma land_screen:
  "i < length (sc_flying s) \<Longrightarrow> land i answer s =
    \<lparr>sc_pager = pager_settle (sc_flying s ! i) (answer (sc_flying s ! i)) (sc_pager s), sc_flying = without i (sc_flying s)\<rparr>"
  "\<not> i < length (sc_flying s) \<Longrightarrow> land i answer s = s"
  by (simp_all add: land_def without_def)

lemma tickets_ok_land:
  assumes ok: "tickets_ok s" shows "tickets_ok (land i answer s)"
proof (cases "i < length (sc_flying s)")
  case True
  let ?f = "sc_flying s ! i" and ?p = "sc_pager s" and ?M = "\<lambda>f. ft_kind f = More"
  have f: "?f \<in> set (sc_flying s)" using True by simp
  show ?thesis
  proof (cases "ft_kind ?f")
    case Load
    have "filter ?M (without i (sc_flying s)) = filter ?M (sc_flying s)" by (rule filter_without(1)[OF True]) (simp add: Load)
    then show ?thesis using ok set_without[of i "sc_flying s"] Load
      by (auto simp: tickets_ok_def land_screen True settle_fields next_pages_def Let_def)
  next
    case More
    show ?thesis
    proof (cases "ch_loading (pg_more ?p)")
      case True
      with ok obtain g where g: "filter ?M (sc_flying s) = [g]" "tk_mine (ft_ticket g) = ch_own (pg_more ?p)"
        by (auto simp: tickets_ok_def next_pages_def Let_def)
      with filter_without(2)[OF \<open>i < length (sc_flying s)\<close>, of ?M g] More
      have "?f = g" "filter ?M (without i (sc_flying s)) = []" by auto
      then show ?thesis using ok set_without[of i "sc_flying s"] More g \<open>i < length (sc_flying s)\<close>
        by (auto simp: tickets_ok_def land_screen settle_fields settle_loading next_pages_def Let_def)
    next
      case False
      with ok f More show ?thesis by (auto simp: tickets_ok_def next_pages_def Let_def filter_empty_conv)
    qed
  qed
qed (simp add: land_screen ok)

lemma more_started:
  "pager_more p = Some (f, p') \<Longrightarrow> \<not> ch_loading (pg_more p) \<and> ft_kind f = More \<and> pg_gate p' = pg_gate p \<and>
     pg_list p' = pg_list p \<and> pg_items p' = pg_items p \<and> pg_cursor p' = pg_cursor p \<and> pg_query p' = pg_query p \<and>
     ch_loading (pg_more p') \<and> tk_mine (ft_ticket f) = ch_own (pg_more p') \<and> tk_seq (ft_ticket f) = pg_gate p \<and>
     ft_query f = pg_query p \<and> ft_cursor f = pg_cursor p"
  by (auto simp: pager_more_def start_run_def Let_def split: option.splits if_splits)

lemma load_started:
  "pager_load q p = (f, p') \<Longrightarrow> ft_kind f = Load \<and> ft_query f = q \<and> ft_cursor f = None \<and> pg_query p' = q \<and>
     pg_gate p' = Suc (pg_gate p) \<and> ch_own (pg_list p') = Suc (ch_own (pg_list p)) \<and> ch_loading (pg_list p') \<and>
     ch_error (pg_list p') = None \<and> ch_loading (pg_more p') = ch_loading (pg_more p) \<and> ch_own (pg_more p') = ch_own (pg_more p) \<and>
     tk_mine (ft_ticket f) = Suc (ch_own (pg_list p)) \<and> tk_seq (ft_ticket f) = Suc (pg_gate p)"
  by (auto simp: pager_load_def start_run_def Let_def)

lemma tickets_ok_more: "tickets_ok s \<Longrightarrow> tickets_ok (take_off (pager_more (sc_pager s)) s)"
  by (auto simp: take_off_def tickets_ok_def next_pages_def Let_def split: option.split dest!: more_started)

lemma tickets_ok_reload: "tickets_ok s \<Longrightarrow> tickets_ok (take_off (Some (pager_load q (sc_pager s))) s)"
proof -
  assume ok: "tickets_ok s"
  obtain f p' where l: "pager_load q (sc_pager s) = (f, p')" by fastforce
  show ?thesis using ok load_started[OF l] by (auto simp: l take_off_def tickets_ok_def next_pages_def Let_def le_Suc_eq)
qed

lemma tickets_ok_step: "tickets_ok s \<Longrightarrow> tickets_ok (screen_step serve s op)"
proof (cases op)
  case Reset
  assume "tickets_ok s"
  then show ?thesis unfolding Reset by (simp add: tickets_ok_def pager_reset_def next_pages_def Let_def split: if_splits)
qed (simp_all add: tickets_ok_more tickets_ok_land tickets_ok_reload del: split_paired_All)

lemma tickets_ok_run: "tickets_ok s \<Longrightarrow> tickets_ok (screen_run serve ops s)"
  by (induction ops arbitrary: s) (simp_all add: screen_run_def tickets_ok_step)

lemma tickets_ok_init: "tickets_ok (screen_init q)"
  by (simp add: tickets_ok_def screen_init_def pager_init_def createRequest_def next_pages_def)

text \<open>Two clicks never fetch the same page: at most one next page is in flight.\<close>

lemma one_next_page: "length (next_pages (screen_run serve ops (screen_init q))) \<le> 1"
  using tickets_ok_run[OF tickets_ok_init, of serve ops q] by (auto simp: tickets_ok_def Let_def split: if_splits)

section \<open>The last reload wins\<close>

definition settled_on :: "('q \<Rightarrow> string option \<Rightarrow> 'r page) \<Rightarrow> 'q \<Rightarrow> ('q, 'r) screen \<Rightarrow> bool" where
  "settled_on serve q s \<longleftrightarrow>
    (let p = sc_pager s in
     pg_query p = q \<and>
     (if ch_loading (pg_list p)
      then ch_error (pg_list p) = None \<and> (\<exists>f. current_fetches s = [f] \<and> ft_kind f = Load \<and> ft_query f = q \<and> ft_cursor f = None)
      else if ch_error (pg_list p) \<noteq> None
      then pg_items p = [] \<and> pg_cursor p = None \<and> current_fetches s = []
      else chain serve q (pg_items p) (pg_cursor p) \<and>
        (current_fetches s = [] \<or>
         (\<exists>f. current_fetches s = [f] \<and> ft_kind f = More \<and> ft_query f = q \<and> ft_cursor f = pg_cursor p
            \<and> pg_cursor p \<noteq> None))))"

lemma settled_on_reload:
  assumes "tickets_ok s" shows "settled_on serve q (screen_step serve s (Reload q))"
proof -
  obtain f p' where l: "pager_load q (sc_pager s) = (f, p')" by fastforce
  have "filter (\<lambda>g. tk_seq (ft_ticket g) = Suc (pg_gate (sc_pager s))) (sc_flying s) = []"
    using assms by (fastforce simp: filter_empty_conv tickets_ok_def Let_def)
  with load_started[OF l] show ?thesis
    by (simp add: l take_off_def settled_on_def current_fetches_def is_current_def)
qed

lemma settled_on_land:
  assumes ok: "tickets_ok s" and on: "settled_on serve q s"
    and answer: "\<And>f. answer f = Inr (serve (ft_query f) (ft_cursor f)) \<or> (\<exists>e. answer f = Inl e)"
  shows "settled_on serve q (land i answer s)"
proof (cases "i < length (sc_flying s)")
  case i: True
  let ?f = "sc_flying s ! i" and ?p = "sc_pager s" and ?C = "\<lambda>f. is_current (pg_gate (sc_pager s)) (ft_ticket f)"
  have f: "?f \<in> set (sc_flying s)" using i by simp
  have cf: "current_fetches (land i answer s) = filter ?C (without i (sc_flying s))"
    by (simp add: current_fetches_def land_screen i settle_fields)
  show ?thesis
  proof (cases "?C ?f")
    case False
    have "current_fetches (land i answer s) = current_fetches s"
      using filter_without(1)[where P = ?C, OF i False] by (simp add: cf) (simp add: current_fetches_def)
    moreover have "ch_loading (pg_list (pager_settle ?f a ?p)) = ch_loading (pg_list ?p)" for a
      using ok False f by (cases "ft_kind ?f") (auto simp: settle_loading settle_fields tickets_ok_def is_current_def Let_def)
    ultimately show ?thesis using on settle_stale[OF False]
      by (auto simp: settled_on_def land_screen i settle_fields Let_def split: if_splits)
  next
    case True
    then have ne: "current_fetches s \<noteq> []" using f by (auto simp: current_fetches_def filter_empty_conv)
    with on obtain g where g: "filter ?C (sc_flying s) = [g]"
      by (auto simp: settled_on_def current_fetches_def Let_def split: if_splits)
    from filter_without(2)[where P = ?C, OF i True g] have gf: "?f = g" and none: "current_fetches (land i answer s) = []"
      by (auto simp: cf)
    have g': "current_fetches s = [?f]" using g gf by (simp add: current_fetches_def)
    show ?thesis
    proof (cases "ch_loading (pg_list ?p)")
      case loading: True
      with on g' have k: "ft_kind ?f = Load" "ft_query ?f = q" "ft_cursor ?f = None" "pg_query ?p = q"
          "ch_error (pg_list ?p) = None"
        by (auto simp: settled_on_def Let_def)
      have "tk_mine (ft_ticket ?f) = ch_own (pg_list ?p)"
        using ok True f k by (auto simp: tickets_ok_def is_current_def Let_def)
      note settled = settle_current_load[OF k(1) True this]
      from answer[of ?f] show ?thesis
      proof
        assume a: "answer ?f = Inr (serve (ft_query ?f) (ft_cursor ?f))"
        obtain rows c where r: "serve q None = (rows, c)" by fastforce
        show ?thesis using k a none chain.First[of serve q rows c, OF r]
          by (simp add: settled_on_def land_screen i r settled Let_def)
      next
        assume "\<exists>e. answer ?f = Inl e"
        then obtain e where "answer ?f = Inl e" ..
        then show ?thesis using k none by (simp add: settled_on_def land_screen i settled Let_def)
      qed
    next
      case False
      with on g' have k: "ft_kind ?f = More" "ft_query ?f = q" "ft_cursor ?f = pg_cursor ?p" "pg_cursor ?p \<noteq> None"
          "pg_query ?p = q" "ch_error (pg_list ?p) = None" "chain serve q (pg_items ?p) (pg_cursor ?p)"
        by (auto simp: settled_on_def Let_def split: if_splits)
      then obtain cu where cu: "pg_cursor ?p = Some cu" by blast
      from answer[of ?f] show ?thesis
      proof
        assume a: "answer ?f = Inr (serve (ft_query ?f) (ft_cursor ?f))"
        obtain rows c where r: "serve q (Some cu) = (rows, c)" by fastforce
        have "chain serve q (pg_items ?p @ rows) c" using chain.Next[of serve q "pg_items ?p" cu rows c] k r cu by simp
        then show ?thesis using k a none True False cu r
          by (simp add: settled_on_def land_screen i settle_fields Let_def) (simp add: pager_defs Let_def)
      next
        assume "\<exists>e. answer ?f = Inl e"
        then obtain e where "answer ?f = Inl e" ..
        then show ?thesis using k none True False cu
          by (simp add: settled_on_def land_screen i settle_fields Let_def) (simp add: pager_defs Let_def)
      qed
    qed
  qed
qed (simp add: land_screen on)

lemma settled_on_more:
  assumes ok: "tickets_ok s" and on: "settled_on serve q s" and idle: "\<not> ch_loading (pg_list (sc_pager s))"
  shows "settled_on serve q (take_off (pager_more (sc_pager s)) s)"
proof (cases "pager_more (sc_pager s)")
  case (Some r)
  obtain f p' where r: "r = (f, p')" by fastforce
  note st = more_started[OF Some[unfolded r]]
  have "current_fetches s = []"
  proof (rule ccontr)
    assume "current_fetches s \<noteq> []"
    with on idle obtain g where "current_fetches s = [g]" "ft_kind g = More"
      by (auto simp: settled_on_def Let_def split: if_splits)
    then have "g \<in> set (next_pages s)" by (auto simp: current_fetches_def next_pages_def dest: filter_eq_ConsD)
    with ok st show False by (auto simp: tickets_ok_def Let_def)
  qed
  moreover have "pg_cursor (sc_pager s) \<noteq> None" using Some by (cases "pg_cursor (sc_pager s)") (simp_all add: pager_more_def)
  ultimately show ?thesis using on idle st
    by (auto simp: Some r take_off_def settled_on_def current_fetches_def is_current_def Let_def split: if_splits)
qed (simp add: take_off_def on)

text \<open>The steps that neither reload the list, nor empty it, nor ask for a page of a list being reloaded.\<close>

definition calm :: "'q screen_op \<Rightarrow> bool" where
  "calm op \<longleftrightarrow> (case op of Older_Idle \<Rightarrow> True | Answered _ \<Rightarrow> True | Failed _ _ \<Rightarrow> True | _ \<Rightarrow> False)"

lemma settled_on_step:
  "tickets_ok s \<Longrightarrow> settled_on serve q s \<Longrightarrow> calm op \<Longrightarrow> settled_on serve q (screen_step serve s op)"
  by (cases op) (auto simp: calm_def settled_on_more intro!: settled_on_land)

lemma settled_on_run:
  "tickets_ok s \<Longrightarrow> settled_on serve q s \<Longrightarrow> list_all calm ops \<Longrightarrow> settled_on serve q (screen_run serve ops s)"
proof (induction ops arbitrary: s)
  case (Cons op ops)
  then show ?case using tickets_ok_step[of s serve op] settled_on_step[of s serve q op] by (simp add: screen_run_def)
qed (simp add: screen_run_def)

lemma last_reload_settles:
  assumes "list_all calm after"
  shows "settled_on serve q (screen_run serve (before @ Reload q # after) (screen_init q0))"
proof -
  let ?s = "screen_run serve before (screen_init q0)"
  have s: "tickets_ok ?s" by (rule tickets_ok_run[OF tickets_ok_init])
  have "screen_run serve (before @ Reload q # after) (screen_init q0) = screen_run serve after (screen_step serve ?s (Reload q))"
    by (simp add: screen_run_def)
  then show ?thesis using settled_on_run[OF tickets_ok_step[OF s] settled_on_reload[OF s] assms] by simp
qed

text \<open>
  Whatever was in flight before, and in whatever order the answers arrive: after the last reload,
  once it is answered, what is on screen are the first pages of its query.
\<close>

lemma last_reload_wins:
  assumes "list_all calm after" "s = screen_run serve (before @ Reload q # after) (screen_init q0)"
    "\<not> ch_loading (pg_list (sc_pager s))" "ch_error (pg_list (sc_pager s)) = None"
  shows "chain serve q (pg_items (sc_pager s)) (pg_cursor (sc_pager s))"
  using last_reload_settles[OF assms(1), of serve q before q0] assms(2-) by (simp add: settled_on_def Let_def)

lemma nothing_in_flight_is_settled:
  assumes "list_all calm after" "s = screen_run serve (before @ Reload q # after) (screen_init q0)" "sc_flying s = []"
  shows "\<not> ch_loading (pg_list (sc_pager s))"
  using last_reload_settles[OF assms(1), of serve q before q0] assms(2-)
  by (auto simp: settled_on_def current_fetches_def Let_def)

section \<open>With the API's pages\<close>

definition served_page ::
  "(int \<Rightarrow> string) \<Rightarrow> (string \<Rightarrow> int option) \<Rightarrow> ('r \<Rightarrow> cursor) \<Rightarrow> ('q \<Rightarrow> 'r \<Rightarrow> bool) \<Rightarrow> nat \<Rightarrow> 'r list
   \<Rightarrow> 'q \<Rightarrow> string option \<Rightarrow> 'r page" where
  "served_page iso_text date_parse key matches limit rows q c =
    (case c of
       None \<Rightarrow> paginate iso_text key (page_rows key (matches q) None limit rows) limit
     | Some s \<Rightarrow>
        (case decodeCursor date_parse s of
           Inl _ \<Rightarrow> ([], None)
         | Inr cu \<Rightarrow> paginate iso_text key (page_rows key (matches q) (Some cu) limit rows) limit))"

definition plain_cursor :: "cursor \<Rightarrow> bool" where
  "plain_cursor c \<longleftrightarrow> cu_id c \<noteq> [] \<and> SEPARATOR \<notin> set (cu_id c)"

text \<open>The page after \<open>n\<close> rows of the sorted list.\<close>

lemma paginate_drop:
  assumes "page_rows key p after limit rows = take (limit + 1) (drop n L)" "0 < limit"
  shows "paginate iso_text key (page_rows key p after limit rows) limit =
    (take limit (drop n L), if n + limit < length L then Some (encodeCursor iso_text (key (L ! (n + limit - 1)))) else None)"
  using assms by (auto simp: paginate_def has_more_def Let_def min_def nth_append)

lemma chain_is_prefix:
  assumes d: "distinct (map (sort_order key) (filter (matches q) rows))" and limit: "0 < limit"
    and dates: "date_round_trip iso_text date_parse" and plain: "\<And>r. r \<in> set rows \<Longrightarrow> plain_cursor (key r)"
    and c: "chain (served_page iso_text date_parse key matches limit rows) q items c"
  shows "\<exists>n. items = take n (newest_first key (filter (matches q) rows)) \<and>
    c = (if n < length (newest_first key (filter (matches q) rows))
         then Some (encodeCursor iso_text (key (newest_first key (filter (matches q) rows) ! (n - 1)))) else None) \<and> 0 < n"
  using c
proof induction
  let ?L = "newest_first key (filter (matches q) rows)"
  case (First items c)
  have "page_rows key (matches q) None limit rows = take (limit + 1) (drop 0 ?L)" by (simp add: page_rows_def)
  from paginate_drop[OF this limit] First limit show ?case
    by (intro exI[of _ limit]) (auto simp: served_page_def)
next
  let ?L = "newest_first key (filter (matches q) rows)"
  case (Next items c rows' c')
  then obtain n where n: "items = take n ?L" "n < length ?L" "0 < n" "c = encodeCursor iso_text (key (?L ! (n - 1)))"
    by (auto split: if_splits)
  have "?L ! (n - 1) \<in> set ?L" using n by simp
  then have "?L ! (n - 1) \<in> set rows" by (simp add: newest_first_def)
  then have dec: "decodeCursor date_parse c = Inr (key (?L ! (n - 1)))"
    using plain dates unfolding n(4) by (intro decode_encode_cursor) (auto simp: plain_cursor_def date_round_trip_def)
  have "page_rows key (matches q) (Some (key (?L ! (n - 1)))) limit rows = take (limit + 1) (drop n ?L)"
    using page_rows_after_nth[OF d, of "n - 1"] n by simp
  from paginate_drop[OF this limit] Next(2) dec
  have "rows' = take limit (drop n ?L)" "c' = (if n + limit < length ?L then Some (encodeCursor iso_text (key (?L ! (n + limit - 1)))) else None)"
    by (auto simp: served_page_def)
  then show ?case using n by (intro exI[of _ "n + limit"]) (auto simp: take_add)
qed

section \<open>A next page asked for during a reload\<close>

text \<open>
  \<open>loadMore\<close> looks at the cursor and at its own \<open>loading\<close>, not at the list's.  A click while the list is
  being reloaded with new filters sends the old cursor with the new filters, and its answer counts as
  current: here the rows [6, 5] of the new filter are followed by [3, 2], and row 4 never appears.
\<close>

definition demo_serve :: "bool \<Rightarrow> string option \<Rightarrow> nat page" where
  "demo_serve q c =
    (let rows = filter (\<lambda>n. (q \<or> even n) \<and> (case c of None \<Rightarrow> True | Some s \<Rightarrow> n < length s)) [6, 5, 4, 3, 2, 1]
     in (take 2 rows, if length rows \<le> 2 then None else Some (replicate (last (take 2 rows)) CHR ''c'')))"

definition demo_ops :: "bool screen_op list" where
  "demo_ops = [Reload False, Answered 0, Reload True, Older, Answered 0, Answered 0]"

lemma demo_loses_a_row:
  "pg_items (sc_pager (screen_run demo_serve demo_ops (screen_init False))) = [6, 5, 3, 2]"
  by code_simp

end
