(* ===== verification/Ui_Stores.thy ===== *)
theory Ui_Stores
  imports Ui_Requests Delivery_Service Endpoint_Service
begin

text \<open>
  The dashboard's stores \<open>src/dashboard/src/stores/deliveries.js\<close>, \<open>events.js\<close> and \<open>endpoints.js\<close>.  A
  delivery on screen is the API's list view, with its dates as numbers; a realtime message is the
  event the worker emits.  The lists are the pagers of \<open>Ui_Requests\<close>.
\<close>

section \<open>Deliveries\<close>

definition FILTER_KEYS_deliveries :: "string list" where
  "FILTER_KEYS_deliveries = [''status'', ''endpointId'', ''eventType'', ''from'', ''to'']"

definition UI_STATUSES :: "delivery_status list" where
  "UI_STATUSES = [PENDING, IN_FLIGHT, RETRYING, SUCCEEDED, FAILED_PERMANENTLY, SKIPPED]"

definition UI_TERMINAL :: "delivery_status list" where
  "UI_TERMINAL = [SUCCEEDED, FAILED_PERMANENTLY, SKIPPED]"

type_synonym list_query = "string \<times> (string \<times> string) list"
type_synonym item = delivery_list_view

definition item_id :: "item \<Rightarrow> string" where
  "item_id i = dv_id (lv_delivery i)"

record deliveries_store =
  dl_list :: "(list_query, item) pager"
  dl_pendingIds :: "string list"

definition pendingCount :: "deliveries_store \<Rightarrow> nat" where
  "pendingCount s = length (dl_pendingIds s)"

definition reset_deliveries :: "deliveries_store \<Rightarrow> deliveries_store" where
  "reset_deliveries s = s\<lparr>dl_list := pager_reset (dl_list s), dl_pendingIds := []\<rparr>"

definition settlePending :: "string list \<Rightarrow> deliveries_store \<Rightarrow> deliveries_store" where
  "settlePending counted s = s\<lparr>dl_pendingIds := filter (\<lambda>i. i \<notin> set counted) (dl_pendingIds s)\<rparr>"

text \<open>The start of \<open>load\<close>, with the ids counted so far, and its answer.\<close>

definition load_deliveries ::
  "string \<Rightarrow> (string \<times> string) list \<Rightarrow> deliveries_store \<Rightarrow> (list_query fetch \<times> string list) \<times> deliveries_store" where
  "load_deliveries projectId filters s =
    (case pager_load (projectId, filters) (dl_list s) of (f, p) \<Rightarrow> ((f, dl_pendingIds s), s\<lparr>dl_list := p\<rparr>))"

definition settle_deliveries ::
  "list_query fetch \<times> string list \<Rightarrow> ui_exn + item page \<Rightarrow> deliveries_store \<Rightarrow> deliveries_store" where
  "settle_deliveries fc answer s =
    (let f = fst fc; s' = s\<lparr>dl_list := pager_settle f answer (dl_list s)\<rparr> in
     case answer of
       Inl _ \<Rightarrow> s'
     | Inr _ \<Rightarrow> if ft_kind f = Load \<and> is_current (pg_gate (dl_list s)) (ft_ticket f) then settlePending (snd fc) s' else s')"

text \<open>\<open>patch\<close>: the new list, and whether the delivery was on screen.\<close>

definition patch_item :: "string \<Rightarrow> (item \<Rightarrow> item) \<Rightarrow> deliveries_store \<Rightarrow> bool \<times> deliveries_store" where
  "patch_item deliveryId changes s =
    (let items = pg_items (dl_list s) in
     if list_all (\<lambda>i. item_id i \<noteq> deliveryId) items then (False, s)
     else (True, s\<lparr>dl_list := (dl_list s)\<lparr>pg_items := map (\<lambda>i. if item_id i = deliveryId then changes i else i) items\<rparr>\<rparr>))"

definition noteUnknown :: "string \<Rightarrow> deliveries_store \<Rightarrow> deliveries_store" where
  "noteUnknown deliveryId s =
    (if deliveryId \<notin> set (map item_id (pg_items (dl_list s))) \<and> deliveryId \<notin> set (dl_pendingIds s)
     then s\<lparr>dl_pendingIds := dl_pendingIds s @ [deliveryId]\<rparr> else s)"

text \<open>The messages the store handles: those the worker emits, and \<open>delivery.created\<close>.\<close>

datatype push = Emitted realtime_event | Created string

definition succeeded_changes :: "int \<Rightarrow> int option \<Rightarrow> int option \<Rightarrow> int \<Rightarrow> item \<Rightarrow> item" where
  "succeeded_changes attempt responseStatus durationMs completedAt i =
    i\<lparr>lv_delivery := (lv_delivery i)\<lparr>dv_status := SUCCEEDED, dv_attemptCount := attempt,
        dv_completedAt := Some completedAt, dv_nextAttemptAt := None\<rparr>,
      lv_lastResponseStatus := responseStatus, lv_lastDurationMs := durationMs\<rparr>"

definition attempted_changes :: "int \<Rightarrow> int option \<Rightarrow> int option \<Rightarrow> int \<Rightarrow> item \<Rightarrow> item" where
  "attempted_changes attempt responseStatus durationMs nextAttemptAt i =
    i\<lparr>lv_delivery := (lv_delivery i)\<lparr>dv_status := RETRYING, dv_attemptCount := attempt, dv_nextAttemptAt := Some nextAttemptAt\<rparr>,
      lv_lastResponseStatus := responseStatus, lv_lastDurationMs := durationMs\<rparr>"

definition failed_changes :: "int \<Rightarrow> string option \<Rightarrow> int option \<Rightarrow> int \<Rightarrow> item \<Rightarrow> item" where
  "failed_changes attempt errorCode responseStatus completedAt i =
    i\<lparr>lv_delivery := (lv_delivery i)\<lparr>dv_status := FAILED_PERMANENTLY, dv_attemptCount := attempt, dv_lastError := errorCode,
        dv_completedAt := Some completedAt, dv_nextAttemptAt := None\<rparr>,
      lv_lastResponseStatus := responseStatus\<rparr>"

definition patch_or_note :: "string \<Rightarrow> (item \<Rightarrow> item) \<Rightarrow> deliveries_store \<Rightarrow> deliveries_store" where
  "patch_or_note deliveryId changes s =
    (case patch_item deliveryId changes s of (applied, s') \<Rightarrow> if applied then s' else noteUnknown deliveryId s')"

fun applyRealtime :: "push \<Rightarrow> deliveries_store \<Rightarrow> deliveries_store" where
  "applyRealtime (Emitted (DeliverySucceeded i n st ms t)) s = patch_or_note i (succeeded_changes n st ms t) s"
| "applyRealtime (Emitted (DeliveryAttempted i n st ms t)) s = patch_or_note i (attempted_changes n st ms t) s"
| "applyRealtime (Emitted (DeliveryFailed i n reason code st t)) s = patch_or_note i (failed_changes n code st t) s"
| "applyRealtime (Emitted (EndpointDisabled e n t)) s = s"
| "applyRealtime (Created i) s = noteUnknown i s"

definition dismissPending :: "deliveries_store \<Rightarrow> deliveries_store" where
  "dismissPending s = s\<lparr>dl_pendingIds := []\<rparr>"

text \<open>The sparkline: at most twelve buckets, oldest first; \<open>null\<close> for a bucket with nothing settled.\<close>

definition bucket_size :: "nat \<Rightarrow> nat" where
  "bucket_size n = max 1 ((n + 11) div 12)"

function chunks :: "nat \<Rightarrow> 'a list \<Rightarrow> 'a list list" where
  "chunks k xs = (if xs = [] \<or> k = 0 then [] else take k xs # chunks k (drop k xs))"
  by pat_completeness auto
termination by (relation "measure (\<lambda>(_, xs). length xs)") auto

definition bucket_rate :: "delivery_status list \<Rightarrow> rat option" where
  "bucket_rate bucket =
    (let settled = filter (\<lambda>st. st \<in> set UI_TERMINAL) bucket; succeeded = filter (\<lambda>st. st = SUCCEEDED) settled in
     if settled = [] then None else Some (of_nat (length succeeded) / of_nat (length settled)))"

definition successRateSeries :: "item list \<Rightarrow> rat option list" where
  "successRateSeries items =
    map (\<lambda>b. bucket_rate (map (\<lambda>i. dv_status (lv_delivery i)) b)) (chunks (bucket_size (length items)) (rev items))"

declare chunks.simps [simp del]

lemma chunks_simps [simp]:
  "chunks k [] = []" "xs \<noteq> [] \<Longrightarrow> 0 < k \<Longrightarrow> chunks k xs = take k xs # chunks k (drop k xs)"
  by (simp_all add: chunks.simps)

lemma concat_chunks: "0 < k \<Longrightarrow> concat (chunks k xs) = xs"
  by (induction k xs rule: chunks.induct) (auto simp: chunks.simps)

lemma length_chunks: "0 < k \<Longrightarrow> length (chunks k xs) = (length xs + k - 1) div k"
proof (induction k xs rule: chunks.induct)
  case (1 k xs)
  show ?case
  proof (cases "xs = []")
    case False
    then have "length (chunks k xs) = Suc ((length xs - k + k - 1) div k)"
      using 1 by (simp add: chunks.simps[of k xs])
    also have "\<dots> = (length xs + k - 1) div k"
    proof (cases "length xs \<le> k")
      case True
      have e: "length xs + k - 1 = (length xs - 1) + k" using False by (cases xs) simp_all
      have "length xs - 1 < k" "length xs - k + k - 1 = k - 1" using True False \<open>0 < k\<close> by (cases xs; simp)+
      then show ?thesis unfolding e using \<open>0 < k\<close> by (simp add: div_add_self2)
    next
      case False
      then have e: "length xs + k - 1 = (length xs - k + k - 1) + k" using \<open>0 < k\<close> by simp
      show ?thesis unfolding e using div_add_self2[of k "length xs - k + k - 1"] \<open>0 < k\<close> by simp
    qed
    finally show ?thesis .
  qed (use 1(2) in simp)
qed

lemma series_at_most_12: "length (successRateSeries items) \<le> 12"
proof -
  let ?n = "length items" and ?k = "bucket_size (length items)"
  have k: "0 < ?k" and n: "?n \<le> 12 * ?k" by (auto simp: bucket_size_def)
  have "(?n + ?k - 1) div ?k < 13"
    using k n by (intro div_less_iff_less_mult[THEN iffD2]) auto
  then show ?thesis using length_chunks[OF k, of "rev items"] by (simp add: successRateSeries_def)
qed

lemma bucket_rate_unit: "bucket_rate b = Some r \<Longrightarrow> 0 \<le> r \<and> r \<le> 1"
  using length_filter_le[of "\<lambda>st. st = SUCCEEDED" "filter (\<lambda>st. st \<in> set UI_TERMINAL) b"]
  by (auto simp: bucket_rate_def Let_def divide_le_eq_1 simp del: length_filter_le filter_filter split: if_splits)

lemma rates_in_unit: "Some r \<in> set (successRateSeries items) \<Longrightarrow> 0 \<le> r \<and> r \<le> 1"
  by (auto simp: successRateSeries_def dest: bucket_rate_unit sym)

subsection \<open>The list does not move while it is read\<close>

definition on_screen :: "deliveries_store \<Rightarrow> string list" where
  "on_screen s = map item_id (pg_items (dl_list s))"

lemmas change_defs = succeeded_changes_def attempted_changes_def failed_changes_def

lemma changes_keep_id [simp]:
  "item_id (succeeded_changes n st ms t i) = item_id i" "item_id (attempted_changes n st ms t i) = item_id i"
  "item_id (failed_changes n code st t i) = item_id i"
  by (simp_all add: item_id_def change_defs)

lemma patch_or_note_cases:
  "patch_or_note i g s =
    (if i \<notin> set (on_screen s) then noteUnknown i s
     else s\<lparr>dl_list := (dl_list s)\<lparr>pg_items := map (\<lambda>x. if item_id x = i then g x else x) (pg_items (dl_list s))\<rparr>\<rparr>)"
proof -
  have "list_all (\<lambda>x. item_id x \<noteq> i) (pg_items (dl_list s)) \<longleftrightarrow> i \<notin> set (on_screen s)"
    by (auto simp: on_screen_def list_all_iff)
  then show ?thesis by (simp add: patch_or_note_def patch_item_def Let_def)
qed

lemma noteUnknown_screen:
  "on_screen (noteUnknown i s) = on_screen s"
  "distinct (dl_pendingIds s) \<Longrightarrow> distinct (dl_pendingIds (noteUnknown i s))"
  "i \<in> set (on_screen (noteUnknown i s)) \<union> set (dl_pendingIds (noteUnknown i s))"
  by (auto simp: noteUnknown_def on_screen_def)

lemma patch_or_note_screen:
  assumes "\<And>x. item_id (g x) = item_id x"
  shows "on_screen (patch_or_note i g s) = on_screen s"
    "distinct (dl_pendingIds s) \<Longrightarrow> distinct (dl_pendingIds (patch_or_note i g s))"
    "i \<in> set (on_screen (patch_or_note i g s)) \<union> set (dl_pendingIds (patch_or_note i g s))"
proof -
  have "on_screen (s\<lparr>dl_list := (dl_list s)\<lparr>pg_items := map (\<lambda>x. if item_id x = i then g x else x) (pg_items (dl_list s))\<rparr>\<rparr>)
      = on_screen s"
    using assms by (simp add: on_screen_def)
  then show "on_screen (patch_or_note i g s) = on_screen s"
    "distinct (dl_pendingIds s) \<Longrightarrow> distinct (dl_pendingIds (patch_or_note i g s))"
    "i \<in> set (on_screen (patch_or_note i g s)) \<union> set (dl_pendingIds (patch_or_note i g s))"
    using noteUnknown_screen[where i = i and s = s] by (auto simp: patch_or_note_cases)
qed

lemma applyRealtime_screen:
  "on_screen (applyRealtime e s) = on_screen s"
  "distinct (dl_pendingIds s) \<Longrightarrow> distinct (dl_pendingIds (applyRealtime e s))"
  by (induction e s rule: applyRealtime.induct) (simp_all add: patch_or_note_screen noteUnknown_screen)

text \<open>The delivery a message is about is on screen or counted after it.\<close>

definition about :: "push \<Rightarrow> string option" where
  "about e = (case e of Created i \<Rightarrow> Some i | Emitted (EndpointDisabled _ _ _) \<Rightarrow> None | Emitted r \<Rightarrow> Some (ev_deliveryId r))"

lemma applyRealtime_accounted:
  "about e = Some i \<Longrightarrow> i \<in> set (on_screen (applyRealtime e s)) \<union> set (dl_pendingIds (applyRealtime e s))"
  by (induction e s rule: applyRealtime.induct)
     (use patch_or_note_screen(3) noteUnknown_screen(3) in \<open>auto simp: about_def\<close>)

lemma applyRealtime_list:
  "pg_gate (dl_list (applyRealtime e s)) = pg_gate (dl_list s)" "pg_list (dl_list (applyRealtime e s)) = pg_list (dl_list s)"
  "pg_more (dl_list (applyRealtime e s)) = pg_more (dl_list s)" "pg_cursor (dl_list (applyRealtime e s)) = pg_cursor (dl_list s)"
  by (induction e s rule: applyRealtime.induct)
     (auto simp: patch_or_note_def patch_item_def noteUnknown_def Let_def)

subsection \<open>What a reload settles\<close>

text \<open>Every id counted before a reload is settled by its answer; an id counted meanwhile stays counted.\<close>

lemma settle_deliveries_pending:
  assumes "ft_kind (fst fc) = Load" "is_current (pg_gate (dl_list s)) (ft_ticket (fst fc))"
  shows "dl_pendingIds (settle_deliveries fc (Inr page) s) = filter (\<lambda>i. i \<notin> set (snd fc)) (dl_pendingIds s)"
    "on_screen (settle_deliveries fc (Inr page) s) = map item_id (fst page)"
  using assms
  by (simp_all add: settle_deliveries_def settlePending_def on_screen_def pager_settle_def list_answered_def Let_def split: prod.splits)

lemma settle_deliveries_distinct:
  "distinct (dl_pendingIds s) \<Longrightarrow> distinct (dl_pendingIds (settle_deliveries fc answer s))"
  by (simp add: settle_deliveries_def settlePending_def Let_def split: sum.split)

text \<open>Everything that can happen to the store, with its loads in flight.\<close>

datatype deliveries_op = D_Load string "(string \<times> string) list" | D_More | D_Settle nat "ui_exn + item page"
  | D_Push push | D_Dismiss | D_Reset

definition launch ::
  "(list_query fetch \<times> string list) \<times> deliveries_store \<Rightarrow> (list_query fetch \<times> string list) list
   \<Rightarrow> deliveries_store \<times> (list_query fetch \<times> string list) list" where
  "launch r flying = (snd r, flying @ [fst r])"

fun deliveries_step ::
  "deliveries_store \<times> (list_query fetch \<times> string list) list \<Rightarrow> deliveries_op
   \<Rightarrow> deliveries_store \<times> (list_query fetch \<times> string list) list" where
  "deliveries_step (s, flying) (D_Load p fs) = launch (load_deliveries p fs s) flying"
| "deliveries_step (s, flying) D_More =
    (case pager_more (dl_list s) of None \<Rightarrow> (s, flying) | Some (f, p) \<Rightarrow> launch ((f, []), s\<lparr>dl_list := p\<rparr>) flying)"
| "deliveries_step (s, flying) (D_Settle i answer) =
    (if i < length flying then (settle_deliveries (flying ! i) answer s, without i flying) else (s, flying))"
| "deliveries_step (s, flying) (D_Push e) = (applyRealtime e s, flying)"
| "deliveries_step (s, flying) D_Dismiss = (dismissPending s, flying)"
| "deliveries_step (s, flying) D_Reset = (reset_deliveries s, flying)"

lemma pending_distinct_step:
  "distinct (dl_pendingIds (fst s)) \<Longrightarrow> distinct (dl_pendingIds (fst (deliveries_step s op)))"
  by (induction s op rule: deliveries_step.induct)
     (auto simp: launch_def load_deliveries_def dismissPending_def reset_deliveries_def settle_deliveries_distinct
        applyRealtime_screen split: prod.split option.split)

definition deliveries_init :: "list_query \<Rightarrow> deliveries_store" where
  "deliveries_init q = \<lparr>dl_list = pager_init q, dl_pendingIds = []\<rparr>"

text \<open>The banner counts each delivery once, whatever is in flight and however messages repeat.\<close>

lemma pending_distinct:
  "distinct (dl_pendingIds (fst (foldl deliveries_step (deliveries_init q, []) ops)))"
proof -
  have "distinct (dl_pendingIds (fst (foldl deliveries_step s ops)))" if "distinct (dl_pendingIds (fst s))" for s
    using that by (induction ops arbitrary: s) (simp_all add: pending_distinct_step)
  then show ?thesis by (simp add: deliveries_init_def)
qed

section \<open>One request whose last answer counts\<close>

text \<open>\<open>statsRequest\<close> and \<open>detailRequest\<close>: a value with a request of its own.\<close>

record 'a latest =
  lt_gate :: nat
  lt_channel :: channel
  lt_value :: "'a option"

definition start_latest :: "'a latest \<Rightarrow> ticket \<times> 'a latest" where
  "start_latest l =
    (case start_run True (lt_gate l) (lt_channel l) of (tk, gate, ch) \<Rightarrow> (tk, l\<lparr>lt_gate := gate, lt_channel := ch\<rparr>))"

text \<open>\<open>loadStats\<close> keeps the value when a request fails, \<open>loadDetail\<close> drops it.\<close>

definition settle_latest :: "bool \<Rightarrow> ticket \<Rightarrow> ui_exn + 'a \<Rightarrow> 'a latest \<Rightarrow> 'a latest" where
  "settle_latest drop_on_error tk answer l =
    (if is_current (lt_gate l) tk
     then (case answer of Inr a \<Rightarrow> l\<lparr>lt_value := Some a\<rparr> | Inl _ \<Rightarrow> if drop_on_error then l\<lparr>lt_value := None\<rparr> else l)
     else l)\<lparr>lt_channel := settle_run (lt_gate l) tk answer (lt_channel l)\<rparr>"

definition settle_stats :: "ticket \<Rightarrow> ui_exn + 'a \<Rightarrow> 'a latest \<Rightarrow> 'a latest" where
  "settle_stats = settle_latest False"

definition settle_detail :: "ticket \<Rightarrow> ui_exn + 'a \<Rightarrow> 'a latest \<Rightarrow> 'a latest" where
  "settle_detail = settle_latest True"

lemma stale_latest:
  assumes "start_latest l = (tk, l1)" "start_latest l1 = (tk', l2)"
  shows "lt_value (settle_latest d tk answer l2) = lt_value l2"
    "lt_value (settle_latest d tk' (Inr a) (settle_latest d tk answer l2)) = Some a"
  using assms by (auto simp: start_latest_def start_run_def settle_latest_def is_current_def Let_def)

section \<open>Events\<close>

definition FILTER_KEYS_events :: "string list" where
  "FILTER_KEYS_events = [''eventType'', ''from'', ''to'', ''payloadPath'', ''payloadValue'']"

definition has_text :: "(string \<times> string) list \<Rightarrow> string \<Rightarrow> bool" where
  "has_text q k \<longleftrightarrow> (case map_of q k of None \<Rightarrow> False | Some v \<Rightarrow> v \<noteq> [])"

definition searchable :: "(string \<times> string) list \<Rightarrow> (string \<times> string) list" where
  "searchable filters =
    (if has_text filters ''payloadPath'' \<and> has_text filters ''payloadValue'' then filters
     else filter (\<lambda>(k, _). k \<notin> {''payloadPath'', ''payloadValue''}) filters)"

lemma map_of_filter_keys: "map_of (filter (\<lambda>(k, _). P k) xs) k = (if P k then map_of xs k else None)"
  by (induction xs) auto

text \<open>The API's rule on the pair is never broken, and the other filters are left alone.\<close>

lemma searchable_pair:
  "has_text (searchable fs) ''payloadPath'' \<longleftrightarrow> has_text (searchable fs) ''payloadValue''"
  "map_of (searchable fs) ''payloadPath'' \<noteq> None \<Longrightarrow> has_text (searchable fs) ''payloadValue''"
  "k \<notin> {''payloadPath'', ''payloadValue''} \<Longrightarrow> map_of (searchable fs) k = map_of fs k"
proof -
  have off: "map_of (filter (\<lambda>(k, _). k \<notin> {''payloadPath'', ''payloadValue''}) fs) ''payloadPath'' = None"
    "map_of (filter (\<lambda>(k, _). k \<notin> {''payloadPath'', ''payloadValue''}) fs) ''payloadValue'' = None"
    by (simp_all add: map_of_filter_keys)
  show "has_text (searchable fs) ''payloadPath'' \<longleftrightarrow> has_text (searchable fs) ''payloadValue''"
    "map_of (searchable fs) ''payloadPath'' \<noteq> None \<Longrightarrow> has_text (searchable fs) ''payloadValue''"
    using off by (simp_all only: searchable_def has_text_def[of "filter _ _"] split: if_splits) simp_all
  show "k \<notin> {''payloadPath'', ''payloadValue''} \<Longrightarrow> map_of (searchable fs) k = map_of fs k"
    by (simp add: searchable_def map_of_filter_keys)
qed

section \<open>Endpoints\<close>

text \<open>An endpoint as an answer carries it: a creation and a rotation also hold the secret.\<close>

record endpoint_item =
  ei_view :: endpoint_view
  ei_secret :: "string option"
  ei_previousSecretExpiresAt :: "int option"

definition ei_id :: "endpoint_item \<Rightarrow> string" where
  "ei_id e = ew_id (ei_view e)"

definition stripSecret :: "endpoint_item \<Rightarrow> endpoint_item" where
  "stripSecret e = e\<lparr>ei_secret := None, ei_previousSecretExpiresAt := None\<rparr>"

record endpoints_store =
  en_items :: "endpoint_item list"
  en_loaded :: "string option"
  en_gate :: nat
  en_list :: channel

text \<open>The last of several endpoints with an id is the one the dictionary holds.\<close>

definition byId :: "endpoints_store \<Rightarrow> string \<Rightarrow> endpoint_item option" where
  "byId s i = map_of (rev (map (\<lambda>e. (ei_id e, e)) (en_items s))) i"

definition endpoint_name :: "(string \<Rightarrow> parsed_url option) \<Rightarrow> endpoints_store \<Rightarrow> string \<Rightarrow> string" where
  "endpoint_name parse s endpointId =
    (case byId s endpointId of None \<Rightarrow> endpointId | Some e \<Rightarrow> displayName parse (ew_url (ei_view e)))"

text \<open>\<open>load\<close>: the list at hand, or a request.\<close>

definition load_endpoints :: "string \<Rightarrow> bool \<Rightarrow> endpoints_store \<Rightarrow> endpoint_item list + ticket \<times> endpoints_store" where
  "load_endpoints projectId force s =
    (if \<not> force \<and> en_loaded s = Some projectId \<and> en_items s \<noteq> [] then Inl (en_items s)
     else (case start_run True (en_gate s) (en_list s) of (tk, gate, ch) \<Rightarrow> Inr (tk, s\<lparr>en_gate := gate, en_list := ch\<rparr>)))"

definition settle_endpoints :: "string \<Rightarrow> ticket \<Rightarrow> ui_exn + endpoint_item list \<Rightarrow> endpoints_store \<Rightarrow> endpoints_store" where
  "settle_endpoints projectId tk answer s =
    (case answer of
       Inr es \<Rightarrow> if is_current (en_gate s) tk then s\<lparr>en_items := es, en_loaded := Some projectId\<rparr> else s
     | Inl _ \<Rightarrow> s)\<lparr>en_list := settle_run (en_gate s) tk answer (en_list s)\<rparr>"

definition upsert :: "endpoint_item \<Rightarrow> endpoints_store \<Rightarrow> endpoints_store" where
  "upsert e s =
    (if list_all (\<lambda>i. ei_id i \<noteq> ei_id e) (en_items s) then s\<lparr>en_items := e # en_items s\<rparr>
     else s\<lparr>en_items := map (\<lambda>i. if ei_id i = ei_id e then e else i) (en_items s)\<rparr>)"

definition drop_endpoint :: "string \<Rightarrow> endpoints_store \<Rightarrow> endpoints_store" where
  "drop_endpoint i s = s\<lparr>en_items := filter (\<lambda>e. ei_id e \<noteq> i) (en_items s)\<rparr>"

definition markDisabled :: "string \<Rightarrow> int \<Rightarrow> endpoints_store \<Rightarrow> endpoints_store" where
  "markDisabled i n s =
    (case byId s i of
       None \<Rightarrow> s
     | Some e \<Rightarrow> upsert (e\<lparr>ei_view := (ei_view e)\<lparr>ew_status := DISABLED, ew_consecutiveFailures := n\<rparr>\<rparr>) s)"

definition reset_endpoints :: "endpoints_store \<Rightarrow> endpoints_store" where
  "reset_endpoints s = s\<lparr>en_items := [], en_loaded := None, en_list := (en_list s)\<lparr>ch_error := None\<rparr>\<rparr>"

text \<open>The answers that reach the store, each with what its operation does with it.\<close>

datatype endpoints_op =
  E_Created endpoint_item | E_Updated endpoint_item | E_Rotated endpoint_item | E_Enabled endpoint_item
| E_Disabled endpoint_item | E_Removed string | E_Marked string int | E_Loaded string ticket "ui_exn + endpoint_item list" | E_Reset

fun endpoints_step :: "endpoints_store \<Rightarrow> endpoints_op \<Rightarrow> endpoints_store" where
  "endpoints_step s (E_Created e) = upsert (stripSecret e) s"
| "endpoints_step s (E_Updated e) = upsert e s"
| "endpoints_step s (E_Rotated e) = upsert (stripSecret e) s"
| "endpoints_step s (E_Enabled e) = upsert e s"
| "endpoints_step s (E_Disabled e) = upsert e s"
| "endpoints_step s (E_Removed i) = drop_endpoint i s"
| "endpoints_step s (E_Marked i n) = markDisabled i n s"
| "endpoints_step s (E_Loaded p tk answer) = settle_endpoints p tk answer s"
| "endpoints_step s E_Reset = reset_endpoints s"

definition no_secret :: "endpoint_item \<Rightarrow> bool" where
  "no_secret e \<longleftrightarrow> ei_secret e = None \<and> ei_previousSecretExpiresAt e = None"

text \<open>What the API sends outside a creation or a rotation is a view: it has no secret, and a list has each id once.\<close>

definition api_answer :: "endpoints_op \<Rightarrow> bool" where
  "api_answer op \<longleftrightarrow>
    (case op of
       E_Updated e \<Rightarrow> no_secret e | E_Enabled e \<Rightarrow> no_secret e | E_Disabled e \<Rightarrow> no_secret e
     | E_Loaded _ _ (Inr es) \<Rightarrow> list_all no_secret es \<and> distinct (map ei_id es)
     | _ \<Rightarrow> True)"

definition store_ok :: "endpoints_store \<Rightarrow> bool" where
  "store_ok s \<longleftrightarrow> list_all no_secret (en_items s) \<and> distinct (map ei_id (en_items s))"

lemma no_secret_strip [simp]: "no_secret (stripSecret e)" "ei_id (stripSecret e) = ei_id e"
  by (simp_all add: no_secret_def stripSecret_def ei_id_def)

lemma upsert_ids:
  "map ei_id (en_items (upsert e s)) =
    (if ei_id e \<in> set (map ei_id (en_items s)) then map ei_id (en_items s) else ei_id e # map ei_id (en_items s))"
proof -
  have "list_all (\<lambda>i. ei_id i \<noteq> ei_id e) (en_items s) \<longleftrightarrow> ei_id e \<notin> set (map ei_id (en_items s))"
    by (auto simp: list_all_iff simp flip: image_iff) (metis image_iff)+
  then show ?thesis by (simp add: upsert_def)
qed

lemma store_ok_upsert: "store_ok s \<Longrightarrow> no_secret e \<Longrightarrow> store_ok (upsert e s)"
  unfolding store_ok_def upsert_ids by (auto simp: upsert_def list_all_iff)

lemma byId_in: "byId s i = Some e \<Longrightarrow> e \<in> set (en_items s) \<and> ei_id e = i"
  by (auto simp: byId_def dest!: map_of_SomeD)

lemma byId_distinct: "store_ok s \<Longrightarrow> e \<in> set (en_items s) \<Longrightarrow> byId s (ei_id e) = Some e"
  unfolding byId_def store_ok_def by (rule map_of_is_SomeI) (auto simp: comp_def rev_map[symmetric])

lemma store_ok_step:
  assumes "store_ok s" "api_answer op" shows "store_ok (endpoints_step s op)"
proof (cases op)
  case (E_Marked i n)
  show ?thesis
  proof (cases "byId s i")
    case (Some e)
    then have "no_secret e" using byId_in assms(1) by (auto simp: store_ok_def list_all_iff)
    then have "no_secret (e\<lparr>ei_view := v\<rparr>)" for v by (simp add: no_secret_def)
    then show ?thesis using assms(1) by (simp add: E_Marked markDisabled_def Some store_ok_upsert)
  qed (simp add: E_Marked markDisabled_def assms)
next
  case (E_Removed i)
  then show ?thesis using assms by (auto simp: store_ok_def drop_endpoint_def list_all_iff distinct_map_filter)
next
  case (E_Loaded p tk answer)
  then show ?thesis using assms by (auto simp: store_ok_def settle_endpoints_def api_answer_def split: sum.splits)
qed (use assms in \<open>simp_all add: store_ok_upsert api_answer_def reset_endpoints_def store_ok_def[of "_\<lparr>en_items := []\<rparr>"]\<close>,
     simp add: store_ok_def)

text \<open>A plaintext secret never enters the store, and no endpoint is listed twice.\<close>

lemma store_ok_run: "store_ok s \<Longrightarrow> list_all api_answer ops \<Longrightarrow> store_ok (foldl endpoints_step s ops)"
  by (induction ops arbitrary: s) (simp_all add: store_ok_step)

lemma byId_upsert:
  assumes "store_ok s" "no_secret e"
  shows "byId (upsert e s) i = (if i = ei_id e then Some e else byId s i)"
proof (cases "i = ei_id e")
  case True
  have "e \<in> set (en_items (upsert e s))" by (auto simp: upsert_def list_all_iff image_iff)
  then show ?thesis using byId_distinct[OF store_ok_upsert[OF assms]] True by simp
next
  case False
  show ?thesis
  proof (cases "byId s i")
    case None
    have "byId (upsert e s) i = None"
      using None False upsert_ids[of e s] unfolding byId_def map_of_eq_None_iff
      by (auto simp: image_iff upsert_def list_all_iff split: if_splits)
    then show ?thesis using None False by simp
  next
    case (Some x)
    then have "x \<in> set (en_items (upsert e s))" "ei_id x = i"
      using byId_in[OF Some] False by (auto simp: upsert_def image_iff)
    then show ?thesis using byId_distinct[OF store_ok_upsert[OF assms], of x] Some False by simp
  qed
qed

end
