(* ===== verification/Ui_Api.thy ===== *)
theory Ui_Api
  imports Ui_Requests
begin

text \<open>
  \<open>src/dashboard/src/lib/api.js\<close>: the one place the dashboard calls the API from.  The first part is
  a single request; the second is the client with any number of requests in flight, whose answers
  arrive in any order, and the session refresh they share.  The text of a query string and the JSON
  parser are the platform's and given as functions.
\<close>

section \<open>A request and its answer\<close>

definition BASE :: string where "BASE = ''/v1''"

definition search_params :: "(string \<times> string option) list \<Rightarrow> (string \<times> string) list" where
  "search_params query = List.map_filter (\<lambda>(k, v). case v of None \<Rightarrow> None | Some x \<Rightarrow> if x = [] then None else Some (k, x)) query"

definition buildUrl :: "((string \<times> string) list \<Rightarrow> string) \<Rightarrow> string \<Rightarrow> (string \<times> string option) list option \<Rightarrow> string" where
  "buildUrl encode path query =
    (let url = BASE @ path in
     case query of
       None \<Rightarrow> url
     | Some q \<Rightarrow> (let search = encode (search_params q) in if search = [] then url else url @ ''?'' @ search))"

record reply =
  re_status :: int
  re_text :: string
  re_requestId :: "string option"

datatype 'j body = NoBody | Parsed 'j | Raw string

definition readBody :: "(string \<Rightarrow> 'j option) \<Rightarrow> reply \<Rightarrow> 'j body" where
  "readBody parse r =
    (if re_status r = 204 then NoBody
     else if re_text r = [] then NoBody
     else (case parse (re_text r) of Some j \<Rightarrow> Parsed j | None \<Rightarrow> Raw (re_text r)))"

text \<open>The fields of a problem, as an \<open>ApiError\<close> reads them off a body; \<open>{raw}\<close> has none of them.\<close>

definition problem_of :: "('j \<Rightarrow> problem_body) \<Rightarrow> 'j body \<Rightarrow> problem_body" where
  "problem_of as_problem b = (case b of Parsed j \<Rightarrow> as_problem j | _ \<Rightarrow> no_problem)"

definition failure_of :: "(string \<Rightarrow> 'j option) \<Rightarrow> ('j \<Rightarrow> problem_body) \<Rightarrow> int \<Rightarrow> reply \<Rightarrow> ui_exn" where
  "failure_of parse as_problem st r = ApiFailure (ApiError st (problem_of as_problem (readBody parse r)) (re_requestId r))"

definition ok_status :: "int \<Rightarrow> bool" where
  "ok_status st \<longleftrightarrow> 200 \<le> st \<and> st \<le> 299"

definition finish :: "(string \<Rightarrow> 'j option) \<Rightarrow> ('j \<Rightarrow> problem_body) \<Rightarrow> reply \<Rightarrow> ui_exn + 'j body" where
  "finish parse as_problem r =
    (let body = readBody parse r in
     if \<not> ok_status (re_status r) then Inl (failure_of parse as_problem (re_status r) r) else Inr body)"

record options =
  op_method :: "string option"
  op_headers :: "(string \<times> string) list"
  op_body :: "string option"
  op_auth :: bool
  op_retryOnUnauthorized :: bool

definition api_options :: options where
  "api_options = \<lparr>op_method = None, op_headers = [], op_body = None, op_auth = True, op_retryOnUnauthorized = True\<rparr>"

definition api_get :: options where "api_get = api_options\<lparr>op_method := Some ''GET''\<rparr>"
definition api_post :: "string option \<Rightarrow> options" where
  "api_post body = api_options\<lparr>op_method := Some ''POST'', op_body := body\<rparr>"
definition api_patch :: "string option \<Rightarrow> options" where
  "api_patch body = api_options\<lparr>op_method := Some ''PATCH'', op_body := body\<rparr>"
definition api_delete :: options where "api_delete = api_options\<lparr>op_method := Some ''DELETE''\<rparr>"

record sent_request =
  sr_url :: string
  sr_method :: string
  sr_headers :: "(string \<times> string) list"
  sr_body :: "string option"

text \<open>\<open>send\<close> reads the access token when it is called.\<close>

definition send ::
  "((string \<times> string) list \<Rightarrow> string) \<Rightarrow> string option \<Rightarrow> string \<Rightarrow> options \<Rightarrow> (string \<times> string option) list option \<Rightarrow> sent_request" where
  "send encode accessToken path opts query =
    (let headers = foldl (\<lambda>h (k, v). AList.update k v h) [(''Accept'', ''application/json'')] (op_headers opts);
         token = (if op_auth opts then accessToken else None);
         headers = (case token of None \<Rightarrow> headers
                    | Some t \<Rightarrow> if t = [] then headers else AList.update ''Authorization'' (''Bearer '' @ t) headers);
         headers = (if op_body opts = None then headers else AList.update ''Content-Type'' ''application/json'' headers)
     in \<lparr>sr_url = buildUrl encode path query, sr_method = coalesce (op_method opts) ''GET'', sr_headers = headers,
         sr_body = op_body opts\<rparr>)"

lemma send_authorization:
  "op_headers opts = [] \<Longrightarrow> map_of (sr_headers (send encode token path opts query)) ''Authorization'' =
    (if op_auth opts \<and> token \<noteq> None \<and> token \<noteq> Some [] then Some (''Bearer '' @ the token) else None)"
  by (auto simp: send_def Let_def update_conv' split: option.splits)

section \<open>The client\<close>

text \<open>
  A request waits for its first answer, for the refresh, or for the answer to its second sending, or
  it is over.  \<open>inflightRefresh\<close> is non-null exactly while \<open>cl_rotating\<close>.
\<close>

datatype answer = Reply reply | Unreachable string

datatype 'j phase = Sent | Refreshing reply | Resent | Over "ui_exn + 'j body"

record 'j call =
  ca_options :: options
  ca_phase :: "'j phase"

record 'j client =
  cl_token :: "string option"
  cl_rotating :: bool
  cl_direct :: nat
  cl_calls :: "'j call list"
  cl_log :: "(nat \<times> string option) list"
  cl_lost :: nat

text \<open>
  What can happen: a request is made; an answer arrives for a request; the refresh started by
  \<open>refreshOnce\<close> ends, with a token or without; \<open>auth.refresh\<close> is called outside \<open>refreshOnce\<close> and
  ends; a login or logout sets the token.
\<close>

datatype client_op =
  Request options | Answer nat answer | Rotated "string option" | Direct | Direct_Ended "string option" | Token_Set "string option"

definition ended :: "(string \<Rightarrow> 'j option) \<Rightarrow> ('j \<Rightarrow> problem_body) \<Rightarrow> answer \<Rightarrow> 'j phase" where
  "ended parse as_problem a =
    (case a of Reply r \<Rightarrow> Over (finish parse as_problem r) | Unreachable m \<Rightarrow> Over (Inl (NetworkFailure m)))"

definition unauthorized_once :: "'j call \<Rightarrow> answer \<Rightarrow> reply option" where
  "unauthorized_once c a =
    (case a of
       Reply r \<Rightarrow> if ca_phase c = Sent \<and> re_status r = 401 \<and> op_auth (ca_options c) \<and> op_retryOnUnauthorized (ca_options c)
                  then Some r else None
     | Unreachable _ \<Rightarrow> None)"

definition set_phase :: "nat \<Rightarrow> 'j phase \<Rightarrow> 'j client \<Rightarrow> 'j client" where
  "set_phase i ph cl = cl\<lparr>cl_calls := (cl_calls cl)[i := (cl_calls cl ! i)\<lparr>ca_phase := ph\<rparr>]\<rparr>"

definition on_answer ::
  "(string \<Rightarrow> 'j option) \<Rightarrow> ('j \<Rightarrow> problem_body) \<Rightarrow> nat \<Rightarrow> answer \<Rightarrow> 'j client \<Rightarrow> 'j client" where
  "on_answer parse as_problem i a cl =
    (let c = cl_calls cl ! i in
     case unauthorized_once c a of
       Some r \<Rightarrow> (set_phase i (Refreshing r) cl)\<lparr>cl_rotating := True\<rparr>
     | None \<Rightarrow> if ca_phase c = Sent \<or> ca_phase c = Resent then set_phase i (ended parse as_problem a) cl else cl)"

definition is_refreshing :: "'j call \<Rightarrow> bool" where
  "is_refreshing c \<longleftrightarrow> (case ca_phase c of Refreshing _ \<Rightarrow> True | _ \<Rightarrow> False)"

text \<open>The requests that waited for the refresh go on, each with the token it brought, or are over.\<close>

definition resume :: "(string \<Rightarrow> 'j option) \<Rightarrow> ('j \<Rightarrow> problem_body) \<Rightarrow> bool \<Rightarrow> 'j call \<Rightarrow> 'j call" where
  "resume parse as_problem refreshed c =
    (case ca_phase c of
       Refreshing r \<Rightarrow> c\<lparr>ca_phase := (if refreshed then Resent else Over (Inl (failure_of parse as_problem 401 r)))\<rparr>
     | _ \<Rightarrow> c)"

definition refreshing_calls :: "'j client \<Rightarrow> nat list" where
  "refreshing_calls cl = filter (\<lambda>i. is_refreshing (cl_calls cl ! i)) [0..<length (cl_calls cl)]"

definition on_rotated ::
  "(string \<Rightarrow> 'j option) \<Rightarrow> ('j \<Rightarrow> problem_body) \<Rightarrow> string option \<Rightarrow> 'j client \<Rightarrow> 'j client" where
  "on_rotated parse as_problem token cl =
    (let waiting = refreshing_calls cl in
     cl\<lparr>cl_token := token, cl_rotating := False,
        cl_calls := map (resume parse as_problem (token \<noteq> None)) (cl_calls cl),
        cl_log := cl_log cl @ (if token = None then [] else map (\<lambda>i. (i, token)) waiting),
        cl_lost := cl_lost cl + (if token = None then length waiting else 0)\<rparr>)"

fun client_step ::
  "(string \<Rightarrow> 'j option) \<Rightarrow> ('j \<Rightarrow> problem_body) \<Rightarrow> 'j client \<Rightarrow> client_op \<Rightarrow> 'j client" where
  "client_step parse as_problem cl (Request opts) =
    cl\<lparr>cl_calls := cl_calls cl @ [\<lparr>ca_options = opts, ca_phase = Sent\<rparr>],
       cl_log := cl_log cl @ [(length (cl_calls cl), if op_auth opts then cl_token cl else None)]\<rparr>"
| "client_step parse as_problem cl (Answer i a) = (if i < length (cl_calls cl) then on_answer parse as_problem i a cl else cl)"
| "client_step parse as_problem cl (Rotated token) = (if cl_rotating cl then on_rotated parse as_problem token cl else cl)"
| "client_step parse as_problem cl Direct = cl\<lparr>cl_direct := cl_direct cl + 1\<rparr>"
| "client_step parse as_problem cl (Direct_Ended token) =
    (if cl_direct cl = 0 then cl else cl\<lparr>cl_direct := cl_direct cl - 1, cl_token := token\<rparr>)"
| "client_step parse as_problem cl (Token_Set token) = cl\<lparr>cl_token := token\<rparr>"

definition client_init :: "'j client" where
  "client_init = \<lparr>cl_token = None, cl_rotating = False, cl_direct = 0, cl_calls = [], cl_log = [], cl_lost = 0\<rparr>"

definition client_run ::
  "(string \<Rightarrow> 'j option) \<Rightarrow> ('j \<Rightarrow> problem_body) \<Rightarrow> client_op list \<Rightarrow> 'j client" where
  "client_run parse as_problem ops = foldl (client_step parse as_problem) client_init ops"

text \<open>The rotations of the refresh cookie that are on their way.\<close>

definition rotations_in_flight :: "'j client \<Rightarrow> nat" where
  "rotations_in_flight cl = (if cl_rotating cl then 1 else 0) + cl_direct cl"

section \<open>What holds in every run\<close>

definition sendings :: "nat \<Rightarrow> 'j client \<Rightarrow> nat" where
  "sendings i cl = length (filter (\<lambda>e. fst e = i) (cl_log cl))"

definition allowed_sendings :: "'j call \<Rightarrow> nat set" where
  "allowed_sendings c =
    (case ca_phase c of Sent \<Rightarrow> {1} | Refreshing _ \<Rightarrow> {1} | Resent \<Rightarrow> {2}
     | Over _ \<Rightarrow> if op_auth (ca_options c) \<and> op_retryOnUnauthorized (ca_options c) then {1, 2} else {1})"

text \<open>A request waits for a refresh only while one is on its way, and never if it opted out.\<close>

definition may_refresh :: "'j call \<Rightarrow> bool" where
  "may_refresh c \<longleftrightarrow> op_auth (ca_options c) \<and> op_retryOnUnauthorized (ca_options c)"

definition call_ok :: "nat \<Rightarrow> bool \<Rightarrow> 'j call \<Rightarrow> bool" where
  "call_ok n rotating c \<longleftrightarrow>
    n \<in> allowed_sendings c \<and> (is_refreshing c \<longrightarrow> rotating) \<and> (is_refreshing c \<or> ca_phase c = Resent \<longrightarrow> may_refresh c)"

definition client_ok :: "'j client \<Rightarrow> bool" where
  "client_ok cl \<longleftrightarrow>
    (\<forall>i < length (cl_calls cl). call_ok (sendings i cl) (cl_rotating cl) (cl_calls cl ! i))
    \<and> (\<forall>e \<in> set (cl_log cl). fst e < length (cl_calls cl))"

lemma filter_upt_eq: "filter (\<lambda>j. P j \<and> j = i) [0..<n] = (if i < n \<and> P i then [i] else [])"
  by (induction n) (auto simp: less_Suc_eq)

lemma sendings_refreshing:
  "length (filter (\<lambda>e. fst e = i) (map (\<lambda>i. (i, t)) (refreshing_calls cl))) =
    (if i < length (cl_calls cl) \<and> is_refreshing (cl_calls cl ! i) then 1 else 0)"
  by (simp add: refreshing_calls_def filter_map comp_def filter_upt_eq)

lemma call_ok_answered:
  assumes "call_ok n rotating c"
  shows "unauthorized_once c a = Some r \<Longrightarrow> call_ok n True (c\<lparr>ca_phase := Refreshing r\<rparr>)"
    "ca_phase c = Sent \<or> ca_phase c = Resent \<Longrightarrow> call_ok n rotating (c\<lparr>ca_phase := ended parse as_problem a\<rparr>)"
    "call_ok n True c"
  using assms
  by (auto simp: call_ok_def allowed_sendings_def is_refreshing_def may_refresh_def unauthorized_once_def ended_def
      split: phase.splits answer.splits if_splits)

lemma call_ok_resume:
  "call_ok n rotating c \<Longrightarrow>
   call_ok (n + (if ok \<and> is_refreshing c then 1 else 0)) False (resume parse as_problem ok c)"
  by (auto simp: call_ok_def allowed_sendings_def is_refreshing_def may_refresh_def resume_def split: phase.splits if_splits)

lemma client_ok_answer:
  assumes ok: "client_ok cl" and i: "i < length (cl_calls cl)"
  shows "client_ok (on_answer parse as_problem i a cl)"
proof -
  let ?c = "cl_calls cl ! i"
  have c: "call_ok (sendings i cl) (cl_rotating cl) ?c" using assms by (simp add: client_ok_def)
  have s: "sendings j (set_phase i ph cl) = sendings j cl" "sendings j (cl\<lparr>cl_rotating := b\<rparr>) = sendings j cl"
    "sendings j ((set_phase i ph cl)\<lparr>cl_rotating := b\<rparr>) = sendings j cl" for j ph b
    by (simp_all add: sendings_def set_phase_def)
  show ?thesis
  proof (cases "unauthorized_once ?c a")
    case (Some r)
    then show ?thesis using ok i call_ok_answered(1)[OF c Some] call_ok_answered(3)
      by (auto simp: client_ok_def on_answer_def Let_def s) (auto simp: set_phase_def nth_list_update)
  next
    case None
    then show ?thesis using ok i call_ok_answered(2)[OF c, of parse as_problem a]
      by (auto simp: client_ok_def on_answer_def Let_def s) (auto simp: set_phase_def nth_list_update)
  qed
qed

lemma client_ok_rotated:
  assumes "client_ok cl" shows "client_ok (on_rotated parse as_problem token cl)"
proof -
  have "sendings i (on_rotated parse as_problem token cl) =
      sendings i cl + (if token \<noteq> None \<and> is_refreshing (cl_calls cl ! i) then 1 else 0)" if "i < length (cl_calls cl)" for i
    using that sendings_refreshing[of i token cl]
    by (cases "is_refreshing (cl_calls cl ! i)") (auto simp: on_rotated_def sendings_def Let_def filter_map)
  moreover have "\<forall>e \<in> set (cl_log (on_rotated parse as_problem token cl)). fst e < length (cl_calls cl)"
    using assms by (auto simp: on_rotated_def client_ok_def Let_def refreshing_calls_def)
  moreover have "cl_calls (on_rotated parse as_problem token cl) = map (resume parse as_problem (token \<noteq> None)) (cl_calls cl)"
    "cl_rotating (on_rotated parse as_problem token cl) = False"
    by (simp_all add: on_rotated_def Let_def)
  moreover have "call_ok (sendings i cl + (if token \<noteq> None \<and> is_refreshing (cl_calls cl ! i) then 1 else 0)) False
      (resume parse as_problem (token \<noteq> None) (cl_calls cl ! i))" if "i < length (cl_calls cl)" for i
    using assms that by (intro call_ok_resume) (auto simp: client_ok_def)
  ultimately show ?thesis unfolding client_ok_def by (auto simp del: not_None_eq)
qed

lemma client_ok_step:
  assumes "client_ok cl" shows "client_ok (client_step parse as_problem cl op)"
proof (cases op)
  case (Request opts)
  have "filter (\<lambda>e. fst e = length (cl_calls cl)) (cl_log cl) = []"
    using assms by (auto simp: client_ok_def filter_empty_conv)
  then have "sendings i (client_step parse as_problem cl op) = (if i = length (cl_calls cl) then 1 else sendings i cl)" for i
    by (simp add: Request sendings_def)
  moreover have "call_ok 1 rotating \<lparr>ca_options = opts, ca_phase = Sent\<rparr>" for rotating
    by (simp add: call_ok_def allowed_sendings_def is_refreshing_def)
  ultimately show ?thesis using assms by (auto simp: client_ok_def Request nth_append less_Suc_eq)
qed (use assms in \<open>simp_all add: client_ok_answer client_ok_rotated\<close>, simp_all add: client_ok_def sendings_def)

lemma client_ok_run: "client_ok (client_run parse as_problem ops)"
proof -
  have "client_ok (foldl (client_step parse as_problem) cl ops)" if "client_ok cl" for cl
    using that by (induction ops arbitrary: cl) (simp_all add: client_ok_step)
  then show ?thesis by (simp add: client_run_def client_ok_def client_init_def)
qed

text \<open>No request is sent a third time, and one that opted out is sent once.\<close>

lemma at_most_two_sendings:
  assumes "i < length (cl_calls (client_run parse as_problem ops))"
  shows "sendings i (client_run parse as_problem ops) \<in> {1, 2}"
    "\<not> op_auth (ca_options (cl_calls (client_run parse as_problem ops) ! i)) \<Longrightarrow> sendings i (client_run parse as_problem ops) = 1"
proof -
  note ok = client_ok_run[of parse as_problem ops, unfolded client_ok_def]
  have c: "call_ok (sendings i (client_run parse as_problem ops)) (cl_rotating (client_run parse as_problem ops))
      (cl_calls (client_run parse as_problem ops) ! i)"
    using ok assms by blast
  show "sendings i (client_run parse as_problem ops) \<in> {1, 2}"
    using c by (auto simp: call_ok_def allowed_sendings_def split: phase.splits if_splits)
  show "\<not> op_auth (ca_options (cl_calls (client_run parse as_problem ops) ! i)) \<Longrightarrow> sendings i (client_run parse as_problem ops) = 1"
    using c by (auto simp: call_ok_def allowed_sendings_def is_refreshing_def may_refresh_def split: phase.splits if_splits)
qed

text \<open>Through \<open>refreshOnce\<close> alone the cookie is never rotated twice at a time.\<close>

lemma single_flight:
  "list_all (\<lambda>op. op \<noteq> Direct) ops \<Longrightarrow> rotations_in_flight (client_run parse as_problem ops) \<le> 1"
proof -
  have "list_all (\<lambda>op. op \<noteq> Direct) ops \<Longrightarrow> cl_direct cl = 0 \<Longrightarrow> cl_direct (foldl (client_step parse as_problem) cl ops) = 0" for cl
  proof (induction ops arbitrary: cl)
    case (Cons op ops)
    have "cl_direct (client_step parse as_problem cl op) = 0"
      using Cons.prems by (cases op) (auto simp: on_answer_def set_phase_def on_rotated_def Let_def split: option.split)
    then show ?case using Cons by simp
  qed simp
  then show "list_all (\<lambda>op. op \<noteq> Direct) ops \<Longrightarrow> rotations_in_flight (client_run parse as_problem ops) \<le> 1"
    by (simp add: rotations_in_flight_def client_run_def client_init_def)
qed

text \<open>When no answer is outstanding and no refresh is on its way, every request is over.\<close>

definition outstanding :: "'j client \<Rightarrow> nat list" where
  "outstanding cl = filter (\<lambda>i. ca_phase (cl_calls cl ! i) = Sent \<or> ca_phase (cl_calls cl ! i) = Resent) [0..<length (cl_calls cl)]"

lemma nobody_waits_forever:
  assumes "outstanding (client_run parse as_problem ops) = []" "\<not> cl_rotating (client_run parse as_problem ops)"
    "i < length (cl_calls (client_run parse as_problem ops))"
  shows "\<exists>r. ca_phase (cl_calls (client_run parse as_problem ops) ! i) = Over r"
  using assms client_ok_run[of parse as_problem ops]
  by (cases "ca_phase (cl_calls (client_run parse as_problem ops) ! i)")
     (fastforce simp: outstanding_def filter_empty_conv client_ok_def call_ok_def is_refreshing_def)+

text \<open>After a refresh that failed nobody waits, nobody is signed in, and each of the waiting has been refused.\<close>

lemma refresh_failed:
  assumes "cl_rotating cl"
  shows "cl_token (client_step parse as_problem cl (Rotated None)) = None"
    "refreshing_calls (client_step parse as_problem cl (Rotated None)) = []"
    "cl_lost (client_step parse as_problem cl (Rotated None)) = cl_lost cl + length (refreshing_calls cl)"
  using assms
  by (auto simp: on_rotated_def Let_def refreshing_calls_def filter_empty_conv is_refreshing_def resume_def split: phase.splits)

text \<open>A direct refresh is not part of the single flight: two requests and a socket, two rotations.\<close>

lemma direct_refresh_races:
  "rotations_in_flight (client_run (\<lambda>_. None) (\<lambda>_ :: unit. no_problem)
     [Token_Set (Some ''a''), Request api_get, Answer 0 (Reply \<lparr>re_status = 401, re_text = [], re_requestId = None\<rparr>), Direct]) = 2"
  by (simp add: rotations_in_flight_def client_run_def client_init_def on_answer_def unauthorized_once_def set_phase_def
      api_get_def api_options_def)

end
