(* ===== verification/Ui_Auth.thy ===== *)
theory Ui_Auth
  imports Ui_Api Schemas
begin

text \<open>
  The session of the dashboard: \<open>src/dashboard/src/stores/auth.js\<close>, the guard of \<open>router/index.js\<close>,
  \<open>lib/landing.js\<close>, and the scripts of \<open>views/LoginView.vue\<close> and \<open>views/RegisterView.vue\<close>.  An answer
  of the API is given to the operation that awaits it; clearing a lost session is part of the answer.
\<close>

section \<open>The store\<close>

record me_user =
  mu_id :: string
  mu_email :: string
  mu_name :: string

record ui_project =
  up_id :: string
  up_name :: string
  up_slug :: string
  up_alertWebhookUrl :: "string option"

record ui_membership =
  um_role :: role
  um_project :: ui_project

record auth_store =
  as_accessToken :: "string option"
  as_user :: "me_user option"
  as_memberships :: "ui_membership list"
  as_ready :: bool

definition auth_init :: auth_store where
  "auth_init = \<lparr>as_accessToken = None, as_user = None, as_memberships = [], as_ready = False\<rparr>"

definition isAuthenticated :: "auth_store \<Rightarrow> bool" where
  "isAuthenticated s \<longleftrightarrow> as_accessToken s \<noteq> None \<and> as_accessToken s \<noteq> Some [] \<and> as_user s \<noteq> None"

definition auth_projects :: "auth_store \<Rightarrow> (ui_project \<times> role) list" where
  "auth_projects s = map (\<lambda>m. (um_project m, um_role m)) (as_memberships s)"

definition roleIn :: "auth_store \<Rightarrow> string \<Rightarrow> role option" where
  "roleIn s projectId = map_option um_role (find (\<lambda>m. up_id (um_project m) = projectId) (as_memberships s))"

definition clear_auth :: "auth_store \<Rightarrow> auth_store" where
  "clear_auth s = s\<lparr>as_accessToken := None, as_user := None, as_memberships := []\<rparr>"

record ui_session =
  sn_accessToken :: string
  sn_user :: "me_user option"

definition adopt :: "ui_session \<Rightarrow> auth_store \<Rightarrow> auth_store" where
  "adopt session s =
    (let s' = s\<lparr>as_accessToken := Some (sn_accessToken session)\<rparr> in
     case sn_user session of None \<Rightarrow> s' | Some u \<Rightarrow> s'\<lparr>as_user := Some u\<rparr>)"

definition merge_detail :: "ui_project \<Rightarrow> ui_membership \<Rightarrow> ui_membership" where
  "merge_detail p m =
    (if up_id (um_project m) = up_id p
     then m\<lparr>um_project := (um_project m)\<lparr>up_name := up_name p, up_slug := up_slug p, up_alertWebhookUrl := up_alertWebhookUrl p\<rparr>\<rparr>
     else m)"

definition mergeProject :: "ui_project \<Rightarrow> auth_store \<Rightarrow> auth_store" where
  "mergeProject p s = s\<lparr>as_memberships := map (merge_detail p) (as_memberships s)\<rparr>"

text \<open>What \<open>GET /auth/me\<close> comes to: an answer, a rejection, or a rejection after the session was lost.\<close>

datatype me_reply = Me me_user "ui_membership list" | Me_Failed ui_exn | Me_Lost ui_exn

definition loadMe :: "me_reply \<Rightarrow> auth_store \<Rightarrow> (ui_exn + unit) \<times> auth_store" where
  "loadMe reply s =
    (case reply of
       Me u ms \<Rightarrow> (Inr (), s\<lparr>as_user := Some u, as_memberships := ms\<rparr>)
     | Me_Failed e \<Rightarrow> (Inl e, s)
     | Me_Lost e \<Rightarrow> (Inl e, clear_auth s))"

definition refresh_auth :: "ui_exn + string \<Rightarrow> auth_store \<Rightarrow> bool \<times> auth_store" where
  "refresh_auth reply s =
    (case reply of
       Inr token \<Rightarrow> (True, s\<lparr>as_accessToken := Some token\<rparr>)
     | Inl _ \<Rightarrow> (False, clear_auth s))"

text \<open>\<open>login\<close> and \<open>register\<close> are the same steps behind different requests.\<close>

definition sign_in :: "ui_exn + ui_session \<Rightarrow> me_reply \<Rightarrow> auth_store \<Rightarrow> (ui_exn + ui_session) \<times> auth_store" where
  "sign_in reply me_answer s =
    (case reply of
       Inl e \<Rightarrow> (Inl e, s)
     | Inr session \<Rightarrow>
        (case loadMe me_answer (adopt session s) of
           (Inl e, s') \<Rightarrow> (Inl e, s')
         | (Inr _, s') \<Rightarrow> (Inr session, s')))"

definition logout_auth :: "ui_exn + unit \<Rightarrow> auth_store \<Rightarrow> (ui_exn + unit) \<times> auth_store" where
  "logout_auth reply s = (reply, clear_auth s)"

definition bootstrap :: "ui_exn + string \<Rightarrow> me_reply \<Rightarrow> auth_store \<Rightarrow> bool \<times> auth_store" where
  "bootstrap reply me_answer s =
    (if as_ready s then (isAuthenticated s, s)
     else
       (let s' = (case refresh_auth reply s of
                    (True, s1) \<Rightarrow> (case loadMe me_answer s1 of (Inr _, s2) \<Rightarrow> s2 | (Inl _, s2) \<Rightarrow> clear_auth s2)
                  | (False, s1) \<Rightarrow> s1)\<lparr>as_ready := True\<rparr>
        in (isAuthenticated s', s')))"

section \<open>Routes\<close>

datatype route_name =
  R_login | R_register | R_new_project | R_deliveries | R_delivery | R_endpoints | R_events | R_event | R_settings | R_home

record location =
  lo_name :: route_name
  lo_projectId :: "string option"
  lo_fullPath :: string
  lo_redirect :: "string option"

definition guest_route :: "route_name \<Rightarrow> bool" where
  "guest_route n \<longleftrightarrow> n = R_login \<or> n = R_register"

text \<open>
  The route table: the record a path resolves to after the table's own redirects.  A path of a project
  without a section is its deliveries; the home page and unknown paths are the sign-in page.
\<close>

definition resolve_route :: "string list \<Rightarrow> route_name \<times> string option" where
  "resolve_route path =
    (case path of
       [a] \<Rightarrow> if a = ''register'' then (R_register, None) else (R_login, None)
     | [a, b] \<Rightarrow>
         if a = ''projects'' then (if b = ''new'' then (R_new_project, None) else (R_deliveries, Some b)) else (R_login, None)
     | [a, b, c] \<Rightarrow>
         if a \<noteq> ''projects'' then (R_login, None)
         else if c = ''deliveries'' then (R_deliveries, Some b)
         else if c = ''endpoints'' then (R_endpoints, Some b)
         else if c = ''events'' then (R_events, Some b)
         else if c = ''settings'' then (R_settings, Some b)
         else (R_login, None)
     | [a, b, c, d] \<Rightarrow>
         if a \<noteq> ''projects'' then (R_login, None)
         else if c = ''deliveries'' then (R_delivery, Some b)
         else if c = ''events'' then (R_event, Some b)
         else (R_login, None)
     | _ \<Rightarrow> (R_login, None))"

definition landingRoute :: "auth_store \<Rightarrow> location" where
  "landingRoute s =
    (case auth_projects s of
       (p, _) # _ \<Rightarrow> \<lparr>lo_name = R_deliveries, lo_projectId = Some (up_id p),
                      lo_fullPath = ''/projects/'' @ up_id p @ ''/deliveries'', lo_redirect = None\<rparr>
     | [] \<Rightarrow> \<lparr>lo_name = R_new_project, lo_projectId = None, lo_fullPath = ''/projects/new'', lo_redirect = None\<rparr>)"

definition login_route :: "string \<Rightarrow> location" where
  "login_route fullPath =
    \<lparr>lo_name = R_login, lo_projectId = None, lo_fullPath = ''/login'',
     lo_redirect = (if fullPath = ''/'' then None else Some fullPath)\<rparr>"

datatype verdict = Admit | Redirect location

text \<open>\<open>beforeEach\<close> once the session is known; \<open>!roleIn\<close> is a role that is \<open>null\<close>.\<close>

definition guard :: "auth_store \<Rightarrow> location \<Rightarrow> verdict" where
  "guard s to_location =
    (if guest_route (lo_name to_location) then (if isAuthenticated s then Redirect (landingRoute s) else Admit)
     else if \<not> isAuthenticated s then Redirect (login_route (lo_fullPath to_location))
     else if lo_name to_location = R_home then Redirect (landingRoute s)
     else (case lo_projectId to_location of
             None \<Rightarrow> Admit
           | Some p \<Rightarrow> if p \<noteq> [] \<and> roleIn s p = None then Redirect (landingRoute s) else Admit))"

definition beforeEach ::
  "ui_exn + string \<Rightarrow> me_reply \<Rightarrow> auth_store \<Rightarrow> location \<Rightarrow> verdict \<times> auth_store" where
  "beforeEach reply me_answer s to_location =
    (case bootstrap reply me_answer s of (_, s') \<Rightarrow> (guard s' to_location, s'))"

text \<open>Where a lost session leads from the current location.\<close>

definition handleSessionLost :: "location \<Rightarrow> auth_store \<Rightarrow> location option \<times> auth_store" where
  "handleSessionLost current s =
    (if guest_route (lo_name current) then None else Some (login_route (lo_fullPath current)), clear_auth s)"

text \<open>\<open>AppShell.signOut\<close>: the navigation after \<open>await auth.logout()\<close>.\<close>

definition signOut :: "ui_exn + unit \<Rightarrow> auth_store \<Rightarrow> location option \<times> auth_store" where
  "signOut reply s =
    (case logout_auth reply s of
       (Inr _, s') \<Rightarrow> (Some (login_route ''/''), s')
     | (Inl _, s') \<Rightarrow> (None, s'))"

section \<open>Signing in and registering\<close>

definition FIELDS_login :: "string list" where "FIELDS_login = [''email'', ''password'']"
definition MAX_EMAIL_LENGTH_ui :: nat where "MAX_EMAIL_LENGTH_ui = 254"

definition validate_login :: "string \<Rightarrow> string \<Rightarrow> (string \<times> string) list" where
  "validate_login email password =
    (let trimmedEmail = trim email in
     (if trimmedEmail = [] then [(''email'', ''Enter the email you signed up with.'')]
      else if MAX_EMAIL_LENGTH_ui < length trimmedEmail
      then [(''email'', ''An email address is at most 254 characters.'')] else [])
     @ (if password = [] then [(''password'', ''Enter your password.'')] else []))"

record form_error =
  fo_message :: string
  fo_detail :: string
  fo_requestId :: string
  fo_offerSignIn :: bool

definition form_message :: "string \<Rightarrow> form_error" where
  "form_message m = \<lparr>fo_message = m, fo_detail = [], fo_requestId = [], fo_offerSignIn = False\<rparr>"

definition form_problem :: "string \<Rightarrow> api_error \<Rightarrow> form_error" where
  "form_problem fallback e =
    \<lparr>fo_message = or_string (x_title e) fallback, fo_detail = x_detail e, fo_requestId = x_requestId e, fo_offerSignIn = False\<rparr>"

definition unreachable_api :: "string \<Rightarrow> form_error" where
  "unreachable_api m = (form_message ''The dashboard could not reach the API.'')\<lparr>fo_detail := m\<rparr>"

definition VALIDATION_KIND :: string where "VALIDATION_KIND = ''validation-failed''"

text \<open>What a failure leaves on the form: the errors of its fields, or an error of the whole form.\<close>

definition reportFailure_login :: "ui_exn \<Rightarrow> (string \<times> string) list + form_error" where
  "reportFailure_login err =
    (case err of
       NetworkFailure m \<Rightarrow> Inr (unreachable_api m)
     | ApiFailure e \<Rightarrow>
         if x_status e = 401 then Inr (form_message ''Those credentials do not match an account.'')
         else if x_status e = 429 then Inr (form_message ''Too many attempts. Wait a minute and try again.'')
         else if error_kind e = VALIDATION_KIND \<and> fst (applyFieldErrors FIELDS_login e)
         then Inl (snd (applyFieldErrors FIELDS_login e))
         else Inr (form_problem ''The sign in did not go through.'' e))"

definition safe_redirect :: "string \<Rightarrow> bool" where
  "safe_redirect r \<longleftrightarrow> starts_with r ''/'' \<and> \<not> starts_with r ''//''"

text \<open>A path to push, or a location.\<close>

definition landAfterLogin :: "string option \<Rightarrow> auth_store \<Rightarrow> string + location" where
  "landAfterLogin redirect s =
    (case redirect of
       Some r \<Rightarrow> if safe_redirect r then Inl r else Inr (landingRoute s)
     | None \<Rightarrow> Inr (landingRoute s))"

datatype form_result =
  Invalid "(string \<times> string) list" | Refused "(string \<times> string) list + form_error" | Done "string + location"

definition submit_login ::
  "string \<Rightarrow> string \<Rightarrow> (login_body \<Rightarrow> ui_exn + ui_session) \<Rightarrow> me_reply \<Rightarrow> string option \<Rightarrow> auth_store \<Rightarrow> form_result \<times> auth_store" where
  "submit_login email password api me_answer redirect s =
    (let errors = validate_login email password in
     if errors \<noteq> [] then (Invalid errors, s)
     else (case sign_in (api \<lparr>lb_email = trim email, lb_password = password\<rparr>) me_answer s of
             (Inr _, s') \<Rightarrow> (Done (landAfterLogin redirect s'), s')
           | (Inl e, s') \<Rightarrow> (Refused (reportFailure_login e), s')))"

definition FIELDS_register :: "string list" where
  "FIELDS_register = [''name'', ''email'', ''password'', ''projectName'']"

definition MIN_PASSWORD_LENGTH_ui :: nat where "MIN_PASSWORD_LENGTH_ui = 12"
definition MAX_PASSWORD_LENGTH_ui :: nat where "MAX_PASSWORD_LENGTH_ui = 200"
definition MAX_NAME_LENGTH :: nat where "MAX_NAME_LENGTH = 120"

definition validate_register :: "register_body \<Rightarrow> (string \<times> string) list" where
  "validate_register b =
    (let name = trim (rb_name b); email = trim (rb_email b); password = rb_password b; projectName = trim (rb_projectName b) in
     (if name = [] then [(''name'', ''Enter the name your teammates will see.'')]
      else if MAX_NAME_LENGTH < length name then [(''name'', ''A name is at most 120 characters.'')] else [])
     @ (if email = [] then [(''email'', ''Enter the email you will sign in with.'')]
        else if MAX_EMAIL_LENGTH_ui < length email then [(''email'', ''An email address is at most 254 characters.'')] else [])
     @ (if length password < MIN_PASSWORD_LENGTH_ui then [(''password'', ''A password is at least 12 characters.'')]
        else if MAX_PASSWORD_LENGTH_ui < length password then [(''password'', ''A password is at most 200 characters.'')] else [])
     @ (if projectName = [] then [(''projectName'', ''Name the project this account will own.'')]
        else if MAX_NAME_LENGTH < length projectName then [(''projectName'', ''A project name is at most 120 characters.'')] else []))"

definition reportFailure_register :: "ui_exn \<Rightarrow> (string \<times> string) list + form_error" where
  "reportFailure_register err =
    (case err of
       NetworkFailure m \<Rightarrow> Inr (unreachable_api m)
     | ApiFailure e \<Rightarrow>
         if x_status e = 409 then Inr ((form_message ''An account with this email already exists.'')\<lparr>fo_offerSignIn := True\<rparr>)
         else if x_status e = 429 then Inr (form_message ''Too many attempts. Wait a minute and try again.'')
         else if error_kind e = VALIDATION_KIND \<and> fst (applyFieldErrors FIELDS_register e)
         then Inl (snd (applyFieldErrors FIELDS_register e))
         else Inr (form_problem ''The account was not created.'' e))"

definition register_payload :: "register_body \<Rightarrow> register_body" where
  "register_payload b =
    \<lparr>rb_email = trim (rb_email b), rb_password = rb_password b, rb_name = trim (rb_name b), rb_projectName = trim (rb_projectName b)\<rparr>"

text \<open>The session of a registration carries the project it created.\<close>

definition submit_register ::
  "register_body \<Rightarrow> (register_body \<Rightarrow> ui_exn + ui_session \<times> string) \<Rightarrow> me_reply \<Rightarrow> auth_store \<Rightarrow> form_result \<times> auth_store" where
  "submit_register b api me_answer s =
    (let errors = validate_register b; answer = api (register_payload b) in
     if errors \<noteq> [] then (Invalid errors, s)
     else (case sign_in (map_sum id fst answer) me_answer s of
             (Inr _, s') \<Rightarrow>
               (case answer of
                  Inr (_, projectId) \<Rightarrow> (Done (Inr \<lparr>lo_name = R_deliveries, lo_projectId = Some projectId,
                      lo_fullPath = ''/projects/'' @ projectId @ ''/deliveries'', lo_redirect = None\<rparr>), s')
                | Inl e \<Rightarrow> (Refused (reportFailure_register e), s'))
           | (Inl e, s') \<Rightarrow> (Refused (reportFailure_register e), s')))"

section \<open>The guard\<close>

lemma roleIn_landing: "auth_projects s = (p, r) # ps \<Longrightarrow> roleIn s (up_id p) = Some r"
  by (cases "as_memberships s") (auto simp: auth_projects_def roleIn_def)

lemma guard_landing: "isAuthenticated s \<Longrightarrow> guard s (landingRoute s) = Admit"
  by (auto simp: guard_def landingRoute_def guest_route_def roleIn_landing split: list.split)

text \<open>A redirect of the guard leads to a page the guard admits: navigation never loops.\<close>

lemma guard_settles: "guard s l = Redirect l' \<Longrightarrow> guard s l' = Admit"
  using guard_landing[of s]
  by (auto simp: guard_def[of s l] split: if_splits option.splits) (auto simp: guard_def login_route_def guest_route_def)

text \<open>What it admits: a guest page to a guest, and a project's page to a member of the project.\<close>

lemma guard_admits:
  "guard s l = Admit \<Longrightarrow> guest_route (lo_name l) \<and> \<not> isAuthenticated s \<or>
     \<not> guest_route (lo_name l) \<and> isAuthenticated s \<and> (\<forall>p. lo_projectId l = Some p \<and> p \<noteq> [] \<longrightarrow> roleIn s p \<noteq> None)"
  by (auto simp: guard_def split: if_splits option.splits)

lemma bootstrap_ready: "as_ready (snd (bootstrap reply me_answer s))"
  by (simp add: bootstrap_def Let_def)

lemma bootstrap_once: "as_ready s \<Longrightarrow> bootstrap reply me_answer s = (isAuthenticated s, s)"
  by (simp add: bootstrap_def)

text \<open>A page load keeps a session exactly when both the refresh and the account load succeed.\<close>

lemma bootstrap_authenticated:
  assumes "\<not> as_ready s"
  shows "isAuthenticated (snd (bootstrap reply me_answer s)) \<longleftrightarrow>
    (\<exists>token u ms. reply = Inr token \<and> token \<noteq> [] \<and> me_answer = Me u ms)"
  using assms
  by (auto simp: bootstrap_def refresh_auth_def loadMe_def clear_auth_def isAuthenticated_def Let_def
      split: sum.split me_reply.split)

lemma merge_detail_keeps [simp]:
  "up_id (um_project (merge_detail p m)) = up_id (um_project m)" "um_role (merge_detail p m) = um_role m"
  by (simp_all add: merge_detail_def)

lemma mergeProject_roles:
  "roleIn (mergeProject p s) i = roleIn s i" "map (up_id \<circ> fst) (auth_projects (mergeProject p s)) = map (up_id \<circ> fst) (auth_projects s)"
  using find_map_key[where key = "\<lambda>m. up_id (um_project m)" and k = i and f = "merge_detail p"]
  by (simp_all add: roleIn_def mergeProject_def auth_projects_def option.map_comp comp_def)

section \<open>The forms and the API\<close>

text \<open>What the forms let through satisfies the API's rules, except the longest passwords at sign-in.\<close>

lemma register_form_accepted: "validate_register b = [] \<Longrightarrow> registerSchema (register_payload b)"
  by (auto simp: validate_register_def registerSchema_def register_payload_def name_schema_def Let_def Suc_le_eq
      MAX_NAME_LENGTH_def MAX_EMAIL_LENGTH_ui_def MIN_PASSWORD_LENGTH_ui_def MAX_PASSWORD_LENGTH_ui_def MIN_PASSWORD_LENGTH_def
      split: if_splits)

lemma login_form_accepted:
  "validate_login email password = [] \<Longrightarrow>
   loginSchema \<lparr>lb_email = trim email, lb_password = password\<rparr> \<longleftrightarrow> length password \<le> 200"
  by (auto simp: validate_login_def loginSchema_def Let_def MAX_EMAIL_LENGTH_ui_def Suc_le_eq split: if_splits)

text \<open>A wrong email and a wrong password look the same on screen.\<close>

lemma login_failure_uniform:
  "x_status e = 401 \<Longrightarrow> x_status e' = 401 \<Longrightarrow> reportFailure_login (ApiFailure e) = reportFailure_login (ApiFailure e')"
  by (simp add: reportFailure_login_def)

text \<open>Signing in returns to the page the guard turned away from.\<close>

lemma login_returns:
  assumes "guard s l = Redirect l'" "\<not> isAuthenticated s" "safe_redirect (lo_fullPath l)" "lo_fullPath l \<noteq> ''/''"
  shows "landAfterLogin (lo_redirect l') s' = Inl (lo_fullPath l)"
  using assms by (auto simp: guard_def login_route_def landAfterLogin_def split: if_splits)

text \<open>A path that leaves the dashboard is never pushed.\<close>

lemma landAfterLogin_stays: "landAfterLogin redirect s = Inl r \<Longrightarrow> safe_redirect r"
  by (auto simp: landAfterLogin_def split: option.splits if_splits)

section \<open>Two paths that end half-way\<close>

text \<open>
  A sign-out the API does not answer rejects before the navigation: the session is gone and the page
  stays.
\<close>

lemma signOut_unanswered: "signOut (Inl e) s = (None, clear_auth s)"
  by (simp add: signOut_def logout_auth_def)

text \<open>
  A sign-in whose account load fails reports a failure, but the store is authenticated already, with no
  memberships: the next navigation leads to project creation.
\<close>

lemma sign_in_half_adopted:
  assumes "sn_accessToken session \<noteq> []" "sn_user session \<noteq> None" "as_memberships s = []"
  shows "fst (sign_in (Inr session) (Me_Failed e) s) = Inl e"
    "isAuthenticated (snd (sign_in (Inr session) (Me_Failed e) s))"
    "lo_name (landingRoute (snd (sign_in (Inr session) (Me_Failed e) s))) = R_new_project"
  using assms
  by (auto simp: sign_in_def loadMe_def adopt_def isAuthenticated_def landingRoute_def auth_projects_def Let_def)

end
