(* ===== verification/Ui_Realtime.thy ===== *)
theory Ui_Realtime
  imports Ui_Auth
begin

text \<open>
  \<open>src/dashboard/src/stores/realtime.js\<close>: the socket of the dashboard.  A socket is named by the number
  of those made before it; the events of one that was torn down are not heard, since its listeners are
  removed.  The watcher on the access token runs some time after the token changes, and sees the
  change only if the value differs from the one it saw last.
\<close>

datatype rt_status = Offline | Connecting | Live | Reconnecting

record realtime_store =
  rt_status :: rt_status
  rt_lastError :: string
  rt_socket :: "nat option"
  rt_socketToken :: "string option"
  rt_expected :: bool
  rt_tokenExpired :: bool
  rt_made :: "string list"
  rt_accessToken :: "string option"
  rt_seenToken :: "string option"
  rt_refreshes :: nat

definition realtime_init :: realtime_store where
  "realtime_init = \<lparr>rt_status = Offline, rt_lastError = [], rt_socket = None, rt_socketToken = None, rt_expected = False,
     rt_tokenExpired = False, rt_made = [], rt_accessToken = None, rt_seenToken = None, rt_refreshes = 0\<rparr>"

definition has_token :: "string option \<Rightarrow> bool" where
  "has_token t \<longleftrightarrow> t \<noteq> None \<and> t \<noteq> Some []"

definition rt_teardown :: "realtime_store \<Rightarrow> realtime_store" where
  "rt_teardown s = s\<lparr>rt_socket := None, rt_socketToken := None\<rparr>"

definition rt_connect :: "realtime_store \<Rightarrow> realtime_store" where
  "rt_connect s =
    (if \<not> has_token (rt_accessToken s) then s
     else if rt_socket s \<noteq> None \<and> rt_socketToken s = rt_accessToken s then s
     else (rt_teardown s)\<lparr>rt_expected := True, rt_status := Connecting, rt_socketToken := rt_accessToken s,
            rt_socket := Some (length (rt_made s)), rt_made := rt_made s @ [the (rt_accessToken s)]\<rparr>)"

definition rt_disconnect :: "realtime_store \<Rightarrow> realtime_store" where
  "rt_disconnect s = (rt_teardown s)\<lparr>rt_expected := False, rt_status := Offline\<rparr>"

definition rt_reconnect :: "realtime_store \<Rightarrow> realtime_store" where
  "rt_reconnect s = rt_connect (rt_teardown s)"

text \<open>What the socket reports.\<close>

datatype socket_event = S_Connect | S_Disconnect | S_Reconnect_Attempt | S_Connect_Error string | S_Token_Expired

definition on_socket :: "socket_event \<Rightarrow> realtime_store \<Rightarrow> realtime_store" where
  "on_socket e s =
    (case e of
       S_Connect \<Rightarrow> s\<lparr>rt_status := Live, rt_lastError := []\<rparr>
     | S_Disconnect \<Rightarrow> s\<lparr>rt_status := (if rt_tokenExpired s then Reconnecting else Offline)\<rparr>
     | S_Reconnect_Attempt \<Rightarrow> s\<lparr>rt_status := Reconnecting\<rparr>
     | S_Connect_Error m \<Rightarrow> s\<lparr>rt_status := Offline, rt_lastError := m\<rparr>
     | S_Token_Expired \<Rightarrow> s\<lparr>rt_tokenExpired := True, rt_status := Reconnecting, rt_refreshes := rt_refreshes s + 1\<rparr>)"

text \<open>The refresh a \<open>token_expired\<close> started ends; without a token \<open>auth\<close> has been cleared by then.\<close>

definition refresh_ended :: "string option \<Rightarrow> realtime_store \<Rightarrow> realtime_store" where
  "refresh_ended token s =
    (let s' = s\<lparr>rt_accessToken := token, rt_tokenExpired := False, rt_refreshes := rt_refreshes s - 1\<rparr> in
     if token = None then rt_disconnect s' else s')"

definition token_watcher :: "realtime_store \<Rightarrow> realtime_store" where
  "token_watcher s =
    (if rt_seenToken s = rt_accessToken s then s
     else (let s' = s\<lparr>rt_seenToken := rt_accessToken s\<rparr> in
           if has_token (rt_accessToken s) \<and> rt_expected s then rt_reconnect s' else s'))"

datatype realtime_op =
  R_Connect | R_Disconnect | R_Socket nat socket_event | R_Refresh_Ended "string option" | R_Watch | R_Token "string option"

definition realtime_step :: "realtime_store \<Rightarrow> realtime_op \<Rightarrow> realtime_store" where
  "realtime_step s op =
    (case op of
       R_Connect \<Rightarrow> rt_connect s
     | R_Disconnect \<Rightarrow> rt_disconnect s
     | R_Socket i e \<Rightarrow> if rt_socket s = Some i then on_socket e s else s
     | R_Refresh_Ended t \<Rightarrow> if rt_refreshes s = 0 then s else refresh_ended t s
     | R_Watch \<Rightarrow> token_watcher s
     | R_Token t \<Rightarrow> s\<lparr>rt_accessToken := t\<rparr>)"

definition realtime_run :: "realtime_op list \<Rightarrow> realtime_store" where
  "realtime_run ops = foldl realtime_step realtime_init ops"

section \<open>Subscriptions\<close>

text \<open>\<open>handlers\<close>: a set per event, in insertion order.\<close>

type_synonym 'h handlers = "(string \<times> 'h list) list"

definition handlers_of :: "'h handlers \<Rightarrow> string \<Rightarrow> 'h list" where
  "handlers_of hs event = coalesce (map_of hs event) []"

definition on_event :: "string \<Rightarrow> 'h \<Rightarrow> 'h handlers \<Rightarrow> 'h handlers" where
  "on_event event h hs =
    AList.update event (if h \<in> set (handlers_of hs event) then handlers_of hs event else handlers_of hs event @ [h]) hs"

definition off_event :: "string \<Rightarrow> 'h \<Rightarrow> 'h handlers \<Rightarrow> 'h handlers" where
  "off_event event h hs =
    (case map_of hs event of None \<Rightarrow> hs | Some xs \<Rightarrow> AList.update event (filter (\<lambda>x. x \<noteq> h) xs) hs)"

definition emitLocal :: "('h \<Rightarrow> 'p \<Rightarrow> 's \<Rightarrow> 's) \<Rightarrow> 'h handlers \<Rightarrow> string \<Rightarrow> 'p \<Rightarrow> 's \<Rightarrow> 's" where
  "emitLocal call hs event payload s = fold (\<lambda>h. call h payload) (handlers_of hs event) s"

lemma handlers_of_on:
  "handlers_of (on_event event h hs) e =
    (if e = event \<and> h \<notin> set (handlers_of hs event) then handlers_of hs e @ [h] else handlers_of hs e)"
  by (auto simp: handlers_of_def on_event_def update_conv' coalesce_def split: option.splits)

lemma handlers_of_off:
  "handlers_of (off_event event h hs) e = (if e = event then filter (\<lambda>x. x \<noteq> h) (handlers_of hs e) else handlers_of hs e)"
  by (auto simp: handlers_of_def off_event_def update_conv' coalesce_def split: option.splits)

text \<open>A screen that unsubscribes leaves every other subscription as it was, and is called no more.\<close>

lemma unsubscribe:
  assumes "h \<notin> set (handlers_of hs event)"
  shows "handlers_of (off_event event h (on_event event h hs)) e = handlers_of hs e"
  using assms by (auto simp: handlers_of_on handlers_of_off intro!: filter_True)

section \<open>The socket in use\<close>

text \<open>
  Only an expected connection has a socket, and its handshake carried a token; the sockets made before
  the one in use are gone.  \<open>Live\<close>, \<open>Connecting\<close> and \<open>Reconnecting\<close> are shown over a socket.
\<close>

definition socket_ok :: "realtime_store \<Rightarrow> bool" where
  "socket_ok s \<longleftrightarrow>
    (rt_socket s \<noteq> None \<longleftrightarrow> rt_socketToken s \<noteq> None) \<and>
    (\<forall>i. rt_socket s = Some i \<longrightarrow> rt_expected s \<and> Suc i = length (rt_made s)
        \<and> rt_socketToken s = Some (rt_made s ! i)) \<and>
    (rt_status s \<noteq> Offline \<longrightarrow> rt_socket s \<noteq> None) \<and>
    list_all (\<lambda>t. t \<noteq> []) (rt_made s) \<and>
    (rt_expected s \<longleftrightarrow> rt_socket s \<noteq> None)"

lemma socket_ok_fresh:
  assumes "list_all (\<lambda>t. t \<noteq> []) (rt_made s)" "has_token (rt_accessToken s)"
  shows "socket_ok ((rt_teardown s)\<lparr>rt_expected := True, rt_status := Connecting, rt_socketToken := rt_accessToken s,
            rt_socket := Some (length (rt_made s)), rt_made := rt_made s @ [the (rt_accessToken s)]\<rparr>)"
  using assms by (auto simp: socket_ok_def rt_teardown_def has_token_def)

lemma socket_ok_connect: "socket_ok s \<Longrightarrow> socket_ok (rt_connect s)"
  using socket_ok_fresh[of s] by (simp add: rt_connect_def) (auto simp: socket_ok_def)

lemma socket_ok_disconnect: "socket_ok s \<Longrightarrow> socket_ok (rt_disconnect s)"
  by (auto simp: socket_ok_def rt_disconnect_def rt_teardown_def)

lemma socket_ok_watch: "socket_ok s \<Longrightarrow> socket_ok (token_watcher s)"
proof (cases "rt_seenToken s = rt_accessToken s")
  case False
  assume ok: "socket_ok s"
  let ?s = "s\<lparr>rt_seenToken := rt_accessToken s\<rparr>"
  show ?thesis
  proof (cases "has_token (rt_accessToken s) \<and> rt_expected s")
    case True
    have "rt_reconnect ?s = (rt_teardown (rt_teardown ?s))\<lparr>rt_expected := True, rt_status := Connecting,
        rt_socketToken := rt_accessToken s, rt_socket := Some (length (rt_made s)), rt_made := rt_made s @ [the (rt_accessToken s)]\<rparr>"
      using True by (simp add: rt_reconnect_def rt_connect_def rt_teardown_def)
    then show ?thesis using ok True False socket_ok_fresh[of "rt_teardown ?s"]
      by (simp add: token_watcher_def Let_def) (simp add: socket_ok_def rt_teardown_def)
  next
    case no: False
    then show ?thesis using ok False by (auto simp: token_watcher_def Let_def socket_ok_def)
  qed
qed (simp add: token_watcher_def)

lemma socket_ok_step: "socket_ok s \<Longrightarrow> socket_ok (realtime_step s op)"
proof (cases op)
  case (R_Socket i e)
  assume "socket_ok s"
  then show ?thesis unfolding R_Socket
    by (cases e) (auto simp: realtime_step_def on_socket_def socket_ok_def)
qed (auto simp: realtime_step_def socket_ok_connect socket_ok_disconnect socket_ok_watch refresh_ended_def Let_def, auto simp: socket_ok_def rt_disconnect_def rt_teardown_def)

lemma socket_ok_run: "socket_ok (realtime_run ops)"
proof -
  have "socket_ok (foldl realtime_step s ops)" if "socket_ok s" for s
    using that by (induction ops arbitrary: s) (simp_all add: socket_ok_step)
  moreover have "socket_ok realtime_init" by (simp add: socket_ok_def realtime_init_def)
  ultimately show ?thesis by (simp add: realtime_run_def)
qed

section \<open>The token of the socket in use\<close>

text \<open>
  Access tokens are never issued twice.  Then, once the watcher has seen the current token, the socket
  carries it: nothing is shown as \<open>Live\<close> over a handshake the server no longer honours.
\<close>

definition tokens_of :: "realtime_op \<Rightarrow> string list" where
  "tokens_of op = (case op of R_Token (Some t) \<Rightarrow> [t] | R_Refresh_Ended (Some t) \<Rightarrow> [t] | _ \<Rightarrow> [])"

definition carries_current :: "realtime_store \<Rightarrow> bool" where
  "carries_current s \<longleftrightarrow>
    (rt_expected s \<and> has_token (rt_accessToken s) \<and> rt_seenToken s = rt_accessToken s \<longrightarrow> rt_socketToken s = rt_accessToken s)"

definition token_inv :: "string set \<Rightarrow> realtime_store \<Rightarrow> bool" where
  "token_inv used s \<longleftrightarrow>
    (\<forall>t. rt_seenToken s = Some t \<longrightarrow> t \<in> used) \<and> (\<forall>t. rt_accessToken s = Some t \<longrightarrow> t \<in> used) \<and> carries_current s"

lemma token_inv_connect: "token_inv used s \<Longrightarrow> token_inv used (rt_connect s)"
  by (auto simp: token_inv_def carries_current_def rt_connect_def rt_teardown_def)

lemma reconnect_carries: "has_token (rt_accessToken s) \<Longrightarrow> carries_current (rt_reconnect s)"
  by (auto simp: carries_current_def rt_reconnect_def rt_connect_def rt_teardown_def)

lemma connect_tokens [simp]:
  "rt_seenToken (rt_connect s) = rt_seenToken s" "rt_accessToken (rt_connect s) = rt_accessToken s"
  "rt_seenToken (rt_reconnect s) = rt_seenToken s" "rt_accessToken (rt_reconnect s) = rt_accessToken s"
  by (simp_all add: rt_connect_def rt_reconnect_def rt_teardown_def)

lemma token_inv_watch: "token_inv used s \<Longrightarrow> token_inv used (token_watcher s)"
  using reconnect_carries[of "s\<lparr>rt_seenToken := rt_accessToken s\<rparr>"]
  by (auto simp: token_watcher_def Let_def token_inv_def) (auto simp: carries_current_def)

lemma token_inv_set:
  assumes "token_inv used s" "\<forall>t. token = Some t \<longrightarrow> t \<notin> used"
  shows "token_inv (used \<union> set_option token) (s\<lparr>rt_accessToken := token\<rparr>)"
  using assms by (cases token) (auto simp: token_inv_def carries_current_def has_token_def)

lemma token_inv_step:
  assumes inv: "token_inv used s" and fresh: "set (tokens_of op) \<inter> used = {}"
  shows "token_inv (used \<union> set (tokens_of op)) (realtime_step s op)"
proof (cases op)
  case (R_Refresh_Ended token)
  have u: "token_inv (used \<union> set_option token) (s\<lparr>rt_accessToken := token\<rparr>)"
    using fresh by (intro token_inv_set[OF inv]) (auto simp: R_Refresh_Ended tokens_of_def split: option.splits)
  have t: "set (tokens_of op) = set_option token" by (cases token) (simp_all add: R_Refresh_Ended tokens_of_def)
  have e: "token_inv (used \<union> set_option token) (refresh_ended token s)"
    using u by (auto simp: token_inv_def carries_current_def refresh_ended_def rt_disconnect_def rt_teardown_def Let_def)
  have "token_inv (used \<union> set_option token) s" using inv by (auto simp: token_inv_def)
  then show ?thesis unfolding t using e by (simp add: R_Refresh_Ended realtime_step_def)
next
  case (R_Token token)
  then show ?thesis using token_inv_set[OF inv, of token] fresh
    by (cases token) (auto simp: realtime_step_def tokens_of_def)
next
  case (R_Socket i e)
  then show ?thesis using inv
    by (cases e) (auto simp: realtime_step_def tokens_of_def on_socket_def token_inv_def carries_current_def)
qed (use inv in \<open>auto simp: realtime_step_def tokens_of_def token_inv_connect token_inv_watch\<close>,
     auto simp: token_inv_def carries_current_def rt_disconnect_def rt_teardown_def)

lemma carries_current_run:
  assumes "distinct (concat (map tokens_of ops))"
  shows "carries_current (realtime_run ops)"
proof -
  have "token_inv (used \<union> set (concat (map tokens_of ops))) (foldl realtime_step s ops)"
    if "token_inv used s" "distinct (concat (map tokens_of ops))" "set (concat (map tokens_of ops)) \<inter> used = {}" for used s
    using that
  proof (induction ops arbitrary: used s)
    case (Cons op ops)
    have "token_inv (used \<union> set (tokens_of op)) (realtime_step s op)"
      using Cons.prems by (intro token_inv_step) auto
    then have "token_inv ((used \<union> set (tokens_of op)) \<union> set (concat (map tokens_of ops))) (foldl realtime_step (realtime_step s op) ops)"
      using Cons.prems by (intro Cons.IH) auto
    then show ?case by (simp add: Un_assoc)
  qed simp
  from this[of "{}" realtime_init] assms show ?thesis
    by (simp add: realtime_run_def token_inv_def) (simp add: realtime_init_def carries_current_def)
qed

end
