(* ===== verification/Ui_Filters.thy ===== *)
theory Ui_Filters
  imports Ui_Stores
begin

text \<open>
  The filters of the two list screens, which live in the URL: \<open>composables/use-query-filters.js\<close>, and the
  scripts of \<open>components/DeliveryFilters.vue\<close>, \<open>views/DeliveriesView.vue\<close> and \<open>views/EventsView.vue\<close> under
  \<open>src/dashboard/src\<close>, with the branches their templates choose between.  A query value is a string, or
  something else (a repeated key, a key without a value) the filters do not look at.
\<close>

section \<open>Filters in the URL\<close>

datatype query_value = QText string | QOther

type_synonym query = "(string \<times> query_value) list"

text \<open>A patch sets a key or, with a value that is absent or empty, drops it.\<close>

type_synonym filter_patch = "(string \<times> string option) list"

definition text_of :: "query \<Rightarrow> string \<Rightarrow> string option" where
  "text_of q k = (case map_of q k of Some (QText v) \<Rightarrow> if v = [] then None else Some v | _ \<Rightarrow> None)"

definition filters_of :: "string list \<Rightarrow> query \<Rightarrow> (string \<times> string) list" where
  "filters_of ks q = List.map_filter (\<lambda>k. map_option (Pair k) (text_of q k)) ks"

definition filterKey :: "string list \<Rightarrow> query \<Rightarrow> string" where
  "filterKey ks q = join ''|'' (map (\<lambda>k. coalesce (text_of q k) []) ks)"

definition hasFilters :: "string list \<Rightarrow> query \<Rightarrow> bool" where
  "hasFilters ks q \<longleftrightarrow> filters_of ks q \<noteq> []"

definition patch_one :: "query \<Rightarrow> string \<times> string option \<Rightarrow> query" where
  "patch_one q kv =
    (case snd kv of
       None \<Rightarrow> AList.delete (fst kv) q
     | Some v \<Rightarrow> if v = [] then AList.delete (fst kv) q else AList.update (fst kv) (QText v) q)"

definition update_query :: "string list \<Rightarrow> bool \<Rightarrow> filter_patch \<Rightarrow> query \<Rightarrow> query" where
  "update_query ks dropUnlisted patch q =
    (let q' = foldl patch_one q patch in if dropUnlisted then filter (\<lambda>(k, _). k \<in> set ks) q' else q')"

definition clear_query :: "string list \<Rightarrow> bool \<Rightarrow> query \<Rightarrow> query" where
  "clear_query ks dropUnlisted = update_query ks dropUnlisted (map (\<lambda>k. (k, None)) ks)"

text \<open>What happens when a screen is opened: the keys it does not honour, and the query left.\<close>

definition mount_query :: "string list \<Rightarrow> bool \<Rightarrow> query \<Rightarrow> string list \<times> query" where
  "mount_query ks dropUnlisted q =
    (if \<not> dropUnlisted then ([], q)
     else (let present = filter (\<lambda>k. k \<notin> set ks) (map fst q) in
           if present = [] then ([], q) else (present, update_query ks dropUnlisted [] q)))"

lemma text_of_patch_one:
  "text_of (patch_one q (k, v)) k' =
    (if k' = k then (case v of None \<Rightarrow> None | Some x \<Rightarrow> if x = [] then None else Some x) else text_of q k')"
  by (auto simp: text_of_def patch_one_def update_conv' delete_conv' split: option.split)

lemma text_of_unlisted: "text_of (filter (\<lambda>(k, _). k \<in> set ks) q) k = (if k \<in> set ks then text_of q k else None)"
  by (simp add: text_of_def map_of_filter_keys)

text \<open>A key reads back as it was last set; the other keys keep their values.\<close>

definition last_set :: "filter_patch \<Rightarrow> string \<Rightarrow> string option option" where
  "last_set patch k = map_of (rev patch) k"

lemma text_of_update:
  assumes "k \<in> set ks"
  shows "text_of (update_query ks d patch q) k =
    (case last_set patch k of None \<Rightarrow> text_of q k
     | Some v \<Rightarrow> (case v of None \<Rightarrow> None | Some x \<Rightarrow> if x = [] then None else Some x))"
proof -
  have "text_of (foldl patch_one q patch) k =
    (case last_set patch k of None \<Rightarrow> text_of q k
     | Some v \<Rightarrow> (case v of None \<Rightarrow> None | Some x \<Rightarrow> if x = [] then None else Some x))"
  proof (induction patch rule: rev_induct)
    case (snoc kv patch)
    then show ?case by (cases kv) (simp add: last_set_def text_of_patch_one)
  qed (simp add: last_set_def)
  then show ?thesis using assms by (simp add: update_query_def Let_def text_of_unlisted)
qed

lemma map_of_filters: "map_of (filters_of ks q) k = (if k \<in> set ks then text_of q k else None)"
  by (induction ks) (auto simp: filters_of_def map_filter_simps split: option.splits)

lemma filters_of_update:
  "map_of (filters_of ks (update_query ks d patch q)) k =
    (case last_set patch k of None \<Rightarrow> map_of (filters_of ks q) k
     | Some v \<Rightarrow> if k \<in> set ks then (case v of None \<Rightarrow> None | Some x \<Rightarrow> if x = [] then None else Some x) else None)"
  by (auto simp: map_of_filters text_of_update split: option.splits)

lemma clear_has_no_filters: "\<not> hasFilters ks (clear_query ks d q)"
proof -
  have p: "last_set (map (\<lambda>k. (k, None)) ks) k = Some None" if "k \<in> set ks" for k
    using that by (induction ks rule: rev_induct) (auto simp: last_set_def)
  have "text_of (clear_query ks d q) k = None" if "k \<in> set ks" for k
    unfolding clear_query_def text_of_update[OF that] p[OF that] by simp
  then show ?thesis by (auto simp: hasFilters_def filters_of_def map_filter_def filter_empty_conv)
qed

text \<open>Opening a screen that drops what it does not honour changes no filter it does honour.\<close>

lemma mount_keeps_filters: "filters_of ks (snd (mount_query ks d q)) = filters_of ks q"
proof -
  have "text_of (update_query ks True [] q) k = text_of q k" if "k \<in> set ks" for k
    using text_of_update[OF that, of True "[]" q] by (simp add: last_set_def)
  then have "filters_of ks (update_query ks True [] q) = filters_of ks q"
    by (induction ks) (simp_all add: filters_of_def map_filter_def cong: map_cong filter_cong)
  then show ?thesis by (simp add: mount_query_def Let_def)
qed

lemma mount_drops_unlisted:
  "d \<Longrightarrow> k \<in> fst ` set (snd (mount_query ks d q)) \<Longrightarrow> k \<in> set ks"
  by (auto simp: mount_query_def update_query_def Let_def filter_empty_conv split: if_splits)

text \<open>
  The key two queries are compared by tells their filters apart when no value contains its separator, and
  does not otherwise.
\<close>

lemma filterKey_faithful:
  assumes "ks \<noteq> []" "\<And>k v. k \<in> set ks \<Longrightarrow> text_of q k = Some v \<Longrightarrow> CHR ''|'' \<notin> set v"
    "\<And>k v. k \<in> set ks \<Longrightarrow> text_of q' k = Some v \<Longrightarrow> CHR ''|'' \<notin> set v" "filterKey ks q = filterKey ks q'"
  shows "filters_of ks q = filters_of ks q'"
proof -
  have sep: "CHR ''|'' \<notin> set x" if "x \<in> set (map (\<lambda>k. coalesce (text_of r k) []) ks)" "r = q \<or> r = q'" for x r
    using that assms(2,3) by (auto simp: coalesce_def split: option.splits)
  let ?m = "\<lambda>r. map (\<lambda>k. coalesce (text_of r k) []) ks"
  have split: "split_on CHR ''|'' (join ''|'' (?m r)) = ?m r" if "r = q \<or> r = q'" for r
    using assms(1) sep[OF _ that] by (intro split_on_join) auto
  have "?m q = ?m q'" using assms(4) split[of q] split[of q'] by (simp add: filterKey_def)
  then have c: "coalesce (text_of q k) [] = coalesce (text_of q' k) []" if "k \<in> set ks" for k
    using that by simp
  have ne: "text_of r k \<noteq> Some []" for r k by (simp add: text_of_def split: option.split query_value.split)
  have "text_of q k = text_of q' k" if "k \<in> set ks" for k
    using c[OF that] ne[of q k] ne[of q' k]
    by (cases "text_of q k"; cases "text_of q' k") (simp_all add: coalesce_def)
  then show ?thesis by (simp add: filters_of_def map_filter_def cong: map_cong filter_cong)
qed

lemma filterKey_collides:
  "filterKey FILTER_KEYS_events [(''payloadPath'', QText ''a''), (''payloadValue'', QText ''b|c'')]
     = filterKey FILTER_KEYS_events [(''payloadPath'', QText ''a|b''), (''payloadValue'', QText ''c'')]"
  by (simp add: filterKey_def FILTER_KEYS_events_def text_of_def coalesce_def)

section \<open>What a list screen shows\<close>

text \<open>The branches of the two templates, in their order.\<close>

datatype list_view = Show_Error | Show_Skeleton | Show_Empty_Filtered | Show_Empty | Show_Rows

definition showSkeleton :: "bool \<Rightarrow> 'r list \<Rightarrow> bool" where
  "showSkeleton loading items \<longleftrightarrow> loading \<and> items = []"

definition showEmpty :: "bool \<Rightarrow> ui_exn option \<Rightarrow> 'r list \<Rightarrow> bool" where
  "showEmpty loading err items \<longleftrightarrow> \<not> loading \<and> err = None \<and> items = []"

definition deliveries_view :: "bool \<Rightarrow> ui_exn option \<Rightarrow> 'r list \<Rightarrow> bool \<Rightarrow> list_view" where
  "deliveries_view loading err items filtered =
    (if err \<noteq> None then Show_Error
     else if showSkeleton loading items then Show_Skeleton
     else if showEmpty loading err items \<and> filtered then Show_Empty_Filtered
     else if showEmpty loading err items then Show_Empty
     else Show_Rows)"

definition events_view :: "bool \<Rightarrow> ui_exn option \<Rightarrow> 'r list \<Rightarrow> bool \<Rightarrow> list_view" where
  "events_view loading err items filtered =
    (if showSkeleton loading items then Show_Skeleton
     else if err \<noteq> None then Show_Error
     else if showEmpty loading err items \<and> filtered then Show_Empty_Filtered
     else if showEmpty loading err items then Show_Empty
     else Show_Rows)"

text \<open>The rows are shown exactly when there are some and no error; both screens agree, since a request
  that starts clears the error.\<close>

lemma list_views:
  "deliveries_view loading err items f = Show_Rows \<longleftrightarrow> err = None \<and> items \<noteq> []"
  "\<not> (loading \<and> err \<noteq> None) \<Longrightarrow> events_view loading err items f = deliveries_view loading err items f"
  by (auto simp: deliveries_view_def events_view_def showSkeleton_def showEmpty_def)

section \<open>The deliveries screen\<close>

text \<open>\<open>filterSummary\<close>: the dates as text and an endpoint by its name.\<close>

definition filterSummary :: "(string \<Rightarrow> string) \<Rightarrow> (string \<Rightarrow> string) \<Rightarrow> (string \<times> string) list \<Rightarrow> string" where
  "filterSummary endpointName utc active =
    (let part = (\<lambda>k f. case map_of active k of None \<Rightarrow> [] | Some v \<Rightarrow> [f v]);
         parts = part ''status'' (\<lambda>v. ''status '' @ v)
           @ part ''endpointId'' (\<lambda>v. ''endpoint '' @ endpointName v)
           @ part ''eventType'' (\<lambda>v. ''event type '' @ v)
           @ part ''from'' (\<lambda>v. ''from '' @ utc v)
           @ part ''to'' (\<lambda>v. ''to '' @ utc v)
     in if parts = [] then ''no filters, so every delivery in this project'' else join '', '' parts)"

definition toggleStatus :: "string \<Rightarrow> query \<Rightarrow> query" where
  "toggleStatus st q =
    update_query FILTER_KEYS_deliveries False
      [(''status'', if map_of (filters_of FILTER_KEYS_deliveries q) ''status'' = Some st then None else Some st)] q"

record chip =
  cp_key :: string
  cp_label :: string
  cp_value :: string

definition filter_chips :: "(string \<Rightarrow> string) \<Rightarrow> (string \<Rightarrow> string) \<Rightarrow> (string \<times> string) list \<Rightarrow> chip list" where
  "filter_chips endpointName utc fs =
    (let part = (\<lambda>k l f. case map_of fs k of None \<Rightarrow> []
                  | Some v \<Rightarrow> [\<lparr>cp_key = k, cp_label = l, cp_value = f v\<rparr>])
     in part ''status'' ''Status'' (\<lambda>v. statusLabel (Some v))
        @ part ''endpointId'' ''Endpoint'' endpointName
        @ part ''eventType'' ''Event'' (\<lambda>v. v)
        @ part ''from'' ''From'' utc
        @ part ''to'' ''To'' utc)"

definition RANGE_PRESETS :: "(string \<times> int) list" where
  "RANGE_PRESETS = [(''Last hour'', HOUR), (''24 h'', DAY), (''7 d'', 7 * DAY), (''30 d'', 30 * DAY)]"

definition applyPreset :: "(int \<Rightarrow> string) \<Rightarrow> int \<Rightarrow> int \<Rightarrow> filter_patch" where
  "applyPreset isoText t spanMs = [(''from'', Some (isoText (t - spanMs))), (''to'', None)]"

text \<open>Every filter that is set has a chip, whose button clears it and nothing else.\<close>

lemma chips_cover:
  assumes "k \<in> set FILTER_KEYS_deliveries"
  shows "k \<in> cp_key ` set (filter_chips nm utc fs) \<longleftrightarrow> map_of fs k \<noteq> None"
  using assms by (auto simp: filter_chips_def FILTER_KEYS_deliveries_def Let_def split: option.splits dest: sym)

lemma toggle_status:
  "map_of (filters_of FILTER_KEYS_deliveries (toggleStatus st q)) k =
    (if k = ''status''
     then (if map_of (filters_of FILTER_KEYS_deliveries q) ''status'' = Some st \<or> st = [] then None else Some st)
     else map_of (filters_of FILTER_KEYS_deliveries q) k)"
  by (auto simp: toggleStatus_def filters_of_update last_set_def FILTER_KEYS_deliveries_def)

section \<open>The events screen\<close>

record event_draft =
  dr_eventType :: string
  dr_from :: string
  dr_to :: string
  dr_payloadPath :: string
  dr_payloadValue :: string

definition payloadSearchIncomplete :: "(string \<times> string) list \<Rightarrow> bool" where
  "payloadSearchIncomplete fs \<longleftrightarrow> has_text fs ''payloadPath'' \<noteq> has_text fs ''payloadValue''"

definition syncDraft :: "(string option \<Rightarrow> string) \<Rightarrow> (string \<times> string) list \<Rightarrow> event_draft" where
  "syncDraft toInput fs =
    \<lparr>dr_eventType = coalesce (map_of fs ''eventType'') [], dr_from = toInput (map_of fs ''from''),
     dr_to = toInput (map_of fs ''to''), dr_payloadPath = coalesce (map_of fs ''payloadPath'') [],
     dr_payloadValue = coalesce (map_of fs ''payloadValue'') []\<rparr>"

definition applyFilters :: "(string \<Rightarrow> string option) \<Rightarrow> event_draft \<Rightarrow> query \<Rightarrow> query" where
  "applyFilters fromInput d =
    update_query FILTER_KEYS_events True
      [(''eventType'', Some (trim (dr_eventType d))), (''from'', fromInput (dr_from d)), (''to'', fromInput (dr_to d)),
       (''payloadPath'', Some (trim (dr_payloadPath d))), (''payloadValue'', Some (trim (dr_payloadValue d)))]"

definition event_counts :: "(string \<times> nat) list \<Rightarrow> (string \<times> nat) list" where
  "event_counts byStatus =
    List.map_filter (\<lambda>st. case map_of byStatus st of None \<Rightarrow> None | Some n \<Rightarrow> if 0 < n then Some (st, n) else None)
      (map fst STATUS_META)"

definition fanOutSummary :: "nat option \<Rightarrow> string" where
  "fanOutSummary deliveryCount =
    (let total = coalesce deliveryCount 0 in int_str (int total) @ '' '' @ (if total = 1 then ''delivery'' else ''deliveries''))"

definition DISAGREEING_STATUSES :: "string list" where
  "DISAGREEING_STATUSES = [''FAILED_PERMANENTLY'', ''SKIPPED'']"

definition count_of :: "(string \<times> nat) list \<Rightarrow> string \<Rightarrow> nat" where
  "count_of byStatus st = coalesce (map_of byStatus st) 0"

definition isDivergent :: "(string \<times> nat) list \<Rightarrow> bool" where
  "isDivergent byStatus \<longleftrightarrow>
    0 < count_of byStatus ''SUCCEEDED'' \<and> list_ex (\<lambda>st. 0 < count_of byStatus st) DISAGREEING_STATUSES"

text \<open>Applying a draft makes the filters those typed, trimmed, and nothing else survives in the URL.\<close>

lemma applyFilters_filters:
  "map_of (filters_of FILTER_KEYS_events (applyFilters fromInput d q)) ''payloadPath'' =
     (if trim (dr_payloadPath d) = [] then None else Some (trim (dr_payloadPath d)))"
  "map_of (filters_of FILTER_KEYS_events (applyFilters fromInput d q)) ''payloadValue'' =
     (if trim (dr_payloadValue d) = [] then None else Some (trim (dr_payloadValue d)))"
  "map_of (filters_of FILTER_KEYS_events (applyFilters fromInput d q)) ''eventType'' =
     (if trim (dr_eventType d) = [] then None else Some (trim (dr_eventType d)))"
  "k \<in> fst ` set (applyFilters fromInput d q) \<Longrightarrow> k \<in> set FILTER_KEYS_events"
  by (simp_all add: applyFilters_def filters_of_update last_set_def FILTER_KEYS_events_def)
     (auto simp: update_query_def Let_def)

text \<open>The note of a half-filled search is shown exactly when the store leaves the search out.\<close>

lemma incomplete_iff_dropped:
  "(\<And>k v. map_of fs k = Some v \<Longrightarrow> v \<noteq> []) \<Longrightarrow>
   payloadSearchIncomplete fs \<longleftrightarrow>
     (has_text fs ''payloadPath'' \<or> has_text fs ''payloadValue'') \<and> \<not> has_text (searchable fs) ''payloadPath''"
  by (auto simp: payloadSearchIncomplete_def searchable_def has_text_def map_of_filter_keys split: option.splits)

end
