(* ===== verification/Ui_Endpoint_Form.thy ===== *)
theory Ui_Endpoint_Form
  imports Ui_Stores Ui_Auth
begin

text \<open>
  The script of \<open>src/dashboard/src/components/EndpointFormDialog.vue\<close>: the form that creates and edits an
  endpoint.  \<open>toLowerCase\<close> and the URL parser are the platform's and given as functions; a length is in
  bytes.  The lemmas compare what the form lets through with the API's rules, and what it sends with
  what the API makes of it.
\<close>

section \<open>The form\<close>

definition EVENT_TYPE_WILDCARD_PATTERN :: "string \<Rightarrow> bool" where
  "EVENT_TYPE_WILDCARD_PATTERN v \<longleftrightarrow> wildcard_pattern v"

definition EVENT_TYPE_MAX_LENGTH :: nat where "EVENT_TYPE_MAX_LENGTH = 64"
definition EVENT_TYPE_MAX_ITEMS :: nat where "EVENT_TYPE_MAX_ITEMS = 50"
definition URL_MAX_LENGTH :: nat where "URL_MAX_LENGTH = 2048"
definition DESCRIPTION_MAX_LENGTH :: nat where "DESCRIPTION_MAX_LENGTH = 500"
definition RATE_LIMIT_MIN :: int where "RATE_LIMIT_MIN = 1"
definition RATE_LIMIT_MAX :: int where "RATE_LIMIT_MAX = 60000"

definition SSRF_DETAIL_PREFIX :: string where
  "SSRF_DETAIL_PREFIX = ''The URL is not an allowed delivery target: ''"

record endpoint_form =
  fm_url :: string
  fm_description :: string
  fm_eventTypes :: "string list"
  fm_rateLimit :: string
  fm_draft :: string
  fm_draftError :: string
  fm_fieldErrors :: "(string \<times> string) list"
  fm_formError :: "(string \<times> string) option"
  fm_submitting :: bool

text \<open>A new endpoint, or the endpoint that is edited.\<close>

definition open_form :: "endpoint_view option \<Rightarrow> endpoint_form" where
  "open_form e =
    \<lparr>fm_url = (case e of None \<Rightarrow> [] | Some v \<Rightarrow> ew_url v),
     fm_description = (case e of None \<Rightarrow> [] | Some v \<Rightarrow> coalesce (ew_description v) []),
     fm_eventTypes = (case e of None \<Rightarrow> [] | Some v \<Rightarrow> ew_eventTypes v),
     fm_rateLimit = (case e of None \<Rightarrow> [] | Some v \<Rightarrow> int_str (ew_rateLimitPerMinute v)),
     fm_draft = [], fm_draftError = [], fm_fieldErrors = [], fm_formError = None, fm_submitting = False\<rparr>"

section \<open>Event types\<close>

definition normalize :: "(string \<Rightarrow> string) \<Rightarrow> string \<Rightarrow> string" where
  "normalize toLowerCase candidate = toLowerCase (trim candidate)"

text \<open>The empty text is no problem.\<close>

definition eventTypeProblem :: "string list \<Rightarrow> string \<Rightarrow> string" where
  "eventTypeProblem eventTypes candidate =
    (if candidate = ''*'' then ''A bare * is not accepted '' @ EM_DASH @ '' an empty list already means all events.''
     else if EVENT_TYPE_MAX_LENGTH < length candidate then ''An event type is at most 64 characters.''
     else if \<not> EVENT_TYPE_PATTERN candidate \<and> \<not> EVENT_TYPE_WILDCARD_PATTERN candidate
     then ''Use lowercase letters and digits separated by . _ or -, optionally ending in .* '' @ EM_DASH @ '' for example order.created or order.*''
     else if candidate \<in> set eventTypes then candidate @ '' is already in the list.''
     else if EVENT_TYPE_MAX_ITEMS \<le> length eventTypes then ''An endpoint subscribes to at most 50 event types.''
     else [])"

text \<open>The loop: the types added, and the first problem with the candidates from it on.\<close>

fun add_candidates :: "string list \<Rightarrow> string list \<Rightarrow> string list \<times> (string \<times> string list) option" where
  "add_candidates types [] = (types, None)"
| "add_candidates types (c # cs) =
    (if eventTypeProblem types c \<noteq> [] then (types, Some (eventTypeProblem types c, c # cs))
     else add_candidates (types @ [c]) cs)"

definition candidates_of :: "(string \<Rightarrow> string) \<Rightarrow> string \<Rightarrow> string list" where
  "candidates_of toLowerCase draft = filter (\<lambda>c. c \<noteq> []) (map (normalize toLowerCase) (split_on CHR '','' draft))"

definition addFromDraft :: "(string \<Rightarrow> string) \<Rightarrow> endpoint_form \<Rightarrow> endpoint_form" where
  "addFromDraft toLowerCase f =
    (let candidates = candidates_of toLowerCase (fm_draft f) in
     if candidates = [] then f\<lparr>fm_draft := [], fm_draftError := []\<rparr>
     else (case add_candidates (fm_eventTypes f) candidates of
             (types, None) \<Rightarrow> f\<lparr>fm_eventTypes := types, fm_draft := [], fm_draftError := []\<rparr>
           | (types, Some (problem, rest)) \<Rightarrow>
               f\<lparr>fm_eventTypes := types, fm_draftError := problem, fm_draft := join '', '' rest\<rparr>))"

definition removeEventType :: "nat \<Rightarrow> endpoint_form \<Rightarrow> endpoint_form" where
  "removeEventType i f = f\<lparr>fm_eventTypes := without i (fm_eventTypes f), fm_draftError := []\<rparr>"

datatype key = Key_Enter | Key_Comma | Key_Backspace | Key_Other

definition onDraftKeydown :: "(string \<Rightarrow> string) \<Rightarrow> key \<Rightarrow> endpoint_form \<Rightarrow> endpoint_form" where
  "onDraftKeydown toLowerCase k f =
    (if k = Key_Enter \<or> k = Key_Comma then addFromDraft toLowerCase f
     else if k = Key_Backspace \<and> fm_draft f = [] \<and> fm_eventTypes f \<noteq> []
     then removeEventType (length (fm_eventTypes f) - 1) f
     else f)"

section \<open>Validation\<close>

definition drop_colon :: "string \<Rightarrow> string" where
  "drop_colon s = takeWhile (\<lambda>c. c \<noteq> CHR '':'') s @ drop 1 (dropWhile (\<lambda>c. c \<noteq> CHR '':'') s)"

definition urlProblem :: "(string \<Rightarrow> parsed_url option) \<Rightarrow> string \<Rightarrow> string" where
  "urlProblem parse v =
    (if v = [] then ''Enter the URL deliveries should be sent to.''
     else if URL_MAX_LENGTH < length v then ''The URL is at most 2048 characters.''
     else (case parse v of
             None \<Rightarrow> ''That is not a URL. Include the scheme, for example https://api.example.com/hooks.''
           | Some u \<Rightarrow>
               if ul_protocol u \<noteq> ''http:'' \<and> ul_protocol u \<noteq> ''https:''
               then ''Only http and https are allowed, not '' @ drop_colon (ul_protocol u) @ ''.''
               else []))"

text \<open>\<open>Number\<close> of a text of digits.\<close>

definition digits_value :: "string \<Rightarrow> int" where
  "digits_value v = (case jsNumber v of Fin q \<Rightarrow> \<lfloor>q\<rfloor> | _ \<Rightarrow> 0)"

definition rateLimitProblem :: "string \<Rightarrow> string" where
  "rateLimitProblem v =
    (if v = [] then []
     else if \<not> list_all is_digit v then ''Enter a whole number of deliveries per minute.''
     else if digits_value v < RATE_LIMIT_MIN \<or> RATE_LIMIT_MAX < digits_value v
     then ''The rate limit is between 1 and 60000 per minute.''
     else [])"

definition problem_at :: "string \<Rightarrow> string \<Rightarrow> (string \<times> string) list" where
  "problem_at field problem = (if problem = [] then [] else [(field, problem)])"

definition validate_endpoint :: "(string \<Rightarrow> parsed_url option) \<Rightarrow> endpoint_form \<Rightarrow> (string \<times> string) list" where
  "validate_endpoint parse f =
    problem_at ''url'' (urlProblem parse (trim (fm_url f)))
    @ problem_at ''description'' (if DESCRIPTION_MAX_LENGTH < length (trim (fm_description f))
        then ''The description is at most 500 characters.'' else [])
    @ problem_at ''eventTypes'' (if EVENT_TYPE_MAX_ITEMS < length (fm_eventTypes f)
        then ''An endpoint subscribes to at most 50 event types.'' else [])
    @ problem_at ''rateLimitPerMinute'' (rateLimitProblem (trim (fm_rateLimit f)))"

section \<open>What is sent\<close>

definition buildCreateBody :: "endpoint_form \<Rightarrow> endpoint_create_body" where
  "buildCreateBody f =
    \<lparr>nb_url = trim (fm_url f),
     nb_description = (if trim (fm_description f) = [] then None else Some (trim (fm_description f))),
     nb_eventTypes = fm_eventTypes f,
     nb_rateLimitPerMinute = (if trim (fm_rateLimit f) = [] then None else Some (digits_value (trim (fm_rateLimit f))))\<rparr>"

definition no_patch :: endpoint_patch where
  "no_patch = \<lparr>ep_url = None, ep_description = None, ep_eventTypes = None, ep_rateLimitPerMinute = None\<rparr>"

definition buildPatch :: "endpoint_view \<Rightarrow> endpoint_form \<Rightarrow> endpoint_patch" where
  "buildPatch v f =
    \<lparr>ep_url = (if trim (fm_url f) \<noteq> ew_url v then Some (trim (fm_url f)) else None),
     ep_description = (if trim (fm_description f) \<noteq> coalesce (ew_description v) [] then Some (trim (fm_description f)) else None),
     ep_eventTypes = (if fm_eventTypes f \<noteq> ew_eventTypes v then Some (fm_eventTypes f) else None),
     ep_rateLimitPerMinute =
       (if trim (fm_rateLimit f) \<noteq> [] \<and> digits_value (trim (fm_rateLimit f)) \<noteq> ew_rateLimitPerMinute v
        then Some (digits_value (trim (fm_rateLimit f))) else None)\<rparr>"

definition hasChanges :: "endpoint_view option \<Rightarrow> endpoint_form \<Rightarrow> bool" where
  "hasChanges e f \<longleftrightarrow> (case e of None \<Rightarrow> True | Some v \<Rightarrow> buildPatch v f \<noteq> no_patch)"

section \<open>Errors of the API\<close>

text \<open>\<open>eventTypes[Number(rest)]\<close>.\<close>

definition item_at :: "string list \<Rightarrow> string \<Rightarrow> string option" where
  "item_at types rest =
    (case jsNumber rest of
       Fin q \<Rightarrow> if 0 \<le> q \<and> of_int \<lfloor>q\<rfloor> = q \<and> nat \<lfloor>q\<rfloor> < length types then Some (types ! nat \<lfloor>q\<rfloor>) else None
     | _ \<Rightarrow> None)"

definition map_server_error :: "string list \<Rightarrow> (string \<times> string) list \<Rightarrow> string \<times> string \<Rightarrow> (string \<times> string) list" where
  "map_server_error types mapped km =
    (let k = fst km; message = snd km;
         mapped = (if k \<in> {''url'', ''description'', ''rateLimitPerMinute''} then AList.update k message mapped else mapped)
     in if k = ''eventTypes'' then AList.update ''eventTypes'' message mapped
        else if starts_with k ''eventTypes.''
        then AList.update ''eventTypes''
          (case item_at types (drop (length ''eventTypes.'') k) of
             None \<Rightarrow> message | Some item \<Rightarrow> if item = [] then message else item @ '': '' @ message) mapped
        else mapped)"

definition mapServerFieldErrors :: "string list \<Rightarrow> (string \<times> string) list \<Rightarrow> (string \<times> string) list" where
  "mapServerFieldErrors types raw = foldl (map_server_error types) [] raw"

definition whole_form_error :: "ui_exn \<Rightarrow> string \<times> string" where
  "whole_form_error err =
    (or_string (describeApiError [] (Some err)) ''The endpoint could not be saved.'',
     case err of ApiFailure e \<Rightarrow> x_requestId e | NetworkFailure _ \<Rightarrow> [])"

definition applyServerError :: "ui_exn \<Rightarrow> endpoint_form \<Rightarrow> endpoint_form" where
  "applyServerError err f =
    (case err of
       NetworkFailure _ \<Rightarrow> f\<lparr>fm_formError := Some (whole_form_error err)\<rparr>
     | ApiFailure e \<Rightarrow>
         if x_status e = 422 \<and> starts_with (x_detail e) SSRF_DETAIL_PREFIX
         then f\<lparr>fm_fieldErrors := [(''url'', drop (length SSRF_DETAIL_PREFIX) (x_detail e))]\<rparr>
         else (let mapped = mapServerFieldErrors (fm_eventTypes f) (fieldErrors e) in
               if error_kind e = VALIDATION_KIND \<and> mapped \<noteq> [] then f\<lparr>fm_fieldErrors := mapped\<rparr>
               else f\<lparr>fm_formError := Some (whole_form_error err)\<rparr>))"

section \<open>Submitting\<close>

datatype form_event = Emit_Created endpoint_item | Emit_Updated endpoint_item

text \<open>The start of \<open>submit\<close>: the request to send, if any.\<close>

datatype form_request = Create_Request string endpoint_create_body | Update_Request string endpoint_patch

definition start_submit ::
  "(string \<Rightarrow> string) \<Rightarrow> (string \<Rightarrow> parsed_url option) \<Rightarrow> string \<Rightarrow> endpoint_view option \<Rightarrow> endpoint_form
   \<Rightarrow> form_request option \<times> endpoint_form" where
  "start_submit toLowerCase parse projectId e f0 =
    (let f = addFromDraft toLowerCase f0 in
     if fm_draftError f \<noteq> [] then (None, f)
     else
       (let errors = validate_endpoint parse f; f = f\<lparr>fm_formError := None, fm_fieldErrors := errors\<rparr> in
        if errors \<noteq> [] then (None, f)
        else (Some (case e of None \<Rightarrow> Create_Request projectId (buildCreateBody f)
                    | Some v \<Rightarrow> Update_Request (ew_id v) (buildPatch v f)),
              f\<lparr>fm_submitting := True\<rparr>)))"

text \<open>Its end, with the answer; the endpoints store takes the endpoint in, a new one without its secret.\<close>

definition end_submit ::
  "form_request \<Rightarrow> ui_exn + endpoint_item \<Rightarrow> endpoints_store \<times> endpoint_form \<Rightarrow> form_event option \<times> endpoints_store \<times> endpoint_form" where
  "end_submit rq answer sf =
    (case sf of (s, f) \<Rightarrow>
     (case answer of
        Inr e \<Rightarrow>
          (case rq of
             Create_Request _ _ \<Rightarrow> (Some (Emit_Created e), endpoints_step s (E_Created e), f\<lparr>fm_submitting := False\<rparr>)
           | Update_Request _ _ \<Rightarrow> (Some (Emit_Updated e), endpoints_step s (E_Updated e), f\<lparr>fm_submitting := False\<rparr>))
      | Inl err \<Rightarrow> (None, s, (applyServerError err f)\<lparr>fm_submitting := False\<rparr>)))"

section \<open>What the form lets through\<close>

definition types_ok :: "string list \<Rightarrow> bool" where
  "types_ok ts \<longleftrightarrow> eventTypes_schema ts \<and> distinct ts"

lemma eventTypeProblem_none:
  "eventTypeProblem types c = [] \<Longrightarrow>
   eventTypePattern c \<and> length c \<le> 64 \<and> c \<notin> set types \<and> length types < 50"
  by (auto simp: eventTypeProblem_def eventTypePattern_def EVENT_TYPE_WILDCARD_PATTERN_def EVENT_TYPE_MAX_LENGTH_def
      EVENT_TYPE_MAX_ITEMS_def MAX_EVENT_TYPE_LENGTH_def split: if_splits)

lemma add_candidates_ok: "types_ok types \<Longrightarrow> types_ok (fst (add_candidates types cs))"
proof (induction types cs rule: add_candidates.induct)
  case (2 types c cs)
  show ?case
  proof (cases "eventTypeProblem types c = []")
    case True
    then have "types_ok (types @ [c])"
      using eventTypeProblem_none[OF True] 2(2) by (auto simp: types_ok_def eventTypes_schema_def)
    then show ?thesis using 2 True by simp
  qed (use 2 in simp)
qed simp

text \<open>Nothing typed is lost: what was not added stays in the box, behind the problem.\<close>

lemma add_candidates_all:
  "add_candidates types cs = (types', r) \<Longrightarrow> types' @ (case r of None \<Rightarrow> [] | Some (_, rest) \<Rightarrow> rest) = types @ cs"
  by (induction types cs rule: add_candidates.induct) (auto split: if_splits)

lemma types_ok_without: "types_ok ts \<Longrightarrow> types_ok (without i ts)"
proof -
  assume ok: "types_ok ts"
  have "distinct (without i ts)" using ok set_take_disj_set_drop_if_distinct[of ts i "Suc i"]
    by (auto simp: types_ok_def without_def)
  then show ?thesis using ok set_without[of i ts]
    by (auto simp: types_ok_def eventTypes_schema_def list_all_iff) (auto simp: without_def)
qed

lemma addFromDraft_ok: "types_ok (fm_eventTypes f) \<Longrightarrow> types_ok (fm_eventTypes (addFromDraft lc f))"
  using add_candidates_ok[of "fm_eventTypes f" "candidates_of lc (fm_draft f)"]
  by (auto simp: addFromDraft_def Let_def split: prod.split option.split)

lemma keydown_ok: "types_ok (fm_eventTypes f) \<Longrightarrow> types_ok (fm_eventTypes (onDraftKeydown lc k f))"
  by (auto simp: onDraftKeydown_def addFromDraft_ok removeEventType_def types_ok_without)

lemma digits_value_nat: "list_all is_digit v \<Longrightarrow> v \<noteq> [] \<Longrightarrow> digits_value v = int (base_val 10 v)"
  by (simp add: digits_value_def jsNumber_digits)

lemma rate_ok: "rateLimitProblem v = [] \<Longrightarrow> v \<noteq> [] \<Longrightarrow> 1 \<le> digits_value v \<and> digits_value v \<le> 60000"
  by (auto simp: rateLimitProblem_def RATE_LIMIT_MIN_def RATE_LIMIT_MAX_def split: if_splits)

lemma problem_at_Nil [simp]: "problem_at k p = [] \<longleftrightarrow> p = []"
  by (simp add: problem_at_def)

lemma url_ok: "urlProblem parse v = [] \<Longrightarrow> v \<noteq> [] \<and> length v \<le> 2048 \<and>
    (\<exists>u. parse v = Some u \<and> (ul_protocol u = ''http:'' \<or> ul_protocol u = ''https:''))"
  by (auto simp: urlProblem_def URL_MAX_LENGTH_def split: if_splits option.splits)

text \<open>What the form sends for a new endpoint satisfies the API's rules.\<close>

lemma create_body_accepted:
  assumes "validate_endpoint parse f = []" "types_ok (fm_eventTypes f)"
  shows "endpointCreateSchema (buildCreateBody f)"
  using assms url_ok[of parse "trim (fm_url f)"] rate_ok[of "trim (fm_rateLimit f)"]
  by (auto simp: validate_endpoint_def endpointCreateSchema_def buildCreateBody_def types_ok_def rate_schema_def
      DESCRIPTION_MAX_LENGTH_def split: if_splits)

text \<open>What the API makes of a patch is what the form shows; a blank limit leaves the stored one.\<close>

lemma patch_faithful:
  assumes "e' = Endpoint_Service.patched (buildPatch (endpointView e) f) e"
  shows "e_url e' = trim (fm_url f)" "coalesce (e_description e') [] = trim (fm_description f)"
    "e_eventTypes e' = fm_eventTypes f"
    "e_rateLimitPerMinute e' =
      (if trim (fm_rateLimit f) = [] then e_rateLimitPerMinute e else digits_value (trim (fm_rateLimit f)))"
    "e_secret e' = e_secret e" "e_status e' = e_status e"
  using assms by (auto simp: Endpoint_Service.patched_def buildPatch_def endpointView_def coalesce_def split: option.splits)

text \<open>Opening the form and saving it at once sends an empty patch.\<close>

lemma untouched_form:
  assumes "trim (ew_url v) = ew_url v" "trim (coalesce (ew_description v) []) = coalesce (ew_description v) []"
    "0 \<le> ew_rateLimitPerMinute v"
  shows "buildPatch v (open_form (Some v)) = no_patch"
proof -
  have d: "list_all is_digit (int_str (ew_rateLimitPerMinute v))" "int_str (ew_rateLimitPerMinute v) \<noteq> []"
    using assms(3) nat_str_digits[of "nat (ew_rateLimitPerMinute v)"] by (simp_all add: int_str_def)
  have t: "trim (int_str (ew_rateLimitPerMinute v)) = int_str (ew_rateLimitPerMinute v)"
    using d is_digit_not_space by (intro trim_no_space) (auto simp: list_all_iff)
  have "digits_value (int_str (ew_rateLimitPerMinute v)) = ew_rateLimitPerMinute v"
    using assms(3) by (simp add: digits_value_def int_str_def)
  then show ?thesis using assms(1,2) t by (simp add: buildPatch_def open_form_def no_patch_def)
qed

section \<open>An error of the API on the form\<close>

text \<open>The problem document of an error, as it reaches the dashboard.\<close>

definition wire_problem :: "problem \<Rightarrow> problem_body" where
  "wire_problem p =
    \<lparr>pb_type = Some (pr_type p), pb_title = Some (pr_title p), pb_detail = pr_detail p, pb_errors = pr_errors p,
     pb_requestId = Some (pr_requestId p)\<rparr>"

definition api_failure :: "exn \<Rightarrow> string \<Rightarrow> string \<Rightarrow> ui_exn" where
  "api_failure err inst requestId =
    (let p = toProblem err inst requestId in ApiFailure (ApiError (pr_status p) (wire_problem p) (Some requestId)))"

text \<open>The refusal of a target is shown under the URL, with the reason alone.\<close>

lemma ssrf_reason_shown:
  "applyServerError (api_failure (App (UnprocessableError (SSRF_DETAIL_PREFIX @ reason))) inst rid) f =
    f\<lparr>fm_fieldErrors := [(''url'', reason)]\<rparr>"
  by (simp add: applyServerError_def api_failure_def Let_def toProblem_def UnprocessableError_def AppError_def ApiError_def
      wire_problem_def coalesce_def starts_with_def)

lemma ssrf_prefix_is_the_services:
  "es_resolve es u w = Inl te \<Longrightarrow> fst (assertReachable es u w) = Inl (App (UnprocessableError (SSRF_DETAIL_PREFIX @ te_message te)))"
  by (simp add: assertReachable_def io_defs SSRF_DETAIL_PREFIX_def)

text \<open>Every failure leaves something to read, and the values typed.\<close>

definition shows_failure :: "endpoint_form \<Rightarrow> bool" where
  "shows_failure f \<longleftrightarrow> fm_fieldErrors f \<noteq> [] \<or> (\<exists>d r. fm_formError f = Some (d, r) \<and> d \<noteq> [])"

lemma applyServerError_shows:
  "shows_failure (applyServerError err f)"
  "fm_url (applyServerError err f) = fm_url f" "fm_eventTypes (applyServerError err f) = fm_eventTypes f"
  "fm_description (applyServerError err f) = fm_description f" "fm_rateLimit (applyServerError err f) = fm_rateLimit f"
proof -
  have "fst (whole_form_error err) \<noteq> []" by (simp add: whole_form_error_def or_string_def)
  then show "shows_failure (applyServerError err f)"
    by (cases "whole_form_error err") (auto simp: shows_failure_def applyServerError_def Let_def split: ui_exn.split)
qed (auto simp: applyServerError_def Let_def split: ui_exn.split)

lemma submit_ends:
  "fm_submitting (snd (snd (end_submit rq answer (s, f)))) = False"
  "store_ok s \<Longrightarrow> (case (rq, answer) of (Update_Request _ _, Inr e) \<Rightarrow> no_secret e | _ \<Rightarrow> True) \<Longrightarrow>
   store_ok (fst (snd (end_submit rq answer (s, f))))"
  by (auto simp: end_submit_def store_ok_upsert split: sum.split form_request.split)

end
