(* ===== verification/Ui_Settings.thy ===== *)
theory Ui_Settings
  imports Ui_Endpoint_Form
begin

text \<open>
  The settings of a project under \<open>src/dashboard/src\<close>: \<open>composables/use-managed-list.js\<close> and the scripts of
  \<open>components/ApiKeysSection.vue\<close>, \<open>MembersSection.vue\<close>, \<open>ProjectNameSection.vue\<close>,
  \<open>AlertWebhookSection.vue\<close> and \<open>ProjectCreateForm.vue\<close>.  An operation that awaits the API is two
  definitions: what it does before the request, and what it does with the answer.
\<close>

section \<open>Actions and managed lists\<close>

record api_action =
  aa_pending :: bool
  aa_error :: string

definition idle_action :: api_action where
  "idle_action = \<lparr>aa_pending = False, aa_error = []\<rparr>"

definition start_action :: "api_action \<Rightarrow> api_action" where
  "start_action a = a\<lparr>aa_pending := True, aa_error := []\<rparr>"

definition end_action :: "(int \<times> string) list \<Rightarrow> ui_exn + 'a \<Rightarrow> api_action \<Rightarrow> bool \<times> api_action" where
  "end_action errors answer a =
    (case answer of
       Inr _ \<Rightarrow> (True, a\<lparr>aa_pending := False\<rparr>)
     | Inl e \<Rightarrow> (False, a\<lparr>aa_error := describeApiError errors (Some e), aa_pending := False\<rparr>))"

record 'r managed_list =
  ml_rows :: "'r list"
  ml_gate :: nat
  ml_channel :: channel
  ml_target :: "'r option"
  ml_action :: api_action

definition managed_init :: "'r managed_list" where
  "managed_init = \<lparr>ml_rows = [], ml_gate = 0, ml_channel = createRequest, ml_target = None, ml_action = idle_action\<rparr>"

definition managed_load :: "'r managed_list \<Rightarrow> ticket \<times> 'r managed_list" where
  "managed_load m =
    (case start_run True (ml_gate m) (ml_channel m) of (tk, gate, ch) \<Rightarrow> (tk, m\<lparr>ml_gate := gate, ml_channel := ch\<rparr>))"

definition managed_loaded :: "ticket \<Rightarrow> ui_exn + 'r list \<Rightarrow> 'r managed_list \<Rightarrow> 'r managed_list" where
  "managed_loaded tk answer m =
    (if is_current (ml_gate m) tk then m\<lparr>ml_rows := (case answer of Inr rows \<Rightarrow> rows | Inl _ \<Rightarrow> [])\<rparr> else m)
      \<lparr>ml_channel := settle_run (ml_gate m) tk answer (ml_channel m)\<rparr>"

definition ask :: "'r \<Rightarrow> 'r managed_list \<Rightarrow> 'r managed_list" where
  "ask row m = m\<lparr>ml_target := Some row, ml_action := (ml_action m)\<lparr>aa_error := []\<rparr>\<rparr>"

definition cancel :: "'r managed_list \<Rightarrow> 'r managed_list" where
  "cancel m = m\<lparr>ml_target := None, ml_action := (ml_action m)\<lparr>aa_error := []\<rparr>\<rparr>"

text \<open>\<open>confirm\<close>: the row the mutation is for, and its end.\<close>

definition start_confirm :: "'r managed_list \<Rightarrow> 'r option \<times> 'r managed_list" where
  "start_confirm m = (ml_target m, m\<lparr>ml_action := start_action (ml_action m)\<rparr>)"

definition end_confirm :: "(int \<times> string) list \<Rightarrow> ui_exn + 'a \<Rightarrow> 'r managed_list \<Rightarrow> bool \<times> 'r managed_list" where
  "end_confirm errors answer m =
    (case end_action errors answer (ml_action m) of
       (done_ok, a) \<Rightarrow> (done_ok, m\<lparr>ml_action := a, ml_target := (if done_ok then None else ml_target m)\<rparr>))"

section \<open>API keys\<close>

definition NAME_MAX :: nat where "NAME_MAX = 120"

definition CREATE_ERRORS :: "(int \<times> string) list" where
  "CREATE_ERRORS = [(403, ''Only an owner can create API keys.'')]"

definition REVOKE_ERRORS :: "(int \<times> string) list" where
  "REVOKE_ERRORS = [(403, ''Only an owner can revoke API keys.''), (404, ''That key no longer exists.'')]"

record key_row =
  kr_id :: string
  kr_name :: string
  kr_prefix :: string
  kr_createdAt :: string
  kr_lastUsedAt :: "string option"
  kr_revokedAt :: "string option"

record api_keys_section =
  ak_list :: "key_row managed_list"
  ak_create :: api_action
  ak_newKeyName :: string
  ak_revealed :: "(key_row \<times> string) option"

definition name_problem :: "string \<Rightarrow> bool" where
  "name_problem v \<longleftrightarrow> length v = 0 \<or> NAME_MAX < length v"

definition createKey :: "api_keys_section \<Rightarrow> string option \<times> api_keys_section" where
  "createKey k =
    (let name = trim (ak_newKeyName k) in
     if name_problem name
     then (None, k\<lparr>ak_create := (ak_create k)\<lparr>aa_error := ''A key name is 1 to 120 characters.''\<rparr>\<rparr>)
     else (Some name, k\<lparr>ak_create := start_action (ak_create k)\<rparr>))"

text \<open>The answer carries the row and, this once, the key; the list is then loaded again, and the action
  ends when it is.\<close>

definition key_created :: "ui_exn + key_row \<times> string \<Rightarrow> api_keys_section \<Rightarrow> ticket option \<times> api_keys_section" where
  "key_created answer k =
    (case answer of
       Inl e \<Rightarrow> (None, k\<lparr>ak_create := snd (end_action CREATE_ERRORS answer (ak_create k))\<rparr>)
     | Inr created \<Rightarrow>
         (case managed_load (ak_list k) of
            (tk, l) \<Rightarrow> (Some tk, k\<lparr>ak_newKeyName := [], ak_revealed := Some created, ak_list := l\<rparr>)))"

definition keys_reloaded :: "ticket \<Rightarrow> ui_exn + key_row list \<Rightarrow> api_keys_section \<Rightarrow> api_keys_section" where
  "keys_reloaded tk answer k =
    k\<lparr>ak_list := managed_loaded tk answer (ak_list k),
      ak_create := snd (end_action CREATE_ERRORS (Inr () :: ui_exn + unit) (ak_create k))\<rparr>"

definition dismissRevealedKey :: "api_keys_section \<Rightarrow> api_keys_section" where
  "dismissRevealedKey k = k\<lparr>ak_revealed := None\<rparr>"

definition key_revoked :: "ui_exn + key_row \<Rightarrow> api_keys_section \<Rightarrow> bool \<times> api_keys_section" where
  "key_revoked answer k =
    (let l = (case answer of
                Inl _ \<Rightarrow> ak_list k
              | Inr revoked \<Rightarrow> (ak_list k)\<lparr>ml_rows := map (\<lambda>row. if kr_id row = kr_id revoked then revoked else row) (ml_rows (ak_list k))\<rparr>)
     in case end_confirm REVOKE_ERRORS answer l of (done_ok, l') \<Rightarrow> (done_ok, k\<lparr>ak_list := l'\<rparr>))"

section \<open>Members\<close>

definition ADD_ERRORS :: "(int \<times> string) list" where
  "ADD_ERRORS =
    [(403, ''Only an owner can add members.''), (409, ''That person is already a member of this project.''),
     (422, ''No account with that email exists yet. hook-tracker v1 has no invite flow, so ask them to register first, then add them here.'')]"

definition REMOVE_ERRORS :: "(int \<times> string) list" where
  "REMOVE_ERRORS =
    [(403, ''Only an owner can remove members.''), (404, ''That person is no longer a member of this project.''),
     (409, ''This is the last owner. Promote another member to owner first, then remove this one.'')]"

record member_row =
  mr_userId :: string
  mr_email :: string
  mr_role :: role

record members_section =
  ms_list :: "member_row managed_list"
  ms_add :: api_action
  ms_email :: string
  ms_role :: role
  ms_addNotice :: string

definition role_lower :: "role \<Rightarrow> string" where
  "role_lower r = (case r of OWNER \<Rightarrow> ''owner'' | MEMBER \<Rightarrow> ''member'')"

definition addMember :: "members_section \<Rightarrow> member_body option \<times> members_section" where
  "addMember m =
    (let email = trim (ms_email m) in
     if length email = 0
     then (None, m\<lparr>ms_add := (ms_add m)\<lparr>aa_error := ''Enter the email address of a registered account.''\<rparr>\<rparr>)
     else (Some \<lparr>mb_email = email, mb_role = ms_role m\<rparr>, m\<lparr>ms_addNotice := [], ms_add := start_action (ms_add m)\<rparr>))"

definition member_added :: "ui_exn + member_row \<Rightarrow> members_section \<Rightarrow> ticket option \<times> members_section" where
  "member_added answer m =
    (case answer of
       Inl e \<Rightarrow> (None, m\<lparr>ms_add := snd (end_action ADD_ERRORS answer (ms_add m))\<rparr>)
     | Inr added \<Rightarrow>
         (case managed_load (ms_list m) of
            (tk, l) \<Rightarrow> (Some tk, m\<lparr>ms_email := [], ms_role := MEMBER,
               ms_addNotice := mr_email added @ '' was added as '' @ role_lower (mr_role added) @ ''.'', ms_list := l\<rparr>)))"

definition members_reloaded :: "ticket \<Rightarrow> ui_exn + member_row list \<Rightarrow> members_section \<Rightarrow> members_section" where
  "members_reloaded tk answer m =
    m\<lparr>ms_list := managed_loaded tk answer (ms_list m),
      ms_add := snd (end_action ADD_ERRORS (Inr () :: ui_exn + unit) (ms_add m))\<rparr>"

definition removingSelf :: "members_section \<Rightarrow> auth_store \<Rightarrow> bool" where
  "removingSelf m s \<longleftrightarrow> map_option mr_userId (ml_target (ms_list m)) = map_option mu_id (as_user s)"

text \<open>
  After a removal: someone who removed themselves reads their account again and goes home; otherwise
  the list is loaded.  \<open>wasSelf\<close> is read before the request.
\<close>

datatype after_removal = Stay | Go_Home | Reload_Members ticket

definition member_removed ::
  "bool \<Rightarrow> ui_exn + unit \<Rightarrow> me_reply \<Rightarrow> members_section \<times> auth_store \<Rightarrow> after_removal \<times> members_section \<times> auth_store" where
  "member_removed wasSelf answer me_answer ms =
    (case ms of (m, s) \<Rightarrow>
     (case end_confirm REMOVE_ERRORS answer (ms_list m) of
        (removed, l) \<Rightarrow>
          (let m' = m\<lparr>ms_list := l\<rparr> in
           if \<not> removed then (Stay, m', s)
           else if wasSelf then
             (case loadMe me_answer s of (Inr _, s') \<Rightarrow> (Go_Home, m', s') | (Inl _, s') \<Rightarrow> (Stay, m', s'))
           else (case managed_load l of (tk, l') \<Rightarrow> (Reload_Members tk, m\<lparr>ms_list := l'\<rparr>, s)))))"

section \<open>Name and alert address\<close>

record settings_form =
  sf_value :: string
  sf_saving :: bool
  sf_fieldError :: string
  sf_errorMessage :: string
  sf_saved :: bool

definition project_of :: "auth_store \<Rightarrow> string \<Rightarrow> ui_project option" where
  "project_of s projectId = map_option fst (find (\<lambda>p. up_id (fst p) = projectId) (auth_projects s))"

definition name_changed :: "auth_store \<Rightarrow> string \<Rightarrow> settings_form \<Rightarrow> bool" where
  "name_changed s projectId f \<longleftrightarrow> trim (sf_value f) \<noteq> (case project_of s projectId of None \<Rightarrow> [] | Some p \<Rightarrow> up_name p)"

text \<open>A project is chosen: the fields are filled from it.\<close>

definition name_section_opened :: "auth_store \<Rightarrow> string \<Rightarrow> settings_form \<Rightarrow> settings_form" where
  "name_section_opened s projectId f =
    f\<lparr>sf_value := (case project_of s projectId of None \<Rightarrow> [] | Some p \<Rightarrow> up_name p), sf_saved := False, sf_errorMessage := []\<rparr>"

definition save_name :: "settings_form \<Rightarrow> project_update_body option \<times> settings_form" where
  "save_name f =
    (let name = trim (sf_value f) in
     if name_problem name then (None, f\<lparr>sf_errorMessage := ''A project name is 1 to 120 characters.''\<rparr>)
     else (Some \<lparr>ub_name = Some name, ub_alertWebhookUrl = None\<rparr>,
           f\<lparr>sf_saving := True, sf_errorMessage := [], sf_saved := False\<rparr>))"

definition NAME_ERRORS :: "(int \<times> string) list" where
  "NAME_ERRORS = [(403, ''Only an owner can rename this project.''), (404, ''This project is no longer available to you.'')]"

definition name_saved :: "ui_exn + unit \<Rightarrow> me_reply \<Rightarrow> settings_form \<times> auth_store \<Rightarrow> settings_form \<times> auth_store" where
  "name_saved answer me_answer fs =
    (case fs of (f, s) \<Rightarrow>
     (case answer of
        Inl e \<Rightarrow> (f\<lparr>sf_errorMessage := describeApiError NAME_ERRORS (Some e), sf_saving := False\<rparr>, s)
      | Inr _ \<Rightarrow>
         (case loadMe me_answer s of
            (Inr _, s') \<Rightarrow> (f\<lparr>sf_saved := True, sf_saving := False\<rparr>, s')
          | (Inl e, s') \<Rightarrow> (f\<lparr>sf_errorMessage := describeApiError NAME_ERRORS (Some e), sf_saving := False\<rparr>, s'))))"

definition URL_MAX :: nat where "URL_MAX = 2048"

definition ALERT_DETAIL_PREFIX :: string where
  "ALERT_DETAIL_PREFIX = ''The URL is not an allowed alert target: ''"

definition ALERT_ERRORS :: "(int \<times> string) list" where
  "ALERT_ERRORS = [(403, ''Only an owner can change the alert address.''), (404, ''This project is no longer available to you.'')]"

definition current_alert_url :: "auth_store \<Rightarrow> string \<Rightarrow> string" where
  "current_alert_url s projectId = (case project_of s projectId of None \<Rightarrow> [] | Some p \<Rightarrow> coalesce (up_alertWebhookUrl p) [])"

definition alert_changed :: "auth_store \<Rightarrow> string \<Rightarrow> settings_form \<Rightarrow> bool" where
  "alert_changed s projectId f \<longleftrightarrow> trim (sf_value f) \<noteq> current_alert_url s projectId"

definition alert_section_opened :: "auth_store \<Rightarrow> string \<Rightarrow> settings_form \<Rightarrow> settings_form" where
  "alert_section_opened s projectId f =
    f\<lparr>sf_value := current_alert_url s projectId, sf_saved := False, sf_fieldError := [], sf_errorMessage := []\<rparr>"

definition alert_urlProblem :: "(string \<Rightarrow> parsed_url option) \<Rightarrow> string \<Rightarrow> string" where
  "alert_urlProblem parse v =
    (if v = [] then []
     else if URL_MAX < length v then ''The URL is at most 2048 characters.''
     else (case parse v of
             None \<Rightarrow> ''That is not a URL. Include the scheme, for example https://ops.example.com/alerts.''
           | Some u \<Rightarrow>
               if ul_protocol u \<noteq> ''http:'' \<and> ul_protocol u \<noteq> ''https:''
               then ''Only http and https are allowed, not '' @ drop_colon (ul_protocol u) @ ''.''
               else []))"

definition alert_serverError :: "ui_exn \<Rightarrow> settings_form \<Rightarrow> settings_form" where
  "alert_serverError err f =
    (case err of
       NetworkFailure _ \<Rightarrow> f\<lparr>sf_errorMessage := describeApiError ALERT_ERRORS (Some err)\<rparr>
     | ApiFailure e \<Rightarrow>
         if x_status e = 422 \<and> starts_with (x_detail e) ALERT_DETAIL_PREFIX
         then f\<lparr>sf_fieldError := drop (length ALERT_DETAIL_PREFIX) (x_detail e)\<rparr>
         else (let reported = coalesce (map_of (fieldErrors e) ''alertWebhookUrl'') [] in
               if error_kind e = VALIDATION_KIND \<and> reported \<noteq> [] then f\<lparr>sf_fieldError := reported\<rparr>
               else f\<lparr>sf_errorMessage := describeApiError ALERT_ERRORS (Some err)\<rparr>))"

definition save_alert :: "(string \<Rightarrow> parsed_url option) \<Rightarrow> settings_form \<Rightarrow> project_update_body option \<times> settings_form" where
  "save_alert parse f =
    (let v = trim (sf_value f); problem = alert_urlProblem parse v;
         f' = f\<lparr>sf_fieldError := problem, sf_errorMessage := [], sf_saved := False\<rparr>
     in if problem \<noteq> [] then (None, f')
        else (Some \<lparr>ub_name = None, ub_alertWebhookUrl = Some (if v = [] then None else Some v)\<rparr>, f'\<lparr>sf_saving := True\<rparr>))"

definition alert_saved :: "ui_exn + ui_project \<Rightarrow> settings_form \<times> auth_store \<Rightarrow> settings_form \<times> auth_store" where
  "alert_saved answer fs =
    (case fs of (f, s) \<Rightarrow>
     (case answer of
        Inr updated \<Rightarrow> (f\<lparr>sf_saved := True, sf_saving := False\<rparr>, mergeProject updated s)
      | Inl e \<Rightarrow> ((alert_serverError e f)\<lparr>sf_saving := False\<rparr>, s)))"

section \<open>A new project\<close>

definition validate_project :: "settings_form \<Rightarrow> string option \<times> settings_form" where
  "validate_project f =
    (let v = trim (sf_value f) in
     if length v = 0 then (None, f\<lparr>sf_fieldError := ''Give the project a name.''\<rparr>)
     else if MAX_NAME_LENGTH < length v then (None, f\<lparr>sf_fieldError := ''Use at most 120 characters.''\<rparr>)
     else (Some v, f\<lparr>sf_fieldError := []\<rparr>))"

definition submit_project :: "settings_form \<Rightarrow> string option \<times> settings_form" where
  "submit_project f =
    (case validate_project f of
       (None, f') \<Rightarrow> (None, f')
     | (Some v, f') \<Rightarrow> if sf_saving f then (None, f') else (Some v, f'\<lparr>sf_saving := True, sf_errorMessage := []\<rparr>))"

definition project_answered :: "ui_exn + string \<Rightarrow> settings_form \<Rightarrow> string option \<times> settings_form" where
  "project_answered answer f =
    (case answer of
       Inr projectId \<Rightarrow> (Some projectId, f\<lparr>sf_saving := False\<rparr>)
     | Inl err \<Rightarrow>
         (let named = (case err of ApiFailure e \<Rightarrow> coalesce (map_of (fieldErrors e) ''name'') [] | NetworkFailure _ \<Rightarrow> []) in
          (None, f\<lparr>sf_fieldError := named,
             sf_errorMessage := (if named = [] then describeApiError [] (Some err) else []), sf_saving := False\<rparr>)))"

section \<open>Facts\<close>

lemma end_action_error: "fst (end_action errors answer a) \<longleftrightarrow> (\<exists>x. answer = Inr x)"
  "aa_pending (snd (end_action errors answer a)) = False"
  "\<not> fst (end_action errors answer a) \<Longrightarrow> aa_error (snd (end_action errors answer a)) \<noteq> []"
  by (auto simp: end_action_def describe_never_empty split: sum.split)

text \<open>A refused mutation leaves its dialog open with the reason; a successful one closes it.\<close>

lemma end_confirm_dialog:
  "end_confirm errors answer m = (True, m') \<Longrightarrow> ml_target m' = None"
  "end_confirm errors answer m = (False, m') \<Longrightarrow> ml_target m' = ml_target m \<and> aa_error (ml_action m') \<noteq> []"
  using end_action_error[of errors answer "ml_action m"]
  by (auto simp: end_confirm_def split: prod.splits)

text \<open>The names and the address that are sent satisfy the API's rules.\<close>

lemma name_sent: "\<not> name_problem v \<Longrightarrow> name_schema v"
  by (auto simp: name_problem_def name_schema_def NAME_MAX_def Suc_le_eq)

lemma createKey_accepted: "createKey k = (Some name, k') \<Longrightarrow> name_schema name"
  by (auto simp: createKey_def Let_def intro: name_sent split: if_splits)

lemma save_name_accepted: "save_name f = (Some b, f') \<Longrightarrow> projectUpdateSchema b"
  by (auto simp: save_name_def Let_def projectUpdateSchema_def intro: name_sent split: if_splits)

lemma submit_project_accepted: "submit_project f = (Some v, f') \<Longrightarrow> name_schema v"
  by (auto simp: submit_project_def validate_project_def Let_def name_schema_def MAX_NAME_LENGTH_def Suc_le_eq split: if_splits)

lemma save_alert_accepted: "save_alert parse f = (Some b, f') \<Longrightarrow> projectUpdateSchema b"
  by (auto simp: save_alert_def Let_def projectUpdateSchema_def alert_urlProblem_def URL_MAX_def split: if_splits)

text \<open>Revoking a key keeps the rows in place; only the revoked one changes.\<close>

lemma key_revoked_rows:
  "map kr_id (ml_rows (ak_list (snd (key_revoked answer k)))) = map kr_id (ml_rows (ak_list k))"
proof -
  have "map kr_id (map (\<lambda>row. if kr_id row = kr_id r then r else row) rows) = map kr_id rows" for r and rows :: "key_row list"
    by simp
  then show ?thesis
    by (auto simp: key_revoked_def end_confirm_def Let_def simp del: map_map split: prod.splits sum.splits)
qed

text \<open>The plaintext of a key is shown from its creation until it is dismissed, and by nothing else.\<close>

lemma revealed_only_by_creation:
  "ak_revealed (snd (createKey k)) = ak_revealed k" "ak_revealed (keys_reloaded tk a k) = ak_revealed k"
  "ak_revealed (snd (key_revoked b k)) = ak_revealed k" "ak_revealed (dismissRevealedKey k) = None"
  "ak_revealed (snd (key_created c k)) = (case c of Inr created \<Rightarrow> Some created | Inl _ \<Rightarrow> ak_revealed k)"
  by (auto simp: createKey_def keys_reloaded_def key_revoked_def dismissRevealedKey_def key_created_def Let_def
      split: prod.split sum.split)

text \<open>After the address was saved the field is no longer changed: the confirmation stays true.\<close>

lemma project_of_find: "project_of s i = map_option um_project (find (\<lambda>m. up_id (um_project m) = i) (as_memberships s))"
proof -
  have "map_option fst (find (\<lambda>p. up_id (fst p) = i) (map (\<lambda>m. (um_project m, um_role m)) ms)) =
      map_option um_project (find (\<lambda>m. up_id (um_project m) = i) ms)" for ms
    by (induction ms) simp_all
  then show ?thesis by (simp add: project_of_def auth_projects_def)
qed

lemma project_of_merge:
  "project_of (mergeProject p s) (up_id p) =
    map_option (\<lambda>q. q\<lparr>up_name := up_name p, up_slug := up_slug p, up_alertWebhookUrl := up_alertWebhookUrl p\<rparr>) (project_of s (up_id p))"
  using find_map_key[where key = "\<lambda>m. up_id (um_project m)" and k = "up_id p" and f = "merge_detail p"]
  by (cases "find (\<lambda>m. up_id (um_project m) = up_id p) (as_memberships s)")
     (auto simp: project_of_find mergeProject_def merge_detail_def dest!: find_SomeD)

lemma alert_saved_unchanged:
  assumes "save_alert parse f = (Some b, f')" "project_of s (up_id updated) \<noteq> None"
    "ub_alertWebhookUrl b = Some (up_alertWebhookUrl updated)"
  shows "\<not> alert_changed (snd (alert_saved (Inr updated) (f', s))) (up_id updated) (fst (alert_saved (Inr updated) (f', s)))"
  using assms
  by (auto simp: save_alert_def Let_def alert_saved_def alert_changed_def current_alert_url_def project_of_merge coalesce_def
      split: if_splits option.splits)

text \<open>The refusal of an alert target is shown under the field.\<close>

lemma alert_reason_shown:
  "alert_serverError (api_failure (App (UnprocessableError (ALERT_DETAIL_PREFIX @ reason))) inst rid) f =
    f\<lparr>sf_fieldError := reason\<rparr>"
  by (simp add: alert_serverError_def api_failure_def Let_def toProblem_def UnprocessableError_def AppError_def ApiError_def
      wire_problem_def coalesce_def starts_with_def)

end
