(* ===== verification/Ui_Detail.thy ===== *)
theory Ui_Detail
  imports Ui_Stores Ui_Curl Signing
begin

text \<open>
  What the dashboard computes about deliveries and endpoints, under \<open>src/dashboard/src\<close>: the scripts of
  \<open>views/DeliveryDetailPanel.vue\<close>, \<open>components/BulkReplayControl.vue\<close>, \<open>DeliverySummary.vue\<close>,
  \<open>DeliveryRow.vue\<close>, \<open>EndpointRow.vue\<close>, \<open>SecretRevealDialog.vue\<close>, \<open>SuccessSparkline.vue\<close> and
  \<open>components/ui/AttemptLadder.vue\<close>, \<open>JsonBlock.vue\<close>, \<open>ResponseCode.vue\<close>.  Number formatting that depends on the
  platform is given as a function.
\<close>

definition ELLIPSIS :: string where "ELLIPSIS = [CHR 0xE2, CHR 0x80, CHR 0xA6]"

section \<open>The detail of a delivery\<close>

definition IN_PROGRESS :: "delivery_status list" where "IN_PROGRESS = [PENDING, IN_FLIGHT]"

definition replayBlocked :: "delivery_status option \<Rightarrow> bool" where
  "replayBlocked st \<longleftrightarrow> (case st of None \<Rightarrow> False | Some s \<Rightarrow> s \<in> set IN_PROGRESS)"

text \<open>The button is disabled exactly where the API refuses the replay.\<close>

lemma replayBlocked_iff: "replayBlocked (Some st) \<longleftrightarrow> \<not> replayable st"
  by (cases st) (simp_all add: replayBlocked_def IN_PROGRESS_def replayable_def REPLAYABLE_STATUSES_def)

datatype attempt_outcome = Ok_Outcome | Warning_Outcome | Error_Outcome

definition outcomeFor :: "attempt_view \<Rightarrow> attempt_outcome" where
  "outcomeFor a =
    (case av_responseStatus a of
       Some st \<Rightarrow> if 200 \<le> st \<and> st < 300 then Ok_Outcome else if st = 429 then Warning_Outcome else Error_Outcome
     | None \<Rightarrow> Error_Outcome)"

text \<open>A list by attempt number: a later attempt of a number wins, a hole counts as an error.\<close>

definition last_numbered :: "attempt_view list \<Rightarrow> int \<Rightarrow> attempt_view option" where
  "last_numbered atts n = find (\<lambda>a. av_attemptNumber a = n) (rev atts)"

definition attempt_outcomes :: "attempt_view list \<Rightarrow> attempt_outcome list" where
  "attempt_outcomes atts =
    map (\<lambda>i. case last_numbered atts (int i + 1) of None \<Rightarrow> Error_Outcome | Some a \<Rightarrow> outcomeFor a)
      [0..<nat (foldr max (map av_attemptNumber atts) 0)]"

definition newestAttempt :: "attempt_view list \<Rightarrow> attempt_view option" where
  "newestAttempt atts = (if atts = [] then None else Some (last atts))"

definition countdown :: "int option \<Rightarrow> int \<Rightarrow> string" where
  "countdown target tick =
    (case target of
       None \<Rightarrow> []
     | Some t \<Rightarrow>
        (let remaining = t - tick in
         if remaining \<le> 0 then ''due now''
         else
           (let seconds = remaining div 1000; hours = seconds div 3600; minutes = seconds mod 3600 div 60 in
            if 0 < hours then ''in '' @ int_str hours @ '' h '' @ int_str minutes @ '' min''
            else if 0 < minutes then ''in '' @ int_str minutes @ '' min '' @ int_str (seconds mod 60) @ '' s''
            else ''in '' @ int_str seconds @ '' s'')))"

definition SIGNATURE_PLACEHOLDER :: string where
  "SIGNATURE_PLACEHOLDER = ''v1=<regenerate with the endpoint secret>''"

definition TIMESTAMP_PLACEHOLDER :: string where
  "TIMESTAMP_PLACEHOLDER = ''<unix seconds at the time you sign>''"

definition requestHeaders :: "string \<Rightarrow> string option \<Rightarrow> int \<Rightarrow> (string \<times> string) list" where
  "requestHeaders deliveryId eventType attemptCount =
    [(''content-type'', ''application/json''), (''user-agent'', ''HookTracker/1.0''), (''x-webhook-id'', deliveryId),
     (''x-webhook-event'', coalesce eventType []), (''x-webhook-attempt'', int_str attemptCount),
     (''x-webhook-timestamp'', TIMESTAMP_PLACEHOLDER), (''x-webhook-signature'', SIGNATURE_PLACEHOLDER)]"

definition detail_curl :: "string option \<Rightarrow> string \<Rightarrow> string option \<Rightarrow> int \<Rightarrow> string \<Rightarrow> string" where
  "detail_curl endpointUrl deliveryId eventType attemptCount payload =
    buildCurl (coalesce endpointUrl ''https://the-endpoint.example/webhooks'')
      (requestHeaders deliveryId eventType attemptCount) (Some payload)"

text \<open>Names, order and all values but the placeholders are those the worker signs and sends.\<close>

lemma requestHeaders_match:
  assumes "deliveryHeaders hmac decrypt d v e (d_attemptCount d) rawBody grace t = Inr hs"
  shows "map fst (requestHeaders (d_id d) (Some (v_eventType v)) (d_attemptCount d)) = map fst hs"
    "take 5 (requestHeaders (d_id d) (Some (v_eventType v)) (d_attemptCount d)) = take 5 hs"
  using assms
  by (auto simp: deliveryHeaders_def requestHeaders_def WEBHOOK_USER_AGENT_def coalesce_def Let_def split: sum.splits)

text \<open>Every recorded attempt is on the ladder, at its number.\<close>

lemma attempt_outcomes_at:
  assumes "last_numbered atts n = Some a"  "1 \<le> n"
  shows "nat (n - 1) < length (attempt_outcomes atts)" "attempt_outcomes atts ! nat (n - 1) = outcomeFor a"
proof -
  have a: "a \<in> set atts" "av_attemptNumber a = n" using find_SomeD[OF assms(1)[unfolded last_numbered_def]] by auto
  have "av_attemptNumber a \<le> foldr max (map av_attemptNumber atts) 0"
    using a(1) by (induction atts) auto
  then show "nat (n - 1) < length (attempt_outcomes atts)" using a(2) assms(2) by (simp add: attempt_outcomes_def)
  then show "attempt_outcomes atts ! nat (n - 1) = outcomeFor a" using assms by (simp add: attempt_outcomes_def)
qed

section \<open>The attempt ladder\<close>

definition total_cells :: "int \<Rightarrow> int \<Rightarrow> int" where
  "total_cells maxAttempts attemptCount = max (max maxAttempts attemptCount) 1"

definition in_flight_index :: "int \<Rightarrow> int \<Rightarrow> int" where
  "in_flight_index maxAttempts attemptCount = min (max (attemptCount - 1) 0) (total_cells maxAttempts attemptCount - 1)"

definition statusOutcome :: "delivery_status \<Rightarrow> int \<Rightarrow> int \<Rightarrow> string" where
  "statusOutcome st attemptCount i =
    (if st = SUCCEEDED then (if i = attemptCount - 1 then ''ok'' else ''error'')
     else if st = SKIPPED then ''skipped'' else ''error'')"

definition outcome_word :: "attempt_outcome \<Rightarrow> string" where
  "outcome_word o' = (case o' of Ok_Outcome \<Rightarrow> ''ok'' | Warning_Outcome \<Rightarrow> ''warning'' | Error_Outcome \<Rightarrow> ''error'')"

definition outcomeAt :: "delivery_status \<Rightarrow> int \<Rightarrow> attempt_outcome list \<Rightarrow> int \<Rightarrow> string" where
  "outcomeAt st attemptCount outcomes i =
    (if 0 \<le> i \<and> nat i < length outcomes then outcome_word (outcomes ! nat i) else statusOutcome st attemptCount i)"

definition OUTCOME_FILL :: "string \<Rightarrow> string" where
  "OUTCOME_FILL o' =
    (if o' = ''ok'' then ''bg-ok'' else if o' = ''error'' then ''bg-fail'' else if o' = ''warning'' then ''bg-retry'' else ''bg-skip'')"

definition OUTCOME_WORD :: "string \<Rightarrow> string" where
  "OUTCOME_WORD o' =
    (if o' = ''ok'' then ''succeeded'' else if o' = ''error'' then ''failed'' else if o' = ''warning'' then ''warned'' else ''skipped'')"

definition cellClasses :: "delivery_status \<Rightarrow> int \<Rightarrow> int \<Rightarrow> attempt_outcome list \<Rightarrow> int \<Rightarrow> string" where
  "cellClasses st maxAttempts attemptCount outcomes i =
    (if st = IN_FLIGHT \<and> i = in_flight_index maxAttempts attemptCount then ''bg-flight pulse-soft''
     else if i < attemptCount then OUTCOME_FILL (outcomeAt st attemptCount outcomes i)
     else if st = RETRYING \<and> i = attemptCount then ''border border-dashed border-retry''
     else ''border border-rule'')"

definition ladder_cells :: "delivery_status \<Rightarrow> int \<Rightarrow> int \<Rightarrow> attempt_outcome list \<Rightarrow> string list" where
  "ladder_cells st maxAttempts attemptCount outcomes =
    map (\<lambda>i. cellClasses st maxAttempts attemptCount outcomes (int i)) [0..<nat (total_cells maxAttempts attemptCount)]"

definition countedOutcomes :: "delivery_status \<Rightarrow> int \<Rightarrow> int \<Rightarrow> attempt_outcome list \<Rightarrow> string list" where
  "countedOutcomes st maxAttempts attemptCount outcomes =
    map (outcomeAt st attemptCount outcomes)
      (filter (\<lambda>i. \<not> (st = IN_FLIGHT \<and> i = in_flight_index maxAttempts attemptCount)) (map int [0..<nat attemptCount]))"

text \<open>The kinds of the tally, in the order they were first met.\<close>

definition tally_kinds :: "string list \<Rightarrow> string list" where
  "tally_kinds counted = rev (remdups (rev counted))"

definition tally_of :: "string list \<Rightarrow> string \<Rightarrow> nat" where
  "tally_of counted k = length (filter (\<lambda>x. x = k) counted)"

definition summariseOutcomes :: "string list \<Rightarrow> string" where
  "summariseOutcomes counted =
    (let kinds = tally_kinds counted in
     if length counted = 1 then OUTCOME_WORD (hd counted)
     else if length kinds = 1 then ''all '' @ OUTCOME_WORD (hd kinds)
     else join '', '' (map (\<lambda>k. int_str (int (tally_of counted k)) @ '' '' @ OUTCOME_WORD k) kinds))"

definition ladder_label :: "delivery_status \<Rightarrow> int \<Rightarrow> int \<Rightarrow> attempt_outcome list \<Rightarrow> string" where
  "ladder_label st maxAttempts attemptCount outcomes =
    (let counted = countedOutcomes st maxAttempts attemptCount outcomes; cells = total_cells maxAttempts attemptCount in
     join '', ''
       ((if attemptCount = 0 then [''No attempts yet, '' @ int_str cells @ '' allowed'']
         else [''Attempt '' @ int_str attemptCount @ '' of '' @ int_str cells])
        @ (if counted \<noteq> [] then [summariseOutcomes counted] else [])
        @ (if st = RETRYING then [''attempt '' @ int_str (attemptCount + 1) @ '' scheduled''] else [])
        @ (if st = IN_FLIGHT then [''attempt '' @ int_str (in_flight_index maxAttempts attemptCount + 1) @ '' in flight''] else [])
        @ (if st = PENDING then [''queued''] else [])
        @ (if st = SKIPPED \<and> counted = [] then [''skipped''] else []))
     @ ''.'')"

lemma tally_kinds_set: "set (tally_kinds xs) = set xs" "distinct (tally_kinds xs)"
  by (simp_all add: tally_kinds_def)

lemma tally_total:
  "sum_list (map (tally_of counted) (tally_kinds counted)) = length counted"
proof -
  have "sum_list (map (\<lambda>k. length (filter (\<lambda>x. x = k) xs)) ks) = length (filter (\<lambda>x. x \<in> set ks) xs)"
    if "distinct ks" for ks xs :: "string list"
    using that
  proof (induction ks)
    case (Cons k ks)
    have "length (filter (\<lambda>x. x = k) xs) + length (filter (\<lambda>x. x \<in> set ks) xs) = length (filter (\<lambda>x. x = k \<or> x \<in> set ks) xs)"
      using Cons.prems by (induction xs) auto
    with Cons show ?case by simp
  qed simp
  from this[OF tally_kinds_set(2)] show ?thesis by (simp add: tally_of_def[abs_def] tally_kinds_set)
qed

text \<open>The ladder has a cell for every allowed attempt, and one in flight exactly when an attempt is.\<close>

lemma in_flight_index_range:
  "0 \<le> in_flight_index m n \<and> in_flight_index m n < total_cells m n"
  by (auto simp: in_flight_index_def total_cells_def)

lemma ladder_in_flight:
  "''bg-flight pulse-soft'' \<in> set (ladder_cells st m n outcomes) \<longleftrightarrow> st = IN_FLIGHT"
proof -
  have "OUTCOME_FILL x \<noteq> ''bg-flight pulse-soft''" for x by (simp add: OUTCOME_FILL_def)
  then have c: "cellClasses st m n outcomes i = ''bg-flight pulse-soft'' \<longleftrightarrow> st = IN_FLIGHT \<and> i = in_flight_index m n" for i
    by (simp add: cellClasses_def)
  have "\<exists>i < nat (total_cells m n). int i = in_flight_index m n"
    using in_flight_index_range[of m n] by (intro exI[of _ "nat (in_flight_index m n)"]) auto
  then show ?thesis by (auto simp: ladder_cells_def image_iff c eq_commute[of "''bg-flight pulse-soft''"])
qed

section \<open>JSON with colours\<close>

record token =
  tn_text :: string
  tn_class :: string

definition is_word_char :: "char \<Rightarrow> bool" where
  "is_word_char c \<longleftrightarrow> is_alnum c \<or> (65 \<le> (of_char c :: nat) \<and> (of_char c :: nat) \<le> 90) \<or> c = CHR ''_''"

text \<open>The length of a string literal: its quotes and the characters between them.\<close>

fun string_rest :: "string \<Rightarrow> nat option" where
  "string_rest [] = None"
| "string_rest [c] = (if c = CHR 34 then Some 1 else None)"
| "string_rest (c # d # s) =
    (if c = CHR 34 then Some 1
     else if c = CHR 92 then (if d = CHR 10 \<or> d = CHR 13 then None else map_option ((+) 2) (string_rest s))
     else map_option ((+) 1) (string_rest (d # s)))"

definition string_match :: "string \<Rightarrow> nat option" where
  "string_match s = (case s of c # t \<Rightarrow> if c = CHR 34 then map_option Suc (string_rest t) else None | [] \<Rightarrow> None)"

definition key_match :: "string \<Rightarrow> nat option" where
  "key_match s =
    (case string_match s of
       None \<Rightarrow> None
     | Some n \<Rightarrow>
        (let spaces = length (takeWhile is_space (drop n s)) in
         if take 1 (drop (n + spaces) s) = '':'' then Some (n + spaces + 1) else None))"

definition digits_len :: "string \<Rightarrow> nat" where
  "digits_len s = length (takeWhile is_digit s)"

definition fraction_len :: "string \<Rightarrow> nat" where
  "fraction_len s =
    (case s of c # t \<Rightarrow> if c = CHR ''.'' \<and> 0 < digits_len t then Suc (digits_len t) else 0 | [] \<Rightarrow> 0)"

definition exponent_len :: "string \<Rightarrow> nat" where
  "exponent_len s =
    (case s of
       c # t \<Rightarrow>
         if c = CHR ''e'' \<or> c = CHR ''E'' then
           (let sign = (case t of d # _ \<Rightarrow> if d = CHR ''+'' \<or> d = CHR ''-'' then 1 else 0 | [] \<Rightarrow> 0) in
            if 0 < digits_len (drop sign t) then 1 + sign + digits_len (drop sign t) else 0)
         else 0
     | [] \<Rightarrow> 0)"

definition number_match :: "string \<Rightarrow> nat option" where
  "number_match s =
    (let minus = (case s of c # _ \<Rightarrow> if c = CHR ''-'' then 1 else 0 | [] \<Rightarrow> 0); whole = digits_len (drop minus s) in
     if whole = 0 then None
     else (let n = minus + whole; f = fraction_len (drop n s); e = exponent_len (drop (n + f) s) in Some (n + f + e)))"

definition keyword_match :: "char option \<Rightarrow> string \<Rightarrow> nat option" where
  "keyword_match prev s =
    (if (case prev of None \<Rightarrow> False | Some c \<Rightarrow> is_word_char c) then None
     else (case filter (\<lambda>w. starts_with s w \<and> \<not> list_ex is_word_char (take 1 (drop (length w) s))) [''true'', ''false'', ''null''] of
             [] \<Rightarrow> None | w # _ \<Rightarrow> Some (length w)))"

definition PUNCTUATION :: string where "PUNCTUATION = ''{}[],''"

text \<open>\<open>TOKEN_PATTERN\<close> at a position: the alternatives in their order.\<close>

definition token_match :: "char option \<Rightarrow> string \<Rightarrow> nat option" where
  "token_match prev s =
    (case key_match s of Some n \<Rightarrow> Some n
     | None \<Rightarrow> (case string_match s of Some n \<Rightarrow> Some n
     | None \<Rightarrow> (case number_match s of Some n \<Rightarrow> Some n
     | None \<Rightarrow> (case keyword_match prev s of Some n \<Rightarrow> Some n
     | None \<Rightarrow> (case s of c # _ \<Rightarrow> if c \<in> set PUNCTUATION then Some 1 else None | [] \<Rightarrow> None)))))"

definition pushKeyToken :: "string \<Rightarrow> token list" where
  "pushKeyToken text =
    (let n = length text - length (takeWhile (\<lambda>c. c \<noteq> CHR 34) (rev text)) in
     [\<lparr>tn_text = take n text, tn_class = ''text-pending''\<rparr>, \<lparr>tn_text = drop n text, tn_class = ''text-faint''\<rparr>])"

definition pushMatch :: "string \<Rightarrow> token list" where
  "pushMatch text =
    (if starts_with text [CHR 34] then
       (if ends_with text '':'' then pushKeyToken text else [\<lparr>tn_text = text, tn_class = ''text-ok''\<rparr>])
     else if length text = 1 \<and> set text \<subseteq> set PUNCTUATION then [\<lparr>tn_text = text, tn_class = ''text-faint''\<rparr>]
     else [\<lparr>tn_text = text, tn_class = ''text-retry''\<rparr>])"

definition plain_token :: "string \<Rightarrow> token list" where
  "plain_token text = (if text = [] then [] else [\<lparr>tn_text = text, tn_class = ''text-ink''\<rparr>])"

text \<open>The scan: the text since the last match, the character before the position, and the rest.\<close>

function tokenize :: "string \<Rightarrow> char option \<Rightarrow> string \<Rightarrow> token list" where
  "tokenize gap prev [] = plain_token gap"
| "tokenize gap prev (c # s) =
    (case token_match prev (c # s) of
       None \<Rightarrow> tokenize (gap @ [c]) (Some c) s
     | Some n \<Rightarrow>
         plain_token gap @ pushMatch (c # take (n - 1) s)
           @ tokenize [] (Some (last (c # take (n - 1) s))) (drop (n - 1) s))"
  by pat_completeness auto
termination by (relation "measure (\<lambda>(_, _, s). length s)") auto

definition json_tokens :: "string \<Rightarrow> token list" where
  "json_tokens source = tokenize [] None source"

datatype json_prop = Json_Value json | Json_Text string

definition json_formatted :: "(json \<Rightarrow> string) \<Rightarrow> (string \<Rightarrow> json option) \<Rightarrow> json_prop \<Rightarrow> string" where
  "json_formatted pretty parse v =
    (case v of
       Json_Value j \<Rightarrow> pretty j
     | Json_Text s \<Rightarrow> (case parse s of Some j \<Rightarrow> pretty j | None \<Rightarrow> s))"

definition sizeLabel :: "(rat \<Rightarrow> string) \<Rightarrow> nat option \<Rightarrow> string" where
  "sizeLabel fixed1 bytes =
    (case bytes of
       None \<Rightarrow> []
     | Some n \<Rightarrow> if n < 1024 then int_str (int n) @ '' B'' else fixed1 (of_nat n / 1024) @ '' kB'')"

definition texts :: "token list \<Rightarrow> string" where
  "texts ts = concat (map tn_text ts)"

lemma texts_simps [simp]: "texts [] = []" "texts (ts @ us) = texts ts @ texts us" "texts (plain_token g) = g"
  by (simp_all add: texts_def plain_token_def)

lemma texts_pushMatch [simp]: "texts (pushMatch text) = text"
  by (simp add: pushMatch_def pushKeyToken_def texts_def Let_def)

text \<open>Colouring loses nothing: the tokens spell the text that the copy button copies.\<close>

lemma tokenize_texts: "texts (tokenize gap prev s) = gap @ s"
  by (induction gap prev s rule: tokenize.induct) (auto split: option.split)

lemma json_tokens_texts: "texts (json_tokens source) = source"
  by (simp add: json_tokens_def tokenize_texts)

section \<open>Bulk replay\<close>

definition BULK_REPLAY_CAP :: nat where "BULK_REPLAY_CAP = 500"

definition bulkLabel :: "bool \<Rightarrow> nat \<Rightarrow> string" where
  "bulkLabel again n = (if again then ''Replay all matching'' else ''Replay all '' @ int_str (int n))"

datatype bulk_message = Capped nat nat int | Left_Alone nat nat | All_Replayed nat nat

definition bulkMessage :: "bulk_replay \<Rightarrow> bulk_message" where
  "bulkMessage r =
    (if br_cappedAt r < int (br_matched r) then Capped (br_replayed r) (br_matched r) (br_cappedAt r)
     else if br_replayed r < br_matched r then Left_Alone (br_replayed r) (br_matched r)
     else All_Replayed (br_replayed r) (br_matched r))"

text \<open>
  The API counts what it took, at most the cap, so the message about a capped run is never shown: a run
  that left deliveries over reads like one that left none.
\<close>

lemma wp_any: "(\<And>a v. Q a v) \<Longrightarrow> wp m Q (\<lambda>_ _. True) w"
  by (simp add: wp_def split: prod.split sum.split)

lemma bulk_matched_within_cap:
  assumes "0 \<le> bulk_limit sv limit"
  shows "wp (bulkReplay sv p f limit) (\<lambda>r _. int (br_matched r) \<le> br_cappedAt r) (\<lambda>_ _. True) w"
proof -
  have q: "wp (query (\<lambda>w. take (nat (bulk_limit sv limit)) (g w))) (\<lambda>os _. int (length os) \<le> bulk_limit sv limit) (\<lambda>_ _. True) w"
    for g :: "world \<Rightarrow> delivery list"
    using assms by (simp add: wp_simps flip: le_nat_iff split: fault.split)
  show ?thesis
    unfolding bulkReplay_def Let_def wp_bind[of "query _"]
  proof (rule wp_mono[OF q])
    fix originals :: "delivery list" and v :: world
    assume "int (length originals) \<le> bulk_limit sv limit"
    then show "wp (io_bind (io_mapM draft_replay (filter (\<lambda>d. replayable (d_status d)) originals)) (\<lambda>replays.
         io_seq (if replays = [] then io_ret ()
             else commit [\<lambda>w. create_deliveries (map (\<lambda>(i, o').
                  new_delivery i (d_eventId o') (d_endpointId o') PENDING (Some (d_id o')) (clock w)) replays) w] (\<lambda>_. ()))
         (io_seq (io_each (\<lambda>(i, _). publishDelivery (sv_publisher sv) i 1) replays)
         (io_ret \<lparr>br_matched = length originals, br_replayed = length replays, br_cappedAt = bulk_limit sv limit,
              br_deliveries = map (\<lambda>(i, o'). (i, d_id o')) replays\<rparr>))))
      (\<lambda>r _. int (br_matched r) \<le> br_cappedAt r) (\<lambda>_ _. True) v"
      unfolding wp_bind wp_seq wp_ret_fun by (intro wp_any) simp
  qed simp
qed

lemma capped_never_shown:
  assumes "bulkReplay sv p f limit w = (Inr r, w')" "0 \<le> bulk_limit sv limit"
  shows "bulkMessage r \<noteq> Capped a b c"
  using wp_InrD[OF bulk_matched_within_cap[OF assms(2)] assms(1)] by (simp add: bulkMessage_def)

section \<open>The summary\<close>

definition COUNT_ORDER :: "(delivery_status \<times> string) list" where
  "COUNT_ORDER =
    [(SUCCEEDED, ''text-ok''), (RETRYING, ''text-retry''), (FAILED_PERMANENTLY, ''text-fail''), (PENDING, ''text-ink''),
     (IN_FLIGHT, ''text-ink''), (SKIPPED, ''text-ink'')]"

definition stat_count :: "delivery_stats option \<Rightarrow> delivery_status \<Rightarrow> nat" where
  "stat_count st s = (case st of None \<Rightarrow> 0 | Some x \<Rightarrow> coalesce (map_of (ds_byStatus x) s) 0)"

definition summary_counts :: "delivery_stats option \<Rightarrow> (delivery_status \<times> string \<times> string \<times> nat) list" where
  "summary_counts st =
    map (\<lambda>(s, tone). (s, tone, statusLabel (Some (status_text s)), stat_count st s)) COUNT_ORDER"

definition success_rate :: "(rat \<Rightarrow> string) \<Rightarrow> delivery_stats option \<Rightarrow> string" where
  "success_rate fixed1 st =
    (case st of
       None \<Rightarrow> EM_DASH
     | Some x \<Rightarrow> if ds_total x = 0 then EM_DASH
                else fixed1 (of_nat (coalesce (map_of (ds_byStatus x) SUCCEEDED) 0) / of_nat (ds_total x) * 100) @ ''%'')"

lemma sum_all_statuses: "(\<Sum>(s, _) \<leftarrow> COUNT_ORDER. f s) = f SUCCEEDED + f RETRYING + f FAILED_PERMANENTLY + f PENDING + f IN_FLIGHT + (f SKIPPED :: nat)"
  by (simp add: COUNT_ORDER_def)

text \<open>The six counts of the strip add up to the number of deliveries counted.\<close>

lemma group_statuses_count: "coalesce (map_of (group_statuses ds) s) 0 = length (filter (\<lambda>d. d_status d = s) ds)"
proof -
  have "map_of (map (\<lambda>st. (st, f st)) ks) s = (if s \<in> set ks then Some (f s) else None)" for f :: "delivery_status \<Rightarrow> nat" and ks
    by (induction ks) auto
  then show ?thesis by (auto simp: group_statuses_def coalesce_def filter_empty_conv)
qed

lemma summary_counts_total:
  assumes "ds_byStatus st = group_statuses ds"
  shows "(\<Sum>(_, _, _, n) \<leftarrow> summary_counts (Some st). n) = length ds"
proof -
  have s: "(\<Sum>(_, _, _, n) \<leftarrow> summary_counts (Some st). n) = (\<Sum>(s, _) \<leftarrow> COUNT_ORDER. stat_count (Some st) s)"
    by (simp add: summary_counts_def COUNT_ORDER_def)
  have "(\<Sum>(s, _) \<leftarrow> COUNT_ORDER. length (filter (\<lambda>d. d_status d = s) ds)) = length ds"
  proof (induction ds)
    case (Cons d ds)
    then show ?case unfolding sum_all_statuses by (cases "d_status d") simp_all
  qed (simp add: COUNT_ORDER_def)
  then show ?thesis unfolding s by (simp add: stat_count_def assms group_statuses_count)
qed

section \<open>The sparkline\<close>

definition WIDTH :: rat where "WIDTH = 104"
definition HEIGHT :: rat where "HEIGHT = 26"
definition PADDING :: rat where "PADDING = 3"
definition HEALTHY :: rat where "HEALTHY = 98 / 100"
definition SHAKY :: rat where "SHAKY = 9 / 10"

record point =
  pt_value :: "rat option"
  pt_x :: rat
  pt_y :: "rat option"

definition plotted :: "rat option list \<Rightarrow> point list" where
  "plotted series =
    (let spanned = (if 1 < length series then of_nat (length series - 1) else 1) in
     map (\<lambda>(i, v). \<lparr>pt_value = v, pt_x = PADDING + of_nat i * (WIDTH - PADDING * 2) / spanned,
            pt_y = map_option (\<lambda>r. HEIGHT - PADDING - r * (HEIGHT - PADDING * 2)) v\<rparr>) (enumerate 0 series))"

definition filled :: "rat option list \<Rightarrow> point list" where
  "filled series = filter (\<lambda>p. pt_y p \<noteq> None) (plotted series)"

definition drawable :: "rat option list \<Rightarrow> bool" where
  "drawable series \<longleftrightarrow> 2 \<le> length (filled series)"

text \<open>The runs of two points and more; \<open>run\<close> holds the points since the last gap.\<close>

fun point_runs :: "point list \<Rightarrow> point list \<Rightarrow> point list list" where
  "point_runs run [] = (if 1 < length run then [run] else [])"
| "point_runs run (p # ps) =
    (if pt_y p = None then (if 1 < length run then [run] else []) @ point_runs [] ps else point_runs (run @ [p]) ps)"

definition segments :: "rat option list \<Rightarrow> point list list" where
  "segments series = point_runs [] (plotted series)"

definition last_tone :: "rat option list \<Rightarrow> string" where
  "last_tone series =
    (if filled series = [] then ''text-skip''
     else (case pt_value (last (filled series)) of
             None \<Rightarrow> ''text-skip''
           | Some r \<Rightarrow> if HEALTHY \<le> r then ''text-ok'' else if SHAKY \<le> r then ''text-retry'' else ''text-fail''))"

definition percent :: "rat \<Rightarrow> string" where
  "percent v = int_str (js_round (v * 100)) @ ''%''"

definition sparkline_label :: "string \<Rightarrow> rat option list \<Rightarrow> string" where
  "sparkline_label subject series =
    (let vs = List.map_filter (\<lambda>x. x) series in
     ''Success rate across '' @ subject @ '', oldest first: from '' @ percent (hd vs) @ '' to '' @ percent (last vs)
       @ '', lowest '' @ percent (Min (set vs)) @ ''.'')"

text \<open>Every point of a rate between 0 and 1 is inside the graphic.\<close>

lemma plotted_inside:
  assumes "p \<in> set (plotted series)" "\<And>r. Some r \<in> set series \<Longrightarrow> 0 \<le> r \<and> r \<le> 1"
  shows "PADDING \<le> pt_x p \<and> pt_x p \<le> WIDTH - PADDING"
    "pt_y p = Some y \<Longrightarrow> PADDING \<le> y \<and> y \<le> HEIGHT - PADDING"
proof -
  obtain i v where iv: "i < length series" "v = series ! i" "p = \<lparr>pt_value = v,
      pt_x = PADDING + of_nat i * (WIDTH - PADDING * 2) / (if 1 < length series then of_nat (length series - 1) else 1),
      pt_y = map_option (\<lambda>r. HEIGHT - PADDING - r * (HEIGHT - PADDING * 2)) v\<rparr>"
    using assms(1) by (auto simp: plotted_def Let_def in_set_enumerate_eq)
  have "of_nat i \<le> (of_nat (length series - 1) :: rat)" using iv(1) by simp
  then show "PADDING \<le> pt_x p \<and> pt_x p \<le> WIDTH - PADDING"
    using iv(1) by (auto simp: iv(3) PADDING_def WIDTH_def divide_le_eq)
  assume "pt_y p = Some y"
  then obtain r where r: "v = Some r" "y = HEIGHT - PADDING - r * (HEIGHT - PADDING * 2)" by (auto simp: iv(3))
  have "Some r \<in> set series" using iv r nth_mem by metis
  then have "0 \<le> r" "r \<le> 1" using assms(2) by auto
  then show "PADDING \<le> y \<and> y \<le> HEIGHT - PADDING" by (simp add: r(2) PADDING_def HEIGHT_def)
qed

text \<open>
  Two points are enough for the graphic to be shown, but not for a line in it: with a gap between them
  only the last dot is drawn.
\<close>

lemma drawable_without_line: "drawable [Some 1, None, Some 1]" "segments [Some 1, None, Some 1] = []"
  by (simp_all add: drawable_def filled_def segments_def plotted_def Let_def)

section \<open>Rows and dialogs\<close>

definition ERROR_CODE_MAX :: nat where "ERROR_CODE_MAX = 18"

definition row_duration :: "(int \<Rightarrow> string) \<Rightarrow> int option \<Rightarrow> string" where
  "row_duration grouped v = (case v of None \<Rightarrow> EM_DASH | Some n \<Rightarrow> grouped n @ '' ms'')"

definition shortError :: "string option \<Rightarrow> string option" where
  "shortError v =
    (case v of
       None \<Rightarrow> None
     | Some s \<Rightarrow> if s = [] then None
                else Some (if ERROR_CODE_MAX < length s then take (ERROR_CODE_MAX - 1) s @ ELLIPSIS else s))"

definition status_class :: "int \<Rightarrow> string" where
  "status_class st =
    (let family = st div 100 in
     if family = 2 then ''text-ok'' else if family = 4 then ''text-retry'' else if family = 5 then ''text-fail'' else ''text-muted'')"

definition AUTO_DISABLE_THRESHOLD :: int where "AUTO_DISABLE_THRESHOLD = 20"

definition disabledReason :: "int \<Rightarrow> string" where
  "disabledReason consecutiveFailures =
    (if AUTO_DISABLE_THRESHOLD \<le> consecutiveFailures
     then ''Its '' @ int_str consecutiveFailures @ '' consecutive failures reach the automatic disable threshold, so it was most likely disabled automatically.''
     else ''Its failure count is below the automatic disable threshold, so it was most likely disabled by hand.'')"

definition graceRelative :: "int option \<Rightarrow> int \<Rightarrow> string" where
  "graceRelative expires openedAt =
    (case expires of
       None \<Rightarrow> []
     | Some timestamp \<Rightarrow>
        (let remaining = timestamp - openedAt in
         if remaining \<le> 0 then ''already past''
         else if HOUR \<le> remaining then
           (let hours = remaining div HOUR in ''in '' @ int_str hours @ '' hour'' @ (if hours = 1 then [] else ''s''))
         else
           (let minutes = max 1 (js_round (of_int remaining / of_int MINUTE)) in
            ''in '' @ int_str minutes @ '' minute'' @ (if minutes = 1 then [] else ''s''))))"

definition reveal_curl :: "string \<Rightarrow> string \<Rightarrow> string" where
  "reveal_curl origin secret =
    buildCurl (origin @ ''/v1/publish'') [(''Authorization'', ''Bearer '' @ secret), (''Content-Type'', ''application/json'')]
      (Some (concat [''{'', [CHR 34], ''eventType'', [CHR 34], '':'', [CHR 34], ''order.created'', [CHR 34], '','', [CHR 34],
        ''payload'', [CHR 34], '':{'', [CHR 34], ''orderId'', [CHR 34], '':'', [CHR 34], ''1001'', [CHR 34], ''}}'']))"

text \<open>The cell of an error stays narrow: at most seventeen bytes and the mark of omission.\<close>

lemma shortError_length: "shortError v = Some s \<Longrightarrow> s \<noteq> [] \<and> length s \<le> 20"
  by (auto simp: shortError_def ERROR_CODE_MAX_def ELLIPSIS_def split: option.splits if_splits)

text \<open>The command that is offered with a new key presents exactly that key.\<close>

lemma reveal_curl_presents_key:
  "\<exists>body. shell_words False None (reveal_curl origin secret) =
    Some [''curl'', ''-X'', ''POST'', origin @ ''/v1/publish'', ''-H'', ''Authorization: Bearer '' @ secret,
          ''-H'', ''Content-Type: application/json'', ''-d'', body]"
  by (simp add: reveal_curl_def shell_reads_buildCurl option_words_def)

end
