(* ===== verification/Ui_Shell.thy ===== *)
theory Ui_Shell
  imports Ui_Realtime Ui_Settings Ui_Detail
begin

text \<open>
  The screens around the stores, under \<open>src/dashboard/src\<close>: \<open>components/AppShell.vue\<close>, \<open>ModalShell.vue\<close> and
  \<open>DetailOverlay.vue\<close>, the scripts of \<open>views/EndpointsView.vue\<close>, the replay of \<open>views/DeliveryDetailPanel.vue\<close>
  and of \<open>components/BulkReplayControl.vue\<close>, and the small controls of \<open>components/ui\<close>.  The page's scroll lock
  and focus are state; \<open>toUpperCase\<close> is the platform's.
\<close>

section \<open>The shell\<close>

record menus =
  mn_project :: bool
  mn_user :: bool
  mn_nav :: bool

definition closeMenus :: "menus \<Rightarrow> menus" where
  "closeMenus m = m\<lparr>mn_project := False, mn_user := False, mn_nav := False\<rparr>"

definition toggleProjectMenu :: "menus \<Rightarrow> menus" where
  "toggleProjectMenu m = (closeMenus m)\<lparr>mn_project := \<not> mn_project m\<rparr>"

definition toggleUserMenu :: "menus \<Rightarrow> menus" where
  "toggleUserMenu m = (closeMenus m)\<lparr>mn_user := \<not> mn_user m\<rparr>"

definition toggleNavMenu :: "menus \<Rightarrow> menus" where
  "toggleNavMenu m = (closeMenus m)\<lparr>mn_nav := \<not> mn_nav m\<rparr>"

text \<open>A pointer press: whether it is inside each menu's root.\<close>

definition onPointerDown :: "bool \<Rightarrow> bool \<Rightarrow> bool \<Rightarrow> menus \<Rightarrow> menus" where
  "onPointerDown inProject inUser inNav m =
    m\<lparr>mn_project := mn_project m \<and> inProject, mn_user := mn_user m \<and> inUser, mn_nav := mn_nav m \<and> inNav\<rparr>"

datatype menu_op = Toggle_Project | Toggle_User | Toggle_Nav | Press bool bool bool | Escape | Route_Changed

definition menu_step :: "menus \<Rightarrow> menu_op \<Rightarrow> menus" where
  "menu_step m op =
    (case op of
       Toggle_Project \<Rightarrow> toggleProjectMenu m | Toggle_User \<Rightarrow> toggleUserMenu m | Toggle_Nav \<Rightarrow> toggleNavMenu m
     | Press a b c \<Rightarrow> onPointerDown a b c m | Escape \<Rightarrow> closeMenus m | Route_Changed \<Rightarrow> closeMenus m)"

definition open_menus :: "menus \<Rightarrow> nat" where
  "open_menus m = length (filter id [mn_project m, mn_user m, mn_nav m])"

definition no_menus :: menus where
  "no_menus = \<lparr>mn_project = False, mn_user = False, mn_nav = False\<rparr>"

lemma one_menu_step: "open_menus m \<le> 1 \<Longrightarrow> open_menus (menu_step m op) \<le> 1"
  by (cases op) (auto simp: menu_step_def open_menus_def toggleProjectMenu_def toggleUserMenu_def toggleNavMenu_def
      closeMenus_def onPointerDown_def split: if_splits)

lemma one_menu_open: "open_menus (foldl menu_step no_menus ops) \<le> 1"
proof -
  have "open_menus (foldl menu_step m ops) \<le> 1" if "open_menus m \<le> 1" for m
    using that by (induction ops arbitrary: m) (simp_all add: one_menu_step del: One_nat_def)
  then show ?thesis by (simp add: open_menus_def no_menus_def)
qed

definition connection :: "rt_status \<Rightarrow> string \<times> string \<times> bool" where
  "connection st =
    (case st of
       Live \<Rightarrow> (''Live'', ''bg-ok'', True)
     | Connecting \<Rightarrow> (''Connecting'', ''bg-retry'', False)
     | Reconnecting \<Rightarrow> (''Reconnecting'', ''bg-retry'', False)
     | Offline \<Rightarrow> (''Offline'', ''bg-fail'', True))"

definition accountName :: "auth_store \<Rightarrow> string" where
  "accountName s = (case as_user s of None \<Rightarrow> ''your account'' | Some u \<Rightarrow> mu_name u)"

text \<open>The words of a name: \<open>split\<close> at runs of white space, without empty parts.\<close>

fun name_words :: "string \<Rightarrow> string \<Rightarrow> string list" where
  "name_words word [] = (if word = [] then [] else [word])"
| "name_words word (c # s) =
    (if is_space c then (if word = [] then [] else [word]) @ name_words [] s else name_words (word @ [c]) s)"

definition initials :: "(string \<Rightarrow> string) \<Rightarrow> auth_store \<Rightarrow> string" where
  "initials toUpperCase s =
    concat (map (\<lambda>part. toUpperCase (take 1 part)) (take 2 (name_words [] (case as_user s of None \<Rightarrow> [] | Some u \<Rightarrow> mu_name u))))"

lemma name_words_nonempty: "w \<in> set (name_words word s) \<Longrightarrow> w \<noteq> []"
  by (induction word s rule: name_words.induct) (auto split: if_splits)

lemma initials_length:
  assumes "\<And>c. length (toUpperCase [c]) = 1" shows "length (initials toUpperCase s) \<le> 2"
proof -
  have one: "length (toUpperCase (take 1 w)) = 1" if "w \<noteq> []" for w using assms that by (cases w) simp_all
  have "length (concat (map (\<lambda>w. toUpperCase (take 1 w)) ws)) = length ws" if "\<forall>w \<in> set ws. w \<noteq> []" for ws
    using that one by (induction ws) simp_all
  moreover have "\<forall>w \<in> set (take 2 (name_words [] n)). w \<noteq> []" for n
    using name_words_nonempty in_set_takeD by fast
  ultimately show ?thesis by (simp add: initials_def)
qed

text \<open>Another project is chosen: the watcher of the shell runs before the list's own.\<close>

definition project_changed :: "endpoints_store \<times> deliveries_store \<times> menus \<Rightarrow> endpoints_store \<times> deliveries_store \<times> menus" where
  "project_changed st = (case st of (e, d, m) \<Rightarrow> (reset_endpoints e, reset_deliveries d, closeMenus m))"

text \<open>Nothing of the project that was left stays on screen or in the banner.\<close>

lemma project_changed_clears:
  assumes "project_changed (e, d, m) = (e', d', m')"
  shows "en_items e' = []" "pg_items (dl_list d') = []" "dl_pendingIds d' = []" "open_menus m' = 0"
  using assms
  by (auto simp: project_changed_def reset_endpoints_def reset_deliveries_def pager_reset_def open_menus_def closeMenus_def)

section \<open>The scroll lock\<close>

text \<open>\<open>lockCount\<close> of the modals, whether the detail overlay is active, and the page's lock.\<close>

record page_lock =
  pl_lockCount :: int
  pl_overlay :: bool
  pl_hidden :: bool

definition modal_mount :: "page_lock \<Rightarrow> page_lock" where
  "modal_mount p = p\<lparr>pl_hidden := (if pl_lockCount p = 0 then True else pl_hidden p), pl_lockCount := pl_lockCount p + 1\<rparr>"

definition modal_unmount :: "page_lock \<Rightarrow> page_lock" where
  "modal_unmount p =
    (let n = pl_lockCount p - 1 in p\<lparr>pl_lockCount := n, pl_hidden := (if n = 0 then False else pl_hidden p)\<rparr>)"

definition setOverlay :: "bool \<Rightarrow> page_lock \<Rightarrow> page_lock" where
  "setOverlay b p = (if b = pl_overlay p then p else p\<lparr>pl_overlay := b, pl_hidden := b\<rparr>)"

definition overlay_unmount :: "page_lock \<Rightarrow> page_lock" where
  "overlay_unmount p = (if pl_overlay p then p\<lparr>pl_overlay := False, pl_hidden := False\<rparr> else p)"

datatype lock_op = Mount | Unmount | Overlay bool | Overlay_Gone

text \<open>A modal that is unmounted was mounted.\<close>

definition lock_step :: "page_lock \<Rightarrow> lock_op \<Rightarrow> page_lock" where
  "lock_step p op =
    (case op of
       Mount \<Rightarrow> modal_mount p
     | Unmount \<Rightarrow> if pl_lockCount p = 0 then p else modal_unmount p
     | Overlay b \<Rightarrow> setOverlay b p
     | Overlay_Gone \<Rightarrow> overlay_unmount p)"

definition unlocked :: page_lock where
  "unlocked = \<lparr>pl_lockCount = 0, pl_overlay = False, pl_hidden = False\<rparr>"

text \<open>Modals alone keep the page locked exactly while one is open, in whatever order they close.\<close>

lemma modals_lock:
  assumes "list_all (\<lambda>op. op = Mount \<or> op = Unmount) ops"
  shows "pl_hidden (foldl lock_step unlocked ops) \<longleftrightarrow> 0 < pl_lockCount (foldl lock_step unlocked ops)"
proof -
  define ok where "ok p \<longleftrightarrow> (pl_hidden p \<longleftrightarrow> 0 < pl_lockCount p) \<and> 0 \<le> pl_lockCount p" for p :: page_lock
  have step: "ok (lock_step p Mount)" "ok (lock_step p Unmount)" if "ok p" for p :: page_lock
    using that by (auto simp: ok_def lock_step_def modal_mount_def modal_unmount_def Let_def)
  have "ok (foldl lock_step p ops)" if "ok p" for p :: page_lock
    using assms that
  proof (induction ops arbitrary: p)
    case (Cons op ops)
    then have "ok (lock_step p op)" using step by auto
    then show ?case using Cons by simp
  qed simp
  then have "ok (foldl lock_step unlocked ops)" by (simp add: ok_def unlocked_def)
  then show ?thesis by (simp add: ok_def)
qed

text \<open>
  The overlay has a lock of its own on the same page: a dialog opened and closed over it, from the
  header that stays reachable, leaves the page scrolling under the overlay.
\<close>

lemma modal_releases_overlay_lock:
  "pl_overlay (foldl lock_step unlocked [Overlay True, Mount, Unmount])"
  "\<not> pl_hidden (foldl lock_step unlocked [Overlay True, Mount, Unmount])"
  by (simp_all add: lock_step_def modal_mount_def modal_unmount_def setOverlay_def unlocked_def Let_def)

section \<open>The focus trap\<close>

text \<open>Where the focus is: on an item of the panel, on the panel, elsewhere in it, or outside.\<close>

datatype focus = On_Item nat | On_Panel | In_Panel | Outside

datatype tab_result = Move focus | Browser

definition trapTab :: "nat \<Rightarrow> bool \<Rightarrow> focus \<Rightarrow> tab_result" where
  "trapTab n shift active =
    (if n = 0 then Move On_Panel
     else if shift \<and> (active = Outside \<or> active = On_Item 0 \<or> active = On_Panel) then Move (On_Item (n - 1))
     else if \<not> shift \<and> (active = Outside \<or> active = On_Item (n - 1)) then Move (On_Item 0)
     else Browser)"

text \<open>What the browser does with the key: the neighbouring item, or out of the panel past the ends.  From the panel
  itself it goes to the first item, or backwards out of the panel.\<close>

definition browser_tab :: "nat \<Rightarrow> bool \<Rightarrow> focus \<Rightarrow> focus" where
  "browser_tab n shift active =
    (case active of
       On_Item i \<Rightarrow> if shift then (if i = 0 then Outside else On_Item (i - 1)) else (if Suc i < n then On_Item (Suc i) else Outside)
     | On_Panel \<Rightarrow> if shift \<or> n = 0 then Outside else On_Item 0
     | In_Panel \<Rightarrow> On_Item 0
     | Outside \<Rightarrow> Outside)"

definition after_tab :: "nat \<Rightarrow> bool \<Rightarrow> focus \<Rightarrow> focus" where
  "after_tab n shift active = (case trapTab n shift active of Move f \<Rightarrow> f | Browser \<Rightarrow> browser_tab n shift active)"

text \<open>The focus never leaves an open dialog by the Tab key, and comes back from outside.\<close>

lemma focus_trapped: "(\<And>i. active = On_Item i \<Longrightarrow> i < n) \<Longrightarrow> after_tab n shift active \<noteq> Outside"
  by (auto simp: after_tab_def trapTab_def browser_tab_def split: focus.splits)

definition modal_keydown :: "bool \<Rightarrow> string \<Rightarrow> bool" where
  "modal_keydown dismissible key \<longleftrightarrow> key = ''Escape'' \<and> dismissible"

definition overlay_keydown :: "page_lock \<Rightarrow> string \<Rightarrow> bool" where
  "overlay_keydown p key \<longleftrightarrow> pl_overlay p \<and> key = ''Escape''"

section \<open>The endpoints screen\<close>

record notice =
  no_tone :: string
  no_title :: string
  no_body :: string
  no_requestId :: string
  no_delivery :: "string option"
  no_disable :: "endpoint_item option"

definition plain_notice :: "string \<Rightarrow> string \<Rightarrow> string \<Rightarrow> notice" where
  "plain_notice tone title body =
    \<lparr>no_tone = tone, no_title = title, no_body = body, no_requestId = [], no_delivery = None, no_disable = None\<rparr>"

definition errorNotice :: "ui_exn \<Rightarrow> string \<Rightarrow> notice" where
  "errorNotice err title =
    (plain_notice ''fail'' title (or_string (describeApiError [] (Some err)) ''The request failed.''))
      \<lparr>no_requestId := (case err of ApiFailure e \<Rightarrow> x_requestId e | NetworkFailure _ \<Rightarrow> [])\<rparr>"

record endpoints_screen =
  es_store :: endpoints_store
  es_notice :: "notice option"
  es_busy :: "string \<times> string"
  es_formTarget :: "endpoint_item option"
  es_formOpen :: bool
  es_reveal :: "(string \<times> string \<times> int option \<times> string) option"
  es_deleteTarget :: "endpoint_item option"
  es_deleting :: bool

definition labelFor :: "(string \<Rightarrow> parsed_url option) \<Rightarrow> endpoints_screen \<Rightarrow> endpoint_item \<Rightarrow> string" where
  "labelFor parse s e = endpoint_name parse (es_store s) (ei_id e)"

definition busyActionFor :: "endpoints_screen \<Rightarrow> endpoint_item \<Rightarrow> string" where
  "busyActionFor s e = (if fst (es_busy s) = ei_id e then snd (es_busy s) else [])"

definition start_busy :: "endpoint_item \<Rightarrow> string \<Rightarrow> endpoints_screen \<Rightarrow> endpoints_screen" where
  "start_busy e action s = s\<lparr>es_busy := (ei_id e, action)\<rparr>"

definition end_busy :: "endpoints_screen \<Rightarrow> endpoints_screen" where
  "end_busy s = s\<lparr>es_busy := ([], [])\<rparr>"

definition enableEndpoint :: "(string \<Rightarrow> parsed_url option) \<Rightarrow> endpoint_item \<Rightarrow> ui_exn + endpoint_item \<Rightarrow> endpoints_screen \<Rightarrow> endpoints_screen" where
  "enableEndpoint parse e answer s =
    end_busy (case answer of
       Inl err \<Rightarrow> s\<lparr>es_notice := Some (errorNotice err ''The endpoint could not be enabled.'')\<rparr>
     | Inr updated \<Rightarrow>
        (let s' = s\<lparr>es_store := endpoints_step (es_store s) (E_Enabled updated)\<rparr> in
         s'\<lparr>es_notice := Some (plain_notice ''ok'' ''Endpoint enabled.''
           (labelFor parse s' e @ '' receives deliveries again and its consecutive failure count is back to 0.''))\<rparr>))"

definition disableEndpoint :: "(string \<Rightarrow> parsed_url option) \<Rightarrow> endpoint_item \<Rightarrow> ui_exn + endpoint_item \<Rightarrow> endpoints_screen \<Rightarrow> endpoints_screen" where
  "disableEndpoint parse e answer s =
    end_busy (case answer of
       Inl err \<Rightarrow> s\<lparr>es_notice := Some (errorNotice err ''The endpoint could not be disabled.'')\<rparr>
     | Inr updated \<Rightarrow>
        (let s' = s\<lparr>es_store := endpoints_step (es_store s) (E_Disabled updated)\<rparr> in
         s'\<lparr>es_notice := Some (plain_notice ''skip'' ''Endpoint disabled.''
           (labelFor parse s' e @ '' stops receiving deliveries until you enable it. Its delivery history stays readable.''))\<rparr>))"

text \<open>The deliveries of a test event: id, endpoint and status of each.\<close>

definition test_delivery :: "endpoint_item \<Rightarrow> (string \<times> string \<times> delivery_status) list \<Rightarrow> (string \<times> string \<times> delivery_status) option" where
  "test_delivery e ds =
    (case find (\<lambda>(_, endpointId, _). endpointId = ei_id e) ds of
       Some d \<Rightarrow> Some d | None \<Rightarrow> (case ds of d # _ \<Rightarrow> Some d | [] \<Rightarrow> None))"

definition sendTest_ended ::
  "(string \<Rightarrow> parsed_url option) \<Rightarrow> endpoint_item \<Rightarrow> ui_exn + (string \<times> string \<times> delivery_status) list \<Rightarrow> endpoints_screen \<Rightarrow> endpoints_screen" where
  "sendTest_ended parse e answer s =
    end_busy (s\<lparr>es_notice := Some (case answer of
       Inl err \<Rightarrow> errorNotice err ''The test event could not be sent.''
     | Inr ds \<Rightarrow>
        (case test_delivery e ds of
           Some (i, _, st) \<Rightarrow>
             if st = SKIPPED then plain_notice ''skip'' ''The test event was skipped.'' (labelFor parse s e @ '' was not sent the synthetic ping, so there is no attempt to open. An endpoint is skipped when it is disabled, or when its event types do not include ping.'')
             else (plain_notice ''ok'' ''Test event queued.'' (''A synthetic ping is on its way to '' @ labelFor parse s e @ ''.''))
                    \<lparr>no_delivery := Some i\<rparr>
         | None \<Rightarrow> plain_notice ''skip'' ''The test event was skipped.'' (labelFor parse s e @ '' was not sent the synthetic ping, so there is no attempt to open. An endpoint is skipped when it is disabled, or when its event types do not include ping.'')))\<rparr>)"

definition rotateSecret_ended ::
  "(string \<Rightarrow> parsed_url option) \<Rightarrow> endpoint_item \<Rightarrow> ui_exn + endpoint_item \<Rightarrow> endpoints_screen \<Rightarrow> endpoints_screen" where
  "rotateSecret_ended parse e answer s =
    end_busy (case answer of
       Inl err \<Rightarrow> s\<lparr>es_notice := Some (errorNotice err ''The secret could not be rotated.'')\<rparr>
     | Inr rotated \<Rightarrow>
        (let s' = s\<lparr>es_store := endpoints_step (es_store s) (E_Rotated rotated)\<rparr> in
         s'\<lparr>es_reveal := Some (''rotated'', coalesce (ei_secret rotated) [], ei_previousSecretExpiresAt rotated, labelFor parse s' e)\<rparr>))"

text \<open>\<open>confirmDelete\<close>: the label is read before the request.\<close>

definition confirmDelete :: "string \<Rightarrow> ui_exn + unit \<Rightarrow> endpoints_screen \<Rightarrow> endpoints_screen" where
  "confirmDelete label answer s =
    (case es_deleteTarget s of
       None \<Rightarrow> s
     | Some e \<Rightarrow>
        (case answer of
           Inr _ \<Rightarrow> s\<lparr>es_store := endpoints_step (es_store s) (E_Removed (ei_id e)), es_deleteTarget := None, es_deleting := False,
               es_notice := Some (plain_notice ''ok'' ''Endpoint deleted.'' (label @ '' is gone. Nothing will be delivered to it again.''))\<rparr>
         | Inl err \<Rightarrow>
             s\<lparr>es_deleteTarget := None, es_deleting := False,
               es_notice := Some (
                 if (case err of ApiFailure x \<Rightarrow> x_status x = 409 | NetworkFailure _ \<Rightarrow> False)
                 then (plain_notice ''fail'' ''This endpoint cannot be deleted.'' (label @ '' has delivery history, and deleting it would take that audit trail with it. Disable it instead: it stops receiving deliveries and every past delivery stays readable.''))
                        \<lparr>no_disable := (if ew_status (ei_view e) = ACTIVE then Some e else None)\<rparr>
                 else errorNotice err ''The endpoint could not be deleted.'')\<rparr>))"

definition openCreate :: "endpoints_screen \<Rightarrow> endpoints_screen" where
  "openCreate s = s\<lparr>es_formTarget := None, es_formOpen := True\<rparr>"

definition openEdit :: "endpoint_item \<Rightarrow> endpoints_screen \<Rightarrow> endpoints_screen" where
  "openEdit e s = s\<lparr>es_formTarget := Some e, es_formOpen := True\<rparr>"

definition closeForm :: "endpoints_screen \<Rightarrow> endpoints_screen" where
  "closeForm s = s\<lparr>es_formOpen := False, es_formTarget := None\<rparr>"

definition onCreated :: "(string \<Rightarrow> parsed_url option) \<Rightarrow> endpoint_item \<Rightarrow> endpoints_screen \<Rightarrow> endpoints_screen" where
  "onCreated parse created s =
    (closeForm s)\<lparr>es_reveal := Some (''created'', coalesce (ei_secret created) [], None, labelFor parse s created)\<rparr>"

definition onUpdated :: "(string \<Rightarrow> parsed_url option) \<Rightarrow> endpoint_item \<Rightarrow> endpoints_screen \<Rightarrow> endpoints_screen" where
  "onUpdated parse updated s =
    (closeForm s)\<lparr>es_notice := Some (plain_notice ''ok'' ''Endpoint saved.'' (labelFor parse s updated @ '' is updated.''))\<rparr>"

text \<open>The refusal to delete an endpoint with history is told as that, and offers what is left to do.\<close>

lemma delete_refused:
  assumes "es_deleteTarget s = Some e" "s' = confirmDelete label (Inl (api_failure history_conflict inst rid)) s"
  shows "\<exists>n. es_notice s' = Some n \<and> no_title n = ''This endpoint cannot be deleted.''
      \<and> (no_disable n = Some e \<longleftrightarrow> ew_status (ei_view e) = ACTIVE)"
    "es_store s' = es_store s" "es_deleteTarget s' = None"
  using assms
  by (auto simp: confirmDelete_def api_failure_def history_conflict_def Let_def toProblem_def ConflictError_def AppError_def
      ApiError_def plain_notice_def)

text \<open>Deleting an endpoint, once the API agrees, takes it off the list and nothing else.\<close>

lemma delete_done:
  assumes "es_deleteTarget s = Some e" "s' = confirmDelete label (Inr ()) s"
  shows "en_items (es_store s') = filter (\<lambda>x. ei_id x \<noteq> ei_id e) (en_items (es_store s))"
  using assms by (simp add: confirmDelete_def drop_endpoint_def)

text \<open>The secret that is revealed is the one in the answer, and the store never holds it.\<close>

lemma rotation_revealed:
  assumes "store_ok (es_store s)" "ei_secret rotated = Some secret"
    "s' = rotateSecret_ended parse e (Inr rotated) s"
  shows "\<exists>label. es_reveal s' = Some (''rotated'', secret, ei_previousSecretExpiresAt rotated, label)" "store_ok (es_store s')"
  using assms by (auto simp: rotateSecret_ended_def end_busy_def coalesce_def Let_def store_ok_upsert)

text \<open>There is one busy slot: the end of one action shows another endpoint's as ended.\<close>

lemma busy_slot_shared:
  "busyActionFor (enableEndpoint parse e answer (start_busy e' ''rotate'' (start_busy e ''enable'' s))) e' = []"
  by (auto simp: busyActionFor_def enableEndpoint_def end_busy_def start_busy_def Let_def split: sum.split)

section \<open>Replaying\<close>

text \<open>The panel shows the delivery of the route; \<open>replayed\<close> is the answer of the last replay.\<close>

record 'd detail_panel =
  dp_deliveryId :: string
  dp_detail :: "'d latest"
  dp_replaying :: bool
  dp_replayed :: "string option"
  dp_replayError :: "ui_exn option"

definition panel_load :: "string \<Rightarrow> 'd detail_panel \<Rightarrow> ticket \<times> 'd detail_panel" where
  "panel_load i p =
    (case start_latest (dp_detail p) of
       (tk, l) \<Rightarrow> (tk, p\<lparr>dp_deliveryId := i, dp_replayed := None, dp_replayError := None, dp_detail := l\<rparr>))"

definition panel_loaded :: "ticket \<Rightarrow> ui_exn + 'd \<Rightarrow> 'd detail_panel \<Rightarrow> 'd detail_panel" where
  "panel_loaded tk answer p = p\<lparr>dp_detail := settle_detail tk answer (dp_detail p)\<rparr>"

definition replay_start :: "'d detail_panel \<Rightarrow> string \<times> 'd detail_panel" where
  "replay_start p = (dp_deliveryId p, p\<lparr>dp_replaying := True, dp_replayError := None\<rparr>)"

definition replay_ended :: "ui_exn + string \<Rightarrow> 'd detail_panel \<Rightarrow> 'd detail_panel" where
  "replay_ended answer p =
    (case answer of Inr i \<Rightarrow> p\<lparr>dp_replayed := Some i\<rparr> | Inl e \<Rightarrow> p\<lparr>dp_replayError := Some e\<rparr>)\<lparr>dp_replaying := False\<rparr>"

text \<open>
  Unlike a load, a replay is not sequenced: its answer is shown on whatever delivery is open when it
  arrives, though it belongs to the one it was started on.
\<close>

lemma replay_lands_elsewhere:
  assumes "replay_start p = (i, p1)" "panel_load j p1 = (tk, p2)"
  shows "dp_replayed p2 = None" "dp_deliveryId (replay_ended (Inr new_id) p2) = j"
    "dp_replayed (replay_ended (Inr new_id) p2) = Some new_id"
  using assms by (auto simp: replay_start_def panel_load_def replay_ended_def split: prod.splits)

lemma panel_shows_last:
  assumes "panel_load i p = (tk, p1)" "panel_load j p1 = (tk', p2)"
  shows "lt_value (dp_detail (panel_loaded tk' (Inr d) (panel_loaded tk answer p2))) = Some d"
proof -
  obtain l1 where l1: "start_latest (dp_detail p) = (tk, l1)" "dp_detail p1 = l1"
    using assms(1) by (auto simp: panel_load_def split: prod.splits)
  obtain l2 where l2: "start_latest l1 = (tk', l2)" "dp_detail p2 = l2"
    using assms(2) l1(2) by (auto simp: panel_load_def split: prod.splits)
  show ?thesis using stale_latest(2)[OF l1(1) l2(1)] by (simp add: panel_loaded_def settle_detail_def l2(2))
qed

record bulk_control =
  bk_confirmOpen :: bool
  bk_running :: bool
  bk_result :: "bulk_replay option"
  bk_error :: "ui_exn option"

definition bulk_start :: "bulk_control \<Rightarrow> bulk_control" where
  "bulk_start b = b\<lparr>bk_running := True, bk_error := None\<rparr>"

text \<open>The answer: on success the dialog closes and the list is refreshed before the run ends.\<close>

definition bulk_answered :: "ui_exn + bulk_replay \<Rightarrow> bulk_control \<Rightarrow> bool \<times> bulk_control" where
  "bulk_answered answer b =
    (case answer of
       Inr r \<Rightarrow> (True, b\<lparr>bk_result := Some r, bk_confirmOpen := False\<rparr>)
     | Inl e \<Rightarrow> (False, b\<lparr>bk_error := Some e, bk_running := False\<rparr>))"

definition bulk_refreshed :: "bulk_control \<Rightarrow> bulk_control" where
  "bulk_refreshed b = b\<lparr>bk_running := False\<rparr>"

definition bulk_filters_changed :: "bulk_control \<Rightarrow> bulk_control" where
  "bulk_filters_changed b = b\<lparr>bk_result := None, bk_error := None\<rparr>"

definition bulkErrorMessage :: "bulk_control \<Rightarrow> string" where
  "bulkErrorMessage b = (case bk_error b of None \<Rightarrow> [] | Some e \<Rightarrow> ''Bulk replay failed: '' @ describeApiError [] (Some e))"

section \<open>Controls\<close>

record copy_button =
  cb_copied :: bool
  cb_resetAt :: "int option"

definition COPIED_RESET_MS :: int where "COPIED_RESET_MS = 2000"

definition copy_ended :: "bool \<Rightarrow> int \<Rightarrow> copy_button \<Rightarrow> copy_button" where
  "copy_ended ok t b = (if ok then b\<lparr>cb_copied := True, cb_resetAt := Some (t + COPIED_RESET_MS)\<rparr> else b\<lparr>cb_copied := False\<rparr>)"

definition copy_tick :: "int \<Rightarrow> copy_button \<Rightarrow> copy_button" where
  "copy_tick t b = (case cb_resetAt b of
     Some r \<Rightarrow> if r \<le> t then b\<lparr>cb_copied := False, cb_resetAt := None\<rparr> else b | None \<Rightarrow> b)"

lemma copied_is_temporary:
  "t + COPIED_RESET_MS \<le> t' \<Longrightarrow> \<not> cb_copied (copy_tick t' (copy_ended ok t b))"
  by (auto simp: copy_ended_def copy_tick_def split: option.split)

text \<open>Tables of classes with a fallback, and the labels of the controls.\<close>

definition class_for :: "(string \<times> 'c) list \<Rightarrow> 'c \<Rightarrow> string \<Rightarrow> 'c" where
  "class_for table fallback k = coalesce (map_of table k) fallback"

definition VARIANT_CLASSES :: "(string \<times> string) list" where
  "VARIANT_CLASSES =
    [(''default'', ''border-rule bg-surface text-ink hover:bg-sunken''),
     (''primary'', ''border-pending bg-pending text-page hover:opacity-90''),
     (''quiet'', ''border-transparent bg-transparent text-muted hover:bg-sunken hover:text-ink''),
     (''danger'', ''border-fail bg-fail text-page hover:opacity-90'')]"

definition SIZE_CLASSES :: "(string \<times> string) list" where
  "SIZE_CLASSES = [(''md'', ''h-8 gap-2 px-3 text-sm''), (''sm'', ''h-7 gap-1.5 px-2.5 text-xs'')]"

definition isInert :: "bool \<Rightarrow> bool \<Rightarrow> bool" where
  "isInert disabled loading \<longleftrightarrow> disabled \<or> loading"

definition TONES :: "(string \<times> string \<times> string) list" where
  "TONES =
    [(''ok'', ''border-rule bg-ok-soft'', ''text-ok''), (''skip'', ''border-rule bg-skip-soft'', ''text-skip''),
     (''fail'', ''border-rule bg-fail-soft'', ''text-fail'')]"

definition removeAriaLabel :: "string \<Rightarrow> string \<Rightarrow> string \<Rightarrow> string" where
  "removeAriaLabel removeLabel label v =
    (if removeLabel \<noteq> [] then removeLabel else if label \<noteq> [] then ''Clear '' @ label @ '' filter'' else ''Remove '' @ v)"

definition describedBy :: "string \<Rightarrow> string \<Rightarrow> bool \<Rightarrow> string option" where
  "describedBy i err hint =
    (let ids = (if err \<noteq> [] then [i @ ''-error''] else []) @ (if hint then [i @ ''-hint''] else []) in
     if ids = [] then None else Some (join '' '' ids))"

end
