(* ===== verification/Ui_Live.thy ===== *)
theory Ui_Live
  imports Ui_Stores Handler
begin

text \<open>
  From the worker to the screen: what the handler of \<open>src/backend/src/worker/handle-delivery.js\<close> emits,
  applied by \<open>applyRealtime\<close> of \<open>src/dashboard/src/stores/deliveries.js\<close>, is what the tables say at the end of
  the handler, as \<open>GET /projects/:id/deliveries\<close> would list it.  The judgement \<open>reports\<close> is about a whole
  operation under any faults; its rules follow the composition of the handler.
\<close>

section \<open>A row as the list shows it\<close>

definition list_row :: "world \<Rightarrow> string \<Rightarrow> item option" where
  "list_row w i =
    map_option (\<lambda>d. deliveryListView d (get_event w (d_eventId d)) (take 1 (rev (attempts_of w i)))) (get_delivery w i)"

text \<open>The columns a message of the worker renews.\<close>

definition shown :: "item \<Rightarrow> delivery_status \<times> int \<times> int option \<times> int option \<times> int option" where
  "shown x =
    (dv_status (lv_delivery x), dv_attemptCount (lv_delivery x), dv_nextAttemptAt (lv_delivery x),
     dv_completedAt (lv_delivery x), lv_lastResponseStatus x)"

fun event_changes :: "realtime_event \<Rightarrow> item \<Rightarrow> item" where
  "event_changes (DeliverySucceeded i n st ms t) = succeeded_changes n st ms t"
| "event_changes (DeliveryAttempted i n st ms t) = attempted_changes n st ms t"
| "event_changes (DeliveryFailed i n reason code st t) = failed_changes n code st t"
| "event_changes (EndpointDisabled e n t) = id"

lemma applyRealtime_changes:
  "about (Emitted e) = Some i \<Longrightarrow> applyRealtime (Emitted e) s = patch_or_note i (event_changes e) s"
  by (cases e) (auto simp: about_def)

section \<open>What an event has to say\<close>

text \<open>
  \<open>c0\<close> is the completion time the row had before: the event of a retry does not carry one, and leaves
  the one on screen alone.
\<close>

definition truthful :: "int option \<Rightarrow> string \<Rightarrow> world \<Rightarrow> realtime_event \<Rightarrow> bool" where
  "truthful c0 i w e \<longleftrightarrow>
    (\<forall>j. about (Emitted e) = Some j \<longrightarrow> j = i \<and>
      (\<exists>y. list_row w i = Some y \<and> (\<forall>x. dv_completedAt (lv_delivery x) = c0 \<longrightarrow> shown (event_changes e x) = shown y)))"

definition told :: "int option \<Rightarrow> string \<Rightarrow> world \<Rightarrow> world \<Rightarrow> bool" where
  "told c0 i w w' \<longleftrightarrow> (\<exists>es. emitted w' = emitted w @ es \<and> (\<forall>(c, e) \<in> set es. truthful c0 i w' e))"

text \<open>The delivery before an attempt numbered \<open>n\<close>.\<close>

definition before_attempt :: "int option \<Rightarrow> int \<Rightarrow> string \<Rightarrow> world \<Rightarrow> bool" where
  "before_attempt c0 n i w \<longleftrightarrow>
    (\<exists>d. get_delivery w i = Some d \<and> d_completedAt d = c0) \<and>
    (\<forall>a \<in> set (attempts w). a_deliveryId a = i \<longrightarrow> a_attemptNumber a < n)"

definition reports :: "int option \<Rightarrow> int \<Rightarrow> string \<Rightarrow> 'a act \<Rightarrow> bool" where
  "reports c0 n i m \<longleftrightarrow> (\<forall>w. before_attempt c0 n i w \<longrightarrow> told c0 i w (snd (m w)))"

section \<open>Steps that leave the row alone\<close>

text \<open>\<open>adds E i\<close>: the row and its attempts stay, and only events of \<open>E\<close> are emitted.\<close>

definition adds :: "realtime_event set \<Rightarrow> string \<Rightarrow> world \<Rightarrow> world \<Rightarrow> bool" where
  "adds E i w w' \<longleftrightarrow>
    get_delivery w' i = get_delivery w i \<and> attempts w' = attempts w \<and> events w' = events w \<and>
    (\<exists>es. emitted w' = emitted w @ es \<and> snd ` set es \<subseteq> E)"

text \<open>\<open>silent i\<close>: nothing is emitted, and the row keeps its completion time.\<close>

definition silent :: "string \<Rightarrow> world \<Rightarrow> world \<Rightarrow> bool" where
  "silent i w w' \<longleftrightarrow>
    map_option d_completedAt (get_delivery w' i) = map_option d_completedAt (get_delivery w i) \<and>
    attempts w' = attempts w \<and> emitted w' = emitted w"

interpretation ad: frame_order "adds E i" for E i
proof
  fix w w' w'' :: world
  show "adds E i w w" by (simp add: adds_def)
  assume a: "adds E i w w'" "adds E i w' w''"
  then obtain es fs where "emitted w' = emitted w @ es" "emitted w'' = emitted w' @ fs"
    "snd ` set es \<subseteq> E" "snd ` set fs \<subseteq> E"
    by (auto simp: adds_def)
  then have "emitted w'' = emitted w @ (es @ fs)" "snd ` set (es @ fs) \<subseteq> E" by auto
  with a show "adds E i w w''" unfolding adds_def by metis
qed

interpretation si: frame_order "silent i" for i
  by unfold_locales (simp_all add: silent_def)

lemma keeps_weaken: "keeps R m \<Longrightarrow> (\<And>w w'. R w w' \<Longrightarrow> R' w w') \<Longrightarrow> keeps R' m"
  by (auto simp: keeps_def)

lemma adds_silent: "keeps (adds {} i) m \<Longrightarrow> keeps (silent i) m"
  by (erule keeps_weaken) (auto simp: adds_def silent_def)

lemma adds_basic:
  "keeps (adds E i) now" "keeps (adds E i) (fresh_id k)" "keeps (adds E i) (query g)" "keeps (adds E i) (lift r)"
  "keeps (adds E i) (send_request send tgt hs b)" "keeps (adds E i) (take_bucket k rate)"
  "keeps (adds E i) (effect_ret (set_nx k' s))" "keeps (adds E i) (effect_ret (disable_if_over ep t))"
  "keeps (adds E i) (publish x rk p ms)"
  by (auto simp: keeps_def now_def fresh_id_def query_def lift_def send_request_def take_bucket_def effect_ret_def
      effect_def publish_def set_nx_def disable_if_over_def io_defs adds_def pop_fault_def get_delivery_def Let_def
      split: fault.splits option.splits sum.splits prod.splits)

lemma adds_emit: "e \<in> E \<Longrightarrow> keeps (adds E i) (emit p e)"
  by (auto simp: keeps_def emit_def effect_def io_defs adds_def pop_fault_def get_delivery_def split: fault.splits)

lemma adds_publishers:
  "keeps (adds E i) (publishRetry pb j n l)" "keeps (adds E i) (publishDeadLetter pb j n)"
  "keeps (adds E i) (publishThrottle pb j n)" "keeps (adds E i) (retryAfterSeconds dp hs)"
  unfolding publishRetry_def publishDeadLetter_def publishThrottle_def retryAfterSeconds_def
  by (auto intro!: ad.keeps_intros adds_basic split: option.splits)

lemma adds_notify: "keeps (adds E i) (notify al p reason scope detail)"
  unfolding notify_def guard_alert_def notifyProject_def claim_def alert_post_def
  by (auto intro!: ad.keeps_intros adds_basic split: option.splits sum.splits)

lemmas adds_intros = ad.keeps_intros adds_basic adds_emit adds_publishers adds_notify

section \<open>Rules of the judgement\<close>

lemma reports_mute: "(\<And>w. emitted (snd (m w)) = emitted w) \<Longrightarrow> reports c0 n i m"
  by (simp add: reports_def told_def)

lemma reports_silent: "keeps (silent i) m \<Longrightarrow> reports c0 n i m"
  by (rule reports_mute) (simp add: keeps_def silent_def)

lemma silent_before: "silent i w w' \<Longrightarrow> before_attempt c0 n i w \<Longrightarrow> before_attempt c0 n i w'"
  by (auto simp: silent_def before_attempt_def)

lemma reports_bind:
  assumes m: "keeps (silent i) m" and f: "\<And>a. reports c0 n i (f a)"
  shows "reports c0 n i (io_bind m f)"
  unfolding reports_def
proof (intro allI impI)
  fix w
  assume b: "before_attempt c0 n i w"
  obtain r w1 where mw: "m w = (r, w1)" by (cases "m w")
  then have s: "silent i w w1" using m by (auto simp: keeps_def dest: spec[of _ w])
  show "told c0 i w (snd (io_bind m f w))"
  proof (cases r)
    case (Inl e)
    then show ?thesis using mw s by (simp add: io_bind_def told_def silent_def)
  next
    case (Inr a)
    have "told c0 i w1 (snd (f a w1))" using f silent_before[OF s b] by (simp add: reports_def)
    then show ?thesis using mw Inr s by (simp add: io_bind_def told_def silent_def)
  qed
qed

lemma reports_seq: "keeps (silent i) m \<Longrightarrow> reports c0 n i k \<Longrightarrow> reports c0 n i (io_seq m k)"
  by (simp add: io_seq_def reports_bind)

text \<open>After the event only steps that leave the row alone.\<close>

lemma list_row_adds: "adds E i w w' \<Longrightarrow> list_row w' i = list_row w i"
  by (simp add: adds_def list_row_def attempts_of_def get_event_def)

lemma truthful_adds: "adds E i w w' \<Longrightarrow> truthful c0 i w' e \<longleftrightarrow> truthful c0 i w e"
  by (simp add: truthful_def list_row_adds)

lemma told_adds:
  assumes "told c0 i w w'" "adds E i w' w''" "\<forall>e \<in> E. truthful c0 i w' e"
  shows "told c0 i w w''"
proof -
  obtain es where es: "emitted w' = emitted w @ es" "\<forall>(c, e) \<in> set es. truthful c0 i w' e" using assms(1) by (auto simp: told_def)
  obtain fs where fs: "emitted w'' = emitted w' @ fs" "snd ` set fs \<subseteq> E" using assms(2) by (auto simp: adds_def)
  have "\<forall>(c, e) \<in> set (es @ fs). truthful c0 i w'' e"
    using es(2) fs(2) assms(3) by (auto simp: truthful_adds[OF assms(2)])
  then show ?thesis using es(1) fs(1) by (auto simp: told_def)
qed

lemma reports_then:
  assumes m: "reports c0 n i m" and f: "\<And>a. keeps (adds {} i) (f a)"
  shows "reports c0 n i (io_bind m f)"
  unfolding reports_def
proof (intro allI impI)
  fix w
  assume b: "before_attempt c0 n i w"
  obtain r w1 where mw: "m w = (r, w1)" by (cases "m w")
  then have t: "told c0 i w w1" using m b unfolding reports_def by (metis snd_conv)
  show "told c0 i w (snd (io_bind m f w))"
  proof (cases r)
    case (Inr a)
    have "adds {} i w1 (snd (f a w1))" using f by (simp add: keeps_def)
    with t show ?thesis using mw Inr by (simp add: io_bind_def told_adds)
  qed (use t mw in \<open>simp add: io_bind_def\<close>)
qed

lemma reports_then_seq: "reports c0 n i m \<Longrightarrow> keeps (adds {} i) k \<Longrightarrow> reports c0 n i (io_seq m k)"
  by (simp add: io_seq_def reports_then)

text \<open>A transaction after which the events of \<open>E\<close> are true, and then nothing but those.\<close>

lemma reports_commit:
  assumes ops: "\<And>w w1. before_attempt c0 n i w \<Longrightarrow> transaction ops w = Inr w1 \<Longrightarrow>
      emitted w1 = emitted w \<and> (\<forall>e \<in> E. truthful c0 i w1 e)"
    and f: "\<And>a. keeps (adds E i) (f a)"
  shows "reports c0 n i (io_bind (commit ops g) f)"
  unfolding reports_def
proof (intro allI impI)
  fix w
  assume b: "before_attempt c0 n i w"
  have b': "before_attempt c0 n i (pop_fault w)" using b by (simp add: before_attempt_def)
  show "told c0 i w (snd (io_bind (commit ops g) f w))"
  proof (cases "transaction ops (pop_fault w)")
    case (Inl e)
    then show ?thesis by (simp add: io_bind_def commit_def told_def split: fault.split)
  next
    case (Inr w1)
    have o: "emitted w1 = emitted w" "\<forall>e \<in> E. truthful c0 i w1 e" using ops[OF b' Inr] by simp_all
    have "adds E i w1 (snd (f (g w1) w1))" using f by (simp add: keeps_def)
    then have "told c0 i w (snd (f (g w1) w1))" by (rule told_adds[rotated]) (use o in \<open>simp_all add: told_def\<close>)
    then show ?thesis using Inr o by (simp add: io_bind_def commit_def told_def split: fault.split)
  qed
qed

section \<open>The handler\<close>

lemma insort_key_last: "f x \<le> f b \<Longrightarrow> insort_key f x (ys @ [b]) = insort_key f x ys @ [b]"
  by (induction ys) auto

lemma sort_key_last: "(\<And>a. a \<in> set xs \<Longrightarrow> f a \<le> f b) \<Longrightarrow> sort_key f (xs @ [b]) = sort_key f xs @ [b]"
  by (induction xs) (simp_all add: insort_key_last)

text \<open>The row after the transaction of an attempt: what it wrote, and the new attempt as the latest one.\<close>

lemma attempt_committed:
  assumes b: "before_attempt c0 n i w" and key: "\<And>d. d_id (g d) = d_id d"
    and t: "transaction ([create_attempt_row aid i n r, update_delivery i g] @ eps) w = Inr w1"
    and eps: "eps = [] \<or> (\<exists>k h. eps = [update_endpoint k h])"
  shows "emitted w1 = emitted w"
    "\<exists>d y. get_delivery w i = Some d \<and> d_completedAt d = c0 \<and> list_row w1 i = Some y \<and>
      shown y = (d_status (g d), d_attemptCount (g d), d_nextAttemptAt (g d), d_completedAt (g d), rs_responseStatus r)"
proof -
  obtain d where d: "get_delivery w i = Some d" "d_completedAt d = c0"
    and old: "\<forall>a \<in> set (attempts w). a_deliveryId a = i \<longrightarrow> a_attemptNumber a < n"
    using b by (auto simp: before_attempt_def)
  let ?a = "attemptRow aid i n r (clock w)"
  have w1: "emitted w1 = emitted w" "attempts w1 = attempts w @ [?a]" "get_delivery w1 i = Some (g d)"
    using t eps d(1) dlv.get_upd_same[OF key, of _ i d]
    by (auto simp: create_attempt_row_def create_attempt_def update_delivery_def update_endpoint_def
        upd_delivery_def upd_endpoint_def add_attempt_def get_delivery_def split: option.splits)
  show "emitted w1 = emitted w" by (rule w1(1))
  have a: "a_deliveryId ?a = i" "a_attemptNumber ?a = n" "a_responseStatus ?a = rs_responseStatus r" by (simp_all add: attemptRow_def)
  have "attempts_of w1 i = sort_key a_attemptNumber (filter (\<lambda>a. a_deliveryId a = i) (attempts w) @ [?a])"
    by (simp add: attempts_of_def w1(2) a(1) del: sort_key_simps)
  also have "\<dots> = attempts_of w i @ [?a]"
    unfolding attempts_of_def by (rule sort_key_last) (use a(2) old in auto)
  finally have "attempts_of w1 i = attempts_of w i @ [?a]" .
  then show "\<exists>d y. get_delivery w i = Some d \<and> d_completedAt d = c0 \<and> list_row w1 i = Some y \<and>
      shown y = (d_status (g d), d_attemptCount (g d), d_nextAttemptAt (g d), d_completedAt (g d), rs_responseStatus r)"
    using d w1(3) a(3) by (simp add: list_row_def shown_def deliveryListView_def deliveryView_def)
qed

text \<open>The events that are not about a delivery may follow.\<close>

abbreviation and_others :: "realtime_event \<Rightarrow> realtime_event set" where
  "and_others e \<equiv> insert e {x. about (Emitted x) = None}"

lemma reports_attempt:
  assumes key: "\<And>d. d_id (g d) = d_id d" and e: "about (Emitted e) = Some i"
    and same: "\<And>d x. d_completedAt d = c0 \<Longrightarrow> dv_completedAt (lv_delivery x) = c0 \<Longrightarrow> shown (event_changes e x) =
      (d_status (g d), d_attemptCount (g d), d_nextAttemptAt (g d), d_completedAt (g d), rs_responseStatus r)"
    and f: "\<And>a. keeps (adds (and_others e) i) (f a)"
    and eps: "eps = [] \<or> (\<exists>k h. eps = [update_endpoint k h])"
  shows "reports c0 n i (io_bind (commit ([create_attempt_row aid i n r, update_delivery i g] @ eps) q) f)"
proof (rule reports_commit[OF _ f])
  fix w w1
  assume b: "before_attempt c0 n i w" and t: "transaction ([create_attempt_row aid i n r, update_delivery i g] @ eps) w = Inr w1"
  have "truthful c0 i w1 e"
    using attempt_committed(2)[OF b key t eps] e same unfolding truthful_def by (metis option.inject)
  then show "emitted w1 = emitted w \<and> (\<forall>e \<in> and_others e. truthful c0 i w1 e)"
    using attempt_committed(1)[OF b key t eps] by (auto simp: truthful_def)
qed

lemmas reports_attempt2 = reports_attempt[where eps = "[]", simplified append.simps]
lemmas reports_attempt3 = reports_attempt[where eps = "[update_endpoint k h]" for k h, simplified append.simps]

lemmas shown_defs = shown_def change_defs

lemma about_simps [simp]:
  "about (Emitted (DeliverySucceeded i n st ms t)) = Some i" "about (Emitted (DeliveryAttempted i n st ms t)) = Some i"
  "about (Emitted (DeliveryFailed i n reason code st t)) = Some i" "about (Emitted (EndpointDisabled e n t)) = None"
  by (simp_all add: about_def)

lemma adds_announce: "keeps (adds (and_others e) i) (announce_disable hn ev ep failures t count)"
  unfolding announce_disable_def by (auto intro!: adds_intros)

lemma reports_success:
  assumes "d_id dl = i" shows "reports c0 n i (finaliseSuccess dl ev n r t)"
  unfolding finaliseSuccess_def io_seq_def assms
  by (rule reports_bind, rule adds_silent, rule adds_intros,
      rule reports_attempt3[where e = "DeliverySucceeded i n (rs_responseStatus r) (rs_durationMs r) t"])
     (auto simp: shown_defs intro!: adds_intros)

lemma reports_retry:
  assumes "d_id dl = i" shows "reports c0 n i (finaliseRetry hn dl ev n r l t)"
  unfolding finaliseRetry_def io_seq_def Let_def assms
  by (rule reports_bind, rule adds_silent, rule adds_intros,
      rule reports_attempt2[where e = "DeliveryAttempted i n (rs_responseStatus r) (rs_durationMs r) (t + rl_delayMs l)"])
     (auto simp: shown_defs intro!: adds_intros)

lemma reports_failure:
  assumes "d_id dl = i" shows "reports c0 n i (finaliseFailure hn dl ev ep n r reason t)"
  unfolding finaliseFailure_def io_seq_def assms
  by (rule reports_bind, rule adds_silent, rule adds_intros,
      rule reports_attempt3[where e = "DeliveryFailed i n reason (rs_errorCode r) (rs_responseStatus r) t"])
     (auto simp: shown_defs intro!: adds_intros adds_announce)

lemmas reports_finalise = reports_success reports_retry reports_failure

lemma reports_rejected: "d_id dl = i \<Longrightarrow> reports c0 n i (handle_rejected hn dl ev ep n e)"
  unfolding handle_rejected_def Let_def
  by (auto intro!: reports_bind reports_then_seq adds_silent adds_intros reports_finalise split: option.split)

lemma reports_response: "d_id dl = i \<Longrightarrow> reports c0 n i (handle_response hn dl ev ep n r)"
  unfolding handle_response_def Let_def
  by (auto intro!: reports_bind reports_then_seq adds_silent adds_intros reports_finalise split: option.split)

lemma reports_attempt_delivery: "d_id dl = i \<Longrightarrow> reports c0 n i (attempt_delivery hn dl ev ep n)"
  unfolding attempt_delivery_def Let_def
  by (auto intro!: reports_bind reports_rejected reports_response adds_silent adds_intros split: sum.split)

lemma silent_in_flight: "keeps (silent i) (commit [update_delivery j (\<lambda>d. d\<lparr>d_status := IN_FLIGHT\<rparr>)] (\<lambda>_. ()))"
proof -
  let ?f = "\<lambda>d :: delivery. d\<lparr>d_status := IN_FLIGHT\<rparr>"
  have "silent i w (upd_delivery j ?f (pop_fault w))" for w
    using dlv.get_upd[of ?f j "pop_fault w" i]
    by (auto simp: silent_def option.map_comp comp_def upd_delivery_def[of _ _ "pop_fault w"])
  moreover have "silent i w (pop_fault w)" for w by (simp add: silent_def)
  ultimately show ?thesis
    by (auto simp: keeps_def commit_def update_delivery_def split: fault.splits option.splits)
qed

lemma mute_skip:
  "emitted (snd (io_bind now (\<lambda>t. io_seq (commit [update_delivery j (f t)] (\<lambda>_. ())) (io_ret oc)) w)) = emitted w"
  by (auto simp: io_defs now_def commit_def update_delivery_def upd_delivery_def pop_fault_def Let_def
      split: fault.splits option.splits)

lemma reports_loaded:
  assumes "d_id dl = i" shows "reports c0 n i (handle_loaded hn dl ev ep n)"
proof -
  have ret: "reports c0 n i (io_ret oc)" for oc :: outcome by (rule reports_mute) (simp add: io_ret_def)
  have throttled: "reports c0 n i (io_seq (publishThrottle (hd_publisher hn) i n) (io_ret Throttled))"
    by (rule reports_seq[OF adds_silent[OF adds_publishers(3)] ret])
  have attempt: "reports c0 n i (io_seq (commit [update_delivery i (\<lambda>d. d\<lparr>d_status := IN_FLIGHT\<rparr>)] (\<lambda>_. ()))
      (attempt_delivery hn dl ev ep n))"
    by (rule reports_seq[OF silent_in_flight reports_attempt_delivery[OF assms]])
  have skip: "reports c0 n i (io_bind now (\<lambda>t. io_seq (commit [update_delivery i (f t)] (\<lambda>_. ())) (io_ret SkippedDisabled)))" for f
    by (rule reports_mute[OF mute_skip])
  have "reports c0 n i (io_bind (take_bucket k rate) (\<lambda>allowed. if \<not> allowed then io_seq (publishThrottle (hd_publisher hn) i n) (io_ret Throttled)
      else io_seq (commit [update_delivery i (\<lambda>d. d\<lparr>d_status := IN_FLIGHT\<rparr>)] (\<lambda>_. ())) (attempt_delivery hn dl ev ep n)))" for k rate
    by (rule reports_bind[OF adds_silent[OF adds_basic(6)]]) (simp add: throttled attempt)
  with ret skip show ?thesis unfolding handle_loaded_def assms by simp
qed

lemma reports_handler: "reports c0 n i (handleDelivery hn i n)"
  unfolding reports_def
proof (intro allI impI)
  fix w
  assume b: "before_attempt c0 n i w"
  have s: "silent i w (pop_fault w)" by (simp add: silent_def)
  have "told c0 i (pop_fault w) (snd (handle_loaded hn dl ev ep n (pop_fault w)))"
    if "load_delivery i (pop_fault w) = Some (dl, ev, ep)" for dl ev ep
    using reports_loaded[of dl i c0 n hn ev ep] load_deliveryD[OF that] silent_before[OF s b] by (simp add: reports_def)
  then show "told c0 i w (snd (handleDelivery hn i n w))"
    by (auto simp: handleDelivery_def io_bind_def query_def io_ret_def told_def
        split: fault.splits option.splits prod.splits)
qed

text \<open>
  What the handler emits about a delivery is about its own, and a screen that shows the delivery shows,
  once the message is applied, what the tables say at the end of the handler.
\<close>

lemma live_update:
  assumes d: "get_delivery w i = Some d" and old: "\<forall>a \<in> set (attempts w). a_deliveryId a = i \<longrightarrow> a_attemptNumber a < n"
    and e: "(c, e) \<in> set (drop (length (emitted w)) (emitted (snd (handleDelivery hn i n w))))" "about (Emitted e) = Some j"
  shows "j = i"
    "x \<in> set (pg_items (dl_list s)) \<Longrightarrow> item_id x = i \<Longrightarrow> dv_completedAt (lv_delivery x) = d_completedAt d \<Longrightarrow>
     \<exists>y z. z \<in> set (pg_items (dl_list (applyRealtime (Emitted e) s))) \<and> item_id z = i \<and>
       list_row (snd (handleDelivery hn i n w)) i = Some y \<and> shown z = shown y"
proof -
  let ?w = "snd (handleDelivery hn i n w)"
  have b: "before_attempt (d_completedAt d) n i w" using d old by (simp add: before_attempt_def)
  then have "told (d_completedAt d) i w ?w" using reports_handler[of "d_completedAt d" n i hn] by (simp add: reports_def)
  then obtain es where es: "emitted ?w = emitted w @ es" "\<forall>(c, e) \<in> set es. truthful (d_completedAt d) i ?w e"
    by (auto simp: told_def)
  then have t: "truthful (d_completedAt d) i ?w e" using e(1) by auto
  then show j: "j = i" using e(2) by (simp add: truthful_def)
  assume x: "x \<in> set (pg_items (dl_list s))" "item_id x = i" "dv_completedAt (lv_delivery x) = d_completedAt d"
  obtain y where y: "list_row ?w i = Some y" "shown (event_changes e x) = shown y"
    using t e(2) x(3) by (auto simp: truthful_def)
  have "i \<in> set (on_screen s)" using x(1,2) by (auto simp: on_screen_def)
  then have "event_changes e x \<in> set (pg_items (dl_list (applyRealtime (Emitted e) s)))"
    using x(1,2) e(2) j by (auto simp: applyRealtime_changes patch_or_note_cases)
  moreover have "item_id (event_changes e x) = i" using x(2) by (cases e) simp_all
  ultimately show "\<exists>y z. z \<in> set (pg_items (dl_list (applyRealtime (Emitted e) s))) \<and> item_id z = i \<and>
       list_row ?w i = Some y \<and> shown z = shown y"
    using y by blast
qed

end
