(* ===== verification/Ui_Screens.thy ===== *)
theory Ui_Screens
  imports Ui_Shell Event_Service
begin

text \<open>
  The screens over the stores: \<open>src/dashboard/src/stores/events.js\<close> as a whole, the loads and the subscriptions of
  \<open>views/DeliveriesView.vue\<close>, \<open>EndpointsView.vue\<close>, \<open>EventsView.vue\<close> and \<open>EventDetailPanel.vue\<close>, the change of
  project in \<open>components/AppShell.vue\<close>, and the navigation of the shell and of \<open>views/NewProjectView.vue\<close>.
\<close>

section \<open>The events store\<close>

type_synonym event_item = event_list_view

definition PAGE_SIZE :: int where "PAGE_SIZE = 50"

record 'd events_store =
  vs_list :: "(list_query, event_item) pager"
  vs_detail :: "'d latest"

definition reset_events :: "'d events_store \<Rightarrow> 'd events_store" where
  "reset_events s = s\<lparr>vs_list := pager_reset (vs_list s),
     vs_detail := (vs_detail s)\<lparr>lt_value := None, lt_channel := (lt_channel (vs_detail s))\<lparr>ch_error := None\<rparr>\<rparr>\<rparr>"

text \<open>The filters stay as they are chosen; what is asked of the API is \<open>searchable\<close>.\<close>

definition load_events :: "string \<Rightarrow> (string \<times> string) list \<Rightarrow> 'd events_store \<Rightarrow> list_query fetch \<times> 'd events_store" where
  "load_events projectId filters s = (case pager_load (projectId, filters) (vs_list s) of (f, p) \<Rightarrow> (f, s\<lparr>vs_list := p\<rparr>))"

definition more_events :: "'d events_store \<Rightarrow> (list_query fetch \<times> 'd events_store) option" where
  "more_events s = map_option (\<lambda>(f, p). (f, s\<lparr>vs_list := p\<rparr>)) (pager_more (vs_list s))"

definition events_request :: "list_query fetch \<Rightarrow> string \<times> (string \<times> string option) list" where
  "events_request f =
    (''/projects/'' @ fst (ft_query f) @ ''/events'',
     map (\<lambda>(k, v). (k, Some v)) (searchable (snd (ft_query f)))
     @ (case ft_cursor f of None \<Rightarrow> [] | Some c \<Rightarrow> [(''cursor'', Some c)]) @ [(''limit'', Some (int_str PAGE_SIZE))])"

definition load_detail :: "'d events_store \<Rightarrow> ticket \<times> 'd events_store" where
  "load_detail s = (case start_latest (vs_detail s) of (tk, l) \<Rightarrow> (tk, s\<lparr>vs_detail := l\<rparr>))"

definition detail_loaded :: "ticket \<Rightarrow> ui_exn + 'd \<Rightarrow> 'd events_store \<Rightarrow> 'd events_store" where
  "detail_loaded tk answer s = s\<lparr>vs_detail := settle_detail tk answer (vs_detail s)\<rparr>"

text \<open>Every page of a search, the first and the next ones, asks for both halves of a payload match or for none.\<close>

lemma pages_ask_for_the_pair:
  "(\<exists>v. (''payloadPath'', v) \<in> set (snd (events_request f))) \<Longrightarrow>
   \<exists>p v. (''payloadPath'', Some p) \<in> set (snd (events_request f)) \<and> (''payloadValue'', Some v) \<in> set (snd (events_request f)) \<and>
     p \<noteq> [] \<and> v \<noteq> []"
proof -
  let ?fs = "snd (ft_query f)"
  assume "\<exists>v. (''payloadPath'', v) \<in> set (snd (events_request f))"
  then obtain w where w: "(''payloadPath'', w) \<in> set (searchable ?fs)"
    by (auto simp: events_request_def split: option.splits)
  then have both: "has_text ?fs ''payloadPath'' \<and> has_text ?fs ''payloadValue''" "searchable ?fs = ?fs"
    by (auto simp: searchable_def split: if_splits)
  then obtain p v where "map_of ?fs ''payloadPath'' = Some p" "map_of ?fs ''payloadValue'' = Some v" "p \<noteq> []" "v \<noteq> []"
    by (auto simp: has_text_def split: option.splits)
  with both(2) show ?thesis
    by (force simp: events_request_def dest: map_of_SomeD)
qed

section \<open>Another project\<close>

text \<open>What outlives the screens: the four stores.\<close>

record 'd stores =
  so_deliveries :: deliveries_store
  so_stats :: "delivery_stats latest"
  so_events :: "'d events_store"
  so_endpoints :: endpoints_store

text \<open>\<open>reset\<close> of the deliveries store does not touch the statistics.\<close>

definition switch_project :: "'d stores \<Rightarrow> 'd stores" where
  "switch_project s = s\<lparr>so_endpoints := reset_endpoints (so_endpoints s), so_deliveries := reset_deliveries (so_deliveries s)\<rparr>"

text \<open>\<open>loadAll\<close> of the deliveries screen, and \<open>refresh\<close> of the store: the requests they start.\<close>

definition refresh_deliveries :: "'d stores \<Rightarrow> ((list_query fetch \<times> string list) \<times> ticket) \<times> 'd stores" where
  "refresh_deliveries s =
    (case pg_query (dl_list (so_deliveries s)) of (projectId, filters) \<Rightarrow>
     case load_deliveries projectId filters (so_deliveries s) of (f, d) \<Rightarrow>
     case start_latest (so_stats s) of (tk, l) \<Rightarrow> ((f, tk), s\<lparr>so_deliveries := d, so_stats := l\<rparr>))"

definition loadAll ::
  "string \<Rightarrow> (string \<times> string) list \<Rightarrow> 'd stores \<Rightarrow>
   ((list_query fetch \<times> string list) \<times> ticket \<times> ticket option) \<times> 'd stores" where
  "loadAll projectId filters s =
    (case load_deliveries projectId filters (so_deliveries s) of (f, d) \<Rightarrow>
     case start_latest (so_stats s) of (tk, l) \<Rightarrow>
     case load_endpoints projectId False (so_endpoints s) of
       Inl _ \<Rightarrow> ((f, tk, None), s\<lparr>so_deliveries := d, so_stats := l\<rparr>)
     | Inr (tk', e) \<Rightarrow> ((f, tk, Some tk'), s\<lparr>so_deliveries := d, so_stats := l, so_endpoints := e\<rparr>))"

text \<open>
  After a change of project the lists of deliveries and endpoints are empty, but the statistics and the
  events of the project that was left stay where they were until the new ones arrive, and the statistics
  stay for good when their request fails.
\<close>

lemma switch_project_lists:
  "pg_items (dl_list (so_deliveries (switch_project s))) = []" "dl_pendingIds (so_deliveries (switch_project s)) = []"
  "en_items (so_endpoints (switch_project s)) = []"
  by (simp_all add: switch_project_def reset_deliveries_def pager_reset_def reset_endpoints_def)

lemma switch_project_keeps_stats:
  assumes "loadAll p fs (switch_project s) = ((f, tk, r), s')"
  shows "lt_value (so_stats s') = lt_value (so_stats s)"
    "lt_value (settle_stats tk (Inl e) (so_stats s')) = lt_value (so_stats s)"
    "so_events s' = so_events s"
  using assms
  by (auto simp: loadAll_def switch_project_def start_latest_def start_run_def settle_stats_def settle_latest_def Let_def
      split: prod.splits sum.splits if_splits)

lemma events_of_the_last_project:
  assumes "load_events p fs (so_events (switch_project s)) = (f, s')"
  shows "pg_items (vs_list s') = pg_items (vs_list (so_events s))"
  using assms by (auto simp: load_events_def switch_project_def pager_load_def start_run_def Let_def split: prod.splits)

section \<open>Subscriptions of the screens\<close>

text \<open>
  A closure made by a screen: which instance of the screen made it and for which event.  Closures of
  different instances are different values.
\<close>

datatype closure = Live_Row nat string | Mark_Disabled nat

definition REALTIME_EVENTS :: "string list" where
  "REALTIME_EVENTS = [''delivery.created'', ''delivery.attempted'', ''delivery.succeeded'', ''delivery.failed'']"

definition push_name :: "push \<Rightarrow> string" where
  "push_name e =
    (case e of Created _ \<Rightarrow> ''delivery.created'' | Emitted (DeliverySucceeded _ _ _ _ _) \<Rightarrow> ''delivery.succeeded''
     | Emitted (DeliveryAttempted _ _ _ _ _) \<Rightarrow> ''delivery.attempted'' | Emitted (DeliveryFailed _ _ _ _ _ _) \<Rightarrow> ''delivery.failed''
     | Emitted (EndpointDisabled _ _ _) \<Rightarrow> ''endpoint.disabled'')"

definition call_closure :: "closure \<Rightarrow> push \<Rightarrow> 'd stores \<Rightarrow> 'd stores" where
  "call_closure h e s =
    (case h of
       Live_Row _ _ \<Rightarrow> s\<lparr>so_deliveries := applyRealtime e (so_deliveries s)\<rparr>
     | Mark_Disabled _ \<Rightarrow>
        (case e of Emitted (EndpointDisabled ep n _) \<Rightarrow> s\<lparr>so_endpoints := markDisabled ep n (so_endpoints s)\<rparr> | _ \<Rightarrow> s))"

definition mount_deliveries :: "nat \<Rightarrow> closure handlers \<Rightarrow> closure handlers" where
  "mount_deliveries k hs = fold (\<lambda>e. on_event e (Live_Row k e)) REALTIME_EVENTS hs"

definition unmount_deliveries :: "nat \<Rightarrow> closure handlers \<Rightarrow> closure handlers" where
  "unmount_deliveries k hs = fold (\<lambda>e. off_event e (Live_Row k e)) REALTIME_EVENTS hs"

definition mount_endpoints :: "nat \<Rightarrow> closure handlers \<Rightarrow> closure handlers" where
  "mount_endpoints k hs = on_event ''endpoint.disabled'' (Mark_Disabled k) hs"

definition unmount_endpoints :: "nat \<Rightarrow> closure handlers \<Rightarrow> closure handlers" where
  "unmount_endpoints k hs = off_event ''endpoint.disabled'' (Mark_Disabled k) hs"

lemma handlers_mount:
  "handlers_of (mount_deliveries k hs) e =
    (if e \<in> set REALTIME_EVENTS \<and> Live_Row k e \<notin> set (handlers_of hs e) then handlers_of hs e @ [Live_Row k e] else handlers_of hs e)"
  "handlers_of (mount_endpoints k hs) e =
    (if e = ''endpoint.disabled'' \<and> Mark_Disabled k \<notin> set (handlers_of hs e) then handlers_of hs e @ [Mark_Disabled k] else handlers_of hs e)"
  by (auto simp: mount_deliveries_def mount_endpoints_def REALTIME_EVENTS_def handlers_of_on)

lemma handlers_unmount:
  "handlers_of (unmount_deliveries k hs) e =
    (if e \<in> set REALTIME_EVENTS then filter (\<lambda>h. h \<noteq> Live_Row k e) (handlers_of hs e) else handlers_of hs e)"
  "handlers_of (unmount_endpoints k hs) e =
    (if e = ''endpoint.disabled'' then filter (\<lambda>h. h \<noteq> Mark_Disabled k) (handlers_of hs e) else handlers_of hs e)"
  by (auto simp: unmount_deliveries_def unmount_endpoints_def REALTIME_EVENTS_def handlers_of_off)

text \<open>A screen that goes takes its subscriptions with it and leaves those of others.\<close>

lemma mount_unmount:
  assumes "\<And>e. Live_Row k e \<notin> set (handlers_of hs e)"
  shows "handlers_of (unmount_deliveries k (mount_deliveries k hs)) e = handlers_of hs e"
  using assms[of e] by (auto simp: handlers_unmount handlers_mount intro!: filter_True)

text \<open>While one deliveries screen is mounted, a message changes the store exactly once.\<close>

lemma message_applied_once:
  assumes "handlers_of hs (push_name e) = []" "\<And>ep n t. e \<noteq> Emitted (EndpointDisabled ep n t)"
  shows "emitLocal call_closure (mount_deliveries k hs) (push_name e) e s
    = s\<lparr>so_deliveries := applyRealtime e (so_deliveries s)\<rparr>"
proof -
  have "push_name e \<in> set REALTIME_EVENTS"
    using assms(2) by (auto simp: push_name_def REALTIME_EVENTS_def split: push.split realtime_event.split)
  then show ?thesis using assms(1) by (simp add: emitLocal_def handlers_mount call_closure_def)
qed

section \<open>A message during a reload\<close>

text \<open>
  A reload answers with the rows as they were when the API read them.  A message that arrives in
  between changes the rows on screen, which the answer then replaces: the change is lost, and after
  the last message of a delivery nothing brings it back until the next reload.
\<close>

lemma message_lost_to_a_reload:
  assumes "load_deliveries p fs s = (fc, s1)"
  shows "pg_items (dl_list (settle_deliveries fc (Inr (rows, c)) (applyRealtime e s1))) = rows"
  using assms
  by (auto simp: load_deliveries_def pager_load_def start_run_def settle_deliveries_def settlePending_def pager_settle_def
      is_current_def applyRealtime_list list_answered_def Let_def split: prod.splits)

section \<open>Navigation\<close>

definition deliveries_route :: "string \<Rightarrow> location" where
  "deliveries_route i =
    \<lparr>lo_name = R_deliveries, lo_projectId = Some i, lo_fullPath = ''/projects/'' @ i @ ''/deliveries'', lo_redirect = None\<rparr>"

definition switchProject :: "string \<Rightarrow> menus \<Rightarrow> menus \<times> location" where
  "switchProject i m = (closeMenus m, deliveries_route i)"

text \<open>The new project is shown once the memberships have been read again; a failed read leaves the page where it is.\<close>

definition onProjectCreated :: "string \<Rightarrow> me_reply \<Rightarrow> auth_store \<Rightarrow> location option \<times> auth_store" where
  "onProjectCreated i me_answer s =
    (case loadMe me_answer s of (Inr _, s') \<Rightarrow> (Some (deliveries_route i), s') | (Inl _, s') \<Rightarrow> (None, s'))"

definition onCancel :: "auth_store \<Rightarrow> location" where
  "onCancel s = (case auth_projects s of (p, _) # _ \<Rightarrow> deliveries_route (up_id p) | [] \<Rightarrow> login_route ''/'')"

definition openProjectDialog :: "menus \<Rightarrow> string \<times> menus \<times> bool" where
  "openProjectDialog m = (if mn_nav m then ''navMenuButton'' else ''projectMenuRoot'', closeMenus m, True)"

text \<open>A project just created is reached: the guard admits the page once its membership was read.\<close>

lemma created_project_is_reached:
  assumes "onProjectCreated i (Me u ms) s = (Some l, s')" "isAuthenticated s" "\<exists>m \<in> set ms. up_id (um_project m) = i"
  shows "guard s' l = Admit"
  using assms
  by (auto simp: onProjectCreated_def loadMe_def guard_def guest_route_def deliveries_route_def isAuthenticated_def roleIn_def
      find_None_iff)

text \<open>Cancelling the first project leads, over the sign-in page and the guard, back to the form.\<close>

lemma cancel_without_project:
  assumes "isAuthenticated s" "auth_projects s = []"
  shows "guard s (onCancel s) = Redirect (landingRoute s)" "lo_name (landingRoute s) = R_new_project"
  using assms by (simp_all add: onCancel_def guard_def guest_route_def login_route_def landingRoute_def)

end
