(* ===== verification/Openapi.thy ===== *)
theory Openapi
  imports Route_Guards
begin

text \<open>
  \<open>src/backend/src/api/openapi/document.js\<close>: the operations the OpenAPI document lists, each with its path,
  method, security scheme, the request schema it names, the successful answers with the \<open>id\<close> of their
  schema in \<open>schemas/responses.js\<close>, and the problems.  Descriptions and the shapes inside a schema are left
  out.  The lemmas compare the list with the routers of \<open>Routes\<close>.
\<close>

section \<open>The document\<close>

datatype segment = Lit string | Param string

record operation =
  oa_path :: "segment list"
  oa_method :: string
  oa_id :: string
  oa_scheme :: "string option"
  oa_body :: "string option"
  oa_success :: "(int \<times> string option) list"
  oa_problems :: "int list"

definition API_KEY_SCHEME :: string where "API_KEY_SCHEME = ''apiKey''"
definition USER_JWT_SCHEME :: string where "USER_JWT_SCHEME = ''userJwt''"

definition documented_failures :: "int list" where
  "documented_failures = [400, 401, 403, 404, 409, 413, 422, 429]"

definition entry ::
  "segment list \<Rightarrow> string \<Rightarrow> string \<Rightarrow> string option \<Rightarrow> string option \<Rightarrow> (int \<times> string option) list \<Rightarrow> int list \<Rightarrow> operation" where
  "entry path m i scheme b success problems =
    \<lparr>oa_path = path, oa_method = m, oa_id = i, oa_scheme = scheme, oa_body = b, oa_success = success, oa_problems = problems\<rparr>"

text \<open>\<open>...dashboard\<close>\<close>

definition dashboard :: "segment list \<Rightarrow> string \<Rightarrow> string \<Rightarrow> string option \<Rightarrow> (int \<times> string option) list \<Rightarrow> int list \<Rightarrow> operation" where
  "dashboard path m i b success problems = entry (Lit ''v1'' # path) m i (Some USER_JWT_SCHEME) b success problems"

definition ingestion_paths :: "operation list" where
  "ingestion_paths =
    [entry [Lit ''v1'', Lit ''publish''] ''POST'' ''publishEvent'' (Some API_KEY_SCHEME) (Some ''publishSchema'')
       [(202, Some ''PublishAccepted'')] [400, 401, 409, 413, 422, 429]]"

definition auth_paths :: "operation list" where
  "auth_paths =
    [entry [Lit ''v1'', Lit ''auth'', Lit ''register''] ''POST'' ''register'' None (Some ''registerSchema'')
       [(201, Some ''Session'')] [400, 409, 429],
     entry [Lit ''v1'', Lit ''auth'', Lit ''login''] ''POST'' ''login'' None (Some ''loginSchema'')
       [(200, Some ''Session'')] [400, 401, 429],
     entry [Lit ''v1'', Lit ''auth'', Lit ''refresh''] ''POST'' ''refreshSession'' None None [(200, Some ''AccessToken'')] [401, 429],
     entry [Lit ''v1'', Lit ''auth'', Lit ''logout''] ''POST'' ''logout'' None None [(204, None)] [],
     entry [Lit ''v1'', Lit ''auth'', Lit ''me''] ''GET'' ''currentUser'' (Some USER_JWT_SCHEME) None [(200, Some ''Me'')] [401]]"

abbreviation in_project :: "segment list \<Rightarrow> segment list" where
  "in_project rest \<equiv> Lit ''projects'' # Param ''projectId'' # rest"

definition project_paths :: "operation list" where
  "project_paths =
    [dashboard [Lit ''projects''] ''GET'' ''listProjects'' None [(200, Some ''ProjectList'')] [401],
     dashboard [Lit ''projects''] ''POST'' ''createProject'' (Some ''projectSchema'') [(201, Some ''Project'')] [400, 401],
     dashboard (in_project []) ''PATCH'' ''renameProject'' (Some ''projectSchema'') [(200, Some ''Project'')] [400, 401, 403, 404],
     dashboard (in_project [Lit ''members'']) ''GET'' ''listMembers'' None [(200, Some ''MemberList'')] [401, 404],
     dashboard (in_project [Lit ''members'']) ''POST'' ''addMember'' (Some ''memberSchema'') [(201, Some ''Member'')]
       [400, 401, 403, 404, 409, 422],
     dashboard (in_project [Lit ''members'', Param ''userId'']) ''DELETE'' ''removeMember'' None [(204, None)] [401, 403, 404, 409],
     dashboard (in_project [Lit ''api-keys'']) ''GET'' ''listApiKeys'' None [(200, Some ''ApiKeyList'')] [401, 404],
     dashboard (in_project [Lit ''api-keys'']) ''POST'' ''createApiKey'' (Some ''apiKeySchema'') [(201, Some ''ApiKeyCreated'')]
       [400, 401, 403, 404],
     dashboard (in_project [Lit ''api-keys'', Param ''keyId'']) ''DELETE'' ''revokeApiKey'' None [(200, Some ''ApiKey'')] [401, 403, 404],
     dashboard (in_project [Lit ''endpoints'']) ''GET'' ''listEndpoints'' None [(200, Some ''EndpointList'')] [401, 404],
     dashboard (in_project [Lit ''endpoints'']) ''POST'' ''createEndpoint'' (Some ''endpointCreateSchema'')
       [(201, Some ''EndpointCreated'')] [400, 401, 403, 404, 422],
     dashboard (in_project [Lit ''events'']) ''GET'' ''listEvents'' None [(200, Some ''EventList'')] [400, 401, 404],
     dashboard (in_project [Lit ''deliveries'']) ''GET'' ''listDeliveries'' None [(200, Some ''DeliveryList'')] [400, 401, 404],
     dashboard (in_project [Lit ''deliveries'', Lit ''bulk-replay'']) ''POST'' ''bulkReplayDeliveries'' (Some ''bulkReplaySchema'')
       [(202, Some ''BulkReplay'')] [400, 401, 404],
     dashboard (in_project [Lit ''stats'']) ''GET'' ''projectStats'' None [(200, Some ''Stats'')] [401, 404]]"

abbreviation at_endpoint :: "segment list \<Rightarrow> segment list" where
  "at_endpoint rest \<equiv> Lit ''endpoints'' # Param ''endpointId'' # rest"

definition endpoint_paths :: "operation list" where
  "endpoint_paths =
    [dashboard (at_endpoint []) ''PATCH'' ''updateEndpoint'' (Some ''endpointUpdateSchema'') [(200, Some ''Endpoint'')] [400, 401, 404, 422],
     dashboard (at_endpoint []) ''DELETE'' ''deleteEndpoint'' None [(204, None)] [401, 403, 404, 409],
     dashboard (at_endpoint [Lit ''rotate-secret'']) ''POST'' ''rotateEndpointSecret'' None [(200, Some ''EndpointRotated'')] [401, 403, 404],
     dashboard (at_endpoint [Lit ''enable'']) ''POST'' ''enableEndpoint'' None [(200, Some ''Endpoint'')] [401, 404],
     dashboard (at_endpoint [Lit ''disable'']) ''POST'' ''disableEndpoint'' None [(200, Some ''Endpoint'')] [401, 404],
     dashboard (at_endpoint [Lit ''test'']) ''POST'' ''testEndpoint'' None [(202, Some ''PublishAccepted'')] [401, 404, 422]]"

definition history_paths :: "operation list" where
  "history_paths =
    [dashboard [Lit ''events'', Param ''eventId''] ''GET'' ''getEvent'' None [(200, Some ''Event'')] [401, 404],
     dashboard [Lit ''deliveries'', Param ''deliveryId''] ''GET'' ''getDelivery'' None [(200, Some ''DeliveryDetail'')] [401, 404],
     dashboard [Lit ''deliveries'', Param ''deliveryId'', Lit ''replay''] ''POST'' ''replayDelivery'' None [(202, Some ''Delivery'')] [401, 404]]"

definition operational_paths :: "operation list" where
  "operational_paths =
    [entry [Lit ''health''] ''GET'' ''health'' None None [(200, Some ''Health'')] [],
     entry [Lit ''ready''] ''GET'' ''ready'' None None [(200, Some ''Ready''), (503, Some ''Ready'')] [],
     entry [Lit ''metrics''] ''GET'' ''metrics'' None None [(200, None)] []]"

text \<open>The documentation's own two pages, which another router serves.\<close>

definition documentation_paths :: "operation list" where
  "documentation_paths =
    [entry [Lit ''docs''] ''GET'' ''docs'' None None [(200, None)] [],
     entry [Lit ''openapi.json''] ''GET'' ''openApiDocument'' None None [(200, None)] []]"

definition document :: "operation list" where
  "document = ingestion_paths @ auth_paths @ project_paths @ endpoint_paths @ history_paths @ operational_paths @ documentation_paths"

lemmas document_defs = document_def ingestion_paths_def auth_paths_def project_paths_def endpoint_paths_def history_paths_def
  operational_paths_def documentation_paths_def dashboard_def entry_def

section \<open>Reading it\<close>

fun fits :: "segment list \<Rightarrow> string list \<Rightarrow> bool" where
  "fits [] [] = True"
| "fits (Lit l # ss) (c # cs) = (l = c \<and> fits ss cs)"
| "fits (Param _ # ss) (c # cs) = fits ss cs"
| "fits _ _ = False"

definition documented :: "string \<Rightarrow> string list \<Rightarrow> operation option" where
  "documented m path = find (\<lambda>oa. oa_method oa = m \<and> fits (oa_path oa) path) document"

text \<open>The schema of \<open>schemas/responses.js\<close> that describes a body.\<close>

fun schema_of :: "body \<Rightarrow> string option" where
  "schema_of NoBody = None"
| "schema_of (Kept _) = Some ''PublishAccepted''"
| "schema_of (Accepted _) = Some ''PublishAccepted''"
| "schema_of (SessionBody u _ _) = (if u = None then Some ''AccessToken'' else Some ''Session'')"
| "schema_of (MeBody _ _) = Some ''Me''"
| "schema_of (ProjectsBody _) = Some ''ProjectList''"
| "schema_of (ProjectBody _ _) = Some ''Project''"
| "schema_of (MembersBody _) = Some ''MemberList''"
| "schema_of (MemberBody _ _) = Some ''Member''"
| "schema_of (KeysBody _) = Some ''ApiKeyList''"
| "schema_of (NewKeyBody _ _) = Some ''ApiKeyCreated''"
| "schema_of (KeyBody _) = Some ''ApiKey''"
| "schema_of (EndpointsBody _) = Some ''EndpointList''"
| "schema_of (EndpointBody _) = Some ''Endpoint''"
| "schema_of (SecretBody _ _ until) = (if until = None then Some ''EndpointCreated'' else Some ''EndpointRotated'')"
| "schema_of (EventsBody _ _) = Some ''EventList''"
| "schema_of (EventBody _ _) = Some ''Event''"
| "schema_of (DeliveriesBody _ _) = Some ''DeliveryList''"
| "schema_of (DeliveryBody _ _ _) = Some ''DeliveryDetail''"
| "schema_of (ReplayBody _) = Some ''Delivery''"
| "schema_of (BulkReplayBody _) = Some ''BulkReplay''"
| "schema_of (StatsBody _) = Some ''Stats''"
| "schema_of HealthBody = Some ''Health''"
| "schema_of (ReadyBody _ _) = Some ''Ready''"
| "schema_of (MetricsBody _) = None"
| "schema_of (ProblemBody _) = Some ''Problem''"

definition conforms :: "string \<Rightarrow> string list \<Rightarrow> response \<Rightarrow> bool" where
  "conforms m path r \<longleftrightarrow>
    (\<exists>oa. documented m path = Some oa \<and>
      ((rs_status r, schema_of (rs_body r)) \<in> set (oa_success oa) \<or> oa_id oa = ''publishEvent'' \<and> (\<exists>kept. rs_body r = Kept kept)))"

section \<open>Each entry is found\<close>

lemma at_ingestion_paths:
  "documented ''POST'' [''v1'', ''publish''] = Some (entry [Lit ''v1'', Lit ''publish''] ''POST'' ''publishEvent'' (Some API_KEY_SCHEME) (Some ''publishSchema'') [(202, Some ''PublishAccepted'')] [400, 401, 409, 413, 422, 429])"
  by (simp_all add: documented_def document_defs)

lemma at_auth_paths:
  "documented ''POST'' [''v1'', ''auth'', ''register''] = Some (entry [Lit ''v1'', Lit ''auth'', Lit ''register''] ''POST'' ''register'' None (Some ''registerSchema'') [(201, Some ''Session'')] [400, 409, 429])"
  "documented ''POST'' [''v1'', ''auth'', ''login''] = Some (entry [Lit ''v1'', Lit ''auth'', Lit ''login''] ''POST'' ''login'' None (Some ''loginSchema'') [(200, Some ''Session'')] [400, 401, 429])"
  "documented ''POST'' [''v1'', ''auth'', ''refresh''] = Some (entry [Lit ''v1'', Lit ''auth'', Lit ''refresh''] ''POST'' ''refreshSession'' None None [(200, Some ''AccessToken'')] [401, 429])"
  "documented ''POST'' [''v1'', ''auth'', ''logout''] = Some (entry [Lit ''v1'', Lit ''auth'', Lit ''logout''] ''POST'' ''logout'' None None [(204, None)] [])"
  "documented ''GET'' [''v1'', ''auth'', ''me''] = Some (entry [Lit ''v1'', Lit ''auth'', Lit ''me''] ''GET'' ''currentUser'' (Some USER_JWT_SCHEME) None [(200, Some ''Me'')] [401])"
  by (simp_all add: documented_def document_defs)

lemma at_project_paths:
  "documented ''GET'' [''v1'', ''projects''] = Some (dashboard [Lit ''projects''] ''GET'' ''listProjects'' None [(200, Some ''ProjectList'')] [401])"
  "documented ''POST'' [''v1'', ''projects''] = Some (dashboard [Lit ''projects''] ''POST'' ''createProject'' (Some ''projectSchema'') [(201, Some ''Project'')] [400, 401])"
  "documented ''PATCH'' [''v1'', ''projects'', p] = Some (dashboard (in_project []) ''PATCH'' ''renameProject'' (Some ''projectSchema'') [(200, Some ''Project'')] [400, 401, 403, 404])"
  "documented ''GET'' [''v1'', ''projects'', p, ''members''] = Some (dashboard (in_project [Lit ''members'']) ''GET'' ''listMembers'' None [(200, Some ''MemberList'')] [401, 404])"
  "documented ''POST'' [''v1'', ''projects'', p, ''members''] = Some (dashboard (in_project [Lit ''members'']) ''POST'' ''addMember'' (Some ''memberSchema'') [(201, Some ''Member'')] [400, 401, 403, 404, 409, 422])"
  "documented ''DELETE'' [''v1'', ''projects'', p, ''members'', x] = Some (dashboard (in_project [Lit ''members'', Param ''userId'']) ''DELETE'' ''removeMember'' None [(204, None)] [401, 403, 404, 409])"
  "documented ''GET'' [''v1'', ''projects'', p, ''api-keys''] = Some (dashboard (in_project [Lit ''api-keys'']) ''GET'' ''listApiKeys'' None [(200, Some ''ApiKeyList'')] [401, 404])"
  "documented ''POST'' [''v1'', ''projects'', p, ''api-keys''] = Some (dashboard (in_project [Lit ''api-keys'']) ''POST'' ''createApiKey'' (Some ''apiKeySchema'') [(201, Some ''ApiKeyCreated'')] [400, 401, 403, 404])"
  "documented ''DELETE'' [''v1'', ''projects'', p, ''api-keys'', x] = Some (dashboard (in_project [Lit ''api-keys'', Param ''keyId'']) ''DELETE'' ''revokeApiKey'' None [(200, Some ''ApiKey'')] [401, 403, 404])"
  "documented ''GET'' [''v1'', ''projects'', p, ''endpoints''] = Some (dashboard (in_project [Lit ''endpoints'']) ''GET'' ''listEndpoints'' None [(200, Some ''EndpointList'')] [401, 404])"
  "documented ''POST'' [''v1'', ''projects'', p, ''endpoints''] = Some (dashboard (in_project [Lit ''endpoints'']) ''POST'' ''createEndpoint'' (Some ''endpointCreateSchema'') [(201, Some ''EndpointCreated'')] [400, 401, 403, 404, 422])"
  "documented ''GET'' [''v1'', ''projects'', p, ''events''] = Some (dashboard (in_project [Lit ''events'']) ''GET'' ''listEvents'' None [(200, Some ''EventList'')] [400, 401, 404])"
  "documented ''GET'' [''v1'', ''projects'', p, ''deliveries''] = Some (dashboard (in_project [Lit ''deliveries'']) ''GET'' ''listDeliveries'' None [(200, Some ''DeliveryList'')] [400, 401, 404])"
  "documented ''POST'' [''v1'', ''projects'', p, ''deliveries'', ''bulk-replay''] = Some (dashboard (in_project [Lit ''deliveries'', Lit ''bulk-replay'']) ''POST'' ''bulkReplayDeliveries'' (Some ''bulkReplaySchema'') [(202, Some ''BulkReplay'')] [400, 401, 404])"
  "documented ''GET'' [''v1'', ''projects'', p, ''stats''] = Some (dashboard (in_project [Lit ''stats'']) ''GET'' ''projectStats'' None [(200, Some ''Stats'')] [401, 404])"
  by (simp_all add: documented_def document_defs)

lemma at_endpoint_paths:
  "documented ''PATCH'' [''v1'', ''endpoints'', p] = Some (dashboard (at_endpoint []) ''PATCH'' ''updateEndpoint'' (Some ''endpointUpdateSchema'') [(200, Some ''Endpoint'')] [400, 401, 404, 422])"
  "documented ''DELETE'' [''v1'', ''endpoints'', p] = Some (dashboard (at_endpoint []) ''DELETE'' ''deleteEndpoint'' None [(204, None)] [401, 403, 404, 409])"
  "documented ''POST'' [''v1'', ''endpoints'', p, ''rotate-secret''] = Some (dashboard (at_endpoint [Lit ''rotate-secret'']) ''POST'' ''rotateEndpointSecret'' None [(200, Some ''EndpointRotated'')] [401, 403, 404])"
  "documented ''POST'' [''v1'', ''endpoints'', p, ''enable''] = Some (dashboard (at_endpoint [Lit ''enable'']) ''POST'' ''enableEndpoint'' None [(200, Some ''Endpoint'')] [401, 404])"
  "documented ''POST'' [''v1'', ''endpoints'', p, ''disable''] = Some (dashboard (at_endpoint [Lit ''disable'']) ''POST'' ''disableEndpoint'' None [(200, Some ''Endpoint'')] [401, 404])"
  "documented ''POST'' [''v1'', ''endpoints'', p, ''test''] = Some (dashboard (at_endpoint [Lit ''test'']) ''POST'' ''testEndpoint'' None [(202, Some ''PublishAccepted'')] [401, 404, 422])"
  by (simp_all add: documented_def document_defs)

lemma at_history_paths:
  "documented ''GET'' [''v1'', ''events'', x] = Some (dashboard [Lit ''events'', Param ''eventId''] ''GET'' ''getEvent'' None [(200, Some ''Event'')] [401, 404])"
  "documented ''GET'' [''v1'', ''deliveries'', x] = Some (dashboard [Lit ''deliveries'', Param ''deliveryId''] ''GET'' ''getDelivery'' None [(200, Some ''DeliveryDetail'')] [401, 404])"
  "documented ''POST'' [''v1'', ''deliveries'', x, ''replay''] = Some (dashboard [Lit ''deliveries'', Param ''deliveryId'', Lit ''replay''] ''POST'' ''replayDelivery'' None [(202, Some ''Delivery'')] [401, 404])"
  by (simp_all add: documented_def document_defs)

lemma at_operational_paths:
  "documented ''GET'' [''health''] = Some (entry [Lit ''health''] ''GET'' ''health'' None None [(200, Some ''Health'')] [])"
  "documented ''GET'' [''ready''] = Some (entry [Lit ''ready''] ''GET'' ''ready'' None None [(200, Some ''Ready''), (503, Some ''Ready'')] [])"
  "documented ''GET'' [''metrics''] = Some (entry [Lit ''metrics''] ''GET'' ''metrics'' None None [(200, None)] [])"
  by (simp_all add: documented_def document_defs)

lemmas documented_at = at_ingestion_paths at_auth_paths at_project_paths at_endpoint_paths at_history_paths at_operational_paths

section \<open>What is served is documented\<close>

definition yields :: "(response \<Rightarrow> bool) \<Rightarrow> response app_act \<Rightarrow> bool" where
  "yields P m \<longleftrightarrow> (\<forall>s r s'. m s = (Inr r, s') \<longrightarrow> P r)"

definition serves :: "(response \<Rightarrow> bool) \<Rightarrow> response option app_act \<Rightarrow> bool" where
  "serves P m \<longleftrightarrow> (\<forall>s r s'. m s = (Inr (Some r), s') \<longrightarrow> P r)"

lemma yields_rules:
  "P r \<Longrightarrow> yields P (io_ret r)" "(\<And>a. yields P (f a)) \<Longrightarrow> yields P (io_bind m f)" "yields P k \<Longrightarrow> yields P (io_seq n k)"
  by (auto simp: yields_def io_ret_def io_bind_def io_seq_def split: prod.splits sum.splits)

lemma serves_rules:
  "serves P (io_ret None)" "P r \<Longrightarrow> serves P (io_ret (Some r))"
  "(\<And>a. serves P (f a)) \<Longrightarrow> serves P (io_bind m f)" "serves P k \<Longrightarrow> serves P (io_seq n k)"
  and serves_answered: "yields P y \<Longrightarrow> serves P (io_bind y (\<lambda>r. io_ret (Some r)))"
  by (auto simp: serves_def yields_def io_ret_def io_bind_def io_seq_def split: prod.splits sum.splits)

lemma serves_or_else: "serves P m \<Longrightarrow> serves P n \<Longrightarrow> serves P (or_else m n)"
  unfolding or_else_def serves_def io_bind_def io_ret_def
  by (fastforce split: prod.splits sum.splits option.splits)

fun route_success :: "project_route \<Rightarrow> int \<times> string option" where
  "route_success ListProjects = (200, Some ''ProjectList'')"
| "route_success CreateProject = (201, Some ''Project'')"
| "route_success (UpdateProject _) = (200, Some ''Project'')"
| "route_success (ListMembers _) = (200, Some ''MemberList'')"
| "route_success (AddMember _) = (201, Some ''Member'')"
| "route_success (RemoveMember _ _) = (204, None)"
| "route_success (ListKeys _) = (200, Some ''ApiKeyList'')"
| "route_success (CreateKey _) = (201, Some ''ApiKeyCreated'')"
| "route_success (RevokeKey _ _) = (200, Some ''ApiKey'')"
| "route_success (ListEndpoints _) = (200, Some ''EndpointList'')"
| "route_success (CreateEndpoint _) = (201, Some ''EndpointCreated'')"
| "route_success (ListEvents _) = (200, Some ''EventList'')"
| "route_success (ListDeliveries _) = (200, Some ''DeliveryList'')"
| "route_success (BulkReplay _) = (202, Some ''BulkReplay'')"
| "route_success (ProjectStats _) = (200, Some ''Stats'')"

lemmas entry_defs = dashboard_def entry_def

lemma documented_project:
  assumes "project_route_of m p = Some rt"
  shows "\<exists>oa. documented m (''v1'' # p) = Some oa \<and> route_success rt \<in> set (oa_success oa) \<and> oa_scheme oa = Some USER_JWT_SCHEME"
proof -
  consider c where "p = [c]" | c i where "p = [c, i]" | c i r where "p = [c, i, r]" | c i r x where "p = [c, i, r, x]"
    using assms by (auto simp: project_route_of_def split: list.splits)
  then show ?thesis
    by cases (use assms in \<open>auto simp: project_route_of_def documented_at entry_defs split: if_splits\<close>)
qed

lemma project_handler_yields:
  "yields (\<lambda>r. (rs_status r, schema_of (rs_body r)) = route_success rt) (project_handler ad rq body a rt)"
  by (cases rt) (auto intro!: yields_rules simp: answer_def split: prod.split)

lemma conforms_documented:
  "documented m path = Some oa \<Longrightarrow> (rs_status r, schema_of (rs_body r)) \<in> set (oa_success oa) \<Longrightarrow> conforms m path r"
  by (simp add: conforms_def)

lemma yields_weaken: "yields P m \<Longrightarrow> (\<And>r. P r \<Longrightarrow> Q r) \<Longrightarrow> yields Q m"
  by (simp add: yields_def)

lemma serves_project: "serves (conforms (rq_method rq) (''v1'' # rq_path rq)) (project_router ad rq body)"
proof -
  have "yields (conforms (rq_method rq) (''v1'' # rq_path rq)) (project_handler ad rq body a rt)"
    if rt: "project_route_of (rq_method rq) (rq_path rq) = Some rt" for a rt
    by (rule yields_weaken[OF project_handler_yields]) (use documented_project[OF rt] conforms_documented in fastforce)
  then show ?thesis
    unfolding project_router_def
    by (auto intro!: serves_rules(3)[where m = "authenticated ad rq"] serves_rules(1,4) serves_answered split: option.split)
qed

lemmas conforming = conforms_def documented_at entry_defs answer_def

lemma serves_cases:
  "(b \<Longrightarrow> serves P x) \<Longrightarrow> (\<not> b \<Longrightarrow> serves P y) \<Longrightarrow> serves P (if b then x else y)"
  "(xs = [] \<Longrightarrow> serves P n) \<Longrightarrow> (\<And>c cs. xs = c # cs \<Longrightarrow> serves P (f c cs)) \<Longrightarrow> serves P (case xs of [] \<Rightarrow> n | c # cs \<Rightarrow> f c cs)"
  "(\<And>a b. q = (a, b) \<Longrightarrow> serves P (g a b)) \<Longrightarrow> serves P (case q of (a, b) \<Rightarrow> g a b)"
  by (auto split: list.split prod.split)

lemma yields_cases: "(\<And>a b. q = (a, b) \<Longrightarrow> yields P (g a b)) \<Longrightarrow> yields P (case q of (a, b) \<Rightarrow> g a b)"
  by (auto split: prod.split)

lemma serves_endpoint: "serves (conforms (rq_method rq) (''v1'' # rq_path rq)) (endpoint_router ad rq body)"
  unfolding endpoint_router_def Let_def
  by (rule serves_rules(3), intro serves_cases serves_answered serves_rules(1) yields_cases yields_rules)
     (simp_all add: conforming)

lemma serves_delivery: "serves (conforms (rq_method rq) (''v1'' # rq_path rq)) (delivery_router ad rq)"
  unfolding delivery_router_def
  by (intro serves_cases serves_rules) (simp_all add: conforming)

lemma serves_event: "serves (conforms (rq_method rq) (''v1'' # rq_path rq)) (event_router ad rq)"
  unfolding event_router_def
  by (intro serves_cases serves_rules) (simp_all add: conforming)

lemma serves_metrics: "serves (conforms (rq_method rq) (rq_path rq)) (metrics_router ad rq)"
  unfolding metrics_router_def
  by (intro serves_cases serves_rules) (simp_all add: conforming)

lemma serves_auth: "serves (conforms (rq_method rq) (''v1'' # rq_path rq)) (auth_router ad rq body)"
  unfolding auth_router_def Let_def register_route_def login_route_def refresh_route_def logout_route_def me_route_def
  by (intro serves_cases serves_answered serves_rules(1) yields_cases yields_rules)
     (simp_all add: conforming respondWithSession_def)

lemma publish_handler_yields: "yields (\<lambda>r. rs_status r = 202 \<and> schema_of (rs_body r) = Some ''PublishAccepted'') (publish_handler ad a b key redisKey)"
  unfolding publish_handler_def by (intro yields_rules) (simp add: answer_def ACCEPTED_def)

lemma yields_headers: "yields P m \<Longrightarrow> (\<And>r h. P r \<Longrightarrow> Q (r\<lparr>rs_headers := h\<rparr>)) \<Longrightarrow> yields Q (io_bind m (\<lambda>r. io_ret (r\<lparr>rs_headers := h\<rparr>)))"
  by (auto simp: yields_def io_defs split: prod.splits sum.splits)

lemma publish_route_yields: "yields (conforms ''POST'' [''v1'', ''publish'']) (publish_route ad rq body)"
  unfolding publish_route_def Let_def
proof (rule yields_rules)+
  fix a headers b admission
  show "yields (conforms ''POST'' [''v1'', ''publish'']) (case admission of
      Replay st kept \<Rightarrow> io_ret \<lparr>rs_status = st, rs_headers = headers @ [(''Idempotency-Replayed'', ''true'')], rs_cookie = None, rs_body = Kept kept\<rparr>
    | Proceed \<Rightarrow> io_bind (publish_handler ad a b (publish_key ad rq b) (idem_key (app_sha256Hex ad) (ka_projectId a) (publish_key ad rq b)))
        (\<lambda>r. io_ret (r\<lparr>rs_headers := headers\<rparr>)))"
    by (cases admission) (auto intro!: yields_rules(1) yields_headers[OF publish_handler_yields] simp: conforming)
qed

lemma serves_publish: "serves (conforms (rq_method rq) (''v1'' # rq_path rq)) (publish_router ad rq body)"
  unfolding publish_router_def
  by (intro serves_cases serves_answered serves_rules(1)) (simp_all add: publish_route_yields)

lemma serves_health: "serves (conforms (rq_method rq) (rq_path rq)) (health_router rq)"
proof -
  have "yields (\<lambda>r. rs_status r \<in> {200, 503} \<and> schema_of (rs_body r) = Some ''Ready'') (on_world ready_route)"
    by (auto simp: yields_def on_world_def ready_route_def io_defs answer_def Let_def split: prod.splits sum.splits if_splits)
  then have "yields (conforms (rq_method rq) (rq_path rq)) (on_world ready_route)" if "rq_method rq = ''GET''" "rq_path rq = [''ready'']"
    using that by (auto simp: yields_def conforming)
  then show ?thesis
    unfolding health_router_def
    by (auto intro!: serves_answered serves_rules(1,2) simp: conforming)
qed

lemma serves_v1: "serves (conforms (rq_method rq) (''v1'' # rq_path rq)) (v1_routers ad rq)"
  unfolding v1_routers_def
  by (intro serves_rules(3) serves_or_else serves_publish serves_auth serves_project serves_endpoint serves_delivery serves_event)

lemma routed_conforms: "serves (conforms (rq_method rq) (rq_path rq)) (routed ad rq)"
  using serves_v1[of "rq\<lparr>rq_path := tl (rq_path rq)\<rparr>" ad]
  unfolding routed_def
  by (intro serves_or_else serves_health serves_metrics serves_cases serves_rules(1)) simp

section \<open>What is documented is served\<close>

definition answers :: "response option app_act \<Rightarrow> bool" where
  "answers m \<longleftrightarrow> (\<forall>s. fst (m s) \<noteq> Inr None)"

lemma answers_rules:
  "answers (io_ret (Some r))" "(\<And>a. answers (f a)) \<Longrightarrow> answers (io_bind m f)" "answers k \<Longrightarrow> answers (io_seq n k)"
  by (auto simp: answers_def io_defs split: prod.splits sum.splits)

lemma answers_or_else: "answers m \<or> answers n \<Longrightarrow> answers (or_else m n)"
  unfolding answers_def or_else_def io_defs
  by (auto split: prod.splits sum.splits option.splits) (metis fst_conv)+

lemma answers_v1:
  assumes "\<And>body. answers (publish_router ad rq body) \<or> answers (auth_router ad rq body) \<or> answers (project_router ad rq body)
      \<or> answers (endpoint_router ad rq body) \<or> answers (delivery_router ad rq) \<or> answers (event_router ad rq)"
  shows "answers (v1_routers ad rq)"
  unfolding v1_routers_def by (rule answers_rules(2)) (use assms in \<open>blast intro: answers_or_else\<close>)

lemma answers_project: "project_route_of (rq_method rq) (rq_path rq) \<noteq> None \<Longrightarrow> answers (project_router ad rq body)"
  unfolding project_router_def by (auto intro!: answers_rules)

lemma answers_resource:
  "rq_path rq = [''endpoints'', i] \<Longrightarrow> rq_method rq \<in> {''PATCH'', ''DELETE''} \<Longrightarrow> answers (endpoint_router ad rq body)"
  "rq_path rq = [''endpoints'', i, r] \<Longrightarrow> rq_method rq = ''POST'' \<Longrightarrow> r \<in> {''rotate-secret'', ''enable'', ''disable'', ''test''}
     \<Longrightarrow> answers (endpoint_router ad rq body)"
  "rq_path rq = [''deliveries'', i] \<Longrightarrow> rq_method rq = ''GET'' \<Longrightarrow> answers (delivery_router ad rq)"
  "rq_path rq = [''deliveries'', i, ''replay''] \<Longrightarrow> rq_method rq = ''POST'' \<Longrightarrow> answers (delivery_router ad rq)"
  "rq_path rq = [''events'', i] \<Longrightarrow> rq_method rq = ''GET'' \<Longrightarrow> answers (event_router ad rq)"
  unfolding endpoint_router_def delivery_router_def event_router_def Let_def
  by (auto intro!: answers_rules)

lemma answers_session:
  "rq_path rq = [''publish''] \<Longrightarrow> rq_method rq = ''POST'' \<Longrightarrow> answers (publish_router ad rq body)"
  "rq_path rq = [''auth'', r] \<Longrightarrow> rq_method rq = ''POST'' \<Longrightarrow> r \<in> {''register'', ''login'', ''refresh'', ''logout''} \<Longrightarrow> answers (auth_router ad rq body)"
  "rq_path rq = [''auth'', ''me''] \<Longrightarrow> rq_method rq = ''GET'' \<Longrightarrow> answers (auth_router ad rq body)"
  unfolding publish_router_def auth_router_def Let_def
  by (auto intro!: answers_rules)

lemma fits_Nil [simp]: "fits [] path \<longleftrightarrow> path = []"
  by (cases path) simp_all

lemma fits_Lit: "fits (Lit l # ss) path \<longleftrightarrow> (\<exists>cs. path = l # cs \<and> fits ss cs)"
  by (cases path) auto

lemma fits_Param: "fits (Param x # ss) path \<longleftrightarrow> (\<exists>c cs. path = c # cs \<and> fits ss cs)"
  by (cases path) auto

lemmas fits_iff = fits_Nil fits_Lit fits_Param

lemma documentedD:
  "documented m path = Some oa \<Longrightarrow> oa \<in> set document \<and> oa_method oa = m \<and> fits (oa_path oa) path"
  by (auto simp: documented_def dest: find_SomeD)

lemma answers_v1_entries:
  assumes "oa \<in> set (ingestion_paths @ auth_paths @ project_paths @ endpoint_paths @ history_paths)"
    "rq_method rq = oa_method oa" "fits (oa_path oa) (''v1'' # rq_path rq)"
  shows "answers (v1_routers ad rq)"
proof -
  consider "oa \<in> set ingestion_paths" | "oa \<in> set auth_paths" | "oa \<in> set project_paths" | "oa \<in> set endpoint_paths"
    | "oa \<in> set history_paths" using assms(1) by auto
  then show ?thesis
  proof cases
    case 1
    then have "answers (publish_router ad rq body)" for body
      using assms(2,3) by (auto simp: ingestion_paths_def entry_defs fits_iff intro!: answers_session)
    then show ?thesis by (intro answers_v1) blast
  next
    case 2
    then have "answers (auth_router ad rq body)" for body
      using assms(2,3) by (auto simp: auth_paths_def entry_defs fits_iff intro: answers_session)
    then show ?thesis by (intro answers_v1) blast
  next
    case 3
    then have "project_route_of (rq_method rq) (rq_path rq) \<noteq> None"
      using assms(2,3) by (auto simp: project_paths_def entry_defs fits_iff project_route_of_def)
    then show ?thesis by (intro answers_v1) (blast intro: answers_project)
  next
    case 4
    then have "answers (endpoint_router ad rq body)" for body
      using assms(2,3) by (auto simp: endpoint_paths_def entry_defs fits_iff intro: answers_resource)
    then show ?thesis by (intro answers_v1) blast
  next
    case 5
    then have "answers (delivery_router ad rq) \<or> answers (event_router ad rq)"
      using assms(2,3) by (auto simp: history_paths_def entry_defs fits_iff intro: answers_resource)
    then show ?thesis by (intro answers_v1) blast
  qed
qed

lemma answers_operational:
  assumes "oa \<in> set operational_paths" "rq_method rq = oa_method oa" "fits (oa_path oa) (rq_path rq)"
  shows "answers (routed ad rq)"
proof -
  have "answers (health_router rq) \<or> answers (metrics_router ad rq)"
    using assms
    by (auto simp: operational_paths_def entry_defs fits_iff health_router_def metrics_router_def intro!: answers_rules)
  then show ?thesis unfolding routed_def by (auto intro: answers_or_else)
qed

lemma documented_is_served:
  assumes "documented (rq_method rq) (rq_path rq) = Some oa" "oa \<notin> set documentation_paths"
  shows "answers (routed ad rq)"
proof -
  have oa: "oa \<in> set document" "rq_method rq = oa_method oa" "fits (oa_path oa) (rq_path rq)"
    using documentedD[OF assms(1)] by simp_all
  show ?thesis
  proof (cases "oa \<in> set operational_paths")
    case True
    then show ?thesis using oa by (intro answers_operational)
  next
    case False
    then have v1: "oa \<in> set (ingestion_paths @ auth_paths @ project_paths @ endpoint_paths @ history_paths)"
      using oa(1) assms(2) by (auto simp: document_def)
    then obtain ss where "oa_path oa = Lit ''v1'' # ss"
      by (auto simp: ingestion_paths_def auth_paths_def project_paths_def endpoint_paths_def history_paths_def entry_defs)
    then obtain p where p: "rq_path rq = ''v1'' # p" using oa(3) by (auto simp: fits_iff)
    then have "answers (v1_routers ad (rq\<lparr>rq_path := p\<rparr>))"
      using v1 oa by (intro answers_v1_entries) simp_all
    then show ?thesis unfolding routed_def p by (auto intro: answers_or_else)
  qed
qed

section \<open>Who is served\<close>

definition has_token :: "app_deps \<Rightarrow> request \<Rightarrow> bool" where
  "has_token ad rq \<longleftrightarrow>
    (\<exists>token payload t. bearerToken (rq_authorization rq) = Some token \<and> ad_verify ad t token = Inr payload)"

lemma authenticated_has_token: "wp (authenticated ad rq) (\<lambda>_ _. has_token ad rq) (\<lambda>_ _. True) s"
  unfolding authenticated_def wp_on_world
  by (rule wp_mono[OF jwtAuth_wp]) (auto simp: has_token_def)

lemma serves_authenticated: "serves (\<lambda>_. has_token ad rq) (io_bind (authenticated ad rq) f)"
proof -
  have "has_token ad rq" if "authenticated ad rq s = (Inr a, s')" for s a s'
    using authenticated_has_token[of ad rq s] that by (simp add: wp_def)
  note token = this
  have "has_token ad rq" if "io_bind (authenticated ad rq) f s = (Inr (Some r), s')" for s r s'
    using that token[of s]
    by (cases "authenticated ad rq s"; cases "fst (authenticated ad rq s)") (auto simp: io_bind_def)
  then show ?thesis by (auto simp: serves_def)
qed

lemma token_routes:
  assumes "documented (rq_method rq) (''v1'' # rq_path rq) = Some oa" "oa_scheme oa = Some USER_JWT_SCHEME"
  shows "serves (\<lambda>_. has_token ad rq) (v1_routers ad rq)"
proof -
  have "\<not> (rq_method rq = ''POST'' \<and> rq_path rq = [''publish''])"
    "\<not> (rq_method rq = ''POST'' \<and> rq_path rq = [''auth'', ''register''])"
    "\<not> (rq_method rq = ''POST'' \<and> rq_path rq = [''auth'', ''login''])"
    "\<not> (rq_method rq = ''POST'' \<and> rq_path rq = [''auth'', ''refresh''])"
    "\<not> (rq_method rq = ''POST'' \<and> rq_path rq = [''auth'', ''logout''])"
    using assms by (auto simp: documented_at entry_defs API_KEY_SCHEME_def USER_JWT_SCHEME_def)
  then have "serves (\<lambda>_. has_token ad rq) (publish_router ad rq body)" "serves (\<lambda>_. has_token ad rq) (auth_router ad rq body)" for body
    unfolding publish_router_def auth_router_def me_route_def Let_def io_bind_assoc
    by (simp_all only: if_False if_not_P serves_rules(1) serves_authenticated split: if_split) simp_all
  then show ?thesis
    unfolding v1_routers_def project_router_def endpoint_router_def delivery_router_def event_router_def
    by (intro serves_rules(3) serves_or_else serves_authenticated) blast+
qed

section \<open>Where the document says less\<close>

text \<open>The status of an error that the documented operation does not list.\<close>

definition undocumented :: "string \<Rightarrow> string list \<Rightarrow> exn \<Rightarrow> bool" where
  "undocumented m path e \<longleftrightarrow>
    (\<exists>oa. documented m path = Some oa \<and> status_of e \<notin> set (oa_problems oa) \<and> status_of e \<in> set documented_failures)"

lemmas status_defs = undocumented_def status_of_def errorHandler_def normalise_def toProblem_def app_error_defs Let_def
  documented_failures_def

lemma replay_conflict_undocumented: "undocumented ''POST'' [''v1'', ''deliveries'', i, ''replay''] (replay_conflict st)"
  by (simp add: status_defs documented_at entry_defs replay_conflict_def)

definition not_owner :: exn where
  "not_owner = App (ForbiddenError ''This action is reserved for the project owner'')"

lemma owner_only:
  assumes "faults w = []" "get_endpoint w i = Some e" "membershipFor ms (e_projectId e) = Some m" "am_role m = MEMBER"
  shows "fst (enable i ms w) = Inl not_owner" "fst (disable i ms w) = Inl not_owner" "fst (update_endpoint_row es i ms p w) = Inl not_owner"
    and "undocumented ''POST'' [''v1'', ''endpoints'', i, ''enable''] not_owner"
    and "undocumented ''POST'' [''v1'', ''endpoints'', i, ''disable''] not_owner"
    and "undocumented ''PATCH'' [''v1'', ''endpoints'', i] not_owner"
proof -
  have "fst (load_endpoint i ms OWNER w) = Inl not_owner"
    using assms by (simp add: load_endpoint_def io_defs query_def lift_def assertMembership_def next_fault_def pop_fault_def get_endpoint_def not_owner_def)
  then show "fst (enable i ms w) = Inl not_owner" "fst (disable i ms w) = Inl not_owner" "fst (update_endpoint_row es i ms p w) = Inl not_owner"
    by (auto simp: enable_def disable_def update_endpoint_row_def io_bind_def split: prod.splits sum.splits)
qed (simp_all add: status_defs documented_at entry_defs not_owner_def)

text \<open>The body of a rename is described by the schema of a creation, and an alert address it refuses answers 422.\<close>

lemma rename_body:
  "map_option oa_body (documented ''PATCH'' [''v1'', ''projects'', p]) = Some (Some ''projectSchema'')"
  "undocumented ''PATCH'' [''v1'', ''projects'', p] (App (UnprocessableError d))"
  by (simp_all add: status_defs documented_at entry_defs)

end
