(* ===== verification/Responses.thy ===== *)
theory Responses
  imports Openapi
begin

text \<open>
  \<open>src/backend/src/api/schemas/responses.js\<close>: the shapes the OpenAPI document gives the answers, and the
  JSON the routes send for the views of the services.  Formats of text other than dates are left out.
  \<open>iso_text\<close> is the text of a \<open>Date\<close> in JSON and \<open>date\<close> reads a date-time back.
\<close>

section \<open>Shapes\<close>

datatype shape =
  Text | Stamp | Whole | Flag | Anything | OneOf "string list" | Nullable shape | ListOf shape
| DictOf "string list option" shape | Obj "field list"
and field = Field (fd_name: string) (fd_required: bool) (fd_shape: shape)

abbreviation req :: "string \<Rightarrow> shape \<Rightarrow> field" where "req k sh \<equiv> Field k True sh"
abbreviation opt :: "string \<Rightarrow> shape \<Rightarrow> field" where "opt k sh \<equiv> Field k False sh"

text \<open>A JSON value of a shape: an object has all the required keys and none that is not listed.\<close>

fun fits_shape :: "(string \<Rightarrow> int option) \<Rightarrow> shape \<Rightarrow> json \<Rightarrow> bool"
  and fits_field :: "(string \<Rightarrow> int option) \<Rightarrow> (string \<times> json) list \<Rightarrow> field \<Rightarrow> bool" where
  "fits_shape date Text j = (\<exists>s. j = JStr s)"
| "fits_shape date Stamp j = (\<exists>s. j = JStr s \<and> date s \<noteq> None)"
| "fits_shape date Whole j = (\<exists>n :: int. j = JNum (of_int n))"
| "fits_shape date Flag j = (\<exists>b. j = JBool b)"
| "fits_shape date Anything j = (j \<noteq> JUndef)"
| "fits_shape date (OneOf vs) j = (\<exists>s \<in> set vs. j = JStr s)"
| "fits_shape date (Nullable sh) j = (j = JNull \<or> fits_shape date sh j)"
| "fits_shape date (ListOf sh) j = (\<exists>js. j = JArr js \<and> (\<forall>x \<in> set js. fits_shape date sh x))"
| "fits_shape date (DictOf keys sh) j =
    (\<exists>kvs. j = JObj kvs \<and> (\<forall>(k, v) \<in> set kvs. (case keys of None \<Rightarrow> True | Some ks \<Rightarrow> k \<in> set ks) \<and> fits_shape date sh v))"
| "fits_shape date (Obj fs) j =
    (\<exists>kvs. j = JObj kvs \<and> distinct (map fst kvs) \<and> fst ` set kvs \<subseteq> fd_name ` set fs
      \<and> (\<forall>f \<in> set fs. fits_field date kvs f))"
| "fits_field date kvs (Field k required sh) =
    (case map_of kvs k of None \<Rightarrow> \<not> required | Some v \<Rightarrow> fits_shape date sh v)"

section \<open>The schemas\<close>

definition roleShape :: shape where "roleShape = OneOf [''OWNER'', ''MEMBER'']"
definition deliveryStatusShape :: shape where "deliveryStatusShape = OneOf (map status_text DELIVERY_STATUS_VALUES)"
definition endpointStatusShape :: shape where "endpointStatusShape = OneOf [''ACTIVE'', ''DISABLED'']"
definition payloadShape :: shape where "payloadShape = DictOf None Anything"

definition problemResponse :: shape where
  "problemResponse = Obj [req ''type'' Text, req ''title'' Text, req ''status'' Whole, opt ''detail'' Text, req ''instance'' Text,
     req ''requestId'' Text, opt ''errors'' (ListOf (Obj [req ''path'' Text, req ''message'' Text]))]"

definition publishAcceptedResponse :: shape where
  "publishAcceptedResponse = Obj [req ''eventId'' Text,
     req ''deliveries'' (ListOf (Obj [req ''id'' Text, req ''endpointId'' Text, req ''status'' deliveryStatusShape]))]"

definition userShape :: shape where "userShape = Obj [req ''id'' Text, req ''email'' Text, req ''name'' Text]"

definition sessionResponse :: shape where
  "sessionResponse = Obj [req ''user'' userShape, opt ''project'' (Obj [req ''id'' Text, req ''name'' Text]), req ''accessToken'' Text]"

definition accessTokenResponse :: shape where "accessTokenResponse = Obj [req ''accessToken'' Text]"

definition meResponse :: shape where
  "meResponse = Obj [req ''id'' Text, req ''email'' Text, req ''name'' Text,
     req ''memberships'' (ListOf (Obj [req ''role'' roleShape,
       req ''project'' (Obj [req ''id'' Text, req ''name'' Text, req ''slug'' Text, req ''alertWebhookUrl'' (Nullable Text)])]))]"

definition projectResponse :: shape where
  "projectResponse = Obj [req ''id'' Text, req ''name'' Text, req ''slug'' Text, req ''alertWebhookUrl'' (Nullable Text),
     req ''createdAt'' Stamp, opt ''role'' roleShape]"

definition projectListResponse :: shape where "projectListResponse = Obj [req ''projects'' (ListOf projectResponse)]"

definition member_fields :: "field list" where
  "member_fields = [req ''userId'' Text, req ''email'' Text, req ''name'' Text, req ''role'' roleShape]"

definition memberResponse :: shape where "memberResponse = Obj member_fields"

definition memberListResponse :: shape where
  "memberListResponse = Obj [req ''members'' (ListOf (Obj (member_fields @ [req ''joinedAt'' Stamp])))]"

definition apiKey_fields :: "field list" where
  "apiKey_fields = [req ''id'' Text, req ''name'' Text, req ''keyPrefix'' Text, req ''lastUsedAt'' (Nullable Stamp),
     req ''revokedAt'' (Nullable Stamp), req ''createdAt'' Stamp]"

definition apiKeyResponse :: shape where "apiKeyResponse = Obj apiKey_fields"
definition apiKeyListResponse :: shape where "apiKeyListResponse = Obj [req ''apiKeys'' (ListOf apiKeyResponse)]"
definition apiKeyCreatedResponse :: shape where "apiKeyCreatedResponse = Obj (apiKey_fields @ [req ''key'' Text])"

definition endpoint_fields :: "field list" where
  "endpoint_fields = [req ''id'' Text, req ''projectId'' Text, req ''url'' Text, req ''description'' (Nullable Text),
     req ''status'' endpointStatusShape, req ''eventTypes'' (ListOf Text), req ''rateLimitPerMinute'' Whole,
     req ''consecutiveFailures'' Whole, req ''secretRotatedAt'' (Nullable Stamp), req ''createdAt'' Stamp]"

definition endpointResponse :: shape where "endpointResponse = Obj endpoint_fields"
definition endpointListResponse :: shape where "endpointListResponse = Obj [req ''endpoints'' (ListOf endpointResponse)]"
definition endpointCreatedResponse :: shape where "endpointCreatedResponse = Obj (endpoint_fields @ [req ''secret'' Text])"

definition endpointRotatedResponse :: shape where
  "endpointRotatedResponse = Obj (endpoint_fields @ [req ''secret'' Text, req ''previousSecretExpiresAt'' Stamp])"

definition delivery_fields :: "field list" where
  "delivery_fields = [req ''id'' Text, req ''eventId'' Text, req ''endpointId'' Text, req ''status'' deliveryStatusShape,
     req ''attemptCount'' Whole, req ''nextAttemptAt'' (Nullable Stamp), req ''lastError'' (Nullable Text),
     req ''replayedFromId'' (Nullable Text), req ''completedAt'' (Nullable Stamp), req ''createdAt'' Stamp]"

definition deliveryResponse :: shape where "deliveryResponse = Obj delivery_fields"

definition deliveryAttempt :: shape where
  "deliveryAttempt = Obj [req ''id'' Text, req ''attemptNumber'' Whole, req ''responseStatus'' (Nullable Whole),
     req ''responseHeaders'' (Nullable (DictOf None Text)), req ''responseBodySnippet'' (Nullable Text),
     req ''durationMs'' (Nullable Whole), req ''errorCode'' (Nullable Text), req ''errorMessage'' (Nullable Text), req ''startedAt'' Stamp]"

definition deliveryDetailResponse :: shape where
  "deliveryDetailResponse = Obj (delivery_fields @ [req ''eventType'' Text, req ''receivedAt'' Stamp, req ''payload'' payloadShape,
     req ''attempts'' (ListOf deliveryAttempt)])"

definition eventListResponse :: shape where
  "eventListResponse = Obj [req ''events'' (ListOf (Obj [req ''id'' Text, req ''eventType'' Text, req ''receivedAt'' Stamp,
       req ''deliveryCount'' Whole, req ''byStatus'' (DictOf None Whole)])), req ''nextCursor'' (Nullable Text)]"

definition eventResponse :: shape where
  "eventResponse = Obj [req ''id'' Text, req ''projectId'' Text, req ''eventType'' Text, req ''receivedAt'' Stamp,
     req ''payload'' Anything, req ''deliveries'' (ListOf (Obj [req ''id'' Text, req ''endpointId'' Text, req ''status'' Text,
       req ''attemptCount'' Whole, req ''createdAt'' Stamp, req ''completedAt'' (Nullable Stamp)]))]"

definition delivery_list_item :: shape where
  "delivery_list_item = Obj (delivery_fields @ [req ''eventType'' Text, req ''receivedAt'' Stamp,
     req ''lastResponseStatus'' (Nullable Whole), req ''lastDurationMs'' (Nullable Whole)])"

definition deliveryListResponse :: shape where
  "deliveryListResponse = Obj [req ''deliveries'' (ListOf delivery_list_item), req ''nextCursor'' (Nullable Text)]"

definition bulkReplayResponse :: shape where
  "bulkReplayResponse = Obj [req ''matched'' Whole, req ''replayed'' Whole, req ''cappedAt'' Whole,
     req ''deliveries'' (ListOf (Obj [req ''id'' Text, req ''replayedFromId'' Text]))]"

definition statsResponse :: shape where
  "statsResponse = Obj [req ''byStatus'' (DictOf (Some (map status_text DELIVERY_STATUS_VALUES)) Whole), req ''total'' Whole,
     req ''latency'' (Obj [req ''attempts'' Whole, req ''averageMs'' (Nullable Whole), req ''slowestMs'' (Nullable Whole)])]"

definition healthResponse :: shape where "healthResponse = Obj [req ''status'' (OneOf [''ok''])]"

definition readyResponse :: shape where
  "readyResponse = Obj [req ''status'' (OneOf [''ready'', ''degraded'']),
     req ''checks'' (ListOf (Obj [req ''name'' Text, req ''ok'' Flag, opt ''reason'' Text]))]"

definition response_schemas :: "(string \<times> shape) list" where
  "response_schemas =
    [(''Problem'', problemResponse), (''PublishAccepted'', publishAcceptedResponse), (''Session'', sessionResponse),
     (''AccessToken'', accessTokenResponse), (''Me'', meResponse), (''Project'', projectResponse), (''ProjectList'', projectListResponse),
     (''Member'', memberResponse), (''MemberList'', memberListResponse), (''ApiKey'', apiKeyResponse), (''ApiKeyList'', apiKeyListResponse),
     (''ApiKeyCreated'', apiKeyCreatedResponse), (''Endpoint'', endpointResponse), (''EndpointList'', endpointListResponse),
     (''EndpointCreated'', endpointCreatedResponse), (''EndpointRotated'', endpointRotatedResponse), (''Delivery'', deliveryResponse),
     (''DeliveryDetail'', deliveryDetailResponse), (''EventList'', eventListResponse), (''Event'', eventResponse),
     (''DeliveryList'', deliveryListResponse), (''BulkReplay'', bulkReplayResponse), (''Stats'', statsResponse),
     (''Health'', healthResponse), (''Ready'', readyResponse)]"

section \<open>What is sent\<close>

definition or_null :: "('a \<Rightarrow> json) \<Rightarrow> 'a option \<Rightarrow> json" where
  "or_null f v = (case v of None \<Rightarrow> JNull | Some x \<Rightarrow> f x)"

definition whole :: "int \<Rightarrow> json" where "whole n = JNum (of_int n)"
definition role_json :: "role \<Rightarrow> json" where "role_json r = JStr (if r = OWNER then ''OWNER'' else ''MEMBER'')"
definition endpoint_status_json :: "endpoint_status \<Rightarrow> json" where
  "endpoint_status_json st = JStr (if st = ACTIVE then ''ACTIVE'' else ''DISABLED'')"

definition stamp :: "(int \<Rightarrow> string) \<Rightarrow> int \<Rightarrow> json" where "stamp iso_text t = JStr (iso_text t)"

definition user_json :: "user_view \<Rightarrow> json" where
  "user_json u = JObj [(''id'', JStr (uv_id u)), (''email'', JStr (uv_email u)), (''name'', JStr (uv_name u))]"

definition session_json :: "user_view option \<Rightarrow> (string \<times> string) option \<Rightarrow> string \<Rightarrow> json" where
  "session_json u p accessToken =
    JObj ((case u of None \<Rightarrow> [] | Some x \<Rightarrow> [(''user'', user_json x)])
      @ (case p of None \<Rightarrow> [] | Some (i, n) \<Rightarrow> [(''project'', JObj [(''id'', JStr i), (''name'', JStr n)])])
      @ [(''accessToken'', JStr accessToken)])"

definition me_json :: "user_view \<Rightarrow> (role \<times> project) list \<Rightarrow> json" where
  "me_json u ms =
    JObj [(''id'', JStr (uv_id u)), (''email'', JStr (uv_email u)), (''name'', JStr (uv_name u)),
      (''memberships'', JArr (map (\<lambda>(r, p). JObj [(''role'', role_json r),
         (''project'', JObj [(''id'', JStr (p_id p)), (''name'', JStr (p_name p)), (''slug'', JStr (p_slug p)),
            (''alertWebhookUrl'', or_null JStr (p_alertWebhookUrl p))])]) ms))]"

definition project_json :: "(int \<Rightarrow> string) \<Rightarrow> project_view \<Rightarrow> role option \<Rightarrow> json" where
  "project_json iso_text p r =
    JObj ([(''id'', JStr (pv_id p)), (''name'', JStr (pv_name p)), (''slug'', JStr (pv_slug p)),
      (''alertWebhookUrl'', or_null JStr (pv_alertWebhookUrl p)), (''createdAt'', stamp iso_text (pv_createdAt p))]
      @ (case r of None \<Rightarrow> [] | Some x \<Rightarrow> [(''role'', role_json x)]))"

definition member_json :: "(int \<Rightarrow> string) \<Rightarrow> member_view \<Rightarrow> json" where
  "member_json iso_text m =
    JObj [(''userId'', JStr (mv_userId m)), (''email'', JStr (mv_email m)), (''name'', JStr (mv_name m)),
      (''role'', role_json (mv_role m)), (''joinedAt'', stamp iso_text (mv_joinedAt m))]"

definition key_entries :: "(int \<Rightarrow> string) \<Rightarrow> key_view \<Rightarrow> (string \<times> json) list" where
  "key_entries iso_text k =
    [(''id'', JStr (kv_id k)), (''name'', JStr (kv_name k)), (''keyPrefix'', JStr (kv_keyPrefix k)),
     (''lastUsedAt'', or_null (stamp iso_text) (kv_lastUsedAt k)), (''revokedAt'', or_null (stamp iso_text) (kv_revokedAt k)),
     (''createdAt'', stamp iso_text (kv_createdAt k))]"

definition endpoint_entries :: "(int \<Rightarrow> string) \<Rightarrow> endpoint_view \<Rightarrow> (string \<times> json) list" where
  "endpoint_entries iso_text e =
    [(''id'', JStr (ew_id e)), (''projectId'', JStr (ew_projectId e)), (''url'', JStr (ew_url e)),
     (''description'', or_null JStr (ew_description e)), (''status'', endpoint_status_json (ew_status e)),
     (''eventTypes'', JArr (map JStr (ew_eventTypes e))), (''rateLimitPerMinute'', whole (ew_rateLimitPerMinute e)),
     (''consecutiveFailures'', whole (ew_consecutiveFailures e)), (''secretRotatedAt'', or_null (stamp iso_text) (ew_secretRotatedAt e)),
     (''createdAt'', stamp iso_text (ew_createdAt e))]"

definition delivery_entries :: "(int \<Rightarrow> string) \<Rightarrow> delivery_view \<Rightarrow> (string \<times> json) list" where
  "delivery_entries iso_text d =
    [(''id'', JStr (dv_id d)), (''eventId'', JStr (dv_eventId d)), (''endpointId'', JStr (dv_endpointId d)),
     (''status'', JStr (status_text (dv_status d))), (''attemptCount'', whole (dv_attemptCount d)),
     (''nextAttemptAt'', or_null (stamp iso_text) (dv_nextAttemptAt d)), (''lastError'', or_null JStr (dv_lastError d)),
     (''replayedFromId'', or_null JStr (dv_replayedFromId d)), (''completedAt'', or_null (stamp iso_text) (dv_completedAt d)),
     (''createdAt'', stamp iso_text (dv_createdAt d))]
    @ (case dv_event d of None \<Rightarrow> [] | Some (t, received) \<Rightarrow> [(''eventType'', JStr t), (''receivedAt'', stamp iso_text received)])"

definition attempt_json :: "(int \<Rightarrow> string) \<Rightarrow> attempt_view \<Rightarrow> json" where
  "attempt_json iso_text a =
    JObj [(''id'', JStr (av_id a)), (''attemptNumber'', whole (av_attemptNumber a)),
      (''responseStatus'', or_null whole (av_responseStatus a)),
      (''responseHeaders'', or_null (\<lambda>hs. JObj (map (\<lambda>(k, v). (k, JStr v)) hs)) (av_responseHeaders a)),
      (''responseBodySnippet'', or_null JStr (av_responseBodySnippet a)), (''durationMs'', or_null whole (av_durationMs a)),
      (''errorCode'', or_null JStr (av_errorCode a)), (''errorMessage'', or_null JStr (av_errorMessage a)),
      (''startedAt'', stamp iso_text (av_startedAt a))]"

definition status_counts_json :: "(delivery_status \<times> nat) list \<Rightarrow> json" where
  "status_counts_json cs = JObj (map (\<lambda>(st, n). (status_text st, whole (int n))) cs)"

definition event_list_json :: "(int \<Rightarrow> string) \<Rightarrow> event_list_view \<Rightarrow> json" where
  "event_list_json iso_text v =
    JObj [(''id'', JStr (el_id v)), (''eventType'', JStr (el_eventType v)), (''receivedAt'', stamp iso_text (el_receivedAt v)),
      (''deliveryCount'', whole (int (el_deliveryCount v))), (''byStatus'', status_counts_json (el_byStatus v))]"

definition problem_json :: "problem \<Rightarrow> json" where
  "problem_json p =
    JObj ([(''type'', JStr (pr_type p)), (''title'', JStr (pr_title p)), (''status'', whole (pr_status p))]
      @ (case pr_detail p of None \<Rightarrow> [] | Some d \<Rightarrow> [(''detail'', JStr d)])
      @ [(''instance'', JStr (pr_instance p)), (''requestId'', JStr (pr_requestId p))]
      @ (case pr_errors p of None \<Rightarrow> []
         | Some es \<Rightarrow> [(''errors'', JArr (map (\<lambda>e. JObj [(''path'', JStr (fe_path e)), (''message'', JStr (fe_message e))]) es))]))"

fun body_json :: "(int \<Rightarrow> string) \<Rightarrow> body \<Rightarrow> json" where
  "body_json iso_text NoBody = JUndef"
| "body_json iso_text (Kept j) = j"
| "body_json iso_text (Accepted r) = receipt_json r"
| "body_json iso_text (SessionBody u p token) = session_json u p token"
| "body_json iso_text (MeBody u ms) = me_json u ms"
| "body_json iso_text (ProjectsBody ps) = JObj [(''projects'', JArr (map (\<lambda>(p, r). project_json iso_text p (Some r)) ps))]"
| "body_json iso_text (ProjectBody p r) = project_json iso_text p r"
| "body_json iso_text (MembersBody ms) = JObj [(''members'', JArr (map (member_json iso_text) ms))]"
| "body_json iso_text (MemberBody u r) =
    JObj [(''userId'', JStr (uv_id u)), (''email'', JStr (uv_email u)), (''name'', JStr (uv_name u)), (''role'', role_json r)]"
| "body_json iso_text (KeysBody ks) = JObj [(''apiKeys'', JArr (map (JObj \<circ> key_entries iso_text) ks))]"
| "body_json iso_text (NewKeyBody k plaintext) = JObj (key_entries iso_text k @ [(''key'', JStr plaintext)])"
| "body_json iso_text (KeyBody k) = JObj (key_entries iso_text k)"
| "body_json iso_text (EndpointsBody es) = JObj [(''endpoints'', JArr (map (JObj \<circ> endpoint_entries iso_text) es))]"
| "body_json iso_text (EndpointBody e) = JObj (endpoint_entries iso_text e)"
| "body_json iso_text (SecretBody e secret until) =
    JObj (endpoint_entries iso_text e @ [(''secret'', JStr secret)]
      @ (case until of None \<Rightarrow> [] | Some t \<Rightarrow> [(''previousSecretExpiresAt'', stamp iso_text t)]))"
| "body_json iso_text (EventsBody vs cursor) =
    JObj [(''events'', JArr (map (event_list_json iso_text) vs)), (''nextCursor'', or_null JStr cursor)]"
| "body_json iso_text (EventBody v ds) =
    JObj [(''id'', JStr (v_id v)), (''projectId'', JStr (v_projectId v)), (''eventType'', JStr (v_eventType v)),
      (''receivedAt'', stamp iso_text (v_receivedAt v)), (''payload'', v_payload v),
      (''deliveries'', JArr (map (\<lambda>d. JObj [(''id'', JStr (vd_id d)), (''endpointId'', JStr (vd_endpointId d)),
        (''status'', JStr (status_text (vd_status d))), (''attemptCount'', whole (vd_attemptCount d)),
        (''createdAt'', stamp iso_text (vd_createdAt d)), (''completedAt'', or_null (stamp iso_text) (vd_completedAt d))]) ds))]"
| "body_json iso_text (DeliveriesBody ds cursor) =
    JObj [(''deliveries'', JArr (map (\<lambda>d. JObj (delivery_entries iso_text (lv_delivery d)
        @ [(''lastResponseStatus'', or_null whole (lv_lastResponseStatus d)), (''lastDurationMs'', or_null whole (lv_lastDurationMs d))])) ds)),
      (''nextCursor'', or_null JStr cursor)]"
| "body_json iso_text (DeliveryBody d payload as) =
    JObj (delivery_entries iso_text d @ [(''payload'', payload), (''attempts'', JArr (map (attempt_json iso_text) as))])"
| "body_json iso_text (ReplayBody d) = JObj (delivery_entries iso_text d)"
| "body_json iso_text (BulkReplayBody b) =
    JObj [(''matched'', whole (int (br_matched b))), (''replayed'', whole (int (br_replayed b))), (''cappedAt'', whole (br_cappedAt b)),
      (''deliveries'', JArr (map (\<lambda>(i, r). JObj [(''id'', JStr i), (''replayedFromId'', JStr r)]) (br_deliveries b)))]"
| "body_json iso_text (StatsBody s) =
    JObj [(''byStatus'', status_counts_json (ds_byStatus s)), (''total'', whole (int (ds_total s))),
      (''latency'', JObj [(''attempts'', whole (int (ds_attempts s))), (''averageMs'', or_null whole (ds_averageMs s)),
         (''slowestMs'', or_null whole (ds_slowestMs s))])]"
| "body_json iso_text HealthBody = JObj [(''status'', JStr ''ok'')]"
| "body_json iso_text (ReadyBody ready checks) =
    JObj [(''status'', JStr (if ready then ''ready'' else ''degraded'')),
      (''checks'', JArr (map (\<lambda>(n, ok). JObj [(''name'', JStr n), (''ok'', JBool ok)]) checks))]"
| "body_json iso_text (MetricsBody text) = JStr text"
| "body_json iso_text (ProblemBody p) = problem_json p"

section \<open>What is sent has the documented shape\<close>

text \<open>What the rows must be for it: a payload is an object, a listed delivery has its event.\<close>

definition data_ok :: "(string \<Rightarrow> int option) \<Rightarrow> body \<Rightarrow> bool" where
  "data_ok date b \<longleftrightarrow>
    (case b of
       Kept j \<Rightarrow> fits_shape date publishAcceptedResponse j
     | DeliveryBody d payload as \<Rightarrow> dv_event d \<noteq> None \<and> fits_shape date payloadShape payload
     | DeliveriesBody ds cursor \<Rightarrow> list_all (\<lambda>d. dv_event (lv_delivery d) \<noteq> None) ds
     | EventBody v ds \<Rightarrow> v_payload v \<noteq> JUndef
     | _ \<Rightarrow> True)"

definition view_ok :: "body \<Rightarrow> bool" where
  "view_ok b \<longleftrightarrow>
    (case b of
       SessionBody u p token \<Rightarrow> u \<noteq> None \<or> p = None
     | ReplayBody d \<Rightarrow> dv_event d = None
     | _ \<Rightarrow> True)"

lemmas response_defs =
  problemResponse_def publishAcceptedResponse_def
  userShape_def sessionResponse_def accessTokenResponse_def meResponse_def projectResponse_def projectListResponse_def
  member_fields_def memberResponse_def memberListResponse_def apiKey_fields_def apiKeyResponse_def apiKeyListResponse_def
  apiKeyCreatedResponse_def endpoint_fields_def endpointResponse_def endpointListResponse_def endpointCreatedResponse_def
  endpointRotatedResponse_def delivery_fields_def deliveryResponse_def deliveryAttempt_def deliveryDetailResponse_def
  eventListResponse_def eventResponse_def deliveryListResponse_def bulkReplayResponse_def statsResponse_def healthResponse_def
  readyResponse_def

lemmas json_defs =
  user_json_def session_json_def me_json_def project_json_def member_json_def key_entries_def endpoint_entries_def
  delivery_entries_def attempt_json_def problem_json_def receipt_json_def

definition date_text :: "(string \<Rightarrow> int option) \<Rightarrow> (int \<Rightarrow> string) \<Rightarrow> bool" where
  "date_text date iso_text \<longleftrightarrow> (\<forall>t. date (iso_text t) \<noteq> None)"

lemma fits_or_null: "(\<And>x. v = Some x \<Longrightarrow> fits_shape date sh (f x)) \<Longrightarrow> fits_shape date (Nullable sh) (or_null f v)"
  by (cases v) (simp_all add: or_null_def)

lemma fits_scalars:
  "fits_shape date Text (JStr s)" "fits_shape date Whole (whole n)" "fits_shape date Flag (JBool b)"
  "fits_shape date roleShape (role_json r)"
  "fits_shape date endpointStatusShape (endpoint_status_json st)"
  "fits_shape date deliveryStatusShape (JStr (status_text ds))"
  by (auto simp: whole_def roleShape_def role_json_def endpointStatusShape_def endpoint_status_json_def deliveryStatusShape_def
      DELIVERY_STATUS_VALUES_def) (cases ds; simp)

lemma fits_stamp: "date_text date iso_text \<Longrightarrow> fits_shape date Stamp (stamp iso_text t)"
  by (simp add: stamp_def date_text_def)

lemmas fits_nullable =
  fits_or_null[of _ _ Text JStr, OF fits_scalars(1)] fits_or_null[of _ _ Whole whole, OF fits_scalars(2)]
  fits_or_null[of _ _ Stamp "stamp iso_text" for iso_text, OF fits_stamp]

lemma fits_status_counts:
  "fits_shape date (DictOf None Whole) (status_counts_json cs)"
  "fits_shape date (DictOf (Some (map status_text DELIVERY_STATUS_VALUES)) Whole) (status_counts_json cs)"
  using DELIVERY_STATUS_VALUES_complete fits_scalars(2)[of date]
  by (auto simp: status_counts_json_def simp del: fits_shape.simps(3))

lemma fits_headers: "fits_shape date (Nullable (DictOf None Text)) (or_null (\<lambda>hs. JObj (map (\<lambda>(k, v). (k, JStr v)) hs)) v)"
  by (rule fits_or_null) auto

lemma fits_list: "(\<And>x. x \<in> set xs \<Longrightarrow> fits_shape date sh (f x)) \<Longrightarrow> fits_shape date (ListOf sh) (JArr (map f xs))"
  by auto

lemma fits_record:
  "fits_shape date (Obj fs) (JObj kvs) \<longleftrightarrow>
    distinct (map fst kvs) \<and> fst ` set kvs \<subseteq> fd_name ` set fs \<and> (\<forall>f \<in> set fs. fits_field date kvs f)"
  by simp

lemma fits_one_of: "fits_shape date (OneOf vs) (JStr s) \<longleftrightarrow> s \<in> set vs"
  by auto

declare fits_shape.simps [simp del]

lemmas fits = fits_scalars fits_nullable fits_stamp fits_status_counts fits_headers fits_list fits_record fits_one_of

lemmas record_simps = response_schemas_def response_defs json_defs fits_record

lemma fits_views:
  assumes "date_text date iso_text"
  shows "fits_shape date userShape (user_json u)" "fits_shape date meResponse (me_json u ms)"
    "fits_shape date projectResponse (project_json iso_text p r)"
    "fits_shape date problemResponse (problem_json q)"
    "fits_shape date publishAcceptedResponse (receipt_json x)"
    "u' \<noteq> None \<Longrightarrow> fits_shape date sessionResponse (session_json u' pr token)"
    "fits_shape date deliveryAttempt (attempt_json iso_text a)"
  using assms by (auto simp: record_simps intro!: fits split: option.splits)

lemma fits_entries:
  assumes "date_text date iso_text"
  shows "fits_shape date apiKeyResponse (JObj (key_entries iso_text k))"
    "fits_shape date apiKeyCreatedResponse (JObj (key_entries iso_text k @ [(''key'', JStr plaintext)]))"
    "fits_shape date endpointResponse (JObj (endpoint_entries iso_text e))"
    "fits_shape date endpointCreatedResponse (body_json iso_text (SecretBody e secret None))"
    "fits_shape date endpointRotatedResponse (body_json iso_text (SecretBody e secret (Some t)))"
  using assms by (auto simp: record_simps intro!: fits)

lemma fits_delivery_entries:
  assumes "date_text date iso_text"
  shows "dv_event d = None \<Longrightarrow> fits_shape date deliveryResponse (JObj (delivery_entries iso_text d))"
    "dv_event d \<noteq> None \<Longrightarrow> fits_shape date payloadShape payload \<Longrightarrow>
      fits_shape date deliveryDetailResponse (body_json iso_text (DeliveryBody d payload as))"
    "dv_event d \<noteq> None \<Longrightarrow> fits_shape date delivery_list_item
      (JObj (delivery_entries iso_text d @ [(''lastResponseStatus'', or_null whole rs), (''lastDurationMs'', or_null whole ms)]))"
  using assms fits_views(7)[OF assms]
  by (auto simp: deliveryResponse_def deliveryDetailResponse_def delivery_list_item_def delivery_fields_def delivery_entries_def fits_record intro!: fits
      split: option.splits)

lemma fits_lists:
  assumes "date_text date iso_text"
  shows "fits_shape date projectListResponse (body_json iso_text (ProjectsBody ps))"
    "fits_shape date memberListResponse (body_json iso_text (MembersBody ms))"
    "fits_shape date memberResponse (body_json iso_text (MemberBody u r))"
    "fits_shape date apiKeyListResponse (body_json iso_text (KeysBody ks))"
    "fits_shape date endpointListResponse (body_json iso_text (EndpointsBody es))"
    "fits_shape date eventListResponse (body_json iso_text (EventsBody vs cursor))"
    "v_payload v \<noteq> JUndef \<Longrightarrow> fits_shape date eventResponse (body_json iso_text (EventBody v ds))"
  using assms fits_views(3)[OF assms] fits_entries(1,3)[OF assms]
  by (auto simp: projectListResponse_def memberListResponse_def memberResponse_def member_fields_def apiKeyListResponse_def
      endpointListResponse_def eventListResponse_def eventResponse_def member_json_def event_list_json_def fits_record fits_shape.simps(5) intro!: fits)

lemma fits_reports:
  assumes "date_text date iso_text"
  shows "list_all (\<lambda>d. dv_event (lv_delivery d) \<noteq> None) ds \<Longrightarrow>
      fits_shape date deliveryListResponse (body_json iso_text (DeliveriesBody ds cursor))"
    "fits_shape date bulkReplayResponse (body_json iso_text (BulkReplayBody b))"
    "fits_shape date statsResponse (body_json iso_text (StatsBody st))"
    "fits_shape date healthResponse (body_json iso_text HealthBody)"
    "fits_shape date readyResponse (body_json iso_text (ReadyBody ready checks))"
    "fits_shape date accessTokenResponse (body_json iso_text (SessionBody None None token))"
  using fits_delivery_entries(3)[OF assms]
  by (auto simp: deliveryListResponse_def bulkReplayResponse_def statsResponse_def healthResponse_def readyResponse_def
      accessTokenResponse_def session_json_def list_all_iff fits_record fits_one_of intro!: fits split: prod.split)

text \<open>A body is described by the schema the document gives the answer.\<close>

lemma fits_body:
  assumes dates: "date_text date iso_text" and ok: "data_ok date b" "view_ok b" and schema: "schema_of b = Some i"
  shows "\<exists>sh. map_of response_schemas i = Some sh \<and> fits_shape date sh (body_json iso_text b)"
proof -
  have "\<exists>sh. map_of response_schemas (the (schema_of b)) = Some sh \<and> fits_shape date sh (body_json iso_text b)"
  proof (cases b)
    case (SessionBody u p token)
    then show ?thesis using ok fits_reports(6)[OF dates, of token] fits_views(6)[OF dates, of u p token]
      by (cases u) (simp_all add: response_schemas_def view_ok_def)
  next
    case (SecretBody e secret until)
    then show ?thesis using fits_entries(4,5)[OF dates] by (cases until) (simp_all add: response_schemas_def del: body_json.simps)
  next
    case (DeliveryBody d payload as)
    then show ?thesis using ok fits_delivery_entries(2)[OF dates] by (simp add: response_schemas_def data_ok_def del: body_json.simps)
  next
    case (ReplayBody d)
    then show ?thesis using ok fits_delivery_entries(1)[OF dates] by (simp add: response_schemas_def view_ok_def)
  next
    case (EventBody v ds)
    then show ?thesis using ok fits_lists(7)[OF dates] by (simp add: response_schemas_def data_ok_def del: body_json.simps)
  next
    case (DeliveriesBody ds cursor)
    then show ?thesis using ok fits_reports(1)[OF dates] by (simp add: response_schemas_def data_ok_def del: body_json.simps)
  next
    case (Kept j)
    then show ?thesis using ok by (simp add: response_schemas_def data_ok_def)
  next
    case (ProjectsBody ps)
    then show ?thesis using fits_lists[OF dates] fits_reports[OF dates] by (simp add: response_schemas_def del: body_json.simps)
  next
    case (MembersBody ms)
    then show ?thesis using fits_lists[OF dates] fits_reports[OF dates] by (simp add: response_schemas_def del: body_json.simps)
  next
    case (MemberBody u r)
    then show ?thesis using fits_lists[OF dates] fits_reports[OF dates] by (simp add: response_schemas_def del: body_json.simps)
  next
    case (KeysBody ks)
    then show ?thesis using fits_lists[OF dates] fits_reports[OF dates] by (simp add: response_schemas_def del: body_json.simps)
  next
    case (EndpointsBody es)
    then show ?thesis using fits_lists[OF dates] fits_reports[OF dates] by (simp add: response_schemas_def del: body_json.simps)
  next
    case (EventsBody vs cursor)
    then show ?thesis using fits_lists[OF dates] fits_reports[OF dates] by (simp add: response_schemas_def del: body_json.simps)
  next
    case (BulkReplayBody br)
    then show ?thesis using fits_lists[OF dates] fits_reports[OF dates] by (simp add: response_schemas_def del: body_json.simps)
  next
    case (StatsBody st)
    then show ?thesis using fits_lists[OF dates] fits_reports[OF dates] by (simp add: response_schemas_def del: body_json.simps)
  next
    case HealthBody
    then show ?thesis using fits_lists[OF dates] fits_reports[OF dates] by (simp add: response_schemas_def del: body_json.simps)
  next
    case (ReadyBody ready checks)
    then show ?thesis using fits_lists[OF dates] fits_reports[OF dates] by (simp add: response_schemas_def del: body_json.simps)
  next
    case (Accepted x)
    then show ?thesis using fits_views[OF dates] by (simp add: response_schemas_def)
  next
    case (MeBody u ms)
    then show ?thesis using fits_views[OF dates] by (simp add: response_schemas_def)
  next
    case (ProjectBody p r)
    then show ?thesis using fits_views[OF dates] by (simp add: response_schemas_def)
  next
    case (ProblemBody pb)
    then show ?thesis using fits_views[OF dates] by (simp add: response_schemas_def)
  next
    case (NewKeyBody k plaintext)
    then show ?thesis using fits_entries(1,2,3)[OF dates] by (simp add: response_schemas_def)
  next
    case (KeyBody k)
    then show ?thesis using fits_entries(1,2,3)[OF dates] by (simp add: response_schemas_def)
  next
    case (EndpointBody e)
    then show ?thesis using fits_entries(1,2,3)[OF dates] by (simp add: response_schemas_def)
  qed (use schema in simp_all)
  then show ?thesis using schema by simp
qed

section \<open>What the routes send\<close>

lemma view_ok_simps [simp]:
  "view_ok NoBody" "view_ok (Kept j)" "view_ok (Accepted x)" "view_ok (MeBody mu2 ms)" "view_ok (ProjectsBody ps)" "view_ok (ProjectBody pv r)"
  "view_ok (MembersBody mv)" "view_ok (MemberBody mu mr)" "view_ok (KeysBody ks)" "view_ok (NewKeyBody k t)" "view_ok (KeyBody k)"
  "view_ok (EndpointsBody es)" "view_ok (EndpointBody e)" "view_ok (SecretBody e t until)" "view_ok (EventsBody vs c)" "view_ok (EventBody v eds)"
  "view_ok (DeliveriesBody ds c)" "view_ok (DeliveryBody d q as)" "view_ok (BulkReplayBody br)" "view_ok (StatsBody st)" "view_ok HealthBody"
  "view_ok (ReadyBody b cs)" "view_ok (MetricsBody t)" "view_ok (ProblemBody pb)"
  "view_ok (SessionBody u p tk) \<longleftrightarrow> u \<noteq> None \<or> p = None" "view_ok (ReplayBody d) \<longleftrightarrow> dv_event d = None"
  by (simp_all add: view_ok_def)

abbreviation sends_view :: "response \<Rightarrow> bool" where "sends_view r \<equiv> view_ok (rs_body r)"

definition gives :: "('a \<Rightarrow> bool) \<Rightarrow> ('w, 'e, 'a) io \<Rightarrow> bool" where
  "gives Q m \<longleftrightarrow> (\<forall>s a s'. m s = (Inr a, s') \<longrightarrow> Q a)"

lemma gives_rules:
  "Q a \<Longrightarrow> gives Q (io_ret a)" "gives Q (io_raise e)" "(\<And>a. gives Q (f a)) \<Longrightarrow> gives Q (io_bind m f)"
  "gives Q k \<Longrightarrow> gives Q (io_seq m k)"
  by (auto simp: gives_def io_defs split: prod.splits sum.splits)

lemma gives_on_world: "gives Q m \<Longrightarrow> gives Q (on_world m)"
  by (fastforce simp: gives_def on_world_def split: prod.splits)

lemma serves_value: "gives Q m \<Longrightarrow> (\<And>a. Q a \<Longrightarrow> serves P (f a)) \<Longrightarrow> serves P (io_bind m f)"
  by (fastforce simp: serves_def gives_def io_bind_def split: prod.splits sum.splits)

lemma replay_view: "gives (\<lambda>d. dv_event d = None) (replay sv i ms)"
  unfolding replay_def by (auto intro!: gives_rules simp: deliveryView_def split: prod.split)

lemma project_sends_view: "serves sends_view (project_router ad rq body)"
proof -
  have "yields sends_view (project_handler ad rq body a rt)" for a rt
    by (cases rt) (auto intro!: yields_rules simp: answer_def split: prod.split)
  then show ?thesis
    unfolding project_router_def by (auto intro!: serves_rules(3,4) serves_rules(1) serves_answered split: option.split)
qed

lemma resource_sends_view:
  "serves sends_view (endpoint_router ad rq body)" "serves sends_view (event_router ad rq)" "serves sends_view (metrics_router ad rq)"
  unfolding endpoint_router_def event_router_def metrics_router_def Let_def
  by (intro serves_cases serves_answered serves_rules yields_cases yields_rules; simp add: answer_def)+

lemma delivery_sends_view: "serves sends_view (delivery_router ad rq)"
  unfolding delivery_router_def
  by (rule serves_rules(3))
     (intro serves_cases serves_rules(1) serves_value[OF gives_on_world[OF replay_view]] serves_rules(2,3); simp add: answer_def split: prod.split)

lemma session_sends_view: "serves sends_view (auth_router ad rq body)"
  unfolding auth_router_def Let_def register_route_def login_route_def refresh_route_def logout_route_def me_route_def
  by (intro serves_cases serves_answered serves_rules(1) yields_cases yields_rules) (simp_all add: respondWithSession_def answer_def)

lemma publish_sends_view: "serves sends_view (publish_router ad rq body)"
proof -
  have h: "yields sends_view (publish_handler ad a b key k)" for a b key k
    unfolding publish_handler_def by (intro yields_rules) (simp add: answer_def)
  have "yields sends_view (publish_route ad rq body)"
    unfolding publish_route_def Let_def
    by (intro yields_rules) (auto intro!: yields_rules(1) yields_headers[OF h] split: admission.split)
  then show ?thesis unfolding publish_router_def by (auto intro!: serves_answered serves_rules(1))
qed

lemma health_sends_view: "serves sends_view (health_router rq)"
proof -
  have "yields sends_view (on_world ready_route)"
    by (auto simp: yields_def on_world_def ready_route_def io_defs answer_def Let_def split: prod.splits sum.splits if_splits)
  then show ?thesis unfolding health_router_def by (auto intro!: serves_answered serves_rules(1,2) simp: answer_def)
qed

lemma routed_sends_view: "serves sends_view (routed ad rq)"
proof -
  have "serves sends_view (v1_routers ad rq')" for rq'
    unfolding v1_routers_def
    by (intro serves_rules(3) serves_or_else publish_sends_view session_sends_view project_sends_view resource_sends_view
        delivery_sends_view)
  then show ?thesis
    unfolding routed_def by (intro serves_or_else health_sends_view resource_sends_view serves_cases serves_rules(1)) simp
qed

text \<open>An answer has the shape of a schema, and this schema is the one its operation is documented with.\<close>

lemma answer_fits:
  assumes "routed ad rq s = (Inr (Some r), s')" "date_text date iso_text" "data_ok date (rs_body r)" "schema_of (rs_body r) = Some i"
  shows "\<exists>sh. map_of response_schemas i = Some sh \<and> fits_shape date sh (body_json iso_text (rs_body r))"
  using assms routed_sends_view[of ad rq] by (intro fits_body) (auto simp: serves_def)

end
