(* ===== verification/Demo_Receiver.thy ===== *)
theory Demo_Receiver
  imports Signing Json
begin

text \<open>
  \<open>src/backend/src/demo-receiver/server.js\<close>: the receiver of the demo.  It verifies and records every
  request posted to it, keeps the last hundred, and answers as its path says.  \<open>parse\<close> is \<open>JSON.parse\<close>,
  header names are lower-case as Node's parser leaves them, and the time of arrival is in milliseconds.
\<close>

definition HISTORY_LIMIT :: nat where "HISTORY_LIMIT = 100"
definition DEFAULT_SLOW_MS :: rat where "DEFAULT_SLOW_MS = 12000"
definition MAX_SLOW_MS :: rat where "MAX_SLOW_MS = 120000"
definition DEFAULT_FLAKY_RATE :: rat where "DEFAULT_FLAKY_RATE = 1 / 2"

record receiver =
  rv_hmac :: "string \<Rightarrow> string \<Rightarrow> string"
  rv_secret :: string
  rv_parse :: "string \<Rightarrow> json option"

record demo_request =
  dq_method :: string
  dq_path :: string
  dq_originalUrl :: string
  dq_headers :: "(string \<times> string) list"
  dq_query :: "(string \<times> string) list"
  dq_body :: string

record demo_entry =
  de_receivedAt :: int
  de_method :: string
  de_path :: string
  de_webhookId :: "string option"
  de_eventType :: "string option"
  de_attempt :: "jsnum option"
  de_signatureValid :: bool
  de_signatureReason :: "string option"
  de_headers :: "(string \<times> string) list"
  de_body :: json

definition parseBody :: "(string \<Rightarrow> json option) \<Rightarrow> string \<Rightarrow> json" where
  "parseBody parse raw =
    (if raw = [] then JNull
     else (case parse raw of Some j \<Rightarrow> j | None \<Rightarrow> JStr (take 1024 raw)))"

definition demo_header :: "string \<Rightarrow> demo_request \<Rightarrow> string option" where
  "demo_header k q = map_of (dq_headers q) (case map_of WEBHOOK_HEADERS k of None \<Rightarrow> k | Some name \<Rightarrow> name)"

text \<open>\<open>Number(x) || null\<close>; an absent header is \<open>undefined\<close>, whose number is \<open>NaN\<close>.\<close>

definition attempt_number :: "string option \<Rightarrow> jsnum option" where
  "attempt_number v =
    (case v of
       None \<Rightarrow> None
     | Some s \<Rightarrow> if jsNumber s = NaN \<or> jsNumber s = Fin 0 then None else Some (jsNumber s))"

definition demo_verify :: "receiver \<Rightarrow> int \<Rightarrow> demo_request \<Rightarrow> verdict" where
  "demo_verify rv t q =
    (case demo_header ''timestamp'' q of
       None \<Rightarrow> Invalid ''missing_timestamp''
     | Some ts \<Rightarrow> verifySignature (rv_hmac rv) (demo_header ''signature'' q) (rv_secret rv) ts (dq_body q)
         TIMESTAMP_TOLERANCE_SECONDS (t div 1000))"

definition demo_entry_of :: "receiver \<Rightarrow> int \<Rightarrow> demo_request \<Rightarrow> demo_entry" where
  "demo_entry_of rv t q =
    \<lparr>de_receivedAt = t, de_method = dq_method q, de_path = dq_originalUrl q,
     de_webhookId = demo_header ''id'' q, de_eventType = demo_header ''event'' q, de_attempt = attempt_number (demo_header ''attempt'' q),
     de_signatureValid = (demo_verify rv t q = Valid),
     de_signatureReason = (case demo_verify rv t q of Valid \<Rightarrow> None | Invalid reason \<Rightarrow> Some reason),
     de_headers = dq_headers q, de_body = parseBody (rv_parse rv) (dq_body q)\<rparr>"

definition push_history :: "demo_entry \<Rightarrow> demo_entry list \<Rightarrow> demo_entry list" where
  "push_history e history =
    (let h = history @ [e] in if HISTORY_LIMIT < length h then tl h else h)"

definition clamp :: "string option \<Rightarrow> rat \<Rightarrow> rat \<Rightarrow> rat \<Rightarrow> rat" where
  "clamp v lo hi fallback =
    (case v of
       None \<Rightarrow> fallback
     | Some s \<Rightarrow> (case js_finite (jsNumber s) of None \<Rightarrow> fallback | Some x \<Rightarrow> min (max x lo) hi))"

text \<open>An answer, with the milliseconds until it is sent.\<close>

datatype demo_body = Fields "(string \<times> json) list" | Received "demo_entry list"

record demo_reply =
  dr_status :: int
  dr_delayMs :: rat
  dr_body :: demo_body

definition demo_answer :: "int \<Rightarrow> (string \<times> json) list \<Rightarrow> demo_reply" where
  "demo_answer st kvs = \<lparr>dr_status = st, dr_delayMs = 0, dr_body = Fields kvs\<rparr>"

definition ok_route :: "demo_entry \<Rightarrow> demo_reply" where
  "ok_route e =
    demo_answer 200 [(''status'', JStr ''ok''), (''webhookId'', case de_webhookId e of None \<Rightarrow> JNull | Some i \<Rightarrow> JStr i)]"

definition fail_route :: demo_reply where
  "fail_route = demo_answer 500 [(''status'', JStr ''error''), (''reason'', JStr ''simulated permanent failure'')]"

definition slow_route :: "demo_request \<Rightarrow> demo_reply" where
  "slow_route q =
    (let delayMs = clamp (map_of (dq_query q) ''ms'') 0 MAX_SLOW_MS DEFAULT_SLOW_MS in
     (demo_answer 200 [(''status'', JStr ''ok''), (''delayedMs'', JNum delayMs)])\<lparr>dr_delayMs := delayMs\<rparr>)"

definition flaky_route :: "rat \<Rightarrow> demo_request \<Rightarrow> demo_reply" where
  "flaky_route random q =
    (let rate = clamp (map_of (dq_query q) ''rate'') 0 1 DEFAULT_FLAKY_RATE in
     if random < rate
     then demo_answer 503 [(''status'', JStr ''error''), (''reason'', JStr ''simulated transient failure''), (''rate'', JNum rate)]
     else demo_answer 200 [(''status'', JStr ''ok''), (''rate'', JNum rate)])"

text \<open>A request at a time, with \<open>Math.random()\<close>; \<open>None\<close> is Express's own 404.\<close>

definition demo_post :: "receiver \<Rightarrow> rat \<Rightarrow> demo_request \<Rightarrow> demo_entry \<Rightarrow> demo_reply option" where
  "demo_post rv random q e =
    (if dq_path q = ''/ok'' then Some (ok_route e)
     else if dq_path q = ''/fail-500'' then Some fail_route
     else if dq_path q = ''/slow'' then Some (slow_route q)
     else if dq_path q = ''/flaky'' then Some (flaky_route random q)
     else None)"

definition serve_demo ::
  "receiver \<Rightarrow> int \<Rightarrow> rat \<Rightarrow> demo_request \<Rightarrow> demo_entry list \<Rightarrow> demo_reply option \<times> demo_entry list" where
  "serve_demo rv t random q history =
    (if dq_method q = ''POST'' then
       (let e = demo_entry_of rv t q in
        case demo_post rv random q e of
          None \<Rightarrow> (None, history)
        | Some r \<Rightarrow> (Some r, push_history e history))
     else if dq_method q = ''GET'' \<and> dq_path q = ''/received'' then
       (Some \<lparr>dr_status = 200, dr_delayMs = 0, dr_body = Received history\<rparr>, history)
     else if dq_method q = ''GET'' \<and> dq_path q = ''/health'' then
       (Some (demo_answer 200 [(''status'', JStr ''ok'')]), history)
     else (None, history))"

section \<open>What it keeps\<close>

definition last_entries :: "nat \<Rightarrow> 'a list \<Rightarrow> 'a list" where
  "last_entries n xs = drop (length xs - n) xs"

lemma push_history_last: "push_history e (last_entries HISTORY_LIMIT es) = last_entries HISTORY_LIMIT (es @ [e])"
proof (cases "100 \<le> length es")
  case True
  then have "Suc (length es - 100) = length es - 99" by linarith
  then have "drop (length es - 100) (tl es) = drop (length es - 99) es" by (metis drop_Suc)
  with True show ?thesis by (simp add: push_history_def last_entries_def HISTORY_LIMIT_def Let_def tl_drop)
qed (simp add: push_history_def last_entries_def HISTORY_LIMIT_def Let_def)

text \<open>The requests that are recorded, and the history after them: the last hundred.\<close>

definition recorded :: "receiver \<Rightarrow> (int \<times> rat \<times> demo_request) \<Rightarrow> demo_entry list" where
  "recorded rv x =
    (case x of (t, random, q) \<Rightarrow>
      if dq_method q = ''POST'' \<and> dq_path q \<in> {''/ok'', ''/fail-500'', ''/slow'', ''/flaky''} then [demo_entry_of rv t q] else [])"

definition demo_run :: "receiver \<Rightarrow> (int \<times> rat \<times> demo_request) list \<Rightarrow> demo_entry list \<Rightarrow> demo_entry list" where
  "demo_run rv xs history = foldl (\<lambda>h (t, random, q). snd (serve_demo rv t random q h)) history xs"

lemma serve_demo_history:
  "snd (serve_demo rv t random q (last_entries HISTORY_LIMIT es)) = last_entries HISTORY_LIMIT (es @ recorded rv (t, random, q))"
  by (auto simp: serve_demo_def demo_post_def recorded_def push_history_last Let_def split: option.split)

lemma demo_run_history:
  "demo_run rv xs (last_entries HISTORY_LIMIT es) = last_entries HISTORY_LIMIT (es @ concat (map (recorded rv) xs))"
proof (induction xs arbitrary: es)
  case (Cons x xs)
  obtain t random q where x: "x = (t, random, q)" by (cases x) auto
  have "demo_run rv (x # xs) (last_entries HISTORY_LIMIT es) = demo_run rv xs (last_entries HISTORY_LIMIT (es @ recorded rv x))"
    unfolding demo_run_def by (simp add: x serve_demo_history)
  then show ?case using Cons.IH[of "es @ recorded rv x"] by simp
qed (simp add: demo_run_def)

lemma history_is_last_hundred: "demo_run rv xs [] = last_entries HISTORY_LIMIT (concat (map (recorded rv) xs))"
  using demo_run_history[of rv xs "[]"] by (simp add: last_entries_def)

lemma length_history: "length (demo_run rv xs []) \<le> 100"
  by (simp add: history_is_last_hundred last_entries_def HISTORY_LIMIT_def)

section \<open>What it answers\<close>

lemma clamp_bounds: "lo \<le> hi \<Longrightarrow> lo \<le> fallback \<Longrightarrow> fallback \<le> hi \<Longrightarrow> lo \<le> clamp v lo hi fallback \<and> clamp v lo hi fallback \<le> hi"
  by (auto simp: clamp_def split: option.split)

lemma slow_within_two_minutes: "0 \<le> dr_delayMs (slow_route q) \<and> dr_delayMs (slow_route q) \<le> 120000"
  using clamp_bounds[of 0 MAX_SLOW_MS DEFAULT_SLOW_MS "map_of (dq_query q) ''ms''"]
  by (simp add: slow_route_def demo_answer_def Let_def MAX_SLOW_MS_def DEFAULT_SLOW_MS_def)

section \<open>A delivery of the worker\<close>

lemma jsNumber_positive: "0 < n \<Longrightarrow> jsNumber (int_str n) = Fin (of_int n)"
  using jsNumber_int_str[of n] by (cases "jsNumber (int_str n)") (simp_all add: js_finite_def)

text \<open>What the worker sends to a receiver that holds an active secret is recorded as valid, under its ids.\<close>

lemma delivery_recorded:
  assumes dig: "\<And>s data. hex_digest (rv_hmac rv s data)"
    and hs: "deliveryHeaders (rv_hmac rv) decrypt d v e n (dq_body q) grace t = Inr (dq_headers q)"
    and secrets: "activeSecrets decrypt e grace t = Inr secrets" "rv_secret rv \<in> set secrets" "rv_secret rv \<noteq> []"
    and time: "0 \<le> t" "\<bar>arrival div 1000 - t div 1000\<bar> \<le> 300" and n: "0 < n"
  shows "de_signatureValid (demo_entry_of rv arrival q)" "de_webhookId (demo_entry_of rv arrival q) = Some (d_id d)"
    "de_eventType (demo_entry_of rv arrival q) = Some (v_eventType v)" "de_attempt (demo_entry_of rv arrival q) = Some (Fin (of_int n))"
proof -
  have h: "demo_header ''timestamp'' q = Some (int_str (t div 1000))"
    "demo_header ''signature'' q = Some (buildSignatureHeader (rv_hmac rv) secrets (int_str (t div 1000)) (dq_body q))"
    "demo_header ''id'' q = Some (d_id d)" "demo_header ''event'' q = Some (v_eventType v)" "demo_header ''attempt'' q = Some (int_str n)"
    using hs secrets(1) by (auto simp: demo_header_def WEBHOOK_HEADERS_def deliveryHeaders_def Let_def dest!: sym[of _ "dq_headers q"])
  have "verifySignature (rv_hmac rv) (Some (buildSignatureHeader (rv_hmac rv) secrets (int_str (t div 1000)) (dq_body q)))
      (rv_secret rv) (int_str (t div 1000)) (dq_body q) 300 (arrival div 1000) = Valid"
    using dig secrets time by (intro verify_built) simp_all
  then show "de_signatureValid (demo_entry_of rv arrival q)"
    by (simp add: demo_entry_of_def demo_verify_def h TIMESTAMP_TOLERANCE_SECONDS_def)
  show "de_webhookId (demo_entry_of rv arrival q) = Some (d_id d)" "de_eventType (demo_entry_of rv arrival q) = Some (v_eventType v)"
    "de_attempt (demo_entry_of rv arrival q) = Some (Fin (of_int n))"
    using n by (simp_all add: demo_entry_of_def h attempt_number_def jsNumber_positive)
qed

end
