(* ===== verification/Maintenance.thy ===== *)
theory Maintenance
  imports Routes
begin

text \<open>
  The two scripts an operator runs: \<open>src/backend/prisma/seed.js\<close>, which prepares the demo project, and
  \<open>src/backend/scripts/queue-reset.js\<close>, which deletes the queues and declares them again.  What they print is
  left out, except for the plaintext of a new API key.
\<close>

section \<open>Seeding\<close>

definition DEMO_USER_EMAIL :: string where "DEMO_USER_EMAIL = ''demo@hook-tracker.dev''"
definition DEMO_USER_PASSWORD :: string where "DEMO_USER_PASSWORD = ''demo-password-123''"
definition DEMO_PROJECT_SLUG :: string where "DEMO_PROJECT_SLUG = ''demo''"
definition DEMO_ENDPOINT_URL :: string where "DEMO_ENDPOINT_URL = ''http://receiver:4000/flaky?rate=0.7''"
definition DEMO_API_KEY_NAME :: string where "DEMO_API_KEY_NAME = ''demo-key''"

record seed_deps =
  sd_secret :: "string option"
  sd_hashPassword :: "string \<Rightarrow> string \<Rightarrow> string"
  sd_seal :: "string \<Rightarrow> string \<Rightarrow> string \<times> string"
  sd_sha256Hex :: "string \<Rightarrow> string"

text \<open>\<open>upsert\<close> on a unique column: the row found, updated, or a new one.\<close>

definition upsert_user :: "user \<Rightarrow> statement" where
  "upsert_user u w = (if find_by u_email (u_email u) (users w) \<noteq> None then Inr w else create_user u w)"

definition upsert_project :: "project \<Rightarrow> statement" where
  "upsert_project p w = (if find_by p_slug (p_slug p) (projects w) \<noteq> None then Inr w else create_project p w)"

definition same_pair :: "membership \<Rightarrow> membership \<Rightarrow> bool" where
  "same_pair m x \<longleftrightarrow> m_userId x = m_userId m \<and> m_projectId x = m_projectId m"

definition upsert_membership :: "membership \<Rightarrow> statement" where
  "upsert_membership m w =
    (if \<exists>x \<in> set (memberships w). same_pair m x
     then Inr (w\<lparr>memberships := update_where (same_pair m) (\<lambda>x. x\<lparr>m_role := OWNER\<rparr>) (memberships w)\<rparr>)
     else create_membership m w)"

definition seed_user :: "seed_deps \<Rightarrow> user option act" where
  "seed_user sd =
    io_bind (fresh_id ''user'') (\<lambda>i.
    io_bind random_text (\<lambda>salt.
    commit [\<lambda>w. upsert_user \<lparr>u_id = i, u_email = DEMO_USER_EMAIL, u_passwordHash = sd_hashPassword sd salt DEMO_USER_PASSWORD,
              u_name = ''Demo User'', u_createdAt = clock w\<rparr> w]
      (\<lambda>w. find_by u_email DEMO_USER_EMAIL (users w))))"

definition seed_project :: "project option act" where
  "seed_project =
    io_bind (fresh_id ''project'') (\<lambda>i.
    commit [\<lambda>w. upsert_project \<lparr>p_id = i, p_name = ''Demo Project'', p_slug = DEMO_PROJECT_SLUG, p_alertWebhookUrl = None,
              p_createdAt = clock w\<rparr> w]
      (\<lambda>w. find_by p_slug DEMO_PROJECT_SLUG (projects w)))"

definition demo_endpoint_of :: "string \<Rightarrow> endpoint \<Rightarrow> bool" where
  "demo_endpoint_of projectId e \<longleftrightarrow> e_projectId e = projectId \<and> e_url e = DEMO_ENDPOINT_URL"

definition seed_endpoint :: "seed_deps \<Rightarrow> string \<Rightarrow> string \<Rightarrow> unit act" where
  "seed_endpoint sd secret projectId =
    io_bind (query (\<lambda>w. find (demo_endpoint_of projectId) (endpoints w))) (\<lambda>existing.
    if existing \<noteq> None then io_ret ()
    else
      io_bind (fresh_id ''endpoint'') (\<lambda>i.
      io_bind random_text (\<lambda>iv.
      commit [\<lambda>w. create_endpoint_row (new_endpoint i projectId DEMO_ENDPOINT_URL
          (Some ''Bundled demo receiver, fails 70% of the time so retries are visible'') [] None
          (encryptSecret (sd_seal sd) iv secret) (clock w)) w] (\<lambda>_. ()))))"

definition demo_key_of :: "string \<Rightarrow> api_key \<Rightarrow> bool" where
  "demo_key_of projectId k \<longleftrightarrow> k_projectId k = projectId \<and> k_name k = DEMO_API_KEY_NAME \<and> k_revokedAt k = None"

definition seed_key :: "seed_deps \<Rightarrow> string \<Rightarrow> string option act" where
  "seed_key sd projectId =
    io_bind (query (\<lambda>w. find (demo_key_of projectId) (apiKeys w))) (\<lambda>existing.
    if existing \<noteq> None then io_ret None
    else
      io_bind random_text (\<lambda>random.
      io_bind (lift (generateApiKey (sd_sha256Hex sd) random)) (\<lambda>g.
      io_bind (fresh_id ''apiKey'') (\<lambda>i.
      io_seq (commit [\<lambda>w. create_key_row \<lparr>k_id = i, k_projectId = projectId, k_name = DEMO_API_KEY_NAME,
          k_keyPrefix = gk_keyPrefix g, k_keyHash = gk_keyHash g, k_lastUsedAt = None, k_revokedAt = None,
          k_createdAt = clock w\<rparr> w] (\<lambda>_. ()))
      (io_ret (Some (gk_plaintext g)))))))"

text \<open>The plaintext of the key, if a new one was made.  An upsert always returns its row.\<close>

definition seed :: "seed_deps \<Rightarrow> string option act" where
  "seed sd =
    (case sd_secret sd of
       None \<Rightarrow> io_raise (JsError None None ''DEMO_ENDPOINT_SECRET is required to seed the demo endpoint; see .env.example'')
     | Some secret \<Rightarrow>
        if secret = [] then io_raise (JsError None None ''DEMO_ENDPOINT_SECRET is required to seed the demo endpoint; see .env.example'')
        else
          io_bind (seed_user sd) (\<lambda>u.
          io_bind seed_project (\<lambda>p.
          (case (u, p) of
             (Some user, Some project) \<Rightarrow>
               io_seq (commit [\<lambda>w. upsert_membership \<lparr>m_userId = u_id user, m_projectId = p_id project, m_role = OWNER,
                   m_createdAt = clock w\<rparr> w] (\<lambda>_. ()))
               (io_seq (seed_endpoint sd secret (p_id project))
               (seed_key sd (p_id project)))
           | _ \<Rightarrow> io_raise record_not_found))))"

text \<open>The demo is there: its user owns its project, which has the endpoint and a key that is not revoked.\<close>

definition seeded :: "world \<Rightarrow> bool" where
  "seeded w \<longleftrightarrow>
    (\<exists>u p. find_by u_email DEMO_USER_EMAIL (users w) = Some u \<and> find_by p_slug DEMO_PROJECT_SLUG (projects w) = Some p \<and>
       (\<exists>m \<in> set (memberships w). m_userId m = u_id u \<and> m_projectId m = p_id p) \<and>
       (\<forall>m \<in> set (memberships w). m_userId m = u_id u \<and> m_projectId m = p_id p \<longrightarrow> m_role m = OWNER) \<and>
       find (demo_endpoint_of (p_id p)) (endpoints w) \<noteq> None \<and> find (demo_key_of (p_id p)) (apiKeys w) \<noteq> None)"

lemma find_append: "find P (xs @ ys) = (case find P xs of None \<Rightarrow> find P ys | Some x \<Rightarrow> Some x)"
  by (induction xs) simp_all

lemma seeded_pop [simp]: "seeded (pop_fault w) = seeded w" "seeded (w\<lparr>fresh := n\<rparr>) = seeded w"
  by (simp_all add: seeded_def)

lemma same_tables_fresh [simp]: "same_tables w (v\<lparr>fresh := n\<rparr>) = same_tables w v"
  by (simp add: same_tables_def)

lemma update_where_same: "(\<And>r. r \<in> set rows \<Longrightarrow> p r \<Longrightarrow> f r = r) \<Longrightarrow> update_where p f rows = rows"
  by (induction rows) (auto simp: update_where_def)

text \<open>Seeding again changes nothing, whatever call fails.\<close>

lemma reseed:
  assumes "seeded w"
  shows "wp (seed sd) (\<lambda>plaintext w'. plaintext = None \<and> same_tables w w') (\<lambda>_ w'. same_tables w w') w"
proof -
  obtain u p where up: "find_by u_email DEMO_USER_EMAIL (users w) = Some u" "find_by p_slug DEMO_PROJECT_SLUG (projects w) = Some p"
      "find (demo_endpoint_of (p_id p)) (endpoints w) \<noteq> None" "find (demo_key_of (p_id p)) (apiKeys w) \<noteq> None"
    and ms: "\<exists>m \<in> set (memberships w). m_userId m = u_id u \<and> m_projectId m = p_id p"
      "\<And>m. m \<in> set (memberships w) \<Longrightarrow> m_userId m = u_id u \<Longrightarrow> m_projectId m = p_id p \<Longrightarrow> m_role m = OWNER"
    using assms by (auto simp: seeded_def)
  have m: "update_where (same_pair (\<lparr>m_userId = u_id u, m_projectId = p_id p, m_role = OWNER, m_createdAt = t\<rparr>)) (\<lambda>x. x\<lparr>m_role := OWNER\<rparr>)
      (memberships w) = memberships w" for t
    by (rule update_where_same) (use ms(2) in \<open>auto simp: same_pair_def\<close>)
  show ?thesis
    unfolding seed_def seed_user_def seed_project_def seed_endpoint_def seed_key_def
    using up ms(1)
    by (auto simp: wp_simps wp_random_text upsert_user_def upsert_project_def upsert_membership_def same_tables_def m same_pair_def
        split: option.split fault.split sum.split)
qed

text \<open>A run that succeeds leaves the demo there.\<close>

lemma find_by_new: "find_by key k rows = None \<Longrightarrow> key r = k \<Longrightarrow> find_by key k (rows @ [r]) = Some r"
  by (simp add: find_by_def find_append)

lemma upserts:
  "upsert_user u w = Inr w' \<Longrightarrow> find_by u_email (u_email u) (users w') \<noteq> None \<and> same_tables (w\<lparr>users := users w'\<rparr>) w'"
  "upsert_project p w = Inr w' \<Longrightarrow> find_by p_slug (p_slug p) (projects w') \<noteq> None \<and> same_tables (w\<lparr>projects := projects w'\<rparr>) w'"
  by (auto simp: upsert_user_def upsert_project_def create_user_def create_project_def find_by_new same_tables_def split: if_splits)

lemma same_pair_role [simp]: "same_pair m (x\<lparr>m_role := r\<rparr>) = same_pair m x"
  by (simp add: same_pair_def)

lemma upsert_membership_owner:
  assumes "upsert_membership m w = Inr w'" "m_role m = OWNER"
  shows "same_tables (w\<lparr>memberships := memberships w'\<rparr>) w'" "\<exists>x \<in> set (memberships w'). same_pair m x"
    "\<forall>x \<in> set (memberships w'). same_pair m x \<longrightarrow> m_role x = OWNER"
proof -
  show "same_tables (w\<lparr>memberships := memberships w'\<rparr>) w'" "\<forall>x \<in> set (memberships w'). same_pair m x \<longrightarrow> m_role x = OWNER"
    using assms by (auto simp: upsert_membership_def create_membership_def update_where_def same_tables_def same_pair_def split: if_splits)
  show "\<exists>x \<in> set (memberships w'). same_pair m x"
  proof (cases "\<exists>x \<in> set (memberships w). same_pair m x")
    case True
    then obtain x where "x \<in> set (memberships w)" "same_pair m x" by blast
    then have "x\<lparr>m_role := OWNER\<rparr> \<in> set (memberships w')" using assms(1) True by (auto simp: upsert_membership_def update_where_def)
    then show ?thesis using \<open>same_pair m x\<close> by (intro bexI[of _ "x\<lparr>m_role := OWNER\<rparr>"]) simp_all
  next
    case False
    then show ?thesis using assms(1) by (auto simp: upsert_membership_def create_membership_def same_pair_def split: if_splits)
  qed
qed

lemma seed_endpoint_wp:
  "wp (seed_endpoint sd secret i)
     (\<lambda>_ w'. find (demo_endpoint_of i) (endpoints w') \<noteq> None \<and> same_tables (w\<lparr>endpoints := endpoints w'\<rparr>) w') (\<lambda>_ _. True) w"
  by (auto simp: seed_endpoint_def wp_simps wp_random_text create_endpoint_row_def find_append demo_endpoint_of_def new_endpoint_def
      same_tables_def split: fault.split sum.split)

lemma seed_key_wp:
  "wp (seed_key sd i)
     (\<lambda>_ w'. find (demo_key_of i) (apiKeys w') \<noteq> None \<and> same_tables (w\<lparr>apiKeys := apiKeys w'\<rparr>) w') (\<lambda>_ _. True) w"
  by (auto simp: seed_key_def wp_simps wp_random_text create_key_row_def find_append demo_key_of_def same_tables_def
      split: fault.split sum.split)

lemma seed_wp: "wp (seed sd) (\<lambda>_ w'. seeded w') (\<lambda>_ _. True) w"
proof -
  have user: "wp (seed_user sd) (\<lambda>u w'. u = find_by u_email DEMO_USER_EMAIL (users w')) (\<lambda>_ _. True) w"
    by (auto simp: seed_user_def wp_simps wp_random_text split: fault.split sum.split)
  have project: "wp seed_project (\<lambda>p w'. p = find_by p_slug DEMO_PROJECT_SLUG (projects w') \<and> users w' = users v) (\<lambda>_ _. True) v" for v
    by (auto simp: seed_project_def wp_simps same_tables_def dest!: upserts(2) split: fault.split sum.split)
  have rest: "wp (io_seq (commit [\<lambda>w. upsert_membership \<lparr>m_userId = u_id u, m_projectId = p_id p, m_role = OWNER, m_createdAt = clock w\<rparr> w] (\<lambda>_. ()))
      (io_seq (seed_endpoint sd secret (p_id p)) (seed_key sd (p_id p)))) (\<lambda>_ w'. seeded w') (\<lambda>_ _. True) v"
    if "find_by u_email DEMO_USER_EMAIL (users v) = Some u" "find_by p_slug DEMO_PROJECT_SLUG (projects v) = Some p" for v u p secret
  proof -
    have "wp (io_seq (seed_endpoint sd secret (p_id p)) (seed_key sd (p_id p))) (\<lambda>_ w'. seeded w') (\<lambda>_ _. True) v'"
      if m: "upsert_membership \<lparr>m_userId = u_id u, m_projectId = p_id p, m_role = OWNER, m_createdAt = t\<rparr> (pop_fault v) = Inr v'" for v' t
      unfolding wp_seq
    proof (rule wp_mono[OF seed_endpoint_wp])
      fix r :: unit and e :: world
      assume e: "find (demo_endpoint_of (p_id p)) (endpoints e) \<noteq> None \<and> same_tables (v'\<lparr>endpoints := endpoints e\<rparr>) e"
      show "wp (seed_key sd (p_id p)) (\<lambda>_ w'. seeded w') (\<lambda>_ _. True) e"
        by (rule wp_mono[OF seed_key_wp])
          (use upsert_membership_owner[OF m] e \<open>find_by u_email DEMO_USER_EMAIL (users v) = Some u\<close> \<open>find_by p_slug DEMO_PROJECT_SLUG (projects v) = Some p\<close>
           in \<open>auto simp: seeded_def same_tables_def same_pair_def\<close>)
    qed simp
    then show ?thesis by (auto simp: wp_seq[of "commit _ _"] wp_commit split: fault.split sum.split)
  qed
  show ?thesis
    unfolding seed_def
  proof (cases "sd_secret sd")
    case (Some secret)
    show "wp (case sd_secret sd of None \<Rightarrow> io_raise (JsError None None ''DEMO_ENDPOINT_SECRET is required to seed the demo endpoint; see .env.example'')
     | Some secret \<Rightarrow> if secret = [] then io_raise (JsError None None ''DEMO_ENDPOINT_SECRET is required to seed the demo endpoint; see .env.example'')
        else io_bind (seed_user sd) (\<lambda>u. io_bind seed_project (\<lambda>p.
          (case (u, p) of
             (Some user, Some project) \<Rightarrow>
               io_seq (commit [\<lambda>w. upsert_membership \<lparr>m_userId = u_id user, m_projectId = p_id project, m_role = OWNER,
                   m_createdAt = clock w\<rparr> w] (\<lambda>_. ()))
               (io_seq (seed_endpoint sd secret (p_id project)) (seed_key sd (p_id project)))
           | _ \<Rightarrow> io_raise record_not_found)))) (\<lambda>_ w'. seeded w') (\<lambda>_ _. True) w"
      using Some user project rest
      by (auto simp: wp_raise wp_bind intro!: wp_mono[OF user] wp_mono[OF project] split: option.split)
  qed (simp add: wp_raise)
qed

lemma seed_twice:
  assumes "seed sd w = (Inr r, w1)"
  shows "same_tables w1 (snd (seed sd w1))" "fst (seed sd w1) \<noteq> Inr (Some plaintext)"
proof -
  have s: "seeded w1" using seed_wp[of sd w] assms by (simp add: wp_def)
  show "same_tables w1 (snd (seed sd w1))" "fst (seed sd w1) \<noteq> Inr (Some plaintext)"
    using reseed[OF s, of sd] by (auto simp: wp_def split: prod.splits sum.splits)
qed

section \<open>Resetting the queues\<close>

text \<open>
  The broker as the script sees it: the number of messages in each queue that exists, and the
  exchanges.  A queue whose inspection fails, for whatever reason, counts as absent.  Between the
  inspection and the deletions other processes may publish.  The connection opens any number of
  channels, none of them if it cannot be made, and the last channel may fail after any number of
  calls; the library's message is a parameter.
\<close>

record broker =
  bk_queues :: "string \<Rightarrow> nat option"
  bk_exchanges :: "string set"

datatype reset_command = DeleteQueue string | DeleteExchange string | Declare channel_command

fun run_command :: "reset_command \<Rightarrow> broker \<Rightarrow> broker" where
  "run_command (DeleteQueue q) b = b\<lparr>bk_queues := (bk_queues b)(q := None)\<rparr>"
| "run_command (DeleteExchange x) b = b\<lparr>bk_exchanges := bk_exchanges b - {x}\<rparr>"
| "run_command (Declare (AssertExchange x kind)) b = b\<lparr>bk_exchanges := insert x (bk_exchanges b)\<rparr>"
| "run_command (Declare (AssertQueue q args)) b =
    (if bk_queues b q = None then b\<lparr>bk_queues := (bk_queues b)(q := Some 0)\<rparr> else b)"
| "run_command (Declare (BindQueue q x k)) b = b"

record reset_env =
  rn_production :: bool
  rn_force :: bool
  rn_unreadable :: "string set"
  rn_arrivals :: "string \<Rightarrow> nat"
  rn_channels :: "nat option"
  rn_calls :: "nat option"
  rn_failure :: string

definition enough :: "nat option \<Rightarrow> nat \<Rightarrow> bool" where
  "enough limit k \<longleftrightarrow> (case limit of None \<Rightarrow> True | Some n \<Rightarrow> k \<le> n)"

definition pendingMessages :: "reset_env \<Rightarrow> broker \<Rightarrow> string \<Rightarrow> nat option" where
  "pendingMessages env b q = (if q \<in> rn_unreadable env then None else bk_queues b q)"

definition arrive :: "reset_env \<Rightarrow> broker \<Rightarrow> broker" where
  "arrive env b = b\<lparr>bk_queues := (\<lambda>q. map_option (\<lambda>n. n + rn_arrivals env q) (bk_queues b q))\<rparr>"

definition reset_commands :: "topology \<Rightarrow> (string \<times> nat option) list \<Rightarrow> reset_command list" where
  "reset_commands t states =
    map (DeleteQueue \<circ> fst) (filter (\<lambda>s. snd s \<noteq> None) states)
    @ map DeleteExchange [ex_main (tp_exchanges t), ex_retry (tp_exchanges t), ex_dlx (tp_exchanges t)]
    @ map Declare (assertTopology t)"

definition queue_reset :: "reset_env \<Rightarrow> topology \<Rightarrow> broker \<Rightarrow> (string + unit) \<times> broker" where
  "queue_reset env t b =
    (if rn_production env then (Inl ''queue:reset is a development tool and refuses to run with NODE_ENV=production'', b)
     else if \<not> enough (rn_channels env) (length (allQueueNames t)) then (Inl (rn_failure env), b)
     else
       (let states = map (\<lambda>q. (q, pendingMessages env b q)) (allQueueNames t);
            occupied = filter (\<lambda>s. case snd s of None \<Rightarrow> False | Some n \<Rightarrow> 0 < n) states in
        if occupied \<noteq> [] \<and> \<not> rn_force env
        then (Inl (''refusing to delete queues that still hold messages: '' @ join '', '' (map fst occupied)
               @ ''. Drain them first, or pass --force to discard those messages''), b)
        else if \<not> enough (rn_channels env) (Suc (length (allQueueNames t))) then (Inl (rn_failure env), b)
        else
          (let commands = reset_commands t states in
           case rn_calls env of
             None \<Rightarrow> (Inr (), fold run_command commands (arrive env b))
           | Some n \<Rightarrow> if length commands \<le> n then (Inr (), fold run_command commands (arrive env b))
               else (Inl (rn_failure env), fold run_command (take n commands) (arrive env b)))))"

text \<open>A queue that is not deleted keeps its messages.\<close>

lemma run_commands_keep:
  "DeleteQueue q \<notin> set cs \<Longrightarrow> bk_queues b q = Some n \<Longrightarrow> bk_queues (fold run_command cs b) q = Some n"
proof (induction cs arbitrary: b)
  case (Cons c cs)
  have "bk_queues (run_command c b) q = Some n"
    using Cons.prems by (cases "(c, b)" rule: run_command.cases) (auto split: if_splits)
  then show ?case using Cons by simp
qed simp

lemma deleted_queues: "DeleteQueue q \<in> set (reset_commands t (map (\<lambda>q. (q, f q)) qs)) \<Longrightarrow> f q \<noteq> None \<and> q \<in> set qs"
  by (auto simp: reset_commands_def)

text \<open>Without \<open>--force\<close> and with nobody publishing meanwhile, no message is discarded, even if the channel fails half-way.\<close>

lemma reset_discards_nothing:
  assumes "\<not> rn_force env" "rn_arrivals env = (\<lambda>_. 0)" "bk_queues b q = Some n" "0 < n"
  shows "bk_queues (snd (queue_reset env t b)) q = Some n"
proof -
  let ?states = "map (\<lambda>q. (q, pendingMessages env b q)) (allQueueNames t)"
  have a: "bk_queues (arrive env b) q = Some n" using assms(2,3) by (simp add: arrive_def)
  have "bk_queues (fold run_command (take k (reset_commands t ?states)) (arrive env b)) q = Some n"
    if none: "filter (\<lambda>s. case snd s of None \<Rightarrow> False | Some n \<Rightarrow> 0 < n) ?states = []" for k
  proof (rule run_commands_keep[OF _ a])
    show "DeleteQueue q \<notin> set (take k (reset_commands t ?states))"
    proof
      assume "DeleteQueue q \<in> set (take k (reset_commands t ?states))"
      then have "pendingMessages env b q \<noteq> None \<and> q \<in> set (allQueueNames t)"
        by (intro deleted_queues) (rule in_set_takeD)
      moreover have "pendingMessages env b q = Some n \<or> pendingMessages env b q = None"
        using assms(3) by (simp add: pendingMessages_def)
      ultimately show False using none assms(4) by (fastforce simp: filter_empty_conv)
    qed
  qed
  note kept = this
  show ?thesis
    using assms kept[of "length (reset_commands t ?states)"] kept
    by (auto simp: queue_reset_def Let_def split: option.split)
qed

text \<open>A reset that ends has every queue of the topology declared.\<close>

lemma run_declares:
  assumes "Declare (AssertQueue q args) \<in> set cs" "\<And>c. c \<in> set cs \<Longrightarrow> \<exists>d. c = Declare d"
  shows "bk_queues (fold run_command cs b) q \<noteq> None"
  using assms
proof (induction cs arbitrary: b)
  case (Cons c cs)
  show ?case
  proof (cases "c = Declare (AssertQueue q args)")
    case True
    then obtain n where "bk_queues (run_command c b) q = Some n" by (cases "bk_queues b q") auto
    then have "bk_queues (fold run_command cs (run_command c b)) q = Some n"
      using Cons.prems(2) by (intro run_commands_keep) auto
    then show ?thesis by simp
  next
    case False
    then show ?thesis using Cons by auto
  qed
qed simp

lemma topology_declares: "q \<in> set (allQueueNames t) \<Longrightarrow> \<exists>args. AssertQueue q args \<in> set (assertTopology t)"
  by (auto simp: allQueueNames_def assertTopology_def declare_delay_queue_def)

lemma reset_declares:
  assumes "queue_reset env t b = (Inr (), b')" "q \<in> set (allQueueNames t)"
  shows "bk_queues b' q \<noteq> None"
proof -
  obtain args where a: "AssertQueue q args \<in> set (assertTopology t)" using topology_declares[OF assms(2)] by blast
  have "bk_queues (fold run_command (map Declare (assertTopology t)) b0) q \<noteq> None" for b0
    using a by (intro run_declares) auto
  then show ?thesis
    using assms(1) by (auto simp: queue_reset_def reset_commands_def Let_def split: if_splits option.splits)
qed

text \<open>
  The inspection and the deletion are two steps, and the deletion does not ask for an empty queue: a
  message published in between is discarded without \<open>--force\<close>.
\<close>

definition racing_env :: reset_env where
  "racing_env = \<lparr>rn_production = False, rn_force = False, rn_unreadable = {}, rn_arrivals = (\<lambda>q. if q = ''webhook.delivery'' then 1 else 0),
     rn_channels = None, rn_calls = None, rn_failure = ''channel closed''\<rparr>"

lemma reset_races:
  "\<exists>b. bk_queues (arrive racing_env b) ''webhook.delivery'' = Some 1 \<and>
     fst (queue_reset racing_env default_topology b) = Inr () \<and>
     bk_queues (snd (queue_reset racing_env default_topology b)) ''webhook.delivery'' = Some 0"
  by (rule exI[of _ "\<lparr>bk_queues = (\<lambda>q. if q = ''webhook.delivery'' then Some 0 else None), bk_exchanges = {}\<rparr>"]) code_simp

end
