(* ===== verification/Spec2Isabelle.thy ===== *)
theory Spec2Isabelle
  imports Prelude Retry Errors Ids Json World Broker Js_Number Ssrf Event_Types Base64 Crypto Signing Token_Bucket Env_Schema Http_Client Alerts Handler Samples Publish_Service Stuck_Sweeper Retention Schedule Worker Alert_Watch Keyset Delivery_Service System Auth_Service Project_Service Endpoint_Service Event_Service Middleware Redis_Store Rate_Limit Idempotency Schemas Metrics Realtime_Socket Routes Route_Guards Samples_Api Ui_Lib Ui_Curl Ui_Requests Ui_Stores Ui_Api Ui_Auth Ui_Realtime Ui_Filters Ui_Endpoint_Form Ui_Settings Ui_Detail Ui_Shell Ui_Live Ui_Screens Openapi Responses Demo_Receiver Maintenance
begin

text \<open>
This is a verification library for hook-tracker, a service that accepts webhook events over HTTP,
delivers them to the endpoints that subscribe to them and shows what became of each delivery.  It
models the backend under \<open>src/backend/src\<close> (the API process, the worker process, the jobs process and the
code they share) and the logic of the dashboard under \<open>src/dashboard/src\<close>.  Every other theory opens with
what it models.

\<^bold>\<open>The program.\<close>  The API authenticates a publish request, takes its idempotency key, writes one event and
one delivery per recipient in one transaction and publishes a message per pending delivery.  A worker
takes a message, loads the delivery, checks its status and its endpoint, takes a token from the
endpoint's bucket, signs the payload, sends it through the SSRF guard and records the attempt with the
new status; a retryable failure is published again to a queue whose expiry returns it to the workers.
The jobs recover deliveries that are stuck, delete old events and raise alerts.  The dashboard's routes
read and change all this under membership checks, and a socket pushes what happens.

\<^bold>\<open>The state.\<close>  \<open>World\<close> holds the tables of \<open>prisma/schema.prisma\<close> as lists of rows, the messages the
broker has accepted, the Redis keys of the worker, the clock and the supply of random text; the API's
own Redis keys are in \<open>Redis_Store\<close>.  An operation is a state-passing function \<open>io\<close> whose result is
the value returned or the error thrown (\<open>Prelude\<close>).  Every awaited call (\<open>effect\<close>, \<open>query\<close>, \<open>effect_ret\<close>,
\<open>commit\<close>, \<open>redis_call\<close>) consults a fault plan in the state: it may succeed, reject before it did
anything, or reject after it took effect.  A theorem that does not restrict \<open>faults\<close> holds for every
failure of the database, the broker and Redis.  A transaction is a list of statements that are all done
or none.

\<^bold>\<open>The theories\<close>, by the files they model.
\<^item> Shared rules: \<open>Retry\<close> (\<open>shared/retry.js\<close>, \<open>delivery-status.js\<close>), \<open>Errors\<close> (\<open>shared/errors.js\<close>, \<open>roles.js\<close>,
  \<open>api/authorization.js\<close> and the error and validation middlewares), \<open>Ids\<close>, \<open>Json\<close>, \<open>Event_Types\<close>, \<open>Env_Schema\<close>;
  \<open>Js_Number\<close> has the conversions between numbers and text of the language, \<open>Base64\<close> Node's encoding.
\<^item> Security: \<open>Ssrf\<close> (\<open>shared/ssrf.js\<close>), \<open>Crypto\<close>, \<open>Signing\<close> (\<open>shared/hmac.js\<close>, \<open>worker/signing.js\<close>).
\<^item> Delivery: \<open>Broker\<close> (\<open>shared/queue\<close>), \<open>Http_Client\<close>, \<open>Token_Bucket\<close>, \<open>Alerts\<close> (\<open>shared/alerts.js\<close>,
  \<open>realtime.js\<close>), \<open>Handler\<close> (\<open>worker/handle-delivery.js\<close>, one definition per function and branch), \<open>Worker\<close>.
\<^item> Jobs: \<open>Stuck_Sweeper\<close>, \<open>Retention\<close>, \<open>Alert_Watch\<close>, \<open>Schedule\<close> (\<open>jobs/schedule.js\<close>, \<open>shared/lifecycle.js\<close>).
\<^item> Services (\<open>api/services\<close>): \<open>Publish_Service\<close>, \<open>Delivery_Service\<close>, \<open>Auth_Service\<close>, \<open>Project_Service\<close> (with
  \<open>api-key-service.js\<close>), \<open>Endpoint_Service\<close>, \<open>Event_Service\<close>, \<open>Keyset\<close>.
\<^item> HTTP: \<open>Middleware\<close>, \<open>Rate_Limit\<close>, \<open>Idempotency\<close>, \<open>Schemas\<close>, \<open>Metrics\<close>, \<open>Realtime_Socket\<close>, \<open>Routes\<close> (the routers
  and \<open>app.js\<close> in the order the code mounts them), \<open>Route_Guards\<close>.
\<^item> Documentation: \<open>Openapi\<close> (\<open>api/openapi/document.js\<close>), compared with the routers, and \<open>Responses\<close>
  (\<open>api/schemas/responses.js\<close>), compared with the JSON they send.
\<^item> \<open>Demo_Receiver\<close> (\<open>demo-receiver/server.js\<close>), the other end of a delivery; \<open>Maintenance\<close> (\<open>prisma/seed.js\<close>,
  \<open>scripts/queue-reset.js\<close>), what an operator runs.
\<^item> Dashboard, libraries and stores: \<open>Ui_Lib\<close> (dates, errors, theme, names), \<open>Ui_Curl\<close> (\<open>lib/curl.js\<close>), \<open>Ui_Requests\<close>
  (\<open>use-sequenced-request.js\<close> and the paged list the stores build on it), \<open>Ui_Api\<close> (\<open>lib/api.js\<close>: requests and
  the shared refresh), \<open>Ui_Stores\<close> (deliveries, endpoints, statistics), \<open>Ui_Auth\<close> (\<open>stores/auth.js\<close>, the router's
  guard, the sign-in and registration forms), \<open>Ui_Realtime\<close> (\<open>stores/realtime.js\<close>), \<open>Ui_Filters\<close>
  (\<open>use-query-filters.js\<close> and the lists' filters).
\<^item> Dashboard, screens: \<open>Ui_Endpoint_Form\<close>, \<open>Ui_Settings\<close> (project, members, keys, alerts), \<open>Ui_Detail\<close> (the panels of a
  delivery and an event), \<open>Ui_Shell\<close> (menus, modals, focus, clipboard, the endpoints view), \<open>Ui_Screens\<close>
  (mounting, subscriptions, switching projects), \<open>Ui_Live\<close> (a message of the worker applied to the list).
\<^item> Composition: \<open>System\<close>, where one step is one operation of one process with whatever faults its calls
  meet; \<open>Samples\<close> and \<open>Samples_Api\<close> hold the concrete inputs of the witnesses.

\<^bold>\<open>The interfaces\<close> are locales, interpreted on the model: \<open>frame_order\<close> (what a composition of calls leaves
alone), the keyed store behind the tables, the ladder of attempts that ends the retry chain.

\<^bold>\<open>What the lemmas show.\<close>  \<open>wp m Q E w\<close> says that running \<open>m\<close> in \<open>w\<close> returns in \<open>Q\<close> or rejects in \<open>E\<close>; each
component proves one such law per operation, on all its branches.  \<open>handled\<close> and \<open>crashed\<close> in \<open>Handler\<close>
are the contract of a delivery, an abstract specification by outcome, and \<open>handleDelivery_wp\<close> the
refinement.  \<open>System\<close> proves the integrity of the tables (\<open>sound\<close>) for every step and that a finished row
is never changed except by deletion.  \<open>Rate_Limit\<close>, \<open>Idempotency\<close>, \<open>Auth_Service\<close>, \<open>Schedule\<close> and
\<open>Realtime_Socket\<close> prove their bounds over every interleaving of the atomic statements of concurrent
requests.  The dashboard is single-threaded: a stretch of code between two awaits is one step of a store, and
\<open>Ui_Requests\<close>, \<open>Ui_Api\<close>, \<open>Ui_Realtime\<close> and \<open>Ui_Stores\<close> prove their invariants over every sequence of steps, answers in
any order and failures included; \<open>Ui_Live\<close>, \<open>Ui_Endpoint_Form\<close>, \<open>Ui_Detail\<close> and \<open>Ui_Auth\<close> prove that both sides of the API
agree.  \<open>Route_Guards\<close> proves that no route does anything for a caller without the membership it asks
for.  The properties are stated in this theory, C1 to C40 in the order of their importance.

\<^bold>\<open>Bounds and fuel.\<close>  Loops are structural recursions or have a measure; the walk through all pages has fuel,
and \<open>keyset_walk\<close> shows that one more than the number of rows is enough.  The chain of attempts is run for
\<open>MAX_ATTEMPTS\<close> steps, which \<open>retry_chain_ends\<close> shows to be enough.  Finite doubles are exact rationals or
integers; widths matter for the 32-bit timer of a socket and for IPv4 addresses, which are words.

\<^bold>\<open>Parameters\<close> stand for code that is not in the repository: random ids, undici's transport, the zod parsers
of request bodies, JWT, argon2, ciphers, SHA-256 and HMAC, DNS, URL parsing and \<open>isIP\<close>, number and date
formatting, the containment operator of Postgres.  What a theorem needs of them is one of its hypotheses.

\<^bold>\<open>Interleaving.\<close>  Within \<open>System\<close> an operation is one step; the interleavings the code guards with conditional
statements are treated where they occur (\<open>endpoint_disabled_announced_once\<close>, \<open>refresh_token_once\<close>,
\<open>rate_limit_bound\<close>, \<open>idempotent_window\<close>).  \<open>late_duplicate_revives\<close> and \<open>stranded_after_commit\<close> are runs in which the
code does not do what its comments say.

\<^bold>\<open>Not modelled.\<close>  Log calls, which change no state; the construction of library clients and the start-up
scripts; the templates and styles of the dashboard and the components that only render what they are
given; the descriptions and text formats in the OpenAPI document.
\<close>

section \<open>Properties\<close>


text \<open>C2. When the handler returns normally, so that the message is acknowledged, the delivery is unknown, or its row is terminal, or exactly one follow-up message for it was confirmed by the retry exchange: no normal return drops a delivery.\<close>

theorem handler_conserves_delivery:
  "wp (handleDelivery hn i n)
    (\<lambda>_ w'. load_delivery i w = None
       \<or> (\<exists>d. get_delivery w' i = Some d \<and> terminal (d_status d))
       \<or> (\<exists>m \<in> {n, n + 1}. one_message (retry_of hn) i m w w'))
    (\<lambda>_ _. True) w"
  by (rule wp_mono[OF handleDelivery_wp])
     (auto simp: handled_def row_is_def same_rows_get Let_def split: outcome.splits)







text \<open>C6. Endpoints, deliveries and events are addressed by id and yet belong to their project: for a caller without a membership in the project the resource belongs to, the routers answer nothing but an error or fall through to the 404, and no table and no message changes.\<close>

theorem resource_routes_guarded:
  assumes "rq_path rq = c # i # rest" "resource_project c i (st_world s) = Some p"
    and "caller_outside ad rq p (st_world s)"
  shows "wp (or_else (endpoint_router ad rq body) (or_else (delivery_router ad rq) (event_router ad rq)))
    (\<lambda>r s'. r = None \<and> same_tables (st_world s) (st_world s')) (\<lambda>_ s'. same_tables (st_world s) (st_world s')) s"
  using resource_routers_silent[OF assms] by (simp add: Route_Guards.silent_def)

theorem resource_routes_guarded_witness:
  "wp (or_else (endpoint_router sample_app (sample_request ''usr_9'' ''DELETE'' [''endpoints'', ''ep_1'']) (JObj []))
     (or_else (delivery_router sample_app (sample_request ''usr_9'' ''DELETE'' [''endpoints'', ''ep_1'']))
       (event_router sample_app (sample_request ''usr_9'' ''DELETE'' [''endpoints'', ''ep_1'']))))
    (\<lambda>r s'. r = None \<and> same_tables (st_world sample_state) (st_world s'))
    (\<lambda>_ s'. same_tables (st_world sample_state) (st_world s')) sample_state"
proof (rule resource_routes_guarded)
  show "rq_path (sample_request ''usr_9'' ''DELETE'' [''endpoints'', ''ep_1'']) = ''endpoints'' # ''ep_1'' # []"
    by (simp add: sample_request_def)
  show "resource_project ''endpoints'' ''ep_1'' (st_world sample_state) = Some ''prj_1''" by code_simp
  have "bearerToken (Some (''Bearer '' @ ''usr_9'')) = Some ''usr_9''" by code_simp
  then show "caller_outside sample_app (sample_request ''usr_9'' ''DELETE'' [''endpoints'', ''ep_1'']) ''prj_1'' (st_world sample_state)"
    by (simp add: caller_outside_def caller_holds_def sample_api_defs)
qed









text \<open>C11. A target the guard lets through uses http or https, a port that is not blocked, and connects to the first resolved address; unless private addresses are allowed or the host is allowlisted, every address the name resolved to was classified public, the pinned one included.\<close>

theorem safe_target_is_public:
  assumes "resolveSafeTarget parseUrl isIP lookup allowPrivate allowlist blocked raw = Inr tgt"
  shows "\<exists>u as. parseUrl raw = Some u \<and> url_protocol u \<in> {''http:'', ''https:''} \<and>
    (\<forall>p \<in> set blocked. \<not> js_eq (tg_port tgt) p) \<and>
    as \<noteq> [] \<and> tg_address tgt = ad_address (hd as) \<and>
    (if isIP (tg_hostname tgt) \<noteq> 0 then map ad_address as = [tg_hostname tgt]
     else lookup (tg_hostname tgt) = Some as) \<and>
    (allowPrivate \<or> tg_hostname tgt \<in> set allowlist \<or>
     list_all (\<lambda>x. classifyAddress isIP (ad_address x) = Public) as)"
  using resolveSafeTarget_InrD[OF assms] by blast

theorem safe_target_is_public_witness:
  "\<exists>tgt. resolveSafeTarget (\<lambda>_. Some \<lparr>url_protocol = ''https:'', url_hostname = ''example.com'', url_port = []\<rparr>)
       (\<lambda>s. if CHR ''.'' \<in> set s \<and> hd s = CHR ''9'' then 4 else 0)
       (\<lambda>_. Some [\<lparr>ad_address = ''93.184.216.34'', ad_family = 4\<rparr>]) False [] [22] ''https://example.com'' = Inr tgt \<and>
     classifyIpv4 (tg_address tgt) = Public"
proof -
  let ?isIP = "\<lambda>s. if CHR ''.'' \<in> set s \<and> hd s = CHR ''9'' then 4 else 0"
  let ?run = "resolveSafeTarget (\<lambda>_. Some \<lparr>url_protocol = ''https:'', url_hostname = ''example.com'', url_port = []\<rparr>)
       ?isIP (\<lambda>_. Some [\<lparr>ad_address = ''93.184.216.34'', ad_family = 4\<rparr>]) False [] [22] ''https://example.com''"
  have run: "?run = Inr sample_target" by code_simp
  have "classifyIpv4 (tg_address sample_target) = Public"
    using safe_target_is_public[OF run] by (auto simp: sample_target_def) code_simp+
  then show ?thesis using run by blast
qed

text \<open>C12. The IPv4 classifier calls a dotted address public exactly when its 32-bit number lies outside the fourteen CIDR blocks of private, loopback, link-local, carrier-grade NAT, documentation, benchmarking, multicast and reserved addresses.\<close>

theorem ipv4_public_iff_outside_blocks:
  assumes "a < 256" "b < 256" "c < 256" "d < 256"
  shows "classifyIpv4 (dotted [a, b, c, d]) = Public \<longleftrightarrow>
    (\<forall>block \<in> set blocked_cidrs. \<not> in_cidr (ipv4_num a b c d) block)"
  using assms by (rule classifyIpv4_public_iff)

theorem ipv4_public_iff_outside_blocks_witness:
  "classifyIpv4 (dotted [169, 254, 169, 254]) = Public \<longleftrightarrow>
    (\<forall>block \<in> set blocked_cidrs. \<not> in_cidr (ipv4_num 169 254 169 254) block)"
  by (rule ipv4_public_iff_outside_blocks) simp_all

text \<open>C13. A subscription pattern matches an event type exactly when, split at the dots, they are equal, or the pattern ends in a star segment after at least one other, the other segments agree and the event type has exactly one non-empty segment in the star's place; a bare star matches nothing.\<close>

theorem subscription_compares_segments:
  "subscriptionMatches patterns eventType \<longleftrightarrow>
    (case patterns of None \<Rightarrow> True | Some ps \<Rightarrow> ps = [] \<or>
      list_ex (\<lambda>p. segments_match (split_on (CHR ''.'') p) (split_on (CHR ''.'') eventType)) ps)"
  by (cases patterns) (auto simp: subscriptionMatches_def patternMatches_segments)

text \<open>C14. The text a default idempotency key is the hash of identifies the request: for valid event types two requests give the same text exactly when they have the same event type, payloads that are equal up to the order of object keys, and the same set of endpoints.\<close>

theorem idempotency_key_identifies:
  assumes "num_ok num" "EVENT_TYPE_PATTERN t" "EVENT_TYPE_PATTERN t'"
  shows "key_material num t (JObj p) es = key_material num t' (JObj p') es' \<longleftrightarrow>
    t = t' \<and> norm_json (JObj p) = norm_json (JObj p') \<and> set es = set es'"
  using assms by (rule key_material_iff)

theorem idempotency_key_identifies_witness:
  "key_material sample_num ''order.paid'' (JObj [(''a'', JBool True), (''b'', JNull)]) [''ep_1'', ''ep_2''] =
     key_material sample_num ''order.paid'' (JObj [(''b'', JNull), (''a'', JBool True)]) [''ep_2'', ''ep_1''] \<longleftrightarrow>
   ''order.paid'' = ''order.paid'' \<and>
   norm_json (JObj [(''a'', JBool True), (''b'', JNull)]) = norm_json (JObj [(''b'', JNull), (''a'', JBool True)]) \<and>
   set [''ep_1'', ''ep_2''] = set [''ep_2'', ''ep_1'']"
  by (rule idempotency_key_identifies[OF num_ok_sample]) code_simp+



text \<open>C16. An accepted event becomes exactly one delivery per recipient, in order, pending for an active endpoint and skipped for a disabled one, with one first-attempt message per pending delivery; a rejected publish left either no trace or all the rows with a prefix of the messages.\<close>

theorem publish_fans_out:
  "wp (publishEvent pb projectId eventType payload ids key)
     (\<lambda>r w'. recipients w projectId eventType ids \<noteq> [] \<and>
        fanned_out pb (recipients w projectId eventType ids) w r (length (rc_deliveries r)) w')
     (\<lambda>_ w'. untouched w w' \<or> (\<exists>r k. fanned_out pb (recipients w projectId eventType ids) w r k w')) w"
  by (rule publishEvent_wp)



text \<open>C18. The worker settles every message exactly once and gives it back at most once: with the channel open, consuming a readable message appends one settlement for it and restores the in-flight count; a requeued message was not redelivered and its handling failed, an acknowledged one was handled as the contract says or had failed again after its redelivery.\<close>

theorem worker_settles:
  assumes "parse (wm_content m) = Inr (i, n)" "wk_open wk"
  shows "let wk' = consume hn parse (Some m) wk in
    wk_inFlight wk' = wk_inFlight wk \<and>
    (\<exists>x. wk_settled wk' = wk_settled wk @ [(m, x)] \<and>
      (case x of
         Requeued \<Rightarrow> \<not> wm_redelivered m \<and> crashed i n (wk_world wk) (wk_world wk')
       | Acked \<Rightarrow> (\<exists>oc. handled hn i n (wk_world wk) oc (wk_world wk')) \<or>
           (wm_redelivered m \<and> crashed i n (wk_world wk) (wk_world wk'))))"
proof -
  obtain r w' where h: "handle_message hn parse m (wk_world wk) = (r, w')" by fastforce
  have wp: "wp (handle_message hn parse m) (handled hn i n (wk_world wk)) (\<lambda>_. crashed i n (wk_world wk)) (wk_world wk)"
    by (rule handle_message_wp) (rule assms(1))
  show ?thesis
    using h assms(2) wp_InrD[OF wp] wp_InlD[OF wp] by (cases r) (auto simp: consume_Some Let_def)
qed

theorem worker_settles_witness:
  "let m = \<lparr>wm_content = ''{}'', wm_redelivered = True\<rparr>;
       wk = \<lparr>wk_inFlight = 0, wk_open = True, wk_settled = [], wk_world = sample_world PENDING []\<rparr>;
       wk' = consume (sample_deps 503) (\<lambda>_. Inr (sample_id, 1)) (Some m) wk in
    wk_inFlight wk' = wk_inFlight wk \<and>
    (\<exists>x. wk_settled wk' = wk_settled wk @ [(m, x)] \<and>
      (case x of
         Requeued \<Rightarrow> \<not> wm_redelivered m \<and> crashed sample_id 1 (wk_world wk) (wk_world wk')
       | Acked \<Rightarrow> (\<exists>oc. handled (sample_deps 503) sample_id 1 (wk_world wk) oc (wk_world wk')) \<or>
           (wm_redelivered m \<and> crashed sample_id 1 (wk_world wk) (wk_world wk'))))"
  unfolding Let_def by (rule worker_settles[unfolded Let_def]) simp_all

text \<open>C19. With the database and the broker answering, a sweep leaves no selected delivery behind: every row among the oldest batch that is in flight and older than the cutoff is back in RETRYING, and the message for its next attempt has been published.\<close>

theorem sweep_recovers_all:
  assumes "distinct (map d_id (deliveries w))" "faults w = []" "list_all well_formed_row (deliveries w)"
  shows "wp (runStuckSweep pb stuckMinutes b)
    (\<lambda>r w'. \<forall>d \<in> set (stuck_rows (stuckCutoff (time_read w) stuckMinutes) b w).
        again pb d \<in> set (published w') \<and> get_delivery w' (d_id d) = Some (claimed_row d))
    (\<lambda>_ _. False) w"
  using assms by (rule runStuckSweep_recovers)

theorem sweep_recovers_all_witness:
  "wp (runStuckSweep sample_publisher (- 15) 200)
    (\<lambda>r w'. \<forall>d \<in> set (stuck_rows (stuckCutoff (time_read (sample_world IN_FLIGHT [])) (- 15)) 200 (sample_world IN_FLIGHT [])).
        again sample_publisher d \<in> set (published w') \<and> get_delivery w' (d_id d) = Some (claimed_row d))
    (\<lambda>_ _. False) (sample_world IN_FLIGHT [])"
proof (rule sweep_recovers_all)
  show "list_all well_formed_row (deliveries (sample_world IN_FLIGHT []))" by code_simp
qed (simp_all add: sample_world_def)

text \<open>C20. The attempt log is exact: a normal return records exactly one attempt when something was sent or rejected and none when the delivery was unknown, finished, skipped or throttled; a rejected run records at most one; every new attempt and message belongs to this delivery and other deliveries keep their rows.\<close>

theorem handler_attempt_accounting:
  "wp (handleDelivery hn i n)
    (\<lambda>oc w'. length (attempts w') = length (attempts w) + (if is_attempt oc then 1 else 0) \<and> only_delivery i w w')
    (\<lambda>_ w'. length (attempts w') \<le> length (attempts w) + 1 \<and> only_delivery i w w') w"
proof (rule wp_mono[OF handleDelivery_wp])
  fix oc w'
  assume h: "handled hn i n w oc w'"
  then show "length (attempts w') = length (attempts w) + (if is_attempt oc then 1 else 0) \<and> only_delivery i w w'"
    using handled_attempts[OF h] by (simp add: handled_def)
next
  fix e w'
  assume c: "crashed i n w w'"
  then show "length (attempts w') \<le> length (attempts w) + 1 \<and> only_delivery i w w'"
    using crashed_attempts[OF c] by (simp add: crashed_def)
qed

text \<open>C21. One idempotency key is worked on at most once per window: over every sequence of the arrivals and answers of concurrent requests, at times that do not go back and with no reservation given up, two requests that are let through to publish are at least the window apart.\<close>

theorem idempotent_window:
  assumes "0 < ttl" "sorted (map op_time ops)" "list_all (\<lambda>op. \<not> is_release op) ops"
  shows "sorted_wrt (\<lambda>a b. a + 1000 * ttl \<le> b) (proceeds ttl ops None)"
  using assms by (rule proceeds_once)

theorem idempotent_window_witness:
  "sorted_wrt (\<lambda>a b. a + 1000 * 60 \<le> b)
     (proceeds 60 [Arrive 0, Arrive 1, Keep 5 202 JNull, Arrive 60004, Arrive 60005] None)"
  by (rule idempotent_window) (simp_all add: is_release_def)

text \<open>C22. No call of the dashboard's API client is sent more than twice, one made without credentials only once, and none waits forever: when no answer is outstanding and no refresh is on its way, every call has a result.\<close>

theorem calls_settle:
  assumes "i < length (cl_calls (client_run parse as_problem ops))"
  shows "sendings i (client_run parse as_problem ops) \<in> {1, 2} \<and>
    (op_auth (ca_options (cl_calls (client_run parse as_problem ops) ! i)) \<or> sendings i (client_run parse as_problem ops) = 1) \<and>
    (outstanding (client_run parse as_problem ops) = [] \<and> \<not> cl_rotating (client_run parse as_problem ops) \<longrightarrow>
       (\<exists>r. ca_phase (cl_calls (client_run parse as_problem ops) ! i) = Over r))"
  using at_most_two_sendings[OF assms] nobody_waits_forever[OF _ _ assms] by blast

theorem calls_settle_witness:
  "let cl = client_run (\<lambda>_. None) (\<lambda>_ :: unit. no_problem) [Request api_get, Ui_Api.Answer 0 (Unreachable ''down'')] in
    sendings 0 cl \<in> {1, 2} \<and> (op_auth (ca_options (cl_calls cl ! 0)) \<or> sendings 0 cl = 1) \<and>
    (outstanding cl = [] \<and> \<not> cl_rotating cl \<longrightarrow> (\<exists>r. ca_phase (cl_calls cl ! 0) = Over r))"
  unfolding Let_def
  by (rule calls_settle) (simp add: client_run_def client_init_def on_answer_def unauthorized_once_def set_phase_def)



text \<open>C24. With Redis up, a publish request leaves its idempotency key in one of two states whatever the database and the broker do: an accepted publish has stored its 202 answer for replays, and a failed one has released the key, so the client's retry is neither answered wrongly nor refused.\<close>

theorem publish_key_answered_or_free:
  assumes "redis_up s"
  shows "wp (publish_handler ad a b key k)
    (\<lambda>r s'. rs_status r = ACCEPTED \<and>
       (\<exists>x e. rs_body r = Accepted x \<and> rd_strings (st_redis s') k = Some (Redis_Store.Answer ACCEPTED (receipt_json x), e)))
    (\<lambda>e s'. rd_strings (st_redis s') k = None) s"
  using assms by (rule publish_handler_key)

theorem publish_key_answered_or_free_witness:
  "wp (publish_handler sample_app \<lparr>ka_apiKeyId = ''key_1'', ka_projectId = ''prj_1''\<rparr>
     \<lparr>xb_eventType = ''order.paid'', xb_payload = [], xb_endpointIds = None\<rparr> ''key'' ''idem:prj_1:key'')
    (\<lambda>r s'. rs_status r = ACCEPTED \<and>
       (\<exists>x e. rs_body r = Accepted x \<and> rd_strings (st_redis s') ''idem:prj_1:key'' = Some (Redis_Store.Answer ACCEPTED (receipt_json x), e)))
    (\<lambda>e s'. rd_strings (st_redis s') ''idem:prj_1:key'' = None) sample_state"
  by (rule publish_key_answered_or_free) code_simp

text \<open>C25. The retention job deletes events older than the cutoff and nothing else: what it deletes is a set of stale events with exactly their deliveries and attempts, it reports the number deleted, and when it stops before its limit of batches no stale event is left; a pass that fails has only deleted stale events too.\<close>

theorem retention_exact:
  assumes "distinct (map v_id (events w))" "0 < b"
  shows "wp (runRetention days b m)
    (\<lambda>r w'. rr_cutoff r = retentionCutoff (time_read w) days \<and>
       (\<exists>S. S \<subseteq> stale_ids (rr_cutoff r) w \<and> purged S w w') \<and>
       length (events w') + rr_deleted r = length (events w) \<and>
       (stale_ids (rr_cutoff r) w' = {} \<or> rr_deleted r = m * b))
    (\<lambda>_ w'. \<exists>c S. S \<subseteq> stale_ids c w \<and> purged S w w') w"
proof (rule wp_mono[OF wp_conj[OF runRetention_wp[OF assms] runRetention_cutoff]])
  fix r w'
  assume h: "(retained (rr_cutoff r) w (rr_deleted r) w' \<and> rr_batches r \<le> m \<and>
    (stale_ids (rr_cutoff r) w' = {} \<or> rr_deleted r = m * b)) \<and> rr_cutoff r = retentionCutoff (time_read w) days"
  then show "rr_cutoff r = retentionCutoff (time_read w) days \<and>
       (\<exists>S. S \<subseteq> stale_ids (rr_cutoff r) w \<and> purged S w w') \<and>
       length (events w') + rr_deleted r = length (events w) \<and>
       (stale_ids (rr_cutoff r) w' = {} \<or> rr_deleted r = m * b)"
    unfolding retained_def by blast
qed (unfold partly_retained_def, blast)

theorem retention_exact_witness:
  "wp (runRetention 30 500 20)
    (\<lambda>r w'. rr_cutoff r = retentionCutoff (time_read (sample_world FAILED_PERMANENTLY [])) 30 \<and>
       (\<exists>S. S \<subseteq> stale_ids (rr_cutoff r) (sample_world FAILED_PERMANENTLY []) \<and> purged S (sample_world FAILED_PERMANENTLY []) w') \<and>
       length (events w') + rr_deleted r = length (events (sample_world FAILED_PERMANENTLY [])) \<and>
       (stale_ids (rr_cutoff r) w' = {} \<or> rr_deleted r = 20 * 500))
    (\<lambda>_ w'. \<exists>c S. S \<subseteq> stale_ids c (sample_world FAILED_PERMANENTLY []) \<and> purged S (sample_world FAILED_PERMANENTLY []) w') (sample_world FAILED_PERMANENTLY [])"
  by (rule retention_exact) (simp_all add: sample_world_def)

text \<open>C26. A refresh token can be exchanged at most once: over every sequence of the guarded statements that concurrent refreshes, logouts and revocations run, the rotations of one token that report success, plus one if the token is still live at the end, never exceed one.\<close>

theorem refresh_token_once:
  assumes "distinct (map t_id (refreshTokens w))" "i \<in> t_id ` set (refreshTokens w)" "token_ops ops w = (cs, w')"
  shows "rotations i cs + live_tokens i w' \<le> 1"
  using token_ops_once[OF assms(3,2)] live_tokens_le_1[OF assms(1), of i] by linarith

theorem refresh_token_once_witness:
  "\<exists>cs w'. token_ops [Rotate ''rt'' 5, Rotate ''rt'' 6]
     (sample_api_world\<lparr>refreshTokens := [\<lparr>t_id = ''rt'', t_userId = ''usr_1'', t_tokenHash = ''h'', t_expiresAt = 9,
        t_revokedAt = None, t_createdAt = 0\<rparr>]\<rparr>) = (cs, w') \<and> rotations ''rt'' cs + live_tokens ''rt'' w' \<le> 1"
proof (rule exI, rule exI, rule conjI)
  let ?w = "sample_api_world\<lparr>refreshTokens := [\<lparr>t_id = ''rt'', t_userId = ''usr_1'', t_tokenHash = ''h'', t_expiresAt = 9,
        t_revokedAt = None, t_createdAt = 0\<rparr>]\<rparr>"
  show "token_ops [Rotate ''rt'' 5, Rotate ''rt'' 6] ?w = (fst (token_ops [Rotate ''rt'' 5, Rotate ''rt'' 6] ?w),
      snd (token_ops [Rotate ''rt'' 5, Rotate ''rt'' 6] ?w))" by simp
  show "rotations ''rt'' (fst (token_ops [Rotate ''rt'' 5, Rotate ''rt'' 6] ?w)) +
      live_tokens ''rt'' (snd (token_ops [Rotate ''rt'' 5, Rotate ''rt'' 6] ?w)) \<le> 1"
    by (rule refresh_token_once[where ops = "[Rotate ''rt'' 5, Rotate ''rt'' 6]" and w = ?w]) simp_all
qed



text \<open>C28. Through every run of the endpoints store a plaintext signing secret never stays in it, although creation and rotation answer with one, and no endpoint is listed twice.\<close>

theorem secrets_never_stored:
  assumes "store_ok s" "list_all api_answer ops"
  shows "list_all no_secret (en_items (foldl endpoints_step s ops)) \<and> distinct (map ei_id (en_items (foldl endpoints_step s ops)))"
  using store_ok_run[OF assms] by (simp add: store_ok_def)

theorem secrets_never_stored_witness:
  "let e = \<lparr>ei_view = endpointView sample_endpoint, ei_secret = Some ''whsec_1'', ei_previousSecretExpiresAt = None\<rparr>;
       s = \<lparr>en_items = [], en_loaded = None, en_gate = 0, en_list = createRequest\<rparr>;
       ops = [E_Created e, E_Rotated e, E_Marked ''ep_1'' 3] in
   list_all no_secret (en_items (foldl endpoints_step s ops)) \<and> distinct (map ei_id (en_items (foldl endpoints_step s ops)))"
  unfolding Let_def by (rule secrets_never_stored) (simp_all add: store_ok_def api_answer_def)



text \<open>C30. The navigation guard redirects at most once: where it redirects to is admitted.  A guest reaches only guest pages, and a signed-in user reaches a project's pages only with a membership in it.\<close>

theorem guard_never_loops:
  "(\<forall>l'. guard s l \<noteq> Redirect l' \<or> guard s l' = Admit) \<and>
   (guard s l \<noteq> Admit \<or> (if isAuthenticated s then \<not> guest_route (lo_name l) \<and> (\<forall>p. lo_projectId l \<noteq> Some p \<or> p = [] \<or> roleIn s p \<noteq> None)
      else guest_route (lo_name l)))"
  using guard_settles[of s l] guard_admits[of s l] by auto

theorem guard_never_loops_witness:
  "let l = \<lparr>lo_name = R_deliveries, lo_projectId = Some ''prj_1'', lo_fullPath = ''/projects/prj_1/deliveries'', lo_redirect = None\<rparr> in
   guard auth_init l = Redirect (Ui_Auth.login_route (lo_fullPath l)) \<and> guard auth_init (Ui_Auth.login_route (lo_fullPath l)) = Admit"
  (is "let l = ?l in _ l")
proof -
  have "guard auth_init ?l = Redirect (Ui_Auth.login_route (lo_fullPath ?l))"
    by (simp add: guard_def guest_route_def isAuthenticated_def auth_init_def)
  with guard_never_loops[of auth_init ?l] show ?thesis unfolding Let_def by blast
qed

text \<open>C31. In every run of the realtime store the status is other than offline only over a socket, only an expected connection has one, and once the watcher has seen the access token the socket's handshake carried exactly this token, provided no token is issued twice.\<close>

theorem socket_carries_current_token:
  assumes "distinct (concat (map tokens_of ops))"
  shows "socket_ok (realtime_run ops) \<and> carries_current (realtime_run ops)"
  using socket_ok_run carries_current_run[OF assms] by blast

theorem socket_carries_current_token_witness:
  "let ops = [R_Token (Some ''a''), R_Watch, R_Connect, R_Socket 0 S_Connect, R_Socket 0 S_Token_Expired, R_Refresh_Ended (Some ''b''), R_Watch] in
   socket_ok (realtime_run ops) \<and> carries_current (realtime_run ops)"
  unfolding Let_def by (rule socket_carries_current_token) (simp add: tokens_of_def)



text \<open>C33. A shell reading the curl command a page offers for copying gets exactly the URL, the headers and the body it was built from, whatever characters they contain.\<close>

theorem curl_reads_back:
  "shell_words False None (buildCurl url headers body) = Some ([''curl'', ''-X'', ''POST'', url] @ option_words headers body)"
  by (rule shell_reads_buildCurl)



text \<open>C35. For a clock that does not go back, the bucket lets through at most its capacity plus the refill of the elapsed time: from the first call on, the allowed calls number at most rate + rate * elapsed / 60000, and the five-minute expiry of the key does not change that.\<close>

theorem token_bucket_bound:
  assumes "1 \<le> rate" "sorted (t # ts)"
  shows "of_nat (fst (takes TTL_MS rate (t # ts) None)) \<le> rate + rate * of_int (last (t # ts) - t) / 60000"
  by (rule takes_bound[OF assms]) (rule prod.collapse[symmetric])

theorem token_bucket_bound_witness:
  "of_nat (fst (takes TTL_MS 2 [0, 10, 20, 400000] None)) \<le> (2::rat) + 2 * of_int (last [0, 10, 20, 400000] - 0) / 60000"
  by (rule token_bucket_bound) simp_all




text \<open>C38. Whatever delay a receiver asks for, the retry level is the smallest one of the schedule that is neither below the scheduled delay nor below the request, and the last level when the request exceeds them all.\<close>

theorem retry_level_spec:
  assumes "selectRetryLevel attempt maxAttempts RETRY_SCHEDULE ra = Some l"
  shows "if \<exists>l'\<in>set RETRY_SCHEDULE. wantedMs attempt RETRY_SCHEDULE ra \<le> of_int (rl_delayMs l')
         then wantedMs attempt RETRY_SCHEDULE ra \<le> of_int (rl_delayMs l) \<and>
              (\<forall>l'\<in>set RETRY_SCHEDULE. wantedMs attempt RETRY_SCHEDULE ra \<le> of_int (rl_delayMs l') \<longrightarrow>
                 rl_delayMs l \<le> rl_delayMs l')
         else l = last RETRY_SCHEDULE"
  using ascending_RETRY_SCHEDULE assms by (rule selectRetryLevel_spec)

theorem retry_level_spec_witness:
  "let l = \<lparr>rl_level = ''30m'', rl_delayMs = 1800000\<rparr> in
   if \<exists>l'\<in>set RETRY_SCHEDULE. wantedMs 1 RETRY_SCHEDULE (Some 400) \<le> of_int (rl_delayMs l')
   then wantedMs 1 RETRY_SCHEDULE (Some 400) \<le> of_int (rl_delayMs l) \<and>
        (\<forall>l'\<in>set RETRY_SCHEDULE. wantedMs 1 RETRY_SCHEDULE (Some 400) \<le> of_int (rl_delayMs l') \<longrightarrow>
           rl_delayMs l \<le> rl_delayMs l')
   else l = last RETRY_SCHEDULE"
  unfolding Let_def by (rule retry_level_spec[where maxAttempts = 6]) code_simp

text \<open>C39. However workers interleave counting failures, resetting the counter and checking the threshold on one endpoint, the guarded updates that disable it report in total no more rows than were active at the start, so an active endpoint is announced as disabled at most once.\<close>

theorem endpoint_disabled_announced_once:
  "case endpoint_ops k threshold ops w of
     (cs, w') \<Rightarrow> sum_list cs + active_rows k w' = active_rows k w"
  using endpoint_ops_announce[of k threshold ops w] by (simp split: prod.split)



section \<open>Further theorems\<close>

text \<open>A finished delivery stays finished: a message for a row in a terminal status changes no table and publishes nothing, even when calls fail.\<close>

theorem handler_terminal_absorbing:
  assumes "get_delivery w i = Some d" "terminal (d_status d)"
  shows "same_rows w (snd (handleDelivery hn i n w))"
  using assms by (rule handleDelivery_terminal)

theorem handler_terminal_absorbing_witness:
  "same_rows (sample_world SUCCEEDED [])
     (snd (handleDelivery (sample_deps 503) sample_id 1 (sample_world SUCCEEDED [])))"
proof (rule handler_terminal_absorbing)
  show "get_delivery (sample_world SUCCEEDED []) sample_id = Some (sample_delivery SUCCEEDED)" by code_simp
  show "terminal (d_status (sample_delivery SUCCEEDED))" by code_simp
qed

text \<open>A configuration that parseEnv accepts never cuts the ladder short: for every attempt below MAX_ATTEMPTS a retryable failure finds a retry level, whatever Retry-After says.\<close>

theorem valid_config_never_lacks_a_level:
  assumes "parseEnv field_parse source = Inr env" "1 \<le> attempt" "attempt < cf_MAX_ATTEMPTS env"
  shows "\<exists>l. selectRetryLevel attempt (cf_MAX_ATTEMPTS env) RETRY_SCHEDULE ra = Some l"
  using assms by (intro valid_config_levels) (simp_all add: parseEnv_Inr)

theorem valid_config_never_lacks_a_level_witness:
  "\<exists>l. selectRetryLevel 5 (cf_MAX_ATTEMPTS sample_config) RETRY_SCHEDULE None = Some l"
proof (rule valid_config_never_lacks_a_level)
  show "parseEnv (\<lambda>_. Inr sample_config) () = Inr sample_config" by code_simp
qed code_simp+

text \<open>Jitter only shortens a delay, and by at most a tenth up to rounding: for a random value in [0, 1) the expiration of a retry message is at most the level's delay, which the queue's TTL would cap anyway, and at least nine tenths of it less half a millisecond.\<close>

theorem jitter_bounds:
  assumes "0 \<le> d" "0 \<le> r" "r < 1"
  shows "applyJitter d r \<le> d \<and> 9 * d \<le> 10 * applyJitter d r + 5"
  using applyJitter_bounds[OF assms] by blast

theorem jitter_bounds_witness:
  "applyJitter 60000 (1 / 2) \<le> 60000 \<and> 9 * 60000 \<le> 10 * applyJitter 60000 (1 / 2) + 5"
  by (rule jitter_bounds) simp_all

text \<open>An IPv4 address written as an IPv4-mapped IPv6 address is classified as that IPv4 address, both in dotted form and in the hexadecimal form the URL parser normalises it to, so the mapping cannot smuggle a private address past the guard.\<close>

theorem ipv4_mapped_no_escape:
  assumes "a < 256" "b < 256" "c < 256" "d < 256"
  shows "classifyIpv6 (''::ffff:'' @ dotted [a, b, c, d]) = classifyIpv4 (dotted [a, b, c, d]) \<and>
    classifyIpv6 (''::ffff:'' @ hex (a * 256 + b) @ '':'' @ hex (c * 256 + d)) = classifyIpv4 (dotted [a, b, c, d])"
  using classifyIpv6_mapped_forms[OF assms] by blast

theorem ipv4_mapped_no_escape_witness:
  "classifyIpv6 (''::ffff:'' @ dotted [127, 0, 0, 1]) = classifyIpv4 (dotted [127, 0, 0, 1]) \<and>
   classifyIpv6 (''::ffff:'' @ hex (127 * 256 + 0) @ '':'' @ hex (0 * 256 + 1)) = classifyIpv4 (dotted [127, 0, 0, 1])"
  by (rule ipv4_mapped_no_escape) simp_all

text \<open>Two payloads get the same canonical text, hence the same idempotency key, exactly when they are the same value up to the order of object keys and the treatment of undefined, for any number formatting that is injective and unambiguous.\<close>

theorem canonical_json_identifies:
  assumes "num_ok num"
  shows "canonicalJson num v = canonicalJson num v' \<longleftrightarrow> norm_json v = norm_json v'"
  using assms by (rule canonicalJson_eq_iff)

theorem canonical_json_identifies_witness:
  "canonicalJson sample_num (JObj [(''b'', JNull), (''a'', JNum 1)]) =
     canonicalJson sample_num (JObj [(''a'', JNum 1), (''b'', JNull)]) \<longleftrightarrow>
   norm_json (JObj [(''b'', JNull), (''a'', JNum 1)]) = norm_json (JObj [(''a'', JNum 1), (''b'', JNull)])"
  by (rule canonical_json_identifies[OF num_ok_sample])

text \<open>Every receiver whose secret is among those the header was built with accepts the delivery within the timestamp tolerance, and during a rotation that includes the holder of the previous secret, provided the digest is hexadecimal as HMAC-SHA256's is.\<close>

theorem signature_verifies:
  assumes "\<And>s data. hex_digest (hmac s data)" "secret \<in> set secrets" "secret \<noteq> []"
    and "0 \<le> timestamp" "\<bar>nowSeconds - timestamp\<bar> \<le> tolerance"
  shows "verifySignature hmac (Some (buildSignatureHeader hmac secrets (int_str timestamp) body)) secret
           (int_str timestamp) body tolerance nowSeconds = Valid"
  using assms by (rule verify_built)

theorem signature_verifies_witness:
  "verifySignature (\<lambda>_ _. ''00ff'') (Some (buildSignatureHeader (\<lambda>_ _. ''00ff'') [''new'', ''old''] (int_str 1700) ''{}''))
     ''old'' (int_str 1700) ''{}'' 300 1800 = Valid"
proof (rule signature_verifies)
  show "hex_digest ''00ff''" by code_simp
qed simp_all

text \<open>During a secret rotation the worker signs with the previous secret as well exactly until the deadline the API announces: with both secrets decryptable, the active secrets are the new one and, strictly before the deadline and only if there was a rotation, the previous one.\<close>

theorem rotation_window_exact:
  assumes "decrypt (e_secret ep) = Inr s" "e_previousSecret ep = Some previous" "previous \<noteq> []"
    "decrypt previous = Inr p" "e_secretRotatedAt ep = Some rotatedAt"
  shows "activeSecrets decrypt ep graceHours t =
    Inr (if t < previousSecretExpiresAt rotatedAt graceHours then [s, p] else [s])"
  using assms by (simp add: activeSecrets_def)

theorem rotation_window_exact_witness:
  "activeSecrets Inr (sample_endpoint\<lparr>e_previousSecret := Some ''p'', e_secretRotatedAt := Some 0\<rparr>) 24 86399999 =
     Inr (if (86399999::int) < previousSecretExpiresAt 0 24 then [''s'', ''p''] else [''s''])"
  by (rule rotation_window_exact) (simp_all add: sample_endpoint_def)

text \<open>A stored endpoint secret decrypts to itself: for an authenticated cipher that opens what it sealed, decrypting the versioned, dot-separated encoding gives the plaintext back whenever the IV, the tag and the ciphertext are non-empty.\<close>

theorem secret_round_trip:
  assumes "seal iv p = (c, t)" "unseal iv t c = Inr p" "iv \<noteq> []" "t \<noteq> []" "c \<noteq> []"
  shows "decryptSecret unseal (encryptSecret seal iv p) = Inr p"
  using decrypt_encrypt_general[of seal iv p c t unseal] assms by simp

theorem secret_round_trip_witness:
  "decryptSecret (\<lambda>iv t c. if t = ''tag'' then Inr (rev c) else Inl (type_error ''bad tag''))
     (encryptSecret (\<lambda>iv p. (rev p, ''tag'')) ''iv'' ''whsec_abc'') = Inr ''whsec_abc''"
  by (rule secret_round_trip[where c = "rev ''whsec_abc''" and t = "''tag''"]) simp_all

text \<open>The bound needs a clock that does not go back: the script stores the caller's clock even when it is behind the stored one, so two workers whose clocks differ by a fixed skew worth at least one token, asking in turn, are let through at least once per turn for ever, however little time really passes.\<close>

theorem token_bucket_skew_overruns:
  assumes "1 \<le> rate" "60000 \<le> of_int skew * rate" "0 < skew" "skew < TTL_MS"
  shows "n \<le> fst (takes TTL_MS rate (concat (replicate n [t, t + skew])) None)"
  using takes_skewed[OF assms, of None n t] by simp

theorem token_bucket_skew_overruns_witness:
  "1000 \<le> fst (takes TTL_MS 600 (concat (replicate 1000 [0, 0 + 100])) None)"
  by (rule token_bucket_skew_overruns) (simp_all add: TTL_MS_def)

text \<open>One key claims at most one alert per suppression window: for claims at times that do not go back, any two granted ones are at least the window apart.\<close>

theorem alert_once_per_window:
  assumes "sorted ts"
  shows "sorted_wrt (\<lambda>a b. a + seconds * 1000 \<le> b) (granted (suppressionKey p r s) seconds ts w)"
  using assms by (rule granted_spaced)

theorem alert_once_per_window_witness:
  "sorted_wrt (\<lambda>a b. a + 3600 * 1000 \<le> b)
     (granted (suppressionKey ''p'' ''r'' ''s'') 3600 [0, 5, 3600000, 3600001] (sample_world PENDING []))"
  by (rule alert_once_per_window) simp

text \<open>Alerts and realtime messages cannot take a delivery down: whatever fails in them, notify, notifyConfiguredProjects and emit return normally and leave every table and the broker's messages as they were.\<close>

theorem side_channels_never_reject:
  "keeps same_rows (notify al p r s d) \<and> no_raise (notify al p r s d) \<and>
   keeps same_rows (notifyConfiguredProjects al r s d) \<and> no_raise (notifyConfiguredProjects al r s d) \<and>
   keeps same_rows (emit p ev) \<and> no_raise (emit p ev)"
  by (intro conjI notify_side notifyConfiguredProjects_side emit_side)

text \<open>What is stored of a response body is its first bytes: when the read succeeds, the snippet is the decoding of the body's first limit bytes, however the body was cut into chunks, and a body that breaks off is an error only if it does so before the limit.\<close>

theorem snippet_is_bounded_prefix:
  "(case readSnippet utf8 rp limit of
      Inr s \<Rightarrow> s = utf8 (take limit (concat (rp_chunks rp)))
    | Inl e \<Rightarrow> rp_abort rp = Some e \<and> (length (concat (rp_chunks rp)) < limit \<or> rp_chunks rp = []))"
  using read_chunks_outcome[where sz = 0 and cs = "[]" and limit = limit and body = "rp_chunks rp" and abort = "rp_abort rp"]
  by (auto simp: readSnippet_def split: sum.splits)

text \<open>A generated id is recognised as its own kind and as no other, for every kind of the table and every suffix of 24 lower-case alphanumeric characters.\<close>

theorem ids_do_not_cross_kinds:
  assumes "newId suffix kind = Inr v" "valid_suffix suffix"
  shows "isId kind v = Inr True \<and> (\<forall>kind'. isId kind' v = Inr True \<longleftrightarrow> kind' = kind)"
  using isId_newId[OF assms] isId_kind_unique by blast

theorem ids_do_not_cross_kinds_witness:
  "isId ''delivery'' sample_id = Inr True \<and> (\<forall>kind'. isId kind' sample_id = Inr True \<longleftrightarrow> kind' = ''delivery'')"
  by (rule ids_do_not_cross_kinds[of sample_suffix]) code_simp+

text \<open>Authorisation hides what a caller may not know: a project the caller is no member of is answered with 404, a member without the owner role asking for an owner's action with 403, and a membership is returned only for that project with a sufficient role.\<close>

theorem membership_404_then_403:
  "(case assertMembership ms p r of
      Inr m \<Rightarrow> membershipFor ms p = Some m \<and> (r = MEMBER \<or> am_role m = OWNER)
    | Inl (App e) \<Rightarrow> (if membershipFor ms p = None then ae_status e = 404
                      else ae_status e = 403 \<and> r = OWNER)
    | Inl (JsError _ _ _) \<Rightarrow> False)"
  by (cases "membershipFor ms p"; cases r)
     (auto simp: assertMembership_def app_error_defs split: role.split)

text \<open>An error that is not one of the program's own is rendered as a bare 500 problem without a detail, except the two body-parser failures, which become 413 and 400; the status of the response is always the status in the problem document.\<close>

theorem errors_never_leak:
  "(case e of
      App a \<Rightarrow> pr_status (toProblem (normalise e) inst rid) = ae_status a
    | JsError c t m \<Rightarrow>
        pr_status (toProblem (normalise e) inst rid) =
          (if t = Some ''entity.too.large'' then 413 else if t = Some ''entity.parse.failed'' then 400 else 500) \<and>
        (t \<in> {Some ''entity.too.large'', Some ''entity.parse.failed''} \<or>
         pr_detail (toProblem (normalise e) inst rid) = None))"
  by (cases e) (auto simp: normalise_def toProblem_def app_error_defs)

text \<open>Connecting to the broker ends: connectWithRetry makes at most the configured number of attempts, sleeps fewer times than that, and no sleep exceeds the maximum delay.\<close>

theorem connect_backoff_bounded:
  assumes "0 \<le> baseDelayMs" "0 \<le> maxDelayMs"
  shows "list_all (\<lambda>d. 0 \<le> d \<and> d \<le> maxDelayMs) (snd (connectWithRetry f tries baseDelayMs maxDelayMs)) \<and>
    length (snd (connectWithRetry f tries baseDelayMs maxDelayMs)) \<le> tries - 1"
  using connect_loop_delays[OF assms, of "[]" f tries 1 None]
  by (cases "connectWithRetry f tries baseDelayMs maxDelayMs") (auto simp: connectWithRetry_def list_all_iff)

theorem connect_backoff_bounded_witness:
  "list_all (\<lambda>d. 0 \<le> d \<and> d \<le> 1000) (snd (connectWithRetry (\<lambda>n. if n < 4 then Inl () else Inr ()) 10 500 1000)) \<and>
    length (snd (connectWithRetry (\<lambda>n. if n < 4 then Inl () else Inr ()) 10 500 1000)) \<le> 10 - 1"
  by (rule connect_backoff_bounded) simp_all

text \<open>No job overlaps itself: in every reachable state of the schedule runner the running passes are of distinct jobs, a job has a pass running exactly when it is marked in progress, and it has started exactly that one pass more than it has finished.\<close>

theorem no_overlapping_passes:
  assumes "runner_reachable r"
  shows "distinct (rn_active r) \<and> (\<forall>j < length (rn_jobs r).
    (j \<in> set (rn_active r) \<longleftrightarrow> jb_inProgress (rn_jobs r ! j)) \<and>
    jb_started (rn_jobs r ! j) = jb_finished (rn_jobs r ! j) + (if jb_inProgress (rn_jobs r ! j) then 1 else 0))"
  using runner_reachable_ok[OF assms] by (simp add: runner_ok_def job_ok_def)

theorem no_overlapping_passes_witness:
  "let r = tick 0 (tick 0 (every ''sweep'' 300000 False createScheduleRunner)) in
   distinct (rn_active r) \<and> (\<forall>j < length (rn_jobs r).
    (j \<in> set (rn_active r) \<longleftrightarrow> jb_inProgress (rn_jobs r ! j)) \<and>
    jb_started (rn_jobs r ! j) = jb_finished (rn_jobs r ! j) + (if jb_inProgress (rn_jobs r ! j) then 1 else 0))"
  unfolding Let_def
proof (rule no_overlapping_passes)
  let ?r = "every ''sweep'' 300000 False createScheduleRunner"
  have "runner_reachable ?r" by (intro runner_reachable.step[OF runner_reachable.initial] runner_step.added)
  moreover have "0 \<in> set (rn_handles ?r)" "0 \<in> set (rn_handles (tick 0 ?r))" by code_simp+
  ultimately show "runner_reachable (tick 0 (tick 0 ?r))"
    by (blast intro: runner_reachable.step runner_step.timer)
qed

text \<open>The realtime bridge emits at most the configured number of messages per project and second, whatever messages arrive for whichever projects, as long as the clock does not go back.\<close>

theorem socket_budget:
  assumes "1 \<le> limit" "sorted (map snd ms)"
  shows "emitted_in p s (allowed_run limit ms Map.empty) \<le> limit"
  using assms by (rule throttle_budget)

theorem socket_budget_witness:
  "emitted_in ''prj_1'' 0 (allowed_run 2 [(''prj_1'', 1), (''prj_2'', 1), (''prj_1'', 2), (''prj_1'', 3), (''prj_1'', 1000)] Map.empty) \<le> 2"
  by (rule socket_budget) simp_all

text \<open>The metrics drop nothing: the deliveries gauge has for every status exactly the number of rows in it, zero included, and the attempts counter adds up to the number of attempts recorded, however the statuses fall into classes.\<close>

theorem metrics_exact:
  "map_of (status_counts (group_counts d_status (deliveries w))) st =
     Some (length (filter (\<lambda>d. d_status d = st) (deliveries w))) \<and>
   total (attempt_counts (group_counts a_responseStatus (attempts w))) = length (attempts w)"
  by (intro conjI status_counts_exact attempts_counted)

text \<open>Two handlers of one message can undo a success: the update to IN_FLIGHT does not look at the row's status, so a worker that loaded the row before another one delivered it still rewrites the finished row and schedules a retry.\<close>

theorem late_duplicate_revives:
  "let w = sample_world PENDING []; w1 = snd (handleDelivery (sample_deps 200) sample_id 1 w) in
   (case load_delivery sample_id w of
      None \<Rightarrow> False
    | Some (d, ev, ep) \<Rightarrow>
        (let w2 = snd (handle_loaded (sample_deps 503) d ev ep 1 w1) in
         map d_status (deliveries w1) = [SUCCEEDED] \<and> map d_status (deliveries w2) = [RETRYING] \<and>
         length (published w2) = 1))"
  by code_simp

text \<open>Shutting down happens once and is decided once: over every sequence of signals, timer and outcome of closing, resources are closed once after the first signal and never without one, and the exit code is that of the first event after it which is not a signal.\<close>

theorem shutdown_decided:
  "sd_exit (foldl shutdown_step onShutdown es) = decided es \<and>
   sd_closeCalls (foldl shutdown_step onShutdown es) = (if list_ex is_signal es then 1 else 0)"
  by (rule shutdown_run)

text \<open>A filter of a list reads back from the address as it was last set, an empty one as absent; the filters not set keep their values, and clearing leaves none.\<close>

theorem filters_read_back:
  "map_of (filters_of ks (update_query ks d patch q)) k =
    (case last_set patch k of None \<Rightarrow> map_of (filters_of ks q) k
     | Some v \<Rightarrow> if k \<in> set ks then (case v of None \<Rightarrow> None | Some x \<Rightarrow> if x = [] then None else Some x) else None) \<and>
   \<not> hasFilters ks (clear_query ks d q)"
  using filters_of_update clear_has_no_filters by blast

text \<open>The seed script is idempotent: after a run that ends, another run leaves every table as it is, whatever call of it fails, and makes no second API key.\<close>

theorem seeding_twice_changes_nothing:
  assumes "seed sd w = (Inr r, w1)"
  shows "seeded w1 \<and> same_tables w1 (snd (seed sd w1)) \<and> (\<forall>plaintext. fst (seed sd w1) \<noteq> Inr (Some plaintext))"
  using seed_twice[OF assms] seed_wp[of sd w] assms by (auto simp: wp_def)

theorem seeding_twice_changes_nothing_witness:
  "let sd = \<lparr>sd_secret = Some ''whsec_demo'', sd_hashPassword = (\<lambda>_ p. p), sd_seal = (\<lambda>_ s. (s, s)), sd_sha256Hex = (\<lambda>s. s)\<rparr>;
       w1 = snd (seed sd (sample_world SUCCEEDED [])) in
   seeded w1 \<and> same_tables w1 (snd (seed sd w1)) \<and> (\<forall>plaintext. fst (seed sd w1) \<noteq> Inr (Some plaintext))"
  unfolding Let_def
proof (rule seeding_twice_changes_nothing)
  let ?sd = "\<lparr>sd_secret = Some ''whsec_demo'', sd_hashPassword = (\<lambda>_ p. p), sd_seal = (\<lambda>_ s. (s, s)), sd_sha256Hex = (\<lambda>s. s)\<rparr>"
  have "\<not> isl (fst (seed ?sd (sample_world SUCCEEDED [])))" by code_simp
  then have "fst (seed ?sd (sample_world SUCCEEDED [])) = Inr (projr (fst (seed ?sd (sample_world SUCCEEDED []))))" by simp
  then show "seed ?sd (sample_world SUCCEEDED []) =
    (Inr (projr (fst (seed ?sd (sample_world SUCCEEDED [])))), snd (seed ?sd (sample_world SUCCEEDED [])))"
    by (metis prod.collapse)
qed

text \<open>Without --force the reset of the queues discards no message: if nobody publishes meanwhile, a queue that holds messages keeps them, whatever inspection fails and wherever the channel breaks off; and a reset that ends has declared every queue of the topology.\<close>

theorem reset_keeps_messages:
  assumes "\<not> rn_force env" "rn_arrivals env = (\<lambda>_. 0)"
  shows "(\<forall>q n. bk_queues b q \<noteq> Some n \<or> n = 0 \<or> bk_queues (snd (queue_reset env t b)) q = Some n) \<and>
    (fst (queue_reset env t b) \<noteq> Inr () \<or> (\<forall>q \<in> set (allQueueNames t). bk_queues (snd (queue_reset env t b)) q \<noteq> None))"
  using reset_discards_nothing[OF assms, of b _ _ t] reset_declares[of env t b "snd (queue_reset env t b)"] by (metis gr0I prod.collapse)

theorem reset_keeps_messages_witness:
  "let env = \<lparr>rn_production = False, rn_force = False, rn_unreadable = {''webhook.dlq''}, rn_arrivals = (\<lambda>_. 0), rn_channels = None, rn_calls = None, rn_failure = ''channel closed''\<rparr>;
       b = \<lparr>bk_queues = (\<lambda>q. if q = ''webhook.dlq'' then Some 3 else None), bk_exchanges = {}\<rparr> in
   (\<forall>q n. bk_queues b q \<noteq> Some n \<or> n = 0 \<or> bk_queues (snd (queue_reset env default_topology b)) q = Some n) \<and>
    (fst (queue_reset env default_topology b) \<noteq> Inr () \<or>
     (\<forall>q \<in> set (allQueueNames default_topology). bk_queues (snd (queue_reset env default_topology b)) q \<noteq> None))"
  unfolding Let_def by (rule reset_keeps_messages) simp_all

end
